(* ===== verification/Pd_Prelude.thy ===== *)
theory Pd_Prelude
  imports Main "HOL-Library.Monad_Syntax" "HOL-Library.Word" "HOL-Library.Multiset"
begin

text \<open>
  What every other theory of the development shares: the reading of C's undefined
  behaviour as \<open>None\<close> of the \<open>option\<close> monad, addresses, C arrays with a
  capacity, and the three array loops of the library (linear search, shift-left removal
  and swap-with-last removal) with the list functions they implement.

  A C function that takes a state and may have undefined behaviour is a HOL function into
  \<open>(result \<times> state) option\<close>: \<open>None\<close> is reached when the code reads or writes an
  object that is not allocated, reads an uninitialised or out-of-range cell, frees twice,
  overflows a signed integer or relocks a mutex it already holds.
\<close>

section \<open>Collections of facts\<close>

named_theorems pd_frame \<open>what an operation leaves unchanged\<close>
named_theorems pd_io \<open>definitions of the input/output wrappers\<close>

lemmas bind_Some_iff = Option.bind_eq_Some_conv

lemma Some_bind_iff: "(\<exists>y. Option.bind m f = Some y) \<longleftrightarrow> (\<exists>x y. m = Some x \<and> f x = Some y)"
  by (cases m) auto

section \<open>Addresses\<close>

text \<open>An object of the heap is named by its address; 0 is the null pointer.\<close>

type_synonym addr = nat

abbreviation (input) NULL :: addr where "NULL \<equiv> 0"

section \<open>C arrays\<close>

text \<open>
  An array of \<open>n\<close> cells is a list of length \<open>n\<close>; a cell that was never written is
  \<open>None\<close>. Reading such a cell, or one out of range, has no defined result.
\<close>

type_synonym 'a c_array = "'a option list"

definition arr_new :: "nat \<Rightarrow> 'a c_array" where
  "arr_new n = replicate n None"

definition arr_get :: "'a c_array \<Rightarrow> nat \<Rightarrow> 'a option" where
  "arr_get a i = (if i < length a then a ! i else None)"

definition arr_set :: "'a c_array \<Rightarrow> nat \<Rightarrow> 'a \<Rightarrow> 'a c_array option" where
  "arr_set a i x = (if i < length a then Some (a[i := Some x]) else None)"

text \<open>\<open>realloc\<close> to \<open>n\<close> cells keeps the common prefix and leaves the rest unwritten.\<close>

definition arr_realloc :: "'a c_array \<Rightarrow> nat \<Rightarrow> 'a c_array" where
  "arr_realloc a n = take n a @ replicate (n - length a) None"

text \<open>The first \<open>length xs\<close> cells are written and hold \<open>xs\<close>.\<close>

definition arr_holds :: "'a c_array \<Rightarrow> 'a list \<Rightarrow> bool" where
  "arr_holds a xs \<longleftrightarrow> take (length xs) a = map Some xs"

definition arr_list :: "'a c_array \<Rightarrow> nat \<Rightarrow> 'a list" where
  "arr_list a n = map the (take n a)"

lemma length_arr_new [simp]: "length (arr_new n) = n"
  by (simp add: arr_new_def)

lemma length_arr_realloc [simp]: "length a \<le> n \<Longrightarrow> length (arr_realloc a n) = n"
  by (simp add: arr_realloc_def)

lemma length_arr_set: "arr_set a i x = Some a' \<Longrightarrow> length a' = length a"
  by (auto simp: arr_set_def split: if_splits)

lemma arr_holds_Nil [simp]: "arr_holds a []"
  by (simp add: arr_holds_def)

lemma arr_holds_le: "arr_holds a xs \<Longrightarrow> length xs \<le> length a"
  by (metis arr_holds_def length_map length_take min.absorb_iff2 min.commute)

lemma arr_holds_nth: "arr_holds a xs \<Longrightarrow> i < length xs \<Longrightarrow> a ! i = Some (xs ! i)"
  by (metis arr_holds_def nth_map nth_take)

lemma arr_holdsI:
  assumes "length xs \<le> length a" and "\<And>i. i < length xs \<Longrightarrow> a ! i = Some (xs ! i)"
  shows "arr_holds a xs"
  unfolding arr_holds_def using assms by (intro nth_equalityI) auto

lemma arr_holds_get: "arr_holds a xs \<Longrightarrow> i < length xs \<Longrightarrow> arr_get a i = Some (xs ! i)"
  using arr_holds_le [of a xs] by (simp add: arr_get_def arr_holds_nth)

lemma arr_holds_list: "arr_holds a xs \<Longrightarrow> arr_list a (length xs) = xs"
  by (simp add: arr_holds_def arr_list_def comp_def)

lemma arr_holds_realloc: "arr_holds a xs \<Longrightarrow> length a \<le> n \<Longrightarrow> arr_holds (arr_realloc a n) xs"
  using arr_holds_le [of a xs] by (simp add: arr_holds_def arr_realloc_def)

lemma arr_set_Some [simp]: "i < length a \<Longrightarrow> arr_set a i x = Some (a[i := Some x])"
  by (simp add: arr_set_def)

lemma arr_holds_update: "arr_holds a xs \<Longrightarrow> i < length xs \<Longrightarrow> arr_holds (a[i := Some x]) (xs[i := x])"
  using arr_holds_le [of a xs]
  by (intro arr_holdsI) (auto simp: nth_list_update arr_holds_nth)

lemma arr_holds_snoc:
  "arr_holds a xs \<Longrightarrow> length xs < length a \<Longrightarrow> arr_holds (a[length xs := Some x]) (xs @ [x])"
  by (intro arr_holdsI) (auto simp: nth_list_update nth_append arr_holds_nth less_Suc_eq)

lemma arr_holds_butlast: "arr_holds a xs \<Longrightarrow> arr_holds a (butlast xs)"
  using arr_holds_le [of a xs] by (intro arr_holdsI) (auto simp: nth_butlast arr_holds_nth)

section \<open>The array loops\<close>

subsection \<open>Linear search\<close>

text \<open>\<open>for (i = 0; i < n; i++) if (p(a[i])) break;\<close> with the index found, if any.\<close>

function arr_find :: "('a \<Rightarrow> bool) \<Rightarrow> 'a c_array \<Rightarrow> nat \<Rightarrow> nat \<Rightarrow> nat option option" where
  "arr_find p a i n =
     (if i < n
      then do { x \<leftarrow> arr_get a i; if p x then Some (Some i) else arr_find p a (Suc i) n }
      else Some None)"
  by pat_completeness auto
termination
  by (relation "measure (\<lambda>(p, a, i, n). n - i)") auto

declare arr_find.simps [simp del]

text \<open>The index of the first element of a list that satisfies \<open>p\<close>.\<close>

fun first_index :: "('a \<Rightarrow> bool) \<Rightarrow> 'a list \<Rightarrow> nat option" where
  "first_index p [] = None"
| "first_index p (x # xs) = (if p x then Some 0 else map_option Suc (first_index p xs))"

lemma first_index_Some:
  "first_index p xs = Some i \<Longrightarrow> i < length xs \<and> p (xs ! i) \<and> (\<forall>j<i. \<not> p (xs ! j))"
  by (induction xs arbitrary: i) (auto split: if_splits simp: less_Suc_eq_0_disj)

lemma first_index_None: "first_index p xs = None \<longleftrightarrow> (\<forall>x\<in>set xs. \<not> p x)"
  by (induction xs) auto

lemma arr_find_drop:
  assumes "arr_holds a xs" and "i \<le> length xs"
  shows "arr_find p a i (length xs) = Some (map_option (\<lambda>k. k + i) (first_index p (drop i xs)))"
  using assms(2)
proof (induction "length xs - i" arbitrary: i)
  case 0
  then show ?case by (simp add: arr_find.simps)
next
  case (Suc n)
  then have i: "i < length xs" by simp
  have "drop i xs = xs ! i # drop (Suc i) xs" using i by (rule Cons_nth_drop_Suc [symmetric])
  moreover have "arr_find p a (Suc i) (length xs) =
      Some (map_option (\<lambda>k. k + Suc i) (first_index p (drop (Suc i) xs)))"
    using Suc i by simp
  ultimately show ?case
    using i assms(1) by (simp add: arr_find.simps [of p a i] arr_holds_get option.map_comp comp_def)
qed

lemma arr_find_first:
  "arr_holds a xs \<Longrightarrow> arr_find p a 0 (length xs) = Some (first_index p xs)"
  by (simp add: arr_find_drop option.map_ident)

subsection \<open>Removal by shifting the tail left\<close>

text \<open>\<open>for (j = i; j < n - 1; j++) a[j] = a[j + 1];\<close>\<close>

function arr_shift :: "'a c_array \<Rightarrow> nat \<Rightarrow> nat \<Rightarrow> 'a c_array option" where
  "arr_shift a j n =
     (if j < n - 1
      then do { x \<leftarrow> arr_get a (j + 1); a' \<leftarrow> arr_set a j x; arr_shift a' (j + 1) n }
      else Some a)"
  by pat_completeness auto
termination
  by (relation "measure (\<lambda>(a, j, n). n - j)") auto

declare arr_shift.simps [simp del]

definition delete_at :: "nat \<Rightarrow> 'a list \<Rightarrow> 'a list" where
  "delete_at i xs = take i xs @ drop (Suc i) xs"

lemma length_delete_at [simp]: "i < length xs \<Longrightarrow> length (delete_at i xs) = length xs - 1"
  by (simp add: delete_at_def)

lemma set_delete_at: "set (delete_at i xs) \<subseteq> set xs"
  by (auto simp: delete_at_def dest: in_set_takeD in_set_dropD)

lemma distinct_delete_at: "distinct xs \<Longrightarrow> distinct (delete_at i xs)"
  by (auto simp: delete_at_def set_take_disj_set_drop_if_distinct)

lemma delete_at_remove1: "first_index (\<lambda>x. x = y) xs = Some i \<Longrightarrow> delete_at i xs = remove1 y xs"
  by (induction xs arbitrary: i) (auto simp: delete_at_def split: if_splits)

lemma arr_shift_holds:
  assumes "arr_holds a xs" and "j < length xs"
  shows "\<exists>a'. arr_shift a j (length xs) = Some a' \<and> arr_holds a' (delete_at j xs) \<and> length a' = length a"
  using assms
proof (induction "length xs - j" arbitrary: a xs j)
  case 0
  then show ?case by simp
next
  case (Suc n)
  show ?case
  proof (cases "j < length xs - 1")
    case False
    with Suc.prems(2) have j: "j = length xs - 1" and "drop (Suc j) xs = []" by auto
    then have "delete_at j xs = butlast xs"
      by (simp only: delete_at_def butlast_conv_take) simp
    with False Suc.prems show ?thesis
      by (simp add: arr_shift.simps [of a j] arr_holds_butlast)
  next
    case True
    let ?x = "xs ! (j + 1)" and ?ys = "xs[j := xs ! (j + 1)]"
    have le: "length xs \<le> length a" by (rule arr_holds_le) (rule Suc.prems)
    have holds: "arr_holds (a[j := Some ?x]) ?ys"
      using Suc.prems by (rule arr_holds_update)
    have "n = length ?ys - (j + 1)" and "j + 1 < length ?ys" using Suc True by auto
    from Suc.hyps(1) [OF this(1) holds this(2)]
    obtain a' where a': "arr_shift (a[j := Some ?x]) (j + 1) (length xs) = Some a'"
      "arr_holds a' (delete_at (j + 1) ?ys)" "length a' = length a" by auto
    have "delete_at (j + 1) ?ys = delete_at j xs"
      using True by (simp add: delete_at_def take_Suc_conv_app_nth Cons_nth_drop_Suc)
    with a' True Suc.prems le show ?thesis
      by (simp add: arr_shift.simps [of a j] arr_holds_get)
  qed
qed

subsection \<open>Removal by moving the last element into the hole\<close>

text \<open>\<open>a[i] = a[n - 1];\<close>, after which the caller decrements \<open>n\<close>.\<close>

definition arr_fill_hole :: "'a c_array \<Rightarrow> nat \<Rightarrow> nat \<Rightarrow> 'a c_array option" where
  "arr_fill_hole a i n = do { x \<leftarrow> arr_get a (n - 1); arr_set a i x }"

definition swap_out :: "nat \<Rightarrow> 'a list \<Rightarrow> 'a list" where
  "swap_out i xs = butlast (xs[i := last xs])"

lemma length_swap_out [simp]: "length (swap_out i xs) = length xs - 1"
  by (simp add: swap_out_def)

lemma arr_fill_hole_holds:
  assumes "arr_holds a xs" and "i < length xs"
  shows "\<exists>a'. arr_fill_hole a i (length xs) = Some a' \<and> arr_holds a' (swap_out i xs) \<and> length a' = length a"
proof -
  have "length xs \<le> length a" using assms(1) by (rule arr_holds_le)
  moreover have "arr_get a (length xs - 1) = Some (last xs)"
  proof -
    have "xs \<noteq> []" using assms(2) by auto
    then show ?thesis
      using assms by (simp add: arr_holds_get last_conv_nth)
  qed
  ultimately show ?thesis
    using assms by (auto simp: arr_fill_hole_def swap_out_def intro: arr_holds_butlast arr_holds_update)
qed

lemma mset_swap_out: "i < length xs \<Longrightarrow> add_mset (xs ! i) (mset (swap_out i xs)) = mset xs"
proof -
  assume i: "i < length xs"
  then have ne: "xs[i := last xs] \<noteq> []" and "xs \<noteq> []" by auto
  then have "last (xs[i := last xs]) = last xs"
    by (simp add: last_list_update)
  then have "mset (xs[i := last xs]) = add_mset (last xs) (mset (swap_out i xs))"
    using ne by (metis append_butlast_last_id mset.simps(2) mset_append swap_out_def
        add.right_neutral add_mset_add_single union_mset_add_mset_right mset.simps(1) add.commute)
  moreover have "mset (xs[i := last xs]) = add_mset (last xs) (mset xs - {#xs ! i#})"
    using i by (simp add: mset_update)
  ultimately have "mset (swap_out i xs) = mset xs - {#xs ! i#}" by simp
  with i show ?thesis by (metis insert_DiffM nth_mem_mset)
qed

lemma set_swap_out: "i < length xs \<Longrightarrow> set xs = insert (xs ! i) (set (swap_out i xs))"
  using mset_swap_out by (metis set_mset_add_mset_insert set_mset_mset)

lemma distinct_map_swap_out:
  assumes "i < length xs" and "distinct (map f xs)"
  shows "distinct (map f (swap_out i xs)) \<and> f (xs ! i) \<notin> f ` set (swap_out i xs)"
proof -
  have "mset (map f xs) = mset (map f (xs ! i # swap_out i xs))"
    using mset_swap_out [OF assms(1)] by (metis mset.simps(2) mset_map)
  with assms(2) have "distinct (map f (xs ! i # swap_out i xs))"
    by (metis mset_eq_imp_distinct_iff)
  then show ?thesis by simp
qed

section \<open>Dispatching a batch\<close>

text \<open>
  A loop that reads the elements of an array one after the other, while what it does for one may
  change the state the array is in, does the same for the list of the elements as long as the
  array (and what else \<open>batch\<close> tells of the state) stays the same.
\<close>

lemma dispatch_batch:
  assumes disp: "\<And>i s. disp i 0 s = Some s" "\<And>i n s. disp i (Suc n) s = Option.bind (proc i s) (disp (i + 1) n)"
    and all: "\<And>s. all [] s = Some s" "\<And>e es s. all (e # es) s = Option.bind (deliver e s) (all es)"
    and proc: "\<And>i s e. batch s = b \<Longrightarrow> arr_get a i = Some e \<Longrightarrow> proc i s = deliver e s"
    and keep: "\<And>s s' e. batch s = b \<Longrightarrow> deliver e s = Some s' \<Longrightarrow> batch s' = b"
    and "batch s = b" "\<And>j. j < length es \<Longrightarrow> arr_get a (i + j) = Some (es ! j)"
  shows "disp i (length es) s = all es s"
  using assms(7,8)
proof (induction es arbitrary: i s)
  case Nil
  show ?case by (simp add: disp all)
next
  case (Cons e es)
  have step: "proc i s = deliver e s" using proc [OF Cons.prems(1)] Cons.prems(2) [of 0] by simp
  show ?case
  proof (cases "deliver e s")
    case None
    then show ?thesis by (simp add: disp all step)
  next
    case (Some s1)
    have "disp (i + 1) (length es) s1 = all es s1"
      using keep [OF Cons.prems(1) Some] Cons.prems(2) [of "Suc _"] by (intro Cons.IH) simp_all
    then show ?thesis using Some by (simp add: disp all step)
  qed
qed

lemma arr_get_stored: "j < length es \<Longrightarrow> arr_get (map Some es @ rest) j = Some (es ! j)"
  by (simp add: arr_get_def nth_append)

section \<open>Owned objects\<close>

text \<open>
  \<open>owned m h ok\<close>: \<open>m\<close> maps owners to the addresses of the objects they own in the heap
  \<open>h\<close>; each such object exists and satisfies \<open>ok\<close>, and no two owners share one.
\<close>

definition owned :: "(addr \<Rightarrow> addr option) \<Rightarrow> (addr \<Rightarrow> 'a option) \<Rightarrow> ('a \<Rightarrow> bool) \<Rightarrow> bool" where
  "owned m h ok \<longleftrightarrow> (\<forall>a p. m a = Some p \<longrightarrow> p \<noteq> NULL \<and> (\<exists>x. h p = Some x \<and> ok x)) \<and>
     (\<forall>a b p. m a = Some p \<longrightarrow> m b = Some p \<longrightarrow> a = b)"

lemma ownedD:
  assumes "owned m h ok" "m a = Some p"
  obtains x where "p \<noteq> NULL" "h p = Some x" "ok x"
  using assms unfolding owned_def by blast

lemma map_le_Some: "m' \<subseteq>\<^sub>m m \<Longrightarrow> m' x = Some y \<Longrightarrow> m x = Some y"
  by (metis domI map_le_def)

lemma owned_less: "owned m h ok \<Longrightarrow> m' \<subseteq>\<^sub>m m \<Longrightarrow> owned m' h ok"
  unfolding owned_def using map_le_Some [of m' m] by blast

lemma owned_write: "owned m h ok \<Longrightarrow> ok x \<Longrightarrow> owned m (h(p \<mapsto> x)) ok"
  unfolding owned_def by (metis fun_upd_apply)

lemma owned_new:
  assumes o: "owned m h ok" and p: "h p = None" "p \<noteq> NULL" "ok x"
  shows "owned (m(a \<mapsto> p)) (h(p \<mapsto> x)) ok"
proof -
  have "m b \<noteq> Some p" for b using o p(1) unfolding owned_def by force
  then show ?thesis using o p(2,3) unfolding owned_def by (simp add: fun_upd_def) blast
qed

lemma owned_free:
  assumes o: "owned m h ok" and a: "m a = Some p"
  shows "owned (m(a := None)) (h(p := None)) ok"
  using o a unfolding owned_def by (metis fun_upd_apply option.distinct(1))

lemma owned_drop: "owned m h ok \<Longrightarrow> owned (m(a := None)) h ok"
  by (erule owned_less) (simp add: map_le_def)

end
