(* ===== verification/Pd_Types.thy ===== *)
theory Pd_Types
  imports Pd_Prelude
begin

text \<open>
  The public types of \<^verbatim>\<open>include/poll-dancer/types.h\<close>: error codes, event masks and the loop
  configuration, with the texts of \<^verbatim>\<open>src/error.c\<close> and the version of \<^verbatim>\<open>src/init.c\<close>.
  A \<^verbatim>\<open>pd_event_t\<close> is a 32-bit mask; a C \<^verbatim>\<open>int\<close> is an \<open>int\<close> whose signed overflow
  is written out as undefined behaviour where the code can reach it.
\<close>

unbundle bit_operations_syntax

section \<open>Error codes\<close>

datatype pd_error =
    PD_OK
  | PD_ERR_UNKNOWN
  | PD_ERR_INVALID_ARG
  | PD_ERR_NO_MEMORY
  | PD_ERR_SYSTEM
  | PD_ERR_NOT_IMPLEMENTED
  | PD_ERR_LOOP_CLOSED
  | PD_ERR_WATCHER_STOPPED
  | PD_ERR_ALREADY_EXISTS
  | PD_ERR_NOT_FOUND

text \<open>The numbers of the C enum.\<close>

fun err_code :: "pd_error \<Rightarrow> int" where
  "err_code PD_OK = 0"
| "err_code PD_ERR_UNKNOWN = - 1"
| "err_code PD_ERR_INVALID_ARG = - 2"
| "err_code PD_ERR_NO_MEMORY = - 3"
| "err_code PD_ERR_SYSTEM = - 4"
| "err_code PD_ERR_NOT_IMPLEMENTED = - 5"
| "err_code PD_ERR_LOOP_CLOSED = - 6"
| "err_code PD_ERR_WATCHER_STOPPED = - 7"
| "err_code PD_ERR_ALREADY_EXISTS = - 8"
| "err_code PD_ERR_NOT_FOUND = - 9"

lemma err_code_inj: "err_code a = err_code b \<longleftrightarrow> a = b"
  by (cases a; cases b) simp_all

text \<open>Codes are ordered as their numbers, so that comparisons on results are the library's.\<close>

instantiation pd_error :: linorder
begin

definition less_eq_pd_error :: "pd_error \<Rightarrow> pd_error \<Rightarrow> bool" where
  "less_eq_pd_error a b \<longleftrightarrow> err_code a \<le> err_code b"

definition less_pd_error :: "pd_error \<Rightarrow> pd_error \<Rightarrow> bool" where
  "less_pd_error a b \<longleftrightarrow> err_code a < err_code b"

instance
  by standard (auto simp: less_eq_pd_error_def less_pd_error_def err_code_inj)

end

lemma err_code_range: "- 9 \<le> err_code e \<and> err_code e \<le> 0"
  by (cases e) simp_all

lemma pd_error_le_OK: "e \<le> PD_OK"
  using err_code_range [of e] by (simp add: less_eq_pd_error_def)

lemma err_code_neg: "err_code e < 0 \<longleftrightarrow> e \<noteq> PD_OK"
  by (cases e) simp_all

subsection \<open>Their texts\<close>

definition error_strings :: "string list" where
  "error_strings =
    [''Success'', ''Unknown error'', ''Invalid argument'', ''Memory allocation failed'',
     ''System error'', ''Feature not implemented on this platform'', ''Loop has been closed'',
     ''Watcher is stopped'', ''Resource already exists'', ''Resource not found'']"

definition INT_MIN :: int where "INT_MIN = - (2 ^ 31)"
definition INT_MAX :: int where "INT_MAX = 2 ^ 31 - 1"

text \<open>
  The argument is any value of the enum's integer type. Negating \<^verbatim>\<open>INT_MIN\<close> overflows, so
  for that one value the function has no defined result.
\<close>

definition pd_error_string :: "int \<Rightarrow> string option" where
  "pd_error_string error =
    (if error = err_code PD_OK then Some (error_strings ! 0)
     else if error < 0 then
       (if error = INT_MIN then None
        else let index = - error in
          if 0 \<le> index \<and> nat index < length error_strings
          then Some (error_strings ! nat index)
          else Some ''Invalid error code'')
     else Some ''Invalid error code'')"

section \<open>Event masks\<close>

type_synonym pd_event = "32 word"

definition PD_EVENT_NONE :: pd_event where "PD_EVENT_NONE = 0"
definition PD_EVENT_READ :: pd_event where "PD_EVENT_READ = push_bit 0 1"
definition PD_EVENT_WRITE :: pd_event where "PD_EVENT_WRITE = push_bit 1 1"
definition PD_EVENT_ERROR :: pd_event where "PD_EVENT_ERROR = push_bit 2 1"
definition PD_EVENT_HANGUP :: pd_event where "PD_EVENT_HANGUP = push_bit 3 1"
definition PD_EVENT_PRI :: pd_event where "PD_EVENT_PRI = push_bit 4 1"
definition PD_EVENT_EDGE :: pd_event where "PD_EVENT_EDGE = push_bit 5 1"

lemmas pd_event_defs =
  PD_EVENT_NONE_def PD_EVENT_READ_def PD_EVENT_WRITE_def PD_EVENT_ERROR_def
  PD_EVENT_HANGUP_def PD_EVENT_PRI_def PD_EVENT_EDGE_def

text \<open>C's \<open>if (mask & flag)\<close>.\<close>

definition has_flag :: "'a::len word \<Rightarrow> 'a word \<Rightarrow> bool" where
  "has_flag m flag \<longleftrightarrow> m AND flag \<noteq> 0"

lemma has_flag_exp: "n < LENGTH('a) \<Longrightarrow> has_flag (m :: 'a::len word) (push_bit n 1) \<longleftrightarrow> bit m n"
proof -
  assume n: "n < LENGTH('a)"
  have "m AND push_bit n 1 = (if bit m n then push_bit n 1 else 0)"
    using n by (intro bit_eqI) (auto simp: bit_simps)
  then show ?thesis using n by (auto simp: has_flag_def push_bit_eq_mult)
qed

lemma or_zero_iff: "a OR b = 0 \<longleftrightarrow> a = 0 \<and> b = (0 :: 'a::len word)"
  by (auto simp: bit_eq_iff bit_simps)

lemma has_flag_or: "has_flag m (a OR b) \<longleftrightarrow> has_flag m a \<or> has_flag m b"
  by (simp add: has_flag_def bit.conj_disj_distrib or_zero_iff)

lemma bit_if_or: "bit (if c then x OR f else x) n \<longleftrightarrow> bit x n \<or> c \<and> bit (f :: 'a::len word) n"
  by (simp add: bit_simps)

lemma bit_single: "m < LENGTH('a) \<Longrightarrow> bit (push_bit m (1 :: 'a::len word)) n \<longleftrightarrow> n = m"
  by (auto simp: bit_simps)

lemma event_has_flag:
  "has_flag m PD_EVENT_READ \<longleftrightarrow> bit m 0" "has_flag m PD_EVENT_WRITE \<longleftrightarrow> bit m 1"
  "has_flag m PD_EVENT_ERROR \<longleftrightarrow> bit m 2" "has_flag m PD_EVENT_HANGUP \<longleftrightarrow> bit m 3"
  "has_flag m PD_EVENT_PRI \<longleftrightarrow> bit m 4" "has_flag m PD_EVENT_EDGE \<longleftrightarrow> bit m 5"
  unfolding pd_event_defs by (rule has_flag_exp, simp)+

lemma event_bits:
  "bit PD_EVENT_READ n \<longleftrightarrow> n = 0" "bit PD_EVENT_WRITE n \<longleftrightarrow> n = 1" "bit PD_EVENT_ERROR n \<longleftrightarrow> n = 2"
  "bit PD_EVENT_HANGUP n \<longleftrightarrow> n = 3" "bit PD_EVENT_PRI n \<longleftrightarrow> n = 4" "bit PD_EVENT_EDGE n \<longleftrightarrow> n = 5"
  unfolding pd_event_defs by (rule bit_single, simp)+

section \<open>Loop configuration\<close>

record pd_loop_config =
  max_events_per_wait :: int
  enable_thread_safety :: int

section \<open>Version\<close>

definition pd_version_string :: string where
  "pd_version_string = ''0.1.0''"

text \<open>
  Each out-parameter may be null (\<open>None\<close>); the cells that are not null hold the version
  afterwards.
\<close>

definition pd_version_components ::
  "int option \<Rightarrow> int option \<Rightarrow> int option \<Rightarrow> int option \<times> int option \<times> int option" where
  "pd_version_components major minor patch =
    (map_option (\<lambda>_. 0) major, map_option (\<lambda>_. 1) minor, map_option (\<lambda>_. 0) patch)"

end
