(* ===== verification/Pd_State.thy ===== *)
theory Pd_State
  imports Pd_Types
begin

text \<open>
  The structures of \<^verbatim>\<open>src/internal/loop.h\<close>, \<^verbatim>\<open>watcher.h\<close> and \<^verbatim>\<open>timer.h\<close>, and the state
  every operation is given and returns: one heap per type of object, the state of the
  operating system, the allocator, \<^verbatim>\<open>errno\<close> and the static variables. The types of the
  platform data of loops, watchers and timers and of the operating system's state are
  parameters, which each backend instantiates.
\<close>

section \<open>The structures\<close>

text \<open>
  A callback is a function pointer: one of the user's functions, or the one internal
  function that is used as a callback (\<^verbatim>\<open>timerfd_callback\<close> of the epoll backend).
\<close>

datatype pd_callback = Cb_user nat | Cb_timerfd

text \<open>The address of one of the three static operation tables.\<close>

datatype ops_ptr = Ops_epoll | Ops_kqueue | Ops_iocp

text \<open>\<^verbatim>\<open>PD_MUTEX_T\<close>: zeroed or destroyed memory, an unlocked or a locked mutex.\<close>

datatype pd_mutex = Mutex_uninit | Mutex_free | Mutex_held

record pd_loop =
  l_ops :: "ops_ptr option"
  l_ref_count :: int
  l_running :: bool
  l_stop_requested :: bool
  l_system_error :: int
  l_max_events_per_wait :: int
  l_enable_thread_safety :: int
  l_platform_data :: addr
  l_watchers :: "addr c_array"
  l_watcher_count :: nat
  l_watcher_capacity :: nat
  l_mutex :: pd_mutex
  l_async_data :: addr

record pd_watcher =
  w_fd :: int
  w_handle :: addr
  w_is_handle :: bool
  w_events :: pd_event
  w_callback :: "pd_callback option"
  w_user_data :: addr
  w_loop :: addr
  w_active :: bool
  w_ref_count :: int
  w_platform_data :: addr

record pd_timer =
  t_loop :: addr
  t_watcher :: addr
  t_timeout_ms :: "64 word"
  t_interval_ms :: "64 word"
  t_callback :: "pd_callback option"
  t_user_data :: addr
  t_active :: bool
  t_owns_watcher :: bool
  t_platform_data :: addr

text \<open>The values of zeroed memory (\<^verbatim>\<open>calloc\<close>).\<close>

definition zero_loop :: pd_loop where
  "zero_loop = \<lparr>l_ops = None, l_ref_count = 0, l_running = False, l_stop_requested = False,
     l_system_error = 0, l_max_events_per_wait = 0, l_enable_thread_safety = 0,
     l_platform_data = NULL, l_watchers = [], l_watcher_count = 0, l_watcher_capacity = 0,
     l_mutex = Mutex_uninit, l_async_data = NULL\<rparr>"

definition zero_watcher :: pd_watcher where
  "zero_watcher = \<lparr>w_fd = 0, w_handle = NULL, w_is_handle = False, w_events = 0,
     w_callback = None, w_user_data = NULL, w_loop = NULL, w_active = False,
     w_ref_count = 0, w_platform_data = NULL\<rparr>"

definition zero_timer :: pd_timer where
  "zero_timer = \<lparr>t_loop = NULL, t_watcher = NULL, t_timeout_ms = 0, t_interval_ms = 0,
     t_callback = None, t_user_data = NULL, t_active = False, t_owns_watcher = False,
     t_platform_data = NULL\<rparr>"

section \<open>The state\<close>

text \<open>
  The C allocator may fail and may return any address that is not in use, also one that
  was freed before. Its decisions are a list that the operations consume: \<open>Fails e\<close>
  returns null and sets \<^verbatim>\<open>errno\<close> to \<open>e\<close>; \<open>Gives a\<close> returns \<open>a\<close>. An exhausted
  list, a null address or an address in use fails.
\<close>

datatype alloc_choice = Fails int | Gives addr

record ('ld, 'wd, 'td, 'k) pd_state =
  st_loops :: "addr \<Rightarrow> pd_loop option"
  st_watchers :: "addr \<Rightarrow> pd_watcher option"
  st_timers :: "addr \<Rightarrow> pd_timer option"
  st_ldata :: "addr \<Rightarrow> 'ld option"
  st_wdata :: "addr \<Rightarrow> 'wd option"
  st_tdata :: "addr \<Rightarrow> 'td option"
  st_kernel :: 'k
  st_errno :: int
  st_choices :: "alloc_choice list"
  st_default_loop :: addr
  st_thread_safe :: bool  \<comment> \<open>compiled with \<^verbatim>\<open>PD_THREAD_SAFE\<close>; never written\<close>

definition pop_choice :: "('ld, 'wd, 'td, 'k) pd_state \<Rightarrow> addr \<times> ('ld, 'wd, 'td, 'k) pd_state" where
  "pop_choice s = (case st_choices s of
     [] \<Rightarrow> (NULL, s)
   | Fails e # cs \<Rightarrow> (NULL, s\<lparr>st_choices := cs, st_errno := e\<rparr>)
   | Gives a # cs \<Rightarrow> (a, s\<lparr>st_choices := cs\<rparr>))"

text \<open>
  An object with one owner that nothing else points to (the arrays of a loop and of its
  platform data) is kept inside its owner; allocating one is only the allocator's verdict.
\<close>

definition alloc_array :: "('ld, 'wd, 'td, 'k) pd_state \<Rightarrow> bool \<times> ('ld, 'wd, 'td, 'k) pd_state" where
  "alloc_array s = (case pop_choice s of (a, s1) \<Rightarrow> (a \<noteq> NULL, s1))"

definition heap_alloc ::
  "(('ld, 'wd, 'td, 'k) pd_state \<Rightarrow> addr \<Rightarrow> 'a option) \<Rightarrow>
   ((addr \<Rightarrow> 'a option) \<Rightarrow> ('ld, 'wd, 'td, 'k) pd_state \<Rightarrow> ('ld, 'wd, 'td, 'k) pd_state) \<Rightarrow>
   'a \<Rightarrow> ('ld, 'wd, 'td, 'k) pd_state \<Rightarrow> addr \<times> ('ld, 'wd, 'td, 'k) pd_state" where
  "heap_alloc get put z s = (case pop_choice s of (a, s1) \<Rightarrow>
     if a = NULL \<or> get s1 a \<noteq> None then (NULL, s1) else (a, put ((get s1)(a \<mapsto> z)) s1))"

definition heap_free ::
  "(('ld, 'wd, 'td, 'k) pd_state \<Rightarrow> addr \<Rightarrow> 'a option) \<Rightarrow>
   ((addr \<Rightarrow> 'a option) \<Rightarrow> ('ld, 'wd, 'td, 'k) pd_state \<Rightarrow> ('ld, 'wd, 'td, 'k) pd_state) \<Rightarrow>
   addr \<Rightarrow> ('ld, 'wd, 'td, 'k) pd_state \<Rightarrow> ('ld, 'wd, 'td, 'k) pd_state option" where
  "heap_free get put a s =
     (if a = NULL then Some s
      else if get s a = None then None
      else Some (put ((get s)(a := None)) s))"

definition heap_write ::
  "(('ld, 'wd, 'td, 'k) pd_state \<Rightarrow> addr \<Rightarrow> 'a option) \<Rightarrow>
   ((addr \<Rightarrow> 'a option) \<Rightarrow> ('ld, 'wd, 'td, 'k) pd_state \<Rightarrow> ('ld, 'wd, 'td, 'k) pd_state) \<Rightarrow>
   addr \<Rightarrow> ('a \<Rightarrow> 'a) \<Rightarrow> ('ld, 'wd, 'td, 'k) pd_state \<Rightarrow> ('ld, 'wd, 'td, 'k) pd_state option" where
  "heap_write get put a f s = do { x \<leftarrow> get s a; Some (put ((get s)(a \<mapsto> f x)) s) }"

abbreviation "calloc_loop \<equiv> heap_alloc st_loops (\<lambda>h s. s\<lparr>st_loops := h\<rparr>) zero_loop"
abbreviation "free_loop \<equiv> heap_free st_loops (\<lambda>h s. s\<lparr>st_loops := h\<rparr>)"
abbreviation "write_loop \<equiv> heap_write st_loops (\<lambda>h s. s\<lparr>st_loops := h\<rparr>)"
abbreviation "calloc_watcher \<equiv> heap_alloc st_watchers (\<lambda>h s. s\<lparr>st_watchers := h\<rparr>) zero_watcher"
abbreviation "free_watcher \<equiv> heap_free st_watchers (\<lambda>h s. s\<lparr>st_watchers := h\<rparr>)"
abbreviation "write_watcher \<equiv> heap_write st_watchers (\<lambda>h s. s\<lparr>st_watchers := h\<rparr>)"
abbreviation "calloc_timer \<equiv> heap_alloc st_timers (\<lambda>h s. s\<lparr>st_timers := h\<rparr>) zero_timer"
abbreviation "free_timer \<equiv> heap_free st_timers (\<lambda>h s. s\<lparr>st_timers := h\<rparr>)"
abbreviation "write_timer \<equiv> heap_write st_timers (\<lambda>h s. s\<lparr>st_timers := h\<rparr>)"
abbreviation "calloc_ldata \<equiv> heap_alloc st_ldata (\<lambda>h s. s\<lparr>st_ldata := h\<rparr>)"
abbreviation "free_ldata \<equiv> heap_free st_ldata (\<lambda>h s. s\<lparr>st_ldata := h\<rparr>)"
abbreviation "write_ldata \<equiv> heap_write st_ldata (\<lambda>h s. s\<lparr>st_ldata := h\<rparr>)"
abbreviation "calloc_wdata \<equiv> heap_alloc st_wdata (\<lambda>h s. s\<lparr>st_wdata := h\<rparr>)"
abbreviation "free_wdata \<equiv> heap_free st_wdata (\<lambda>h s. s\<lparr>st_wdata := h\<rparr>)"
abbreviation "write_wdata \<equiv> heap_write st_wdata (\<lambda>h s. s\<lparr>st_wdata := h\<rparr>)"
abbreviation "calloc_tdata \<equiv> heap_alloc st_tdata (\<lambda>h s. s\<lparr>st_tdata := h\<rparr>)"
abbreviation "free_tdata \<equiv> heap_free st_tdata (\<lambda>h s. s\<lparr>st_tdata := h\<rparr>)"
abbreviation "write_tdata \<equiv> heap_write st_tdata (\<lambda>h s. s\<lparr>st_tdata := h\<rparr>)"

lemmas heap_ops = heap_free_def heap_write_def

text \<open>What consuming an allocator decision leaves unchanged.\<close>

lemma pop_choice_frame [pd_frame]:
  assumes "pop_choice s = (a, s')"
  shows "\<exists>cs e. s' = s\<lparr>st_choices := cs, st_errno := e\<rparr>"
  using assms
  by (cases s) (auto simp: pop_choice_def split: list.splits alloc_choice.splits)

lemma alloc_array_frame [pd_frame]:
  "alloc_array s = (ok, s') \<Longrightarrow> \<exists>cs e. s' = s\<lparr>st_choices := cs, st_errno := e\<rparr>"
  by (auto simp: alloc_array_def dest: pop_choice_frame split: prod.splits)

section \<open>Error of the loop\<close>

definition pd_set_system_error ::
  "addr \<Rightarrow> int \<Rightarrow> ('ld, 'wd, 'td, 'k) pd_state \<Rightarrow> ('ld, 'wd, 'td, 'k) pd_state option" where
  "pd_set_system_error loop error s =
     (if loop \<noteq> NULL then write_loop loop (\<lambda>lp. lp\<lparr>l_system_error := error\<rparr>) s else Some s)"

definition pd_get_system_error :: "addr \<Rightarrow> ('ld, 'wd, 'td, 'k) pd_state \<Rightarrow> int option" where
  "pd_get_system_error loop s =
     (if loop = NULL then Some 0 else map_option l_system_error (st_loops s loop))"

text \<open>On POSIX builds; \<open>strerror\<close> is the C library's.\<close>

definition pd_get_system_error_string ::
  "(int \<Rightarrow> string) \<Rightarrow> addr \<Rightarrow> ('ld, 'wd, 'td, 'k) pd_state \<Rightarrow> string option" where
  "pd_get_system_error_string strerror loop s =
     (if loop = NULL then Some ''No error''
      else map_option (\<lambda>lp. strerror (l_system_error lp)) (st_loops s loop))"

definition pd_get_current_system_error :: "('ld, 'wd, 'td, 'k) pd_state \<Rightarrow> int" where
  "pd_get_current_system_error s = st_errno s"

section \<open>The loop's mutex\<close>

text \<open>
  The code takes the mutex only when the loop was created with thread safety and, when
  the library is compiled without \<^verbatim>\<open>PD_THREAD_SAFE\<close>, the macros are empty. A thread that
  locks a mutex it already holds deadlocks, and one that unlocks a mutex it does not hold
  has undefined behaviour; both are \<open>None\<close> here.
\<close>

definition uses_mutex :: "pd_loop \<Rightarrow> ('ld, 'wd, 'td, 'k) pd_state \<Rightarrow> bool" where
  "uses_mutex lp s \<longleftrightarrow> l_enable_thread_safety lp \<noteq> 0 \<and> st_thread_safe s"

definition PD_MUTEX_LOCK ::
  "addr \<Rightarrow> ('ld, 'wd, 'td, 'k) pd_state \<Rightarrow> ('ld, 'wd, 'td, 'k) pd_state option" where
  "PD_MUTEX_LOCK loop s = do {
     lp \<leftarrow> st_loops s loop;
     if uses_mutex lp s
     then (if l_mutex lp = Mutex_free
           then write_loop loop (\<lambda>x. x\<lparr>l_mutex := Mutex_held\<rparr>) s else None)
     else Some s }"

definition PD_MUTEX_UNLOCK ::
  "addr \<Rightarrow> ('ld, 'wd, 'td, 'k) pd_state \<Rightarrow> ('ld, 'wd, 'td, 'k) pd_state option" where
  "PD_MUTEX_UNLOCK loop s = do {
     lp \<leftarrow> st_loops s loop;
     if uses_mutex lp s
     then (if l_mutex lp = Mutex_held
           then write_loop loop (\<lambda>x. x\<lparr>l_mutex := Mutex_free\<rparr>) s else None)
     else Some s }"

end
