(* ===== verification/Pd_Platform.thy ===== *)
theory Pd_Platform
  imports Pd_State
begin

text \<open>
  The operation table of \<^verbatim>\<open>src/internal/platform.h\<close>, the platform detection of
  \<^verbatim>\<open>src/platform.c\<close> and the queries of \<^verbatim>\<open>src/init.c\<close> that use it. A slot is \<open>None\<close> where
  the C table holds a null function pointer. The watcher slots are a record of their own,
  which the whole table extends, because the timer code of a backend calls the generic
  watcher code with its own watcher slots.
\<close>

record 's pd_watcher_ops =
  op_watcher_register :: "(addr \<Rightarrow> addr \<Rightarrow> 's \<Rightarrow> (pd_error \<times> 's) option) option"
  op_watcher_register_handle :: "(addr \<Rightarrow> addr \<Rightarrow> 's \<Rightarrow> (pd_error \<times> 's) option) option"
  op_watcher_update :: "(addr \<Rightarrow> pd_event \<Rightarrow> 's \<Rightarrow> (pd_error \<times> 's) option) option"
  op_watcher_unregister :: "(addr \<Rightarrow> 's \<Rightarrow> (pd_error \<times> 's) option) option"
  op_watcher_drain_read :: "(addr \<Rightarrow> addr \<Rightarrow> nat \<Rightarrow> 's \<Rightarrow> (8 word list \<times> 's) option) option"

record 's pd_platform_ops = "'s pd_watcher_ops" +
  op_loop_create :: "(addr \<Rightarrow> pd_loop_config \<Rightarrow> 's \<Rightarrow> (pd_error \<times> 's) option) option"
  op_loop_destroy :: "(addr \<Rightarrow> 's \<Rightarrow> 's option) option"
  op_loop_run :: "(addr \<Rightarrow> int \<Rightarrow> 's \<Rightarrow> (int \<times> 's) option) option"
  op_loop_stop :: "(addr \<Rightarrow> 's \<Rightarrow> (pd_error \<times> 's) option) option"
  op_async_send :: "(addr \<Rightarrow> addr \<Rightarrow> 's \<Rightarrow> (pd_error \<times> 's) option) option"
  op_timer_create :: "(addr \<Rightarrow> addr \<Rightarrow> 's \<Rightarrow> (pd_error \<times> 's) option) option"
  op_timer_start :: "(addr \<Rightarrow> 's \<Rightarrow> (pd_error \<times> 's) option) option"
  op_timer_stop :: "(addr \<Rightarrow> 's \<Rightarrow> (pd_error \<times> 's) option) option"
  op_timer_destroy :: "(addr \<Rightarrow> 's \<Rightarrow> (bool \<times> 's) option) option"
  op_name :: string
  op_max_events :: int

text \<open>
  One table is linked into a build; \<open>loop->ops\<close> is null or points to it. \<open>loop_op sel P lp\<close>
  is the slot \<open>loop->ops->sel\<close>, \<open>None\<close> when either pointer is null, which is what the
  code's tests \<open>loop->ops && loop->ops->sel\<close> ask.
\<close>

definition loop_op :: "('p \<Rightarrow> 'f option) \<Rightarrow> 'p \<Rightarrow> pd_loop \<Rightarrow> 'f option" where
  "loop_op sel P lp = (if l_ops lp = None then None else sel P)"

datatype pd_target = PD_PLATFORM_LINUX | PD_PLATFORM_BSD | PD_PLATFORM_WINDOWS | PD_PLATFORM_OTHER

fun pd_platform_detect :: "pd_target \<Rightarrow> ops_ptr option" where
  "pd_platform_detect PD_PLATFORM_LINUX = Some Ops_epoll"
| "pd_platform_detect PD_PLATFORM_BSD = Some Ops_kqueue"
| "pd_platform_detect PD_PLATFORM_WINDOWS = Some Ops_iocp"
| "pd_platform_detect PD_PLATFORM_OTHER = None"

text \<open>\<open>T\<close> maps the address of a table to the table.\<close>

definition pd_platform_name ::
  "(ops_ptr \<Rightarrow> 's pd_platform_ops) \<Rightarrow> pd_target \<Rightarrow> string" where
  "pd_platform_name T target =
     (case pd_platform_detect target of None \<Rightarrow> ''unknown'' | Some p \<Rightarrow> op_name (T p))"

definition pd_is_thread_safe :: "('ld, 'wd, 'td, 'k) pd_state \<Rightarrow> int" where
  "pd_is_thread_safe s = (if st_thread_safe s then 1 else 0)"

end
