(* ===== verification/Pd_Loop_List.thy ===== *)
theory Pd_Loop_List
  imports Pd_Platform
begin

text \<open>
  The loop's array of watchers (\<^verbatim>\<open>pd_loop_add_watcher\<close>, \<^verbatim>\<open>pd_loop_remove_watcher\<close> of
  \<^verbatim>\<open>src/loop.c\<close>): the two operations on the C array with its capacity, and their refinement
  of a plain list, to which adding appends and from which removing takes the first
  occurrence.
\<close>

section \<open>The operations\<close>

definition pd_loop_add_watcher ::
  "addr \<Rightarrow> addr \<Rightarrow> ('ld, 'wd, 'td, 'k) pd_state \<Rightarrow> (pd_error \<times> ('ld, 'wd, 'td, 'k) pd_state) option" where
  "pd_loop_add_watcher loop watcher s =
    (if loop = NULL \<or> watcher = NULL then Some (PD_ERR_INVALID_ARG, s)
     else do {
       s \<leftarrow> PD_MUTEX_LOCK loop s;
       lp \<leftarrow> st_loops s loop;
       (room, s) \<leftarrow>
         (if l_watcher_count lp \<ge> l_watcher_capacity lp
          then (let new_capacity = l_watcher_capacity lp * 2; (ok, s) = alloc_array s in
            if \<not> ok then Some (False, s)
            else do {
              s \<leftarrow> write_loop loop (\<lambda>x. x\<lparr>
                l_watchers := arr_realloc (l_watchers x) new_capacity,
                l_watcher_capacity := new_capacity\<rparr>) s;
              Some (True, s) })
          else Some (True, s));
       if \<not> room
       then do { s \<leftarrow> PD_MUTEX_UNLOCK loop s; Some (PD_ERR_NO_MEMORY, s) }
       else do {
         lp \<leftarrow> st_loops s loop;
         ws \<leftarrow> arr_set (l_watchers lp) (l_watcher_count lp) watcher;
         s \<leftarrow> write_loop loop (\<lambda>x. x\<lparr>l_watchers := ws, l_watcher_count := l_watcher_count x + 1\<rparr>) s;
         s \<leftarrow> PD_MUTEX_UNLOCK loop s;
         Some (PD_OK, s) } })"

definition pd_loop_remove_watcher ::
  "addr \<Rightarrow> addr \<Rightarrow> ('ld, 'wd, 'td, 'k) pd_state \<Rightarrow> (pd_error \<times> ('ld, 'wd, 'td, 'k) pd_state) option" where
  "pd_loop_remove_watcher loop watcher s =
    (if loop = NULL \<or> watcher = NULL then Some (PD_ERR_INVALID_ARG, s)
     else do {
       s \<leftarrow> PD_MUTEX_LOCK loop s;
       lp \<leftarrow> st_loops s loop;
       found \<leftarrow> arr_find (\<lambda>x. x = watcher) (l_watchers lp) 0 (l_watcher_count lp);
       case found of
         Some i \<Rightarrow> do {
           ws \<leftarrow> arr_shift (l_watchers lp) i (l_watcher_count lp);
           s \<leftarrow> write_loop loop (\<lambda>x. x\<lparr>l_watchers := ws, l_watcher_count := l_watcher_count x - 1\<rparr>) s;
           s \<leftarrow> PD_MUTEX_UNLOCK loop s;
           Some (PD_OK, s) }
       | None \<Rightarrow> do { s \<leftarrow> PD_MUTEX_UNLOCK loop s; Some (PD_ERR_NOT_FOUND, s) } })"

section \<open>The list they implement\<close>

definition watcher_list :: "pd_loop \<Rightarrow> addr list" where
  "watcher_list lp = arr_list (l_watchers lp) (l_watcher_count lp)"

text \<open>
  The array is as long as its recorded capacity, has at least one cell, and its first
  \<^verbatim>\<open>watcher_count\<close> cells are written.
\<close>

definition wf_array :: "pd_loop \<Rightarrow> bool" where
  "wf_array lp \<longleftrightarrow> length (l_watchers lp) = l_watcher_capacity lp \<and> 0 < l_watcher_capacity lp \<and>
     l_watcher_count lp \<le> l_watcher_capacity lp \<and>
     None \<notin> set (take (l_watcher_count lp) (l_watchers lp))"

definition mutex_ready :: "pd_loop \<Rightarrow> ('ld, 'wd, 'td, 'k) pd_state \<Rightarrow> bool" where
  "mutex_ready lp s \<longleftrightarrow> (uses_mutex lp s \<longrightarrow> l_mutex lp = Mutex_free)"

lemma wf_array_holds: "wf_array lp \<Longrightarrow> arr_holds (l_watchers lp) (watcher_list lp)"
  unfolding wf_array_def watcher_list_def arr_holds_def arr_list_def
  by (auto intro!: map_idI [symmetric] simp: min.absorb2)
     (metis option.collapse)

lemma wf_array_count: "wf_array lp \<Longrightarrow> l_watcher_count lp = length (watcher_list lp)"
  by (simp add: wf_array_def watcher_list_def arr_list_def)

lemma wf_arrayI:
  assumes "arr_holds (l_watchers lp) ws" and "l_watcher_count lp = length ws"
    and "l_watcher_capacity lp = length (l_watchers lp)" and "0 < l_watcher_capacity lp"
  shows "wf_array lp \<and> watcher_list lp = ws"
  using assms arr_holds_le [OF assms(1)] arr_holds_list [OF assms(1)]
  by (auto simp: wf_array_def watcher_list_def arr_holds_def)

text \<open>
  With a ready mutex, an operation that locks, runs \<open>f\<close> on the loop and unlocks changes
  the loop by \<open>f\<close> only. \<open>locked\<close> is the loop while the mutex is held.
\<close>

definition locked :: "('ld, 'wd, 'td, 'k) pd_state \<Rightarrow> pd_loop \<Rightarrow> pd_loop" where
  "locked s lp = (if uses_mutex lp s then lp\<lparr>l_mutex := Mutex_held\<rparr> else lp)"

lemma lock_eq:
  "st_loops s loop = Some lp \<Longrightarrow> mutex_ready lp s \<Longrightarrow>
   PD_MUTEX_LOCK loop s = Some (s\<lparr>st_loops := (st_loops s)(loop \<mapsto> locked s lp)\<rparr>)"
  by (simp add: PD_MUTEX_LOCK_def mutex_ready_def locked_def heap_ops fun_upd_idem)

lemma unlock_eq:
  assumes "st_loops s loop = Some (locked s0 lp)" and "st_thread_safe s = st_thread_safe s0"
    and "mutex_ready lp s0"
  shows "PD_MUTEX_UNLOCK loop s = Some (s\<lparr>st_loops := (st_loops s)(loop \<mapsto> lp)\<rparr>)"
proof (cases "uses_mutex lp s0")
  case True
  then have "lp\<lparr>l_mutex := Mutex_free\<rparr> = lp"
    using assms(3) by (cases lp) (simp add: mutex_ready_def)
  with True assms show ?thesis
    by (simp add: PD_MUTEX_UNLOCK_def locked_def uses_mutex_def heap_ops)
next
  case False
  then have "st_loops s loop = Some lp" and "\<not> uses_mutex lp s"
    using assms(1,2) by (auto simp: locked_def uses_mutex_def)
  then show ?thesis
    by (simp add: PD_MUTEX_UNLOCK_def fun_upd_idem)
qed

lemma unlock_locked [simp]:
  "mutex_ready lp s0 \<Longrightarrow> st_thread_safe s = st_thread_safe s0 \<Longrightarrow>
   PD_MUTEX_UNLOCK loop (s\<lparr>st_loops := h(loop \<mapsto> locked s0 lp)\<rparr>) =
   Some (s\<lparr>st_loops := h(loop \<mapsto> lp)\<rparr>)"
  by (simp add: unlock_eq [where ?s0.0 = s0 and lp = lp])

lemma locked_simps [simp]:
  "l_watchers (locked s lp) = l_watchers lp"
  "l_watcher_count (locked s lp) = l_watcher_count lp"
  "l_watcher_capacity (locked s lp) = l_watcher_capacity lp"
  "l_ref_count (locked s lp) = l_ref_count lp"
  "l_stop_requested (locked s lp) = l_stop_requested lp"
  "l_async_data (locked s lp) = l_async_data lp"
  "(locked s lp)\<lparr>l_watchers := a\<rparr> = locked s (lp\<lparr>l_watchers := a\<rparr>)"
  "(locked s lp)\<lparr>l_watcher_count := n\<rparr> = locked s (lp\<lparr>l_watcher_count := n\<rparr>)"
  "(locked s lp)\<lparr>l_watcher_capacity := n\<rparr> = locked s (lp\<lparr>l_watcher_capacity := n\<rparr>)"
  "(locked s lp)\<lparr>l_ref_count := c\<rparr> = locked s (lp\<lparr>l_ref_count := c\<rparr>)"
  "(locked s lp)\<lparr>l_stop_requested := b\<rparr> = locked s (lp\<lparr>l_stop_requested := b\<rparr>)"
  "(locked s lp)\<lparr>l_async_data := d\<rparr> = locked s (lp\<lparr>l_async_data := d\<rparr>)"
  "locked (s\<lparr>st_loops := h\<rparr>) lp = locked s lp"
  "locked (s\<lparr>st_choices := cs\<rparr>) lp = locked s lp"
  "locked (s\<lparr>st_errno := e\<rparr>) lp = locked s lp"
  by (simp_all add: locked_def uses_mutex_def)

lemma mutex_ready_simps [simp]:
  "mutex_ready (lp\<lparr>l_watchers := a\<rparr>) s = mutex_ready lp s"
  "mutex_ready (lp\<lparr>l_watcher_count := n\<rparr>) s = mutex_ready lp s"
  "mutex_ready (lp\<lparr>l_watcher_capacity := n\<rparr>) s = mutex_ready lp s"
  "mutex_ready (lp\<lparr>l_ref_count := c\<rparr>) s = mutex_ready lp s"
  "mutex_ready (lp\<lparr>l_stop_requested := b\<rparr>) s = mutex_ready lp s"
  "mutex_ready (lp\<lparr>l_running := b\<rparr>) s = mutex_ready lp s"
  "mutex_ready (lp\<lparr>l_async_data := d\<rparr>) s = mutex_ready lp s"
  "mutex_ready (lp\<lparr>l_system_error := e\<rparr>) s = mutex_ready lp s"
  "mutex_ready lp (s\<lparr>st_loops := h\<rparr>) = mutex_ready lp s"
  "mutex_ready lp (s\<lparr>st_watchers := w\<rparr>) = mutex_ready lp s"
  "mutex_ready lp (s\<lparr>st_timers := t\<rparr>) = mutex_ready lp s"
  "mutex_ready lp (s\<lparr>st_choices := cs\<rparr>) = mutex_ready lp s"
  "mutex_ready lp (s\<lparr>st_errno := er\<rparr>) = mutex_ready lp s"
  "mutex_ready lp (s\<lparr>st_kernel := k\<rparr>) = mutex_ready lp s"
  by (simp_all add: mutex_ready_def uses_mutex_def)

lemma locked_ready_same [simp]:
  "st_loops s loop = Some lp \<Longrightarrow> s\<lparr>st_loops := (st_loops s)(loop \<mapsto> lp)\<rparr> = s"
  by (simp add: fun_upd_idem)

section \<open>Refinement\<close>

lemma add_watcher_room:
  assumes lp: "st_loops s loop = Some lp" and m: "mutex_ready lp s" and a: "wf_array lp"
    and room: "l_watcher_count lp < l_watcher_capacity lp"
    and nz: "loop \<noteq> NULL" "watcher \<noteq> NULL"
  shows "pd_loop_add_watcher loop watcher s = Some (PD_OK, s\<lparr>st_loops := (st_loops s)(loop \<mapsto>
    lp\<lparr>l_watchers := (l_watchers lp)[l_watcher_count lp := Some watcher],
       l_watcher_count := l_watcher_count lp + 1\<rparr>)\<rparr>)"
  using a room nz m
  by (simp add: pd_loop_add_watcher_def lock_eq [OF lp m] heap_write_def wf_array_def)

lemma alloc_array_loops:
  "alloc_array (s\<lparr>st_loops := h\<rparr>) = (case alloc_array s of (ok, s1) \<Rightarrow> (ok, s1\<lparr>st_loops := h\<rparr>))"
  by (simp add: alloc_array_def pop_choice_def split: list.splits alloc_choice.splits)

lemma add_watcher_grow:
  assumes lp: "st_loops s loop = Some lp" and m: "mutex_ready lp s" and a: "wf_array lp"
    and full: "l_watcher_count lp = l_watcher_capacity lp"
    and nz: "loop \<noteq> NULL" "watcher \<noteq> NULL" and ok: "alloc_array s = (True, s1)"
  shows "pd_loop_add_watcher loop watcher s = Some (PD_OK, s1\<lparr>st_loops := (st_loops s)(loop \<mapsto>
    lp\<lparr>l_watcher_capacity := l_watcher_capacity lp * 2,
       l_watchers := (arr_realloc (l_watchers lp) (l_watcher_capacity lp * 2))[l_watcher_count lp := Some watcher],
       l_watcher_count := l_watcher_count lp + 1\<rparr>)\<rparr>)"
proof -
  obtain cs e where s1: "s1 = s\<lparr>st_choices := cs, st_errno := e\<rparr>"
    using alloc_array_frame [OF ok] by blast
  from a full nz m show ?thesis
    by (simp add: pd_loop_add_watcher_def lock_eq [OF lp m] heap_write_def wf_array_def
        alloc_array_loops ok s1 Let_def)
qed

lemma add_watcher_no_memory:
  assumes lp: "st_loops s loop = Some lp" and m: "mutex_ready lp s"
    and full: "l_watcher_count lp \<ge> l_watcher_capacity lp"
    and nz: "loop \<noteq> NULL" "watcher \<noteq> NULL" and ok: "alloc_array s = (False, s1)"
  shows "pd_loop_add_watcher loop watcher s = Some (PD_ERR_NO_MEMORY, s1)"
proof -
  obtain cs e where s1: "s1 = s\<lparr>st_choices := cs, st_errno := e\<rparr>"
    using alloc_array_frame [OF ok] by blast
  from full nz m lp show ?thesis
    by (simp add: pd_loop_add_watcher_def lock_eq [OF lp m] alloc_array_loops ok s1 Let_def fun_upd_idem)
qed

text \<open>
  \<open>upd_array lp lp'\<close>: only the three array fields of the loop differ. \<open>upd_alloc s s'\<close>:
  only the allocator's list and \<^verbatim>\<open>errno\<close> differ.
\<close>

definition upd_array :: "pd_loop \<Rightarrow> pd_loop \<Rightarrow> bool" where
  "upd_array lp lp' \<longleftrightarrow> lp' = lp\<lparr>l_watchers := l_watchers lp', l_watcher_count := l_watcher_count lp',
     l_watcher_capacity := l_watcher_capacity lp'\<rparr>"

definition upd_alloc :: "('ld, 'wd, 'td, 'k) pd_state \<Rightarrow> ('ld, 'wd, 'td, 'k) pd_state \<Rightarrow> bool" where
  "upd_alloc s s' \<longleftrightarrow> s' = s\<lparr>st_choices := st_choices s', st_errno := st_errno s'\<rparr>"

lemma upd_allocI: "\<exists>cs e. s' = s\<lparr>st_choices := cs, st_errno := e\<rparr> \<Longrightarrow> upd_alloc s s'"
  by (auto simp: upd_alloc_def)

lemma upd_alloc_refl [simp]: "upd_alloc s s"
  by (simp add: upd_alloc_def)

lemma upd_allocE:
  assumes "upd_alloc s s'"
  obtains cs e where "s' = s\<lparr>st_choices := cs, st_errno := e\<rparr>"
  using assms by (auto simp: upd_alloc_def)

lemma upd_alloc_frame [pd_frame]:
  assumes "upd_alloc s s'"
  shows "st_loops s' = st_loops s" "st_watchers s' = st_watchers s" "st_timers s' = st_timers s"
    "st_ldata s' = st_ldata s" "st_wdata s' = st_wdata s" "st_tdata s' = st_tdata s"
    "st_kernel s' = st_kernel s" "st_default_loop s' = st_default_loop s"
    "st_thread_safe s' = st_thread_safe s"
  using assms by (auto elim: upd_allocE)

lemma upd_array_refl [simp]: "upd_array lp lp"
  by (simp add: upd_array_def)

lemma add_watcher_cases:
  assumes lp: "st_loops s loop = Some lp" and m: "mutex_ready lp s" and a: "wf_array lp"
    and nz: "loop \<noteq> NULL" "watcher \<noteq> NULL"
  obtains (ok) lp' s1 where
      "pd_loop_add_watcher loop watcher s = Some (PD_OK, s1\<lparr>st_loops := (st_loops s)(loop \<mapsto> lp')\<rparr>)"
      "wf_array lp'" "watcher_list lp' = watcher_list lp @ [watcher]" "upd_array lp lp'" "upd_alloc s s1"
      "l_watcher_capacity lp' = (if l_watcher_count lp < l_watcher_capacity lp
         then l_watcher_capacity lp else 2 * l_watcher_capacity lp)"
  | (no_memory) s1 where
      "pd_loop_add_watcher loop watcher s = Some (PD_ERR_NO_MEMORY, s1)"
      "upd_alloc s s1" "l_watcher_count lp = l_watcher_capacity lp"
proof (cases "l_watcher_count lp < l_watcher_capacity lp")
  case True
  let ?lp = "lp\<lparr>l_watchers := (l_watchers lp)[l_watcher_count lp := Some watcher],
       l_watcher_count := l_watcher_count lp + 1\<rparr>"
  have "arr_holds (l_watchers ?lp) (watcher_list lp @ [watcher])"
    using arr_holds_snoc [OF wf_array_holds [OF a]] True a
    by (simp add: wf_array_count [OF a, symmetric]) (simp add: wf_array_def)
  then have "wf_array ?lp \<and> watcher_list ?lp = watcher_list lp @ [watcher]"
    using a by (intro wf_arrayI) (simp_all add: wf_array_count, simp_all add: wf_array_def)
  then show thesis
    using True by (intro ok [OF add_watcher_room [OF lp m a True nz]]) (simp_all add: upd_array_def)
next
  case False
  with a have full: "l_watcher_count lp = l_watcher_capacity lp" by (simp add: wf_array_def)
  obtain b s1 where alloc: "alloc_array s = (b, s1)" by fastforce
  then have s1: "upd_alloc s s1" by (intro upd_allocI alloc_array_frame)
  show thesis
  proof (cases b)
    case False
    then show thesis
      using no_memory [OF add_watcher_no_memory [OF lp m _ nz] s1] full alloc by simp
  next
    case True
    let ?ar = "arr_realloc (l_watchers lp) (l_watcher_capacity lp * 2)"
    let ?lp = "lp\<lparr>l_watcher_capacity := l_watcher_capacity lp * 2,
       l_watchers := ?ar[l_watcher_count lp := Some watcher], l_watcher_count := l_watcher_count lp + 1\<rparr>"
    have len: "length ?ar = l_watcher_capacity lp * 2" using a by (simp add: wf_array_def)
    have "arr_holds ?ar (watcher_list lp)"
      using a by (intro arr_holds_realloc wf_array_holds) (simp_all add: wf_array_def)
    then have "arr_holds (l_watchers ?lp) (watcher_list lp @ [watcher])"
      using arr_holds_snoc [of ?ar "watcher_list lp" watcher] len full a
      by (simp add: wf_array_count [OF a, symmetric]) (simp add: wf_array_def)
    then have "wf_array ?lp \<and> watcher_list ?lp = watcher_list lp @ [watcher]"
      using a len by (intro wf_arrayI) (simp_all add: wf_array_count [OF a], simp_all add: wf_array_def)
    moreover have "alloc_array s = (True, s1)" using alloc True by simp
    ultimately show thesis
      using full s1
      by (intro ok [OF add_watcher_grow [OF lp m a full nz]]) (simp_all add: upd_array_def)
  qed
qed

lemma remove_watcher_found:
  assumes lp: "st_loops s loop = Some lp" and m: "mutex_ready lp s" and a: "wf_array lp"
    and nz: "loop \<noteq> NULL" "watcher \<noteq> NULL" and mem: "watcher \<in> set (watcher_list lp)"
  obtains lp' where
    "pd_loop_remove_watcher loop watcher s = Some (PD_OK, s\<lparr>st_loops := (st_loops s)(loop \<mapsto> lp')\<rparr>)"
    "wf_array lp'" "watcher_list lp' = remove1 watcher (watcher_list lp)" "upd_array lp lp'"
    "l_watcher_capacity lp' = l_watcher_capacity lp"
proof -
  let ?ws = "watcher_list lp" and ?p = "\<lambda>x. x = watcher"
  have h: "arr_holds (l_watchers lp) ?ws" by (rule wf_array_holds [OF a])
  have n: "l_watcher_count lp = length ?ws" by (rule wf_array_count [OF a])
  obtain i where i: "first_index ?p ?ws = Some i"
    using mem first_index_None [of ?p ?ws] by (cases "first_index ?p ?ws") auto
  then have "i < length ?ws" by (blast dest: first_index_Some)
  then obtain ar where ar: "arr_shift (l_watchers lp) i (length ?ws) = Some ar"
    "arr_holds ar (delete_at i ?ws)" "length ar = length (l_watchers lp)"
    using arr_shift_holds [OF h] by blast
  let ?lp = "lp\<lparr>l_watchers := ar, l_watcher_count := length ?ws - 1\<rparr>"
  have "wf_array ?lp \<and> watcher_list ?lp = remove1 watcher ?ws"
    using ar a \<open>i < length ?ws\<close> delete_at_remove1 [OF i]
    by (intro wf_arrayI) (simp_all add: wf_array_def length_remove1 mem)
  moreover have "pd_loop_remove_watcher loop watcher s = Some (PD_OK, s\<lparr>st_loops := (st_loops s)(loop \<mapsto> ?lp)\<rparr>)"
    using nz m ar i n
    by (simp add: pd_loop_remove_watcher_def lock_eq [OF lp m] arr_find_first [OF h] heap_write_def)
  ultimately show thesis
    by (intro that [of ?lp]) (simp_all add: upd_array_def)
qed

lemma remove_watcher_missing:
  assumes lp: "st_loops s loop = Some lp" and m: "mutex_ready lp s" and a: "wf_array lp"
    and nz: "loop \<noteq> NULL" "watcher \<noteq> NULL" and mem: "watcher \<notin> set (watcher_list lp)"
  shows "pd_loop_remove_watcher loop watcher s = Some (PD_ERR_NOT_FOUND, s)"
proof -
  let ?ws = "watcher_list lp"
  have h: "arr_holds (l_watchers lp) ?ws" by (rule wf_array_holds [OF a])
  have "first_index (\<lambda>x. x = watcher) ?ws = None"
    using mem by (auto simp: first_index_None)
  then show ?thesis
    using nz m lp
    by (simp add: pd_loop_remove_watcher_def lock_eq [OF lp m] wf_array_count [OF a]
        arr_find_first [OF h] fun_upd_idem)
qed

section \<open>Properties\<close>

text \<open>A program state with nothing allocated, for the examples.\<close>

definition init_state :: "'k \<Rightarrow> bool \<Rightarrow> alloc_choice list \<Rightarrow> ('ld, 'wd, 'td, 'k) pd_state" where
  "init_state k ts cs = \<lparr>st_loops = (\<lambda>_. None), st_watchers = (\<lambda>_. None), st_timers = (\<lambda>_. None),
     st_ldata = (\<lambda>_. None), st_wdata = (\<lambda>_. None), st_tdata = (\<lambda>_. None), st_kernel = k,
     st_errno = 0, st_choices = cs, st_default_loop = NULL, st_thread_safe = ts\<rparr>"

definition example_loop :: "nat \<Rightarrow> addr list \<Rightarrow> pd_loop" where
  "example_loop cap ws = zero_loop\<lparr>l_ops := Some Ops_epoll, l_ref_count := 1, l_max_events_per_wait := 64,
     l_enable_thread_safety := 1, l_mutex := Mutex_free, l_platform_data := 500,
     l_watchers := map Some ws @ replicate (cap - length ws) None,
     l_watcher_count := length ws, l_watcher_capacity := cap\<rparr>"

lemmas example_defs = init_state_def example_loop_def zero_loop_def zero_watcher_def zero_timer_def

text \<open>
  C26: adding a watcher to a loop whose array is well formed has a defined result, appends
  the watcher to the list the array implements and doubles the capacity exactly when the
  array is full; when \<^verbatim>\<open>realloc\<close> fails it reports \<^verbatim>\<open>PD_ERR_NO_MEMORY\<close> and leaves the loop as
  it was. No other field of the loop and no other object changes, and the mutex is free
  again on every path.
\<close>

theorem pd_loop_add_watcher_appends:
  fixes s :: "('ld, 'wd, 'td, 'k) pd_state"
  assumes "st_loops s loop = Some lp" and "mutex_ready lp s" and "wf_array lp"
    and "loop \<noteq> NULL" and "watcher \<noteq> NULL"
  shows "\<exists>r lp' s1. pd_loop_add_watcher loop watcher s = Some (r, s1\<lparr>st_loops := (st_loops s)(loop \<mapsto> lp')\<rparr>) \<and>
    wf_array lp' \<and> upd_array lp lp' \<and> upd_alloc s s1 \<and>
    (r = PD_OK \<and> watcher_list lp' = watcher_list lp @ [watcher] \<and>
       l_watcher_capacity lp' = (if l_watcher_count lp < l_watcher_capacity lp
         then l_watcher_capacity lp else 2 * l_watcher_capacity lp) \<or>
     r = PD_ERR_NO_MEMORY \<and> lp' = lp \<and> l_watcher_count lp = l_watcher_capacity lp)"
  using assms
proof (cases rule: add_watcher_cases)
  case (ok lp' s1)
  then show ?thesis by blast
next
  case (no_memory s1)
  then have "s1\<lparr>st_loops := (st_loops s)(loop \<mapsto> lp)\<rparr> = s1"
    using assms(1) upd_alloc_frame(1) [OF no_memory(2)] by (metis locked_ready_same)
  then show ?thesis
    using no_memory assms(3) by (metis upd_array_refl)
qed

text \<open>The list of an example loop, and the conditions it meets.\<close>

lemma example_loop_wf [simp]:
  "0 < cap \<Longrightarrow> length ws \<le> cap \<Longrightarrow> wf_array (example_loop cap ws)"
  "length ws \<le> cap \<Longrightarrow> watcher_list (example_loop cap ws) = ws"
  "mutex_ready (example_loop cap ws) s"
  "l_watcher_count (example_loop cap ws) = length ws"
  "l_watcher_capacity (example_loop cap ws) = cap"
  by (auto simp: example_loop_def wf_array_def watcher_list_def arr_list_def mutex_ready_def comp_def)

theorem pd_loop_add_watcher_appends_witness:
  "\<exists>r lp' s1. pd_loop_add_watcher 1 30 ((init_state () True [] :: (unit, unit, unit, unit) pd_state)
      \<lparr>st_loops := [1 \<mapsto> example_loop 4 [10, 20]]\<rparr>) = Some (r, s1\<lparr>st_loops := [1 \<mapsto> lp']\<rparr>) \<and>
    wf_array lp' \<and> watcher_list lp' = [10, 20, 30]"
  using pd_loop_add_watcher_appends [of "(init_state () True [] :: (unit, unit, unit, unit) pd_state)
      \<lparr>st_loops := [1 \<mapsto> example_loop 4 [10, 20]]\<rparr>" 1 "example_loop 4 [10, 20]" 30]
  by auto

lemma remove_watcher_step:
  assumes "st_loops s loop = Some lp" and "mutex_ready lp s" and "wf_array lp"
    and "loop \<noteq> NULL" and "watcher \<noteq> NULL"
  obtains r lp' where
    "pd_loop_remove_watcher loop watcher s = Some (r, s\<lparr>st_loops := (st_loops s)(loop \<mapsto> lp')\<rparr>)"
    "wf_array lp'" "upd_array lp lp'" "l_watcher_capacity lp' = l_watcher_capacity lp"
    "watcher_list lp' = remove1 watcher (watcher_list lp)"
    "r = (if watcher \<in> set (watcher_list lp) then PD_OK else PD_ERR_NOT_FOUND)"
proof (cases "watcher \<in> set (watcher_list lp)")
  case True
  then show thesis using remove_watcher_found [OF assms True] that by metis
next
  case False
  then show thesis
    using remove_watcher_missing [OF assms False] assms(1,3) that
    by (metis locked_ready_same remove1_idem upd_array_refl)
qed

text \<open>
  C25: removing a watcher takes its first occurrence out of the list, keeps the order of the
  others and the capacity, and reports \<^verbatim>\<open>PD_OK\<close>; removing one that is not in the list
  reports \<^verbatim>\<open>PD_ERR_NOT_FOUND\<close> and changes nothing.
\<close>

theorem pd_loop_remove_watcher_removes:
  fixes s :: "('ld, 'wd, 'td, 'k) pd_state"
  assumes "st_loops s loop = Some lp" and "mutex_ready lp s" and "wf_array lp"
    and "loop \<noteq> NULL" and "watcher \<noteq> NULL"
  shows "\<exists>r lp'. pd_loop_remove_watcher loop watcher s = Some (r, s\<lparr>st_loops := (st_loops s)(loop \<mapsto> lp')\<rparr>) \<and>
    wf_array lp' \<and> upd_array lp lp' \<and> l_watcher_capacity lp' = l_watcher_capacity lp \<and>
    watcher_list lp' = remove1 watcher (watcher_list lp) \<and>
    r = (if watcher \<in> set (watcher_list lp) then PD_OK else PD_ERR_NOT_FOUND)"
  by (rule remove_watcher_step [OF assms]) blast

theorem pd_loop_remove_watcher_removes_witness:
  "\<exists>r lp'. pd_loop_remove_watcher 1 20 ((init_state () True [] :: (unit, unit, unit, unit) pd_state)
      \<lparr>st_loops := [1 \<mapsto> example_loop 4 [10, 20, 30]]\<rparr>) = Some (r, (init_state () True [])\<lparr>st_loops := [1 \<mapsto> lp']\<rparr>) \<and>
    watcher_list lp' = [10, 30] \<and> r = PD_OK"
  using pd_loop_remove_watcher_removes [of "(init_state () True [] :: (unit, unit, unit, unit) pd_state)
      \<lparr>st_loops := [1 \<mapsto> example_loop 4 [10, 20, 30]]\<rparr>" 1 "example_loop 4 [10, 20, 30]" 20]
  by auto

end
