(* ===== verification/Pd_Watcher.thy ===== *)
theory Pd_Watcher
  imports Pd_Loop_List
begin

text \<open>
  The generic watcher layer, \<^verbatim>\<open>src/watcher.c\<close>: one definition per function, over an
  operation table \<open>P\<close>.
\<close>

section \<open>The operations of \<^verbatim>\<open>src/watcher.c\<close>\<close>

definition pd_watcher_init ::
  "(('ld, 'wd, 'td, 'k) pd_state, 'z) pd_watcher_ops_scheme \<Rightarrow> addr \<Rightarrow> addr \<Rightarrow> int \<Rightarrow> pd_event \<Rightarrow>
   pd_callback option \<Rightarrow> addr \<Rightarrow> ('ld, 'wd, 'td, 'k) pd_state \<Rightarrow>
   (pd_error \<times> ('ld, 'wd, 'td, 'k) pd_state) option" where
  "pd_watcher_init P watcher loop fd events callback user_data s =
    (if watcher = NULL \<or> loop = NULL then Some (PD_ERR_INVALID_ARG, s)
     else do {
       s \<leftarrow> write_watcher watcher (\<lambda>w. w\<lparr>w_fd := fd, w_events := events, w_callback := callback,
              w_user_data := user_data, w_loop := loop, w_active := True, w_ref_count := 1\<rparr>) s;
       lp \<leftarrow> st_loops s loop;
       (result, s) \<leftarrow> (case loop_op op_watcher_register P lp of
          Some register \<Rightarrow> register loop watcher s
        | None \<Rightarrow> Some (PD_OK, s));
       if result \<noteq> PD_OK then Some (result, s)
       else do {
         (result, s) \<leftarrow> pd_loop_add_watcher loop watcher s;
         if result \<noteq> PD_OK
         then do {
           lp \<leftarrow> st_loops s loop;
           (_, s) \<leftarrow> (case loop_op op_watcher_unregister P lp of
              Some unregister \<Rightarrow> unregister watcher s
            | None \<Rightarrow> Some (PD_OK, s));
           Some (result, s) }
         else Some (PD_OK, s) } })"

definition pd_watcher_create ::
  "(('ld, 'wd, 'td, 'k) pd_state, 'z) pd_watcher_ops_scheme \<Rightarrow> addr \<Rightarrow> int \<Rightarrow> pd_event \<Rightarrow>
   pd_callback option \<Rightarrow> addr \<Rightarrow> ('ld, 'wd, 'td, 'k) pd_state \<Rightarrow>
   (addr \<times> ('ld, 'wd, 'td, 'k) pd_state) option" where
  "pd_watcher_create P loop fd events callback user_data s =
    (if loop = NULL then Some (NULL, s)
     else let (watcher, s) = calloc_watcher s in
       if watcher = NULL then Some (NULL, s)
       else do {
         (result, s) \<leftarrow> pd_watcher_init P watcher loop fd events callback user_data s;
         if result \<noteq> PD_OK
         then do { s \<leftarrow> free_watcher watcher s; Some (NULL, s) }
         else Some (watcher, s) })"

definition pd_watcher_create_for_handle ::
  "(('ld, 'wd, 'td, 'k) pd_state, 'z) pd_watcher_ops_scheme \<Rightarrow> addr \<Rightarrow> addr \<Rightarrow> pd_event \<Rightarrow>
   pd_callback option \<Rightarrow> addr \<Rightarrow> ('ld, 'wd, 'td, 'k) pd_state \<Rightarrow>
   (addr \<times> ('ld, 'wd, 'td, 'k) pd_state) option" where
  "pd_watcher_create_for_handle P loop handle events callback user_data s =
    (if loop = NULL then Some (NULL, s)
     else let (watcher, s) = calloc_watcher s in
       if watcher = NULL then Some (NULL, s)
       else do {
         s \<leftarrow> write_watcher watcher (\<lambda>w. w\<lparr>w_fd := - 1, w_handle := handle, w_is_handle := True,
                w_events := events, w_callback := callback, w_user_data := user_data,
                w_loop := loop, w_active := True, w_ref_count := 1\<rparr>) s;
         lp \<leftarrow> st_loops s loop;
         case loop_op op_watcher_register_handle P lp of
           None \<Rightarrow> do { s \<leftarrow> free_watcher watcher s; Some (NULL, s) }
         | Some register_handle \<Rightarrow> do {
             (result, s) \<leftarrow> register_handle loop watcher s;
             if result \<noteq> PD_OK then do { s \<leftarrow> free_watcher watcher s; Some (NULL, s) }
             else do {
               (result, s) \<leftarrow> pd_loop_add_watcher loop watcher s;
               if result \<noteq> PD_OK
               then do {
                 lp \<leftarrow> st_loops s loop;
                 (_, s) \<leftarrow> (case loop_op op_watcher_unregister P lp of
                    Some unregister \<Rightarrow> unregister watcher s
                  | None \<Rightarrow> Some (PD_OK, s));
                 s \<leftarrow> free_watcher watcher s;
                 Some (NULL, s) }
               else Some (watcher, s) } } })"

definition pd_watcher_cleanup ::
  "(('ld, 'wd, 'td, 'k) pd_state, 'z) pd_watcher_ops_scheme \<Rightarrow> addr \<Rightarrow>
   ('ld, 'wd, 'td, 'k) pd_state \<Rightarrow> ('ld, 'wd, 'td, 'k) pd_state option" where
  "pd_watcher_cleanup P watcher s =
    (if watcher = NULL then Some s
     else do {
       w \<leftarrow> st_watchers s watcher;
       s \<leftarrow> (if w_loop w = NULL then Some s
            else do {
              lp \<leftarrow> st_loops s (w_loop w);
              case loop_op op_watcher_unregister P lp of
                Some unregister \<Rightarrow> do { (_, s) \<leftarrow> unregister watcher s; Some s }
              | None \<Rightarrow> Some s });
       w \<leftarrow> st_watchers s watcher;
       if w_loop w = NULL then Some s
       else do { (_, s) \<leftarrow> pd_loop_remove_watcher (w_loop w) watcher s; Some s } })"

definition pd_watcher_update ::
  "(('ld, 'wd, 'td, 'k) pd_state, 'z) pd_watcher_ops_scheme \<Rightarrow> addr \<Rightarrow> pd_event \<Rightarrow>
   ('ld, 'wd, 'td, 'k) pd_state \<Rightarrow> (pd_error \<times> ('ld, 'wd, 'td, 'k) pd_state) option" where
  "pd_watcher_update P watcher events s =
    (if watcher = NULL then Some (PD_ERR_INVALID_ARG, s)
     else do {
       w \<leftarrow> st_watchers s watcher;
       if w_loop w = NULL then Some (PD_ERR_INVALID_ARG, s)
       else if \<not> w_active w then Some (PD_ERR_WATCHER_STOPPED, s)
       else do {
         s \<leftarrow> write_watcher watcher (\<lambda>w. w\<lparr>w_events := events\<rparr>) s;
         lp \<leftarrow> st_loops s (w_loop w);
         case loop_op op_watcher_update P lp of
           Some update \<Rightarrow> update watcher events s
         | None \<Rightarrow> Some (PD_OK, s) } })"

definition pd_watcher_stop ::
  "(('ld, 'wd, 'td, 'k) pd_state, 'z) pd_watcher_ops_scheme \<Rightarrow> addr \<Rightarrow>
   ('ld, 'wd, 'td, 'k) pd_state \<Rightarrow> (pd_error \<times> ('ld, 'wd, 'td, 'k) pd_state) option" where
  "pd_watcher_stop P watcher s =
    (if watcher = NULL then Some (PD_ERR_INVALID_ARG, s)
     else do {
       w \<leftarrow> st_watchers s watcher;
       if w_loop w = NULL then Some (PD_ERR_INVALID_ARG, s)
       else if \<not> w_active w then Some (PD_OK, s)
       else do {
         s \<leftarrow> write_watcher watcher (\<lambda>w. w\<lparr>w_active := False\<rparr>) s;
         lp \<leftarrow> st_loops s (w_loop w);
         case loop_op op_watcher_unregister P lp of
           Some unregister \<Rightarrow> do {
             (result, s) \<leftarrow> unregister watcher s;
             if result \<noteq> PD_OK
             then do { s \<leftarrow> write_watcher watcher (\<lambda>w. w\<lparr>w_active := True\<rparr>) s; Some (result, s) }
             else Some (PD_OK, s) }
         | None \<Rightarrow> Some (PD_OK, s) } })"

definition pd_watcher_start ::
  "(('ld, 'wd, 'td, 'k) pd_state, 'z) pd_watcher_ops_scheme \<Rightarrow> addr \<Rightarrow>
   ('ld, 'wd, 'td, 'k) pd_state \<Rightarrow> (pd_error \<times> ('ld, 'wd, 'td, 'k) pd_state) option" where
  "pd_watcher_start P watcher s =
    (if watcher = NULL then Some (PD_ERR_INVALID_ARG, s)
     else do {
       w \<leftarrow> st_watchers s watcher;
       if w_loop w = NULL then Some (PD_ERR_INVALID_ARG, s)
       else if w_active w then Some (PD_OK, s)
       else do {
         s \<leftarrow> write_watcher watcher (\<lambda>w. w\<lparr>w_active := True\<rparr>) s;
         lp \<leftarrow> st_loops s (w_loop w);
         case loop_op op_watcher_register P lp of
           Some register \<Rightarrow> do {
             (result, s) \<leftarrow> register (w_loop w) watcher s;
             if result \<noteq> PD_OK
             then do { s \<leftarrow> write_watcher watcher (\<lambda>w. w\<lparr>w_active := False\<rparr>) s; Some (result, s) }
             else Some (PD_OK, s) }
         | None \<Rightarrow> Some (PD_OK, s) } })"

definition pd_watcher_destroy ::
  "(('ld, 'wd, 'td, 'k) pd_state, 'z) pd_watcher_ops_scheme \<Rightarrow> addr \<Rightarrow>
   ('ld, 'wd, 'td, 'k) pd_state \<Rightarrow> ('ld, 'wd, 'td, 'k) pd_state option" where
  "pd_watcher_destroy P watcher s =
    (if watcher = NULL then Some s
     else do {
       (_, s) \<leftarrow> pd_watcher_stop P watcher s;
       s \<leftarrow> pd_watcher_cleanup P watcher s;
       free_watcher watcher s })"

definition pd_watcher_get_fd :: "addr \<Rightarrow> ('ld, 'wd, 'td, 'k) pd_state \<Rightarrow> int option" where
  "pd_watcher_get_fd watcher s =
    (if watcher = NULL then Some (- 1) else map_option w_fd (st_watchers s watcher))"

definition pd_watcher_get_events :: "addr \<Rightarrow> ('ld, 'wd, 'td, 'k) pd_state \<Rightarrow> pd_event option" where
  "pd_watcher_get_events watcher s =
    (if watcher = NULL then Some PD_EVENT_NONE else map_option w_events (st_watchers s watcher))"

text \<open>The bytes copied to the caller's buffer; the C result is their number.\<close>

definition pd_watcher_drain_read ::
  "(('ld, 'wd, 'td, 'k) pd_state, 'z) pd_watcher_ops_scheme \<Rightarrow> addr \<Rightarrow> addr \<Rightarrow> nat \<Rightarrow>
   ('ld, 'wd, 'td, 'k) pd_state \<Rightarrow> (8 word list \<times> ('ld, 'wd, 'td, 'k) pd_state) option" where
  "pd_watcher_drain_read P watcher buf len s =
    (if watcher = NULL then Some ([], s)
     else do {
       w \<leftarrow> st_watchers s watcher;
       if w_loop w = NULL then Some ([], s)
       else do {
         lp \<leftarrow> st_loops s (w_loop w);
         case loop_op op_watcher_drain_read P lp of
           Some drain_read \<Rightarrow> drain_read watcher buf len s
         | None \<Rightarrow> Some ([], s) } })"

end
