(* ===== verification/Pd_Contract.thy ===== *)
theory Pd_Contract
  imports Pd_Watcher
begin

text \<open>
  The contract between the generic watcher layer and a backend. \<open>pd_wf\<close> is the generic
  layer's invariant; the locale \<open>watcher_backend\<close> states what a backend's register,
  unregister and update promise to keep, and \<open>readiness_backend\<close> adds how they record the
  outcome in the watcher. The lemmas about \<^verbatim>\<open>src/watcher.c\<close> are proved once, inside the
  locales; each backend interprets them on its own operations.
\<close>

section \<open>The invariant of the generic layer\<close>

definition loop_ok :: "('ld, 'wd, 'td, 'k) pd_state \<Rightarrow> addr \<Rightarrow> pd_loop \<Rightarrow> bool" where
  "loop_ok s l lp \<longleftrightarrow> l \<noteq> NULL \<and> l_ops lp \<noteq> None \<and> wf_array lp \<and> mutex_ready lp s \<and>
     distinct (watcher_list lp) \<and>
     (\<forall>w\<in>set (watcher_list lp). \<exists>wt. st_watchers s w = Some wt \<and> w_loop wt = l)"

definition watcher_ok :: "('ld, 'wd, 'td, 'k) pd_state \<Rightarrow> addr \<Rightarrow> pd_watcher \<Rightarrow> bool" where
  "watcher_ok s w wt \<longleftrightarrow> w \<noteq> NULL \<and> (w_loop wt \<noteq> NULL \<longrightarrow> st_loops s (w_loop wt) \<noteq> None)"

definition pd_wf :: "('ld, 'wd, 'td, 'k) pd_state \<Rightarrow> bool" where
  "pd_wf s \<longleftrightarrow> (\<forall>l lp. st_loops s l = Some lp \<longrightarrow> loop_ok s l lp) \<and>
     (\<forall>w wt. st_watchers s w = Some wt \<longrightarrow> watcher_ok s w wt)"

lemma pd_wf_loop: "pd_wf s \<Longrightarrow> st_loops s l = Some lp \<Longrightarrow> loop_ok s l lp"
  by (simp add: pd_wf_def)

lemma pd_wf_watcher: "pd_wf s \<Longrightarrow> st_watchers s w = Some wt \<Longrightarrow> watcher_ok s w wt"
  by (simp add: pd_wf_def)

lemma pd_wf_loop_of:
  assumes "pd_wf s" and "st_watchers s w = Some wt" and "w_loop wt \<noteq> NULL"
  obtains lp where "st_loops s (w_loop wt) = Some lp" and "loop_ok s (w_loop wt) lp"
  using pd_wf_watcher [OF assms(1,2)] assms(3) pd_wf_loop [OF assms(1)]
  by (auto simp: watcher_ok_def)

section \<open>Frames\<close>

text \<open>
  A backend's watcher operations may set the loop's system error and no other field of a
  loop, may change one watcher, and touch no timer.
\<close>

definition upd_error :: "pd_loop \<Rightarrow> pd_loop \<Rightarrow> bool" where
  "upd_error lp lp' \<longleftrightarrow> lp' = lp\<lparr>l_system_error := l_system_error lp'\<rparr>"

definition only_watcher ::
  "(pd_watcher \<Rightarrow> pd_watcher \<Rightarrow> bool) \<Rightarrow> addr \<Rightarrow>
   ('ld, 'wd, 'td, 'k) pd_state \<Rightarrow> ('ld, 'wd, 'td, 'k) pd_state \<Rightarrow> bool" where
  "only_watcher R w s s' \<longleftrightarrow>
     (\<forall>l. rel_option upd_error (st_loops s l) (st_loops s' l)) \<and>
     (\<exists>x y. st_watchers s w = Some x \<and> st_watchers s' w = Some y \<and> R x y \<and>
        st_watchers s' = (st_watchers s)(w \<mapsto> y)) \<and>
     st_timers s' = st_timers s \<and> st_tdata s' = st_tdata s \<and>
     st_default_loop s' = st_default_loop s \<and> st_thread_safe s' = st_thread_safe s"

definition upd_pdata :: "pd_watcher \<Rightarrow> pd_watcher \<Rightarrow> bool" where
  "upd_pdata x y \<longleftrightarrow> y = x\<lparr>w_platform_data := w_platform_data y\<rparr>"

definition upd_status :: "pd_watcher \<Rightarrow> pd_watcher \<Rightarrow> bool" where
  "upd_status x y \<longleftrightarrow> y = x\<lparr>w_platform_data := w_platform_data y, w_active := w_active y,
     w_events := w_events y\<rparr>"

lemma upd_error_refl [simp]: "upd_error lp lp"
  by (simp add: upd_error_def)

lemma upd_error_set [simp]: "upd_error lp (lp\<lparr>l_system_error := e\<rparr>)"
  by (simp add: upd_error_def)

lemma upd_errorE:
  assumes "upd_error lp lp'"
  obtains e where "lp' = lp\<lparr>l_system_error := e\<rparr>"
  using assms by (auto simp: upd_error_def)

lemma upd_error_trans: "upd_error a b \<Longrightarrow> upd_error b c \<Longrightarrow> upd_error a c"
  by (auto elim!: upd_errorE)

lemma upd_pdata_refl [simp]: "upd_pdata x x"
  by (simp add: upd_pdata_def)

lemma upd_pdata_set [simp]: "upd_pdata x (x\<lparr>w_platform_data := p\<rparr>)"
  by (simp add: upd_pdata_def)

lemma upd_pdataE:
  assumes "upd_pdata x y"
  obtains p where "y = x\<lparr>w_platform_data := p\<rparr>"
  using assms by (auto simp: upd_pdata_def)

lemma upd_statusE:
  assumes "upd_status x y"
  obtains p a e where "y = x\<lparr>w_platform_data := p, w_active := a, w_events := e\<rparr>"
  using assms by (auto simp: upd_status_def)

lemma upd_status_intros [simp]:
  "upd_status x x"
  "upd_status x (x\<lparr>w_active := a\<rparr>)"
  "upd_status x (x\<lparr>w_events := e\<rparr>)"
  by (simp_all add: upd_status_def)

lemma upd_pdata_status: "upd_pdata x y \<Longrightarrow> upd_status x y"
  by (auto simp: upd_status_def elim!: upd_pdataE)

lemma upd_status_trans: "upd_status a b \<Longrightarrow> upd_status b c \<Longrightarrow> upd_status a c"
  by (elim upd_statusE) (simp add: upd_status_def)

lemma rel_error_trans:
  "rel_option upd_error a b \<Longrightarrow> rel_option upd_error b c \<Longrightarrow> rel_option upd_error a c"
  by (auto simp: option_rel_Some1 option_rel_Some2 intro: upd_error_trans
      elim!: option.rel_cases)

lemma rel_error_refl [simp]: "rel_option upd_error a a"
  by (simp add: option.rel_refl)

lemma only_watcher_mono:
  "only_watcher R w s s' \<Longrightarrow> (\<And>x y. R x y \<Longrightarrow> R' x y) \<Longrightarrow> only_watcher R' w s s'"
  unfolding only_watcher_def by blast

lemma only_watcher_trans:
  assumes "only_watcher upd_status w s1 s2" and "only_watcher upd_status w s2 s3"
  shows "only_watcher upd_status w s1 s3"
  using assms unfolding only_watcher_def
  by (auto intro: rel_error_trans upd_status_trans)

lemma only_watcher_write:
  "st_watchers s w = Some x \<Longrightarrow> R x y \<Longrightarrow> only_watcher R w s (s\<lparr>st_watchers := (st_watchers s)(w \<mapsto> y)\<rparr>)"
  by (simp add: only_watcher_def)

lemma loop_ok_error:
  "upd_error lp lp' \<Longrightarrow> loop_ok s l lp \<Longrightarrow> loop_ok s l lp'"
  by (auto simp: loop_ok_def wf_array_def watcher_list_def elim!: upd_errorE)

lemma only_watcherE:
  assumes "only_watcher R w s s'"
  obtains x y where "st_watchers s w = Some x" "st_watchers s' w = Some y" "R x y"
    "st_watchers s' = (st_watchers s)(w \<mapsto> y)"
    "\<And>l. rel_option upd_error (st_loops s l) (st_loops s' l)"
    "st_timers s' = st_timers s" "st_tdata s' = st_tdata s"
    "st_default_loop s' = st_default_loop s" "st_thread_safe s' = st_thread_safe s"
  using assms unfolding only_watcher_def by blast

lemma rel_error_cases:
  assumes "rel_option upd_error a (Some lp')"
  obtains lp e where "a = Some lp" "lp' = lp\<lparr>l_system_error := e\<rparr>"
  using assms by (auto simp: option_rel_Some2 elim!: upd_errorE)

lemma rel_error_Some:
  assumes "rel_option upd_error (Some lp) b"
  obtains e where "b = Some (lp\<lparr>l_system_error := e\<rparr>)"
  using assms by (auto simp: option_rel_Some1 elim!: upd_errorE)

lemma mutex_ready_frame: "st_thread_safe s' = st_thread_safe s \<Longrightarrow> mutex_ready lp s' = mutex_ready lp s"
  by (simp add: mutex_ready_def uses_mutex_def)

text \<open>A change of one watcher that keeps its loop keeps the invariant.\<close>

lemma pd_wf_only_watcher:
  assumes wf: "pd_wf s" and fr: "only_watcher R w s s'"
    and keeps: "\<And>x y. R x y \<Longrightarrow> w_loop y = w_loop x"
  shows "pd_wf s'"
proof -
  from fr obtain x y where x: "st_watchers s w = Some x" and y: "R x y"
    "st_watchers s' = (st_watchers s)(w \<mapsto> y)"
    and loops: "\<And>l. rel_option upd_error (st_loops s l) (st_loops s' l)"
    and ts: "st_thread_safe s' = st_thread_safe s"
    by (elim only_watcherE) blast
  have same_loop: "\<exists>vt'. st_watchers s' v = Some vt' \<and> w_loop vt' = w_loop vt"
    if "st_watchers s v = Some vt" for v vt
    using that x y keeps by auto
  have "loop_ok s' l lp'" if lp': "st_loops s' l = Some lp'" for l lp'
  proof -
    have "rel_option upd_error (st_loops s l) (Some lp')" using loops [of l] lp' by simp
    then obtain lp e where lp: "st_loops s l = Some lp" "lp' = lp\<lparr>l_system_error := e\<rparr>"
      by (rule rel_error_cases)
    then have "loop_ok s l lp" using pd_wf_loop [OF wf] by blast
    then have "loop_ok s l lp'" using lp(2) by (simp add: loop_ok_error [of lp])
    then show ?thesis
      using same_loop mutex_ready_frame [OF ts] unfolding loop_ok_def by metis
  qed
  moreover have "watcher_ok s' v vt" if vt: "st_watchers s' v = Some vt" for v vt
  proof -
    obtain vt0 where v: "st_watchers s v = Some vt0" "w_loop vt = w_loop vt0"
      using vt x y keeps by (cases "v = w") auto
    then have "watcher_ok s v vt0" using pd_wf_watcher [OF wf] by blast
    then show ?thesis
      using v loops [of "w_loop vt0"] by (auto simp: watcher_ok_def elim!: rel_error_Some)
  qed
  ultimately show ?thesis by (simp add: pd_wf_def)
qed

lemma upd_status_loop: "upd_status x y \<Longrightarrow> w_loop y = w_loop x"
  by (auto elim!: upd_statusE)

lemma upd_pdata_loop: "upd_pdata x y \<Longrightarrow> w_loop y = w_loop x"
  by (auto elim!: upd_pdataE)

lemmas pd_wf_status = pd_wf_only_watcher [OF _ _ upd_status_loop]
lemmas pd_wf_pdata = pd_wf_only_watcher [OF _ _ upd_pdata_loop]

section \<open>The contract\<close>

text \<open>
  \<open>same_pdata\<close>: the second state has the platform data of the first, held by the same
  loops and watchers or fewer. A backend's invariant must survive such a change, which is
  what the generic layer does between two calls of the backend.
\<close>

definition loop_pdata :: "('ld, 'wd, 'td, 'k) pd_state \<Rightarrow> addr \<Rightarrow> addr option" where
  "loop_pdata s l = map_option l_platform_data (st_loops s l)"

definition watcher_pdata :: "('ld, 'wd, 'td, 'k) pd_state \<Rightarrow> addr \<Rightarrow> addr option" where
  "watcher_pdata s w = (case st_watchers s w of None \<Rightarrow> None
     | Some x \<Rightarrow> if w_platform_data x = NULL then None else Some (w_platform_data x))"

definition same_pdata :: "('ld, 'wd, 'td, 'k) pd_state \<Rightarrow> ('ld, 'wd, 'td, 'k) pd_state \<Rightarrow> bool" where
  "same_pdata s s' \<longleftrightarrow> loop_pdata s' \<subseteq>\<^sub>m loop_pdata s \<and> watcher_pdata s' \<subseteq>\<^sub>m watcher_pdata s \<and>
     st_ldata s' = st_ldata s \<and> st_wdata s' = st_wdata s \<and> st_kernel s' = st_kernel s"

lemma same_pdata_refl [simp]: "same_pdata s s"
  by (simp add: same_pdata_def)

locale watcher_backend =
  fixes P :: "(('ld, 'wd, 'td, 'k) pd_state, 'z) pd_watcher_ops_scheme"
    and reg :: "addr \<Rightarrow> addr \<Rightarrow> ('ld, 'wd, 'td, 'k) pd_state \<Rightarrow> (pd_error \<times> ('ld, 'wd, 'td, 'k) pd_state) option"
    and unreg :: "addr \<Rightarrow> ('ld, 'wd, 'td, 'k) pd_state \<Rightarrow> (pd_error \<times> ('ld, 'wd, 'td, 'k) pd_state) option"
    and upd :: "addr \<Rightarrow> pd_event \<Rightarrow> ('ld, 'wd, 'td, 'k) pd_state \<Rightarrow> (pd_error \<times> ('ld, 'wd, 'td, 'k) pd_state) option"
    and binv :: "('ld, 'wd, 'td, 'k) pd_state \<Rightarrow> bool"
  assumes slots: "op_watcher_register P = Some reg" "op_watcher_unregister P = Some unreg"
      "op_watcher_update P = Some upd"
    and binv_stable: "binv s \<Longrightarrow> same_pdata s s' \<Longrightarrow> binv s'"
    and reg_step: "pd_wf s \<Longrightarrow> binv s \<Longrightarrow> st_watchers s w = Some wt \<Longrightarrow> w_loop wt \<noteq> NULL \<Longrightarrow>
      \<exists>r s'. reg (w_loop wt) w s = Some (r, s') \<and> only_watcher upd_pdata w s s' \<and> binv s'"
    and unreg_step: "pd_wf s \<Longrightarrow> binv s \<Longrightarrow> st_watchers s w = Some wt \<Longrightarrow> w_loop wt \<noteq> NULL \<Longrightarrow>
      \<exists>r s'. unreg w s = Some (r, s') \<and> only_watcher upd_pdata w s s' \<and> binv s'"
    and upd_step: "pd_wf s \<Longrightarrow> binv s \<Longrightarrow> st_watchers s w = Some wt \<Longrightarrow> w_loop wt \<noteq> NULL \<Longrightarrow>
      w_events wt = ev \<Longrightarrow>
      \<exists>r s'. upd w ev s = Some (r, s') \<and> only_watcher upd_pdata w s s' \<and> binv s'"

text \<open>
  On the readiness backends the watcher's platform data is present exactly while it is
  registered: a successful register sets it, a failing one does not touch it, a successful
  unregister clears it and a failing one keeps it.
\<close>

locale readiness_backend = watcher_backend +
  assumes reg_ok: "pd_wf s \<Longrightarrow> binv s \<Longrightarrow> st_watchers s w = Some wt \<Longrightarrow> w_loop wt \<noteq> NULL \<Longrightarrow>
      reg (w_loop wt) w s = Some (PD_OK, s') \<Longrightarrow> \<exists>y. st_watchers s' w = Some y \<and> w_platform_data y \<noteq> NULL"
    and reg_fail: "pd_wf s \<Longrightarrow> binv s \<Longrightarrow> st_watchers s w = Some wt \<Longrightarrow> w_loop wt \<noteq> NULL \<Longrightarrow>
      reg (w_loop wt) w s = Some (r, s') \<Longrightarrow> r \<noteq> PD_OK \<Longrightarrow> st_watchers s' w = st_watchers s w"
    and unreg_ok: "pd_wf s \<Longrightarrow> binv s \<Longrightarrow> st_watchers s w = Some wt \<Longrightarrow> w_loop wt \<noteq> NULL \<Longrightarrow>
      unreg w s = Some (PD_OK, s') \<Longrightarrow> \<exists>y. st_watchers s' w = Some y \<and> w_platform_data y = NULL"
    and unreg_fail: "pd_wf s \<Longrightarrow> binv s \<Longrightarrow> st_watchers s w = Some wt \<Longrightarrow> w_loop wt \<noteq> NULL \<Longrightarrow>
      unreg w s = Some (r, s') \<Longrightarrow> r \<noteq> PD_OK \<Longrightarrow> st_watchers s' w = st_watchers s w"
    and upd_same: "pd_wf s \<Longrightarrow> binv s \<Longrightarrow> st_watchers s w = Some wt \<Longrightarrow> w_loop wt \<noteq> NULL \<Longrightarrow>
      w_events wt = ev \<Longrightarrow> upd w ev s = Some (r, s') \<Longrightarrow> st_watchers s' w = st_watchers s w"

section \<open>Stop, start and update\<close>

context watcher_backend begin

lemma write_status:
  assumes "pd_wf s" "binv s" "st_watchers s w = Some x" "upd_status x y"
    "w_platform_data y = w_platform_data x"
  shows "pd_wf (s\<lparr>st_watchers := (st_watchers s)(w \<mapsto> y)\<rparr>)"
    "binv (s\<lparr>st_watchers := (st_watchers s)(w \<mapsto> y)\<rparr>)"
    "only_watcher upd_status w s (s\<lparr>st_watchers := (st_watchers s)(w \<mapsto> y)\<rparr>)"
proof -
  show fr: "only_watcher upd_status w s (s\<lparr>st_watchers := (st_watchers s)(w \<mapsto> y)\<rparr>)"
    using assms(3,4) by (rule only_watcher_write)
  show "pd_wf (s\<lparr>st_watchers := (st_watchers s)(w \<mapsto> y)\<rparr>)"
    using assms(1) fr by (rule pd_wf_status)
  show "binv (s\<lparr>st_watchers := (st_watchers s)(w \<mapsto> y)\<rparr>)"
    using assms(2) by (rule binv_stable)
      (use assms(3,5) in \<open>auto simp: same_pdata_def loop_pdata_def watcher_pdata_def map_le_def dom_def\<close>)
qed

lemma loop_slots:
  assumes "loop_ok s l lp"
  shows "loop_op op_watcher_register P lp = Some reg"
    "loop_op op_watcher_unregister P lp = Some unreg"
    "loop_op op_watcher_update P lp = Some upd"
  using assms slots by (simp_all add: loop_op_def loop_ok_def)

text \<open>
  The three operations share their shape: write the watcher, find the loop, call the
  backend. \<open>loop_after_write\<close> finds the loop after the first step.
\<close>

lemma loop_after_write:
  assumes "pd_wf s" "st_watchers s w = Some wt" "w_loop wt \<noteq> NULL"
  obtains lp where "st_loops s (w_loop wt) = Some lp"
    "loop_op op_watcher_register P lp = Some reg"
    "loop_op op_watcher_unregister P lp = Some unreg"
    "loop_op op_watcher_update P lp = Some upd"
  using pd_wf_loop_of [OF assms] loop_slots by metis

lemma stop_step:
  assumes wf: "pd_wf s" "binv s" and w: "st_watchers s w = Some wt" and l: "w_loop wt \<noteq> NULL"
  obtains r s' y where "pd_watcher_stop P w s = Some (r, s')" "st_watchers s' w = Some y"
    "only_watcher upd_status w s s'" "pd_wf s'" "binv s'"
    "w_active y = (w_active wt \<and> r \<noteq> PD_OK)" "w_events y = w_events wt"
    "\<not> w_active wt \<longrightarrow> r = PD_OK \<and> s' = s"
proof -
  have nz: "w \<noteq> NULL" using pd_wf_watcher [OF wf(1) w] by (simp add: watcher_ok_def)
  show thesis
  proof (cases "w_active wt")
    case False
    then have "pd_watcher_stop P w s = Some (PD_OK, s)"
      using nz l w by (simp add: pd_watcher_stop_def)
    then show thesis
      using False w wf by (intro that [of PD_OK s wt]) (auto simp: only_watcher_def)
  next
    case True
    let ?x = "wt\<lparr>w_active := False\<rparr>" and ?s1 = "s\<lparr>st_watchers := (st_watchers s)(w \<mapsto> wt\<lparr>w_active := False\<rparr>)\<rparr>"
    have s1: "pd_wf ?s1" "binv ?s1" "only_watcher upd_status w s ?s1"
      using write_status [OF wf w, of ?x] by simp_all
    obtain r s2 where s2: "unreg w ?s1 = Some (r, s2)" "only_watcher upd_pdata w ?s1 s2" "binv s2"
      using unreg_step [OF s1(1,2), of w ?x] l by auto
    obtain y where y: "st_watchers s2 w = Some y" "upd_pdata ?x y"
      using s2(2) by (elim only_watcherE) auto
    have s2': "pd_wf s2" "only_watcher upd_status w s s2"
      using pd_wf_pdata [OF s1(1) s2(2)] only_watcher_trans [OF s1(3) only_watcher_mono [OF s2(2) upd_pdata_status]]
      by blast+
    obtain lp where lp: "st_loops s (w_loop wt) = Some lp" "loop_op op_watcher_unregister P lp = Some unreg"
      using loop_after_write [OF wf(1) w l] by blast
    show thesis
    proof (cases "r = PD_OK")
      case True
      then have "pd_watcher_stop P w s = Some (PD_OK, s2)"
        using nz l w \<open>w_active wt\<close> lp s2(1) by (simp add: pd_watcher_stop_def heap_write_def)
      then show thesis
        using True s2' s2(3) y \<open>w_active wt\<close> by (intro that [of PD_OK s2 y]) (auto elim!: upd_pdataE)
    next
      case False
      let ?y = "y\<lparr>w_active := True\<rparr>" and ?s3 = "s2\<lparr>st_watchers := (st_watchers s2)(w \<mapsto> y\<lparr>w_active := True\<rparr>)\<rparr>"
      have s3: "pd_wf ?s3" "binv ?s3" "only_watcher upd_status w s2 ?s3"
        using write_status [OF s2'(1) s2(3) y(1), of ?y] by simp_all
      have "pd_watcher_stop P w s = Some (r, ?s3)"
        using nz l w \<open>w_active wt\<close> lp s2(1) y(1) False by (simp add: pd_watcher_stop_def heap_write_def)
      then show thesis
        using False s3 only_watcher_trans [OF s2'(2) s3(3)] y(2) \<open>w_active wt\<close>
        by (intro that [of r ?s3 ?y]) (auto elim!: upd_pdataE)
    qed
  qed
qed

lemma start_step:
  assumes wf: "pd_wf s" "binv s" and w: "st_watchers s w = Some wt" and l: "w_loop wt \<noteq> NULL"
  obtains r s' y where "pd_watcher_start P w s = Some (r, s')" "st_watchers s' w = Some y"
    "only_watcher upd_status w s s'" "pd_wf s'" "binv s'"
    "w_active y = (w_active wt \<or> r = PD_OK)" "w_events y = w_events wt"
    "w_active wt \<longrightarrow> r = PD_OK \<and> s' = s"
proof -
  have nz: "w \<noteq> NULL" using pd_wf_watcher [OF wf(1) w] by (simp add: watcher_ok_def)
  show thesis
  proof (cases "w_active wt")
    case True
    then have "pd_watcher_start P w s = Some (PD_OK, s)"
      using nz l w by (simp add: pd_watcher_start_def)
    then show thesis
      using True w wf by (intro that [of PD_OK s wt]) (auto simp: only_watcher_def)
  next
    case False
    let ?x = "wt\<lparr>w_active := True\<rparr>" and ?s1 = "s\<lparr>st_watchers := (st_watchers s)(w \<mapsto> wt\<lparr>w_active := True\<rparr>)\<rparr>"
    have s1: "pd_wf ?s1" "binv ?s1" "only_watcher upd_status w s ?s1"
      using write_status [OF wf w, of ?x] by simp_all
    obtain r s2 where s2: "reg (w_loop wt) w ?s1 = Some (r, s2)" "only_watcher upd_pdata w ?s1 s2" "binv s2"
      using reg_step [OF s1(1,2), of w ?x] l by auto
    obtain y where y: "st_watchers s2 w = Some y" "upd_pdata ?x y"
      using s2(2) by (elim only_watcherE) auto
    have s2': "pd_wf s2" "only_watcher upd_status w s s2"
      using pd_wf_pdata [OF s1(1) s2(2)] only_watcher_trans [OF s1(3) only_watcher_mono [OF s2(2) upd_pdata_status]]
      by blast+
    obtain lp where lp: "st_loops s (w_loop wt) = Some lp" "loop_op op_watcher_register P lp = Some reg"
      using loop_after_write [OF wf(1) w l] by blast
    show thesis
    proof (cases "r = PD_OK")
      case True
      then have "pd_watcher_start P w s = Some (PD_OK, s2)"
        using nz l w False lp s2(1) by (simp add: pd_watcher_start_def heap_write_def)
      then show thesis
        using True s2' s2(3) y False by (intro that [of PD_OK s2 y]) (auto elim!: upd_pdataE)
    next
      case fail: False
      let ?y = "y\<lparr>w_active := False\<rparr>" and ?s3 = "s2\<lparr>st_watchers := (st_watchers s2)(w \<mapsto> y\<lparr>w_active := False\<rparr>)\<rparr>"
      have s3: "pd_wf ?s3" "binv ?s3" "only_watcher upd_status w s2 ?s3"
        using write_status [OF s2'(1) s2(3) y(1), of ?y] by simp_all
      have "pd_watcher_start P w s = Some (r, ?s3)"
        using nz l w False lp s2(1) y(1) fail by (simp add: pd_watcher_start_def heap_write_def)
      then show thesis
        using fail s3 only_watcher_trans [OF s2'(2) s3(3)] y(2) False
        by (intro that [of r ?s3 ?y]) (auto elim!: upd_pdataE)
    qed
  qed
qed

end

section \<open>Changes of the watcher list\<close>

definition upd_list :: "pd_loop \<Rightarrow> pd_loop \<Rightarrow> bool" where
  "upd_list lp lp' \<longleftrightarrow> lp' = lp\<lparr>l_watchers := l_watchers lp', l_watcher_count := l_watcher_count lp',
     l_watcher_capacity := l_watcher_capacity lp', l_system_error := l_system_error lp'\<rparr>"

lemma upd_arrayE:
  assumes "upd_array lp lp'"
  obtains a n c where "lp' = lp\<lparr>l_watchers := a, l_watcher_count := n, l_watcher_capacity := c\<rparr>"
  using assms by (auto simp: upd_array_def)

lemma upd_listE:
  assumes "upd_list lp lp'"
  obtains a n c e where "lp' = lp\<lparr>l_watchers := a, l_watcher_count := n, l_watcher_capacity := c,
    l_system_error := e\<rparr>"
  using assms by (auto simp: upd_list_def)

lemma upd_list_intros:
  "upd_array lp lp' \<Longrightarrow> upd_list lp lp'" "upd_error lp lp' \<Longrightarrow> upd_list lp lp'" "upd_list lp lp"
  by (auto simp: upd_list_def elim!: upd_arrayE upd_errorE)

lemma upd_list_trans: "upd_list a b \<Longrightarrow> upd_list b c \<Longrightarrow> upd_list a c"
  by (elim upd_listE) (simp add: upd_list_def)

lemma pd_wf_array:
  assumes wf: "pd_wf s" and lp: "st_loops s l = Some lp" and up: "upd_array lp lp'"
    and new: "wf_array lp'" "distinct (watcher_list lp')"
      "\<And>w. w \<in> set (watcher_list lp') \<Longrightarrow> \<exists>wt. st_watchers s w = Some wt \<and> w_loop wt = l"
  shows "pd_wf (s\<lparr>st_loops := (st_loops s)(l \<mapsto> lp')\<rparr>)"
proof -
  let ?s = "s\<lparr>st_loops := (st_loops s)(l \<mapsto> lp')\<rparr>"
  have "loop_ok ?s k kp" if "st_loops ?s k = Some kp" for k kp
  proof (cases "k = l")
    case True
    then show ?thesis
      using that pd_wf_loop [OF wf lp] up new by (auto simp: loop_ok_def elim!: upd_arrayE)
  next
    case False
    then show ?thesis
      using that pd_wf_loop [OF wf, of k kp] by (auto simp: loop_ok_def)
  qed
  moreover have "watcher_ok ?s w wt" if "st_watchers ?s w = Some wt" for w wt
    using that pd_wf_watcher [OF wf, of w wt] lp by (auto simp: watcher_ok_def)
  ultimately show ?thesis by (simp add: pd_wf_def)
qed

text \<open>Consuming allocator decisions keeps the invariant.\<close>

lemma pd_wf_alloc:
  assumes "pd_wf s" and "upd_alloc s s1"
  shows "pd_wf s1"
  using assms unfolding pd_wf_def loop_ok_def watcher_ok_def mutex_ready_def uses_mutex_def
  by (simp add: upd_alloc_frame [OF assms(2)])

text \<open>Freeing a watcher that no loop lists keeps the invariant.\<close>

lemma pd_wf_free_watcher:
  assumes wf: "pd_wf s" and w: "\<And>l lp. st_loops s l = Some lp \<Longrightarrow> w \<notin> set (watcher_list lp)"
  shows "pd_wf (s\<lparr>st_watchers := (st_watchers s)(w := None)\<rparr>)"
  unfolding pd_wf_def
proof (intro conjI allI impI)
  fix l lp assume lp: "st_loops (s\<lparr>st_watchers := (st_watchers s)(w := None)\<rparr>) l = Some lp"
  then have "loop_ok s l lp" "w \<notin> set (watcher_list lp)"
    using pd_wf_loop [OF wf, of l lp] w [of l lp] by simp_all
  then show "loop_ok (s\<lparr>st_watchers := (st_watchers s)(w := None)\<rparr>) l lp"
    unfolding loop_ok_def by auto
next
  fix v vt assume "st_watchers (s\<lparr>st_watchers := (st_watchers s)(w := None)\<rparr>) v = Some vt"
  then have "watcher_ok s v vt"
    using pd_wf_watcher [OF wf, of v vt] by (simp split: if_splits)
  then show "watcher_ok (s\<lparr>st_watchers := (st_watchers s)(w := None)\<rparr>) v vt"
    by (simp add: watcher_ok_def)
qed

text \<open>A watcher is listed by its own loop only.\<close>

lemma pd_wf_listed:
  "pd_wf s \<Longrightarrow> st_loops s l = Some lp \<Longrightarrow> w \<in> set (watcher_list lp) \<Longrightarrow> st_watchers s w = Some wt \<Longrightarrow>
   w_loop wt = l"
  using pd_wf_loop [of s l lp] by (auto simp: loop_ok_def)

text \<open>
  \<open>lists_become f\<close>: the list of the loop at each address \<open>l\<close> is changed by \<open>f l\<close>, no
  loop appears or disappears, and nothing of a loop but its array and its error changes.
\<close>

definition lists_become ::
  "(addr \<Rightarrow> addr list \<Rightarrow> addr list) \<Rightarrow> ('ld, 'wd, 'td, 'k) pd_state \<Rightarrow> ('ld, 'wd, 'td, 'k) pd_state \<Rightarrow> bool" where
  "lists_become f s s' \<longleftrightarrow>
     (\<forall>l. st_loops s' l = None \<longleftrightarrow> st_loops s l = None) \<and>
     (\<forall>l lp lp'. st_loops s l = Some lp \<longrightarrow> st_loops s' l = Some lp' \<longrightarrow>
        upd_list lp lp' \<and> watcher_list lp' = f l (watcher_list lp)) \<and>
     st_timers s' = st_timers s \<and> st_tdata s' = st_tdata s \<and>
     st_default_loop s' = st_default_loop s \<and> st_thread_safe s' = st_thread_safe s"

lemma lists_become_D:
  assumes "lists_become f s s'" and "st_loops s l = Some lp"
  obtains lp' where "st_loops s' l = Some lp'" "upd_list lp lp'" "watcher_list lp' = f l (watcher_list lp)"
  using assms unfolding lists_become_def by (metis option.exhaust)

lemma lists_become_back:
  assumes "lists_become f s s'" and "st_loops s' l = Some lp'"
  obtains lp where "st_loops s l = Some lp" "upd_list lp lp'" "watcher_list lp' = f l (watcher_list lp)"
proof -
  have "st_loops s' l = None \<longleftrightarrow> st_loops s l = None" using assms(1) by (simp add: lists_become_def)
  with assms(2) have "st_loops s l \<noteq> None" by simp
  then obtain lp where "st_loops s l = Some lp" by blast
  with assms that show thesis by (simp add: lists_become_def)
qed

lemma lists_become_trans:
  assumes "lists_become f s1 s2" and "lists_become g s2 s3"
  shows "lists_become (\<lambda>l ws. g l (f l ws)) s1 s3"
proof -
  have "upd_list lp lp' \<and> watcher_list lp' = g l (f l (watcher_list lp))"
    if lp: "st_loops s1 l = Some lp" and lp': "st_loops s3 l = Some lp'" for l lp lp'
  proof -
    obtain lp2 where "st_loops s2 l = Some lp2" "upd_list lp lp2" "watcher_list lp2 = f l (watcher_list lp)"
      using lists_become_D [OF assms(1) lp] .
    moreover from lists_become_D [OF assms(2) this(1)] lp'
    have "upd_list lp2 lp'" "watcher_list lp' = g l (watcher_list lp2)" by auto
    ultimately show ?thesis by (auto intro: upd_list_trans)
  qed
  moreover have "st_loops s3 l = None \<longleftrightarrow> st_loops s1 l = None" for l
    using assms by (simp add: lists_become_def)
  ultimately show ?thesis using assms by (simp add: lists_become_def)
qed

lemma lists_become_cong:
  assumes "lists_become f s s'" and "\<And>l lp. st_loops s l = Some lp \<Longrightarrow> f l (watcher_list lp) = g l (watcher_list lp)"
  shows "lists_become g s s'"
  using assms by (simp add: lists_become_def)

lemma watcher_list_error [simp]: "watcher_list (lp\<lparr>l_system_error := e\<rparr>) = watcher_list lp"
  by (simp add: watcher_list_def)

lemma lists_become_only_watcher:
  assumes "only_watcher R w s s'"
  shows "lists_become (\<lambda>_ ws. ws) s s'"
proof -
  have rel: "rel_option upd_error (st_loops s l) (st_loops s' l)" for l
    using assms by (simp add: only_watcher_def)
  then have "st_loops s' l = None \<longleftrightarrow> st_loops s l = None" for l
    by (metis option.rel_distinct(1,2) option.exhaust)
  moreover have "upd_list lp lp' \<and> watcher_list lp' = watcher_list lp"
    if "st_loops s l = Some lp" "st_loops s' l = Some lp'" for l lp lp'
    using rel [of l] that by (auto intro: upd_list_intros elim!: upd_errorE)
  ultimately show ?thesis using assms by (simp add: lists_become_def only_watcher_def)
qed

section \<open>Cleanup and destroy\<close>

context watcher_backend begin

lemma update_step:
  assumes wf: "pd_wf s" "binv s" and w: "st_watchers s w = Some wt" and l: "w_loop wt \<noteq> NULL"
  obtains r s' y where "pd_watcher_update P w ev s = Some (r, s')" "st_watchers s' w = Some y"
    "only_watcher upd_status w s s'" "pd_wf s'" "binv s'" "w_active y = w_active wt"
    "w_events y = (if w_active wt then ev else w_events wt)"
    "\<not> w_active wt \<longrightarrow> r = PD_ERR_WATCHER_STOPPED \<and> s' = s"
proof -
  have nz: "w \<noteq> NULL" using pd_wf_watcher [OF wf(1) w] by (simp add: watcher_ok_def)
  show thesis
  proof (cases "w_active wt")
    case False
    then have "pd_watcher_update P w ev s = Some (PD_ERR_WATCHER_STOPPED, s)"
      using nz l w by (simp add: pd_watcher_update_def)
    then show thesis
      using False w wf by (intro that [of PD_ERR_WATCHER_STOPPED s wt]) (auto simp: only_watcher_def)
  next
    case True
    let ?x = "wt\<lparr>w_events := ev\<rparr>" and ?s1 = "s\<lparr>st_watchers := (st_watchers s)(w \<mapsto> wt\<lparr>w_events := ev\<rparr>)\<rparr>"
    have s1: "pd_wf ?s1" "binv ?s1" "only_watcher upd_status w s ?s1"
      using write_status [OF wf w, of ?x] by simp_all
    obtain r s2 where s2: "upd w ev ?s1 = Some (r, s2)" "only_watcher upd_pdata w ?s1 s2" "binv s2"
      using upd_step [OF s1(1,2), of w ?x ev] l by auto
    obtain y where y: "st_watchers s2 w = Some y" "upd_pdata ?x y"
      using s2(2) by (elim only_watcherE) auto
    have s2': "pd_wf s2" "only_watcher upd_status w s s2"
      using pd_wf_pdata [OF s1(1) s2(2)] only_watcher_trans [OF s1(3) only_watcher_mono [OF s2(2) upd_pdata_status]]
      by blast+
    obtain lp where lp: "st_loops s (w_loop wt) = Some lp" "loop_op op_watcher_update P lp = Some upd"
      using loop_after_write [OF wf(1) w l] by blast
    have "pd_watcher_update P w ev s = Some (r, s2)"
      using nz l w True lp s2(1) by (simp add: pd_watcher_update_def heap_write_def)
    then show thesis
      using True s2' s2(3) y by (intro that [of r s2 y]) (auto elim!: upd_pdataE)
  qed
qed

text \<open>Taking a watcher out of its loop's list.\<close>

lemma remove_step:
  assumes wf: "pd_wf s" "binv s" and w: "w \<noteq> NULL" and lp: "st_loops s l = Some lp"
  obtains r s' where "pd_loop_remove_watcher l w s = Some (r, s')" "pd_wf s'" "binv s'"
    "st_watchers s' = st_watchers s" "lists_become (\<lambda>k ws. if k = l then remove1 w ws else ws) s s'"
proof -
  from pd_wf_loop [OF wf(1) lp] have ok: "mutex_ready lp s" "wf_array lp" "l \<noteq> NULL" "distinct (watcher_list lp)"
    "\<And>v. v \<in> set (watcher_list lp) \<Longrightarrow> \<exists>vt. st_watchers s v = Some vt \<and> w_loop vt = l"
    by (auto simp: loop_ok_def)
  obtain r lp' where r: "pd_loop_remove_watcher l w s = Some (r, s\<lparr>st_loops := (st_loops s)(l \<mapsto> lp')\<rparr>)"
    "wf_array lp'" "upd_array lp lp'" "watcher_list lp' = remove1 w (watcher_list lp)"
    by (rule remove_watcher_step [OF lp ok(1,2,3) w]) blast
  let ?s = "s\<lparr>st_loops := (st_loops s)(l \<mapsto> lp')\<rparr>"
  have "pd_wf ?s"
    using ok(4,5) set_remove1_subset [of w "watcher_list lp"]
    by (intro pd_wf_array [OF wf(1) lp r(3,2)]) (auto simp: r(4))
  moreover have "binv ?s"
    using wf(2) by (rule binv_stable)
      (use lp r(3) in \<open>auto simp: same_pdata_def loop_pdata_def watcher_pdata_def map_le_def elim!: upd_arrayE\<close>)
  moreover have "lists_become (\<lambda>k ws. if k = l then remove1 w ws else ws) s ?s"
    using lp r by (auto simp: lists_become_def intro: upd_list_intros)
  ultimately show thesis using r(1) by (intro that) simp_all
qed

lemma cleanup_step:
  assumes wf: "pd_wf s" "binv s" and w: "st_watchers s w = Some wt" and l: "w_loop wt \<noteq> NULL"
  obtains s' y where "pd_watcher_cleanup P w s = Some s'" "pd_wf s'" "binv s'"
    "st_watchers s' = (st_watchers s)(w \<mapsto> y)" "upd_pdata wt y"
    "lists_become (\<lambda>k ws. if k = w_loop wt then remove1 w ws else ws) s s'"
    "\<exists>r s1. unreg w s = Some (r, s1) \<and> pd_loop_remove_watcher (w_loop wt) w s1 = Some (PD_OK, s') \<or>
            unreg w s = Some (r, s1) \<and> pd_loop_remove_watcher (w_loop wt) w s1 = Some (PD_ERR_NOT_FOUND, s')"
proof -
  have nz: "w \<noteq> NULL" using pd_wf_watcher [OF wf(1) w] by (simp add: watcher_ok_def)
  obtain r s1 where s1: "unreg w s = Some (r, s1)" "only_watcher upd_pdata w s s1" "binv s1"
    using unreg_step [OF wf w l] by blast
  obtain y where y: "st_watchers s1 w = Some y" "upd_pdata wt y" "st_watchers s1 = (st_watchers s)(w \<mapsto> y)"
    using s1(2) w by (elim only_watcherE) auto
  have wf1: "pd_wf s1" by (rule pd_wf_pdata [OF wf(1) s1(2)])
  obtain lp where lp: "st_loops s (w_loop wt) = Some lp" "loop_op op_watcher_unregister P lp = Some unreg"
    using loop_after_write [OF wf(1) w l] by blast
  have yl: "w_loop y = w_loop wt" using y(2) by (rule upd_pdata_loop)
  obtain lp1 where lp1: "st_loops s1 (w_loop wt) = Some lp1"
    using lists_become_D [OF lists_become_only_watcher [OF s1(2)] lp(1)] .
  have ok1: "mutex_ready lp1 s1" "wf_array lp1" using pd_wf_loop [OF wf1 lp1] by (simp_all add: loop_ok_def)
  obtain r' s2 where s2: "pd_loop_remove_watcher (w_loop wt) w s1 = Some (r', s2)" "pd_wf s2" "binv s2"
    "st_watchers s2 = st_watchers s1" "lists_become (\<lambda>k ws. if k = w_loop wt then remove1 w ws else ws) s1 s2"
    by (rule remove_step [OF wf1 s1(3) nz lp1])
  have "r' = PD_OK \<or> r' = PD_ERR_NOT_FOUND"
    using remove_watcher_step [OF lp1 ok1 l nz] s2(1) by (metis option.inject prod.inject)
  moreover have "pd_watcher_cleanup P w s = Some s2"
    using nz l w lp s1(1) y(1) yl s2(1) by (simp add: pd_watcher_cleanup_def)
  ultimately show thesis
    using s2 y lists_become_trans [OF lists_become_only_watcher [OF s1(2)] s2(5)] s1(1)
    by (intro that [of s2 y]) auto
qed

lemma free_step:
  assumes wf: "pd_wf s" "binv s" and w: "st_watchers s w = Some wt"
    and un: "\<And>l lp. st_loops s l = Some lp \<Longrightarrow> w \<notin> set (watcher_list lp)"
  obtains s' where "free_watcher w s = Some s'" "pd_wf s'" "binv s'"
    "st_watchers s' = (st_watchers s)(w := None)" "s' = s\<lparr>st_watchers := (st_watchers s)(w := None)\<rparr>"
proof -
  let ?s = "s\<lparr>st_watchers := (st_watchers s)(w := None)\<rparr>"
  have "w \<noteq> NULL" using pd_wf_watcher [OF wf(1) w] by (simp add: watcher_ok_def)
  then have "free_watcher w s = Some ?s" using w by (simp add: heap_free_def)
  moreover have "binv ?s"
    using wf(2) by (rule binv_stable)
      (auto simp: same_pdata_def loop_pdata_def watcher_pdata_def map_le_def dom_def split: if_splits)
  ultimately show thesis using pd_wf_free_watcher [OF wf(1) un] by (intro that) simp_all
qed

lemma destroy_step:
  assumes wf: "pd_wf s" "binv s" and w: "st_watchers s w = Some wt" and l: "w_loop wt \<noteq> NULL"
  obtains s' where "pd_watcher_destroy P w s = Some s'" "pd_wf s'" "binv s'"
    "st_watchers s' = (st_watchers s)(w := None)" "lists_become (\<lambda>k. remove1 w) s s'"
proof -
  have nz: "w \<noteq> NULL" using pd_wf_watcher [OF wf(1) w] by (simp add: watcher_ok_def)
  obtain r s1 y where s1: "pd_watcher_stop P w s = Some (r, s1)" "st_watchers s1 w = Some y"
    "only_watcher upd_status w s s1" "pd_wf s1" "binv s1"
    by (rule stop_step [OF wf w l])
  then have y: "st_watchers s1 = (st_watchers s)(w \<mapsto> y)" "w_loop y = w_loop wt"
    using w by (auto elim!: only_watcherE dest: upd_status_loop)
  with l have l1: "w_loop y \<noteq> NULL" by simp
  obtain s2 z where s2: "pd_watcher_cleanup P w s1 = Some s2" "pd_wf s2" "binv s2"
    "st_watchers s2 = (st_watchers s1)(w \<mapsto> z)" "upd_pdata y z"
    "lists_become (\<lambda>k ws. if k = w_loop y then remove1 w ws else ws) s1 s2"
    by (rule cleanup_step [OF s1(4,5,2) l1])
  have w2: "st_watchers s2 w = Some z" using s2(4) by simp
  have lists: "lists_become (\<lambda>k ws. if k = w_loop y then remove1 w ws else ws) s s2"
    using lists_become_trans [OF lists_become_only_watcher [OF s1(3)] s2(6)] .
  have all: "lists_become (\<lambda>k. remove1 w) s s2"
  proof (rule lists_become_cong [OF lists])
    fix k lp assume "st_loops s k = Some lp"
    then have "w \<in> set (watcher_list lp) \<Longrightarrow> k = w_loop y"
      using pd_wf_listed [OF wf(1) _ _ w] y(2) by metis
    then show "(if k = w_loop y then remove1 w (watcher_list lp) else watcher_list lp) = remove1 w (watcher_list lp)"
      by (metis remove1_idem)
  qed
  have "w \<notin> set (watcher_list lp2)" if lp2: "st_loops s2 k = Some lp2" for k lp2
  proof -
    obtain lp where lp: "st_loops s k = Some lp" "watcher_list lp2 = remove1 w (watcher_list lp)"
      by (rule lists_become_back [OF all lp2])
    then show ?thesis using pd_wf_loop [OF wf(1) lp(1)] by (simp add: loop_ok_def)
  qed
  then obtain s3 where s3: "free_watcher w s2 = Some s3" "pd_wf s3" "binv s3"
    "st_watchers s3 = (st_watchers s2)(w := None)" "s3 = s2\<lparr>st_watchers := (st_watchers s2)(w := None)\<rparr>"
    using free_step [OF s2(2,3) w2] by blast
  have "pd_watcher_destroy P w s = Some s3"
    using nz s1(1) s2(1) s3(1) by (simp add: pd_watcher_destroy_def)
  moreover have "lists_become (\<lambda>k. remove1 w) s s3"
    using all by (simp add: s3(5) lists_become_def)
  ultimately show thesis
    using s3(2-4) s2(4) y(1) by (intro that [of s3]) simp_all
qed

end

section \<open>Create\<close>

text \<open>The watcher \<^verbatim>\<open>pd_watcher_init\<close> fills in before it calls the backend.\<close>

definition new_watcher :: "addr \<Rightarrow> int \<Rightarrow> pd_event \<Rightarrow> pd_callback option \<Rightarrow> addr \<Rightarrow> pd_watcher" where
  "new_watcher loop fd events callback user_data = zero_watcher\<lparr>w_fd := fd, w_events := events,
     w_callback := callback, w_user_data := user_data, w_loop := loop, w_active := True, w_ref_count := 1\<rparr>"

lemma new_watcher_simps [simp]:
  "w_fd (new_watcher l fd ev cb ud) = fd" "w_events (new_watcher l fd ev cb ud) = ev"
  "w_callback (new_watcher l fd ev cb ud) = cb" "w_user_data (new_watcher l fd ev cb ud) = ud"
  "w_loop (new_watcher l fd ev cb ud) = l" "w_active (new_watcher l fd ev cb ud)"
  "w_platform_data (new_watcher l fd ev cb ud) = NULL" "w_handle (new_watcher l fd ev cb ud) = NULL"
  "\<not> w_is_handle (new_watcher l fd ev cb ud)"
  by (simp_all add: new_watcher_def zero_watcher_def)

lemma heap_alloc_cases:
  assumes get: "\<And>s1. upd_alloc s s1 \<Longrightarrow> get s1 = get s"
  obtains (null) s1 where "heap_alloc get put z s = (NULL, s1)" "upd_alloc s s1"
  | (some) a s1 where "heap_alloc get put z s = (a, put ((get s)(a \<mapsto> z)) s1)"
      "a \<noteq> NULL" "get s a = None" "upd_alloc s s1"
proof -
  obtain a s1 where p: "pop_choice s = (a, s1)" by fastforce
  then have s1: "upd_alloc s s1" by (intro upd_allocI pop_choice_frame)
  then have same: "get s1 = get s" by (rule get)
  show thesis
  proof (cases "a = NULL \<or> get s a \<noteq> None")
    case True
    then have "heap_alloc get put z s = (NULL, s1)" using p same by (auto simp: heap_alloc_def)
    then show thesis using s1 by (rule null)
  next
    case False
    then have "heap_alloc get put z s = (a, put ((get s)(a \<mapsto> z)) s1)"
      using p same by (auto simp: heap_alloc_def)
    then show thesis using False s1 by (intro some) auto
  qed
qed

lemma calloc_watcher_cases:
  obtains (null) s1 where "calloc_watcher s = (NULL, s1)" "upd_alloc s s1"
  | (some) w s1 where "calloc_watcher s = (w, s1\<lparr>st_watchers := (st_watchers s)(w \<mapsto> zero_watcher)\<rparr>)"
      "w \<noteq> NULL" "st_watchers s w = None" "upd_alloc s s1"
  by (rule heap_alloc_cases [of s st_watchers "\<lambda>h s. s\<lparr>st_watchers := h\<rparr>" zero_watcher])
    (erule upd_alloc_frame, (assumption | erule null | erule (3) some)+)

text \<open>A new watcher that no loop lists yet keeps the invariant.\<close>

lemma pd_wf_new_watcher:
  assumes wf: "pd_wf s" and w: "st_watchers s w = None" "w \<noteq> NULL"
    and l: "w_loop x \<noteq> NULL \<Longrightarrow> st_loops s (w_loop x) \<noteq> None"
  shows "pd_wf (s\<lparr>st_watchers := (st_watchers s)(w \<mapsto> x)\<rparr>)"
  unfolding pd_wf_def
proof (intro conjI allI impI)
  fix k lp assume lp: "st_loops (s\<lparr>st_watchers := (st_watchers s)(w \<mapsto> x)\<rparr>) k = Some lp"
  then have "loop_ok s k lp" using pd_wf_loop [OF wf, of k lp] by simp
  moreover have "w \<notin> set (watcher_list lp)" using calculation w(1) by (auto simp: loop_ok_def)
  ultimately show "loop_ok (s\<lparr>st_watchers := (st_watchers s)(w \<mapsto> x)\<rparr>) k lp"
    unfolding loop_ok_def by auto
next
  fix v vt assume "st_watchers (s\<lparr>st_watchers := (st_watchers s)(w \<mapsto> x)\<rparr>) v = Some vt"
  then show "watcher_ok (s\<lparr>st_watchers := (st_watchers s)(w \<mapsto> x)\<rparr>) v vt"
    using pd_wf_watcher [OF wf, of v vt] l w(2) by (auto simp: watcher_ok_def split: if_splits)
qed

lemma lists_become_alloc: "upd_alloc s s1 \<Longrightarrow> lists_become (\<lambda>_ ws. ws) s s1"
  by (auto simp: lists_become_def upd_alloc_frame intro: upd_list_intros)

lemma lists_become_watchers:
  "lists_become f s (s'\<lparr>st_watchers := h\<rparr>) = lists_become f s s'"
  "lists_become f (s\<lparr>st_watchers := h\<rparr>) s' = lists_become f s s'"
  by (simp_all add: lists_become_def)

context watcher_backend begin

lemma binv_alloc: "binv s \<Longrightarrow> upd_alloc s s1 \<Longrightarrow> binv s1"
  by (rule binv_stable, assumption)
     (auto simp: same_pdata_def loop_pdata_def watcher_pdata_def upd_alloc_frame map_le_def)

text \<open>Putting a watcher into its loop's list.\<close>

lemma add_step:
  assumes wf: "pd_wf s" "binv s" and w: "st_watchers s w = Some wt" and l: "w_loop wt = l" "l \<noteq> NULL"
    and lp: "st_loops s l = Some lp" and new: "w \<notin> set (watcher_list lp)"
  obtains r s' where "pd_loop_add_watcher l w s = Some (r, s')" "pd_wf s'" "binv s'"
    "st_watchers s' = st_watchers s" "r = PD_OK \<or> r = PD_ERR_NO_MEMORY"
    "lists_become (\<lambda>k ws. if k = l \<and> r = PD_OK then ws @ [w] else ws) s s'"
proof -
  have nz: "w \<noteq> NULL" using pd_wf_watcher [OF wf(1) w] by (simp add: watcher_ok_def)
  from pd_wf_loop [OF wf(1) lp] have inv: "mutex_ready lp s" "wf_array lp" "distinct (watcher_list lp)"
    "\<And>v. v \<in> set (watcher_list lp) \<Longrightarrow> \<exists>vt. st_watchers s v = Some vt \<and> w_loop vt = l"
    by (auto simp: loop_ok_def)
  from lp inv(1,2) l(2) nz show thesis
  proof (cases rule: add_watcher_cases)
    case (ok lp' s1)
    let ?s = "s1\<lparr>st_loops := (st_loops s)(l \<mapsto> lp')\<rparr>"
    have fr: "st_loops s1 = st_loops s" "st_watchers s1 = st_watchers s"
      using ok(5) by (simp_all add: upd_alloc_frame)
    have s1: "pd_wf s1" "binv s1" using pd_wf_alloc [OF wf(1) ok(5)] binv_alloc [OF wf(2) ok(5)] by simp_all
    have "pd_wf (s1\<lparr>st_loops := (st_loops s1)(l \<mapsto> lp')\<rparr>)"
      by (rule pd_wf_array [OF s1(1) _ ok(4,2)])
        (use lp fr ok(3) new inv(3,4) w l(1) in auto)
    moreover have "binv ?s"
      using s1(2) by (rule binv_stable)
        (use lp fr ok(4) in \<open>auto simp: same_pdata_def loop_pdata_def watcher_pdata_def map_le_def elim!: upd_arrayE\<close>)
    moreover have "lists_become (\<lambda>k ws. if k = l \<and> PD_OK = PD_OK then ws @ [w] else ws) s ?s"
      using lp ok(3,4,5) by (auto simp: lists_become_def upd_alloc_frame intro: upd_list_intros)
    ultimately show thesis using ok(1) fr by (intro that [of PD_OK ?s]) simp_all
  next
    case (no_memory s1)
    then show thesis
      using pd_wf_alloc [OF wf(1) no_memory(2)] binv_alloc [OF wf(2) no_memory(2)]
        lists_become_alloc [OF no_memory(2)] upd_alloc_frame(2) [OF no_memory(2)]
      by (intro that [of PD_ERR_NO_MEMORY s1]) simp_all
  qed
qed

text \<open>The watchers are as the backend's registration of \<open>w\<close> left them.\<close>

definition registered_as where
  "registered_as f s l w x \<longleftrightarrow> (\<exists>s1 s2. pd_wf s1 \<and> binv s1 \<and> st_watchers s1 w = Some x \<and>
     f l w s1 = Some (PD_OK, s2) \<and> st_watchers s2 = st_watchers s)"

text \<open>
  \<open>pd_watcher_init\<close> on a zeroed watcher that no loop lists. On failure the watcher is left
  for the caller to free; on success the loop lists it last.
\<close>

lemma init_step:
  assumes wf: "pd_wf s" "binv s" and w: "st_watchers s w = Some zero_watcher"
    and lp: "st_loops s l = Some lp"
    and un: "\<And>k kp. st_loops s k = Some kp \<Longrightarrow> w \<notin> set (watcher_list kp)"
  obtains r s' y where "pd_watcher_init P w l fd ev cb ud s = Some (r, s')" "pd_wf s'" "binv s'"
    "st_watchers s' = (st_watchers s)(w \<mapsto> y)" "upd_pdata (new_watcher l fd ev cb ud) y"
    "lists_become (\<lambda>k ws. if k = l \<and> r = PD_OK then ws @ [w] else ws) s s'"
    "r = PD_OK \<longrightarrow> registered_as reg s' l w (new_watcher l fd ev cb ud)"
proof -
  let ?x = "new_watcher l fd ev cb ud" and ?s1 = "s\<lparr>st_watchers := (st_watchers s)(w \<mapsto> new_watcher l fd ev cb ud)\<rparr>"
  have nz: "w \<noteq> NULL" using pd_wf_watcher [OF wf(1) w] by (simp add: watcher_ok_def)
  have l: "l \<noteq> NULL" using pd_wf_loop [OF wf(1) lp] by (simp add: loop_ok_def)
  have free: "pd_wf (s\<lparr>st_watchers := (st_watchers s)(w := None)\<rparr>)"
    using wf(1) un by (rule pd_wf_free_watcher)
  have s1: "pd_wf ?s1" using pd_wf_new_watcher [OF free, of w ?x] nz lp by simp
  have b1: "binv ?s1"
    using wf(2) by (rule binv_stable)
      (use w in \<open>auto simp: same_pdata_def loop_pdata_def watcher_pdata_def map_le_def dom_def zero_watcher_def\<close>)
  have wr: "write_watcher w (\<lambda>w. w\<lparr>w_fd := fd, w_events := ev, w_callback := cb,
              w_user_data := ud, w_loop := l, w_active := True, w_ref_count := 1\<rparr>) s = Some ?s1"
    using w by (simp add: heap_write_def new_watcher_def)
  obtain r s2 where s2: "reg l w ?s1 = Some (r, s2)" "only_watcher upd_pdata w ?s1 s2" "binv s2"
    using reg_step [OF s1 b1, of w ?x] l by auto
  obtain y where y: "st_watchers s2 w = Some y" "upd_pdata ?x y" "st_watchers s2 = (st_watchers s)(w \<mapsto> y)"
    using s2(2) by (elim only_watcherE) auto
  have wf2: "pd_wf s2" by (rule pd_wf_pdata [OF s1 s2(2)])
  have lists2: "lists_become (\<lambda>_ ws. ws) s s2"
    using lists_become_only_watcher [OF s2(2)] by (simp add: lists_become_watchers)
  have slot: "loop_op op_watcher_register P lp = Some reg"
    using loop_slots [OF pd_wf_loop [OF wf(1) lp]] by simp
  show thesis
  proof (cases "r = PD_OK")
    case False
    then have "pd_watcher_init P w l fd ev cb ud s = Some (r, s2)"
      using nz l lp slot s2(1) by (simp add: pd_watcher_init_def wr)
    moreover have "lists_become (\<lambda>k ws. if k = l \<and> r = PD_OK then ws @ [w] else ws) s s2"
      using False by (intro lists_become_cong [OF lists2]) simp
    ultimately show thesis
      using wf2 s2(3) y False by (intro that [of r s2 y]) simp_all
  next
    case reg_ok: True
    obtain lp2 where lp2: "st_loops s2 l = Some lp2" "watcher_list lp2 = watcher_list lp"
      by (rule lists_become_D [OF lists2 lp])
    have new: "w \<notin> set (watcher_list lp2)" using un [OF lp] lp2(2) by simp
    have yl: "w_loop y = l" using upd_pdata_loop [OF y(2)] by simp
    obtain r3 s3 where s3: "pd_loop_add_watcher l w s2 = Some (r3, s3)" "pd_wf s3" "binv s3"
      "st_watchers s3 = st_watchers s2" "r3 = PD_OK \<or> r3 = PD_ERR_NO_MEMORY"
      "lists_become (\<lambda>k ws. if k = l \<and> r3 = PD_OK then ws @ [w] else ws) s2 s3"
      by (rule add_step [OF wf2 s2(3) y(1) yl l lp2(1) new])
    have lists3: "lists_become (\<lambda>k ws. if k = l \<and> r3 = PD_OK then ws @ [w] else ws) s s3"
      using lists_become_trans [OF lists2 s3(6)] .
    show thesis
    proof (cases "r3 = PD_OK")
      case True
      then have "pd_watcher_init P w l fd ev cb ud s = Some (PD_OK, s3)"
        using nz l lp slot s2(1) s3(1) reg_ok by (simp add: pd_watcher_init_def wr)
      moreover have "registered_as reg s3 l w ?x"
        using s1 b1 s2(1) reg_ok s3(4) unfolding registered_as_def by force
      ultimately show thesis
        using s3(2-4) lists3 y True by (intro that [of PD_OK s3 y]) simp_all
    next
      case False
      have w3: "st_watchers s3 w = Some y" using s3(4) y(1) by simp
      obtain lp3 where lp3: "st_loops s3 l = Some lp3"
        by (rule lists_become_D [OF s3(6) lp2(1)])
      obtain r4 s4 where s4: "unreg w s3 = Some (r4, s4)" "only_watcher upd_pdata w s3 s4" "binv s4"
        using unreg_step [OF s3(2,3) w3] yl l by auto
      obtain z where z: "st_watchers s4 = (st_watchers s3)(w \<mapsto> z)" "upd_pdata y z"
        using s4(2) w3 by (elim only_watcherE) auto
      have slot3: "loop_op op_watcher_unregister P lp3 = Some unreg"
        using loop_slots [OF pd_wf_loop [OF s3(2) lp3]] by simp
      have "pd_watcher_init P w l fd ev cb ud s = Some (r3, s4)"
        using nz l lp slot s2(1) s3(1) reg_ok False lp3 slot3 s4(1) by (simp add: pd_watcher_init_def wr)
      moreover have "upd_pdata ?x z" using y(2) z(2) by (auto elim!: upd_pdataE)
      moreover have "lists_become (\<lambda>k ws. if k = l \<and> r3 = PD_OK then ws @ [w] else ws) s s4"
        using lists_become_trans [OF lists3 lists_become_only_watcher [OF s4(2)]] .
      ultimately show thesis
        using pd_wf_pdata [OF s3(2) s4(2)] s4(3) z(1) s3(4) y(3) False by (intro that [of r3 s4 z]) simp_all
    qed
  qed
qed

text \<open>
  \<open>pd_watcher_create\<close> either returns a watcher that was not allocated before, filled in as
  asked and last in its loop's list, or returns null and leaves no trace.
\<close>

lemma create_step:
  assumes wf: "pd_wf s" "binv s" and lp: "st_loops s l = Some lp"
  obtains (null) s' where "pd_watcher_create P l fd ev cb ud s = Some (NULL, s')" "pd_wf s'" "binv s'"
      "st_watchers s' = st_watchers s" "lists_become (\<lambda>_ ws. ws) s s'"
  | (some) w s' y where "pd_watcher_create P l fd ev cb ud s = Some (w, s')" "pd_wf s'" "binv s'"
      "w \<noteq> NULL" "st_watchers s w = None" "st_watchers s' = (st_watchers s)(w \<mapsto> y)"
      "upd_pdata (new_watcher l fd ev cb ud) y"
      "lists_become (\<lambda>k ws. if k = l then ws @ [w] else ws) s s'"
      "registered_as reg s' l w (new_watcher l fd ev cb ud)"
proof -
  have l: "l \<noteq> NULL" using pd_wf_loop [OF wf(1) lp] by (simp add: loop_ok_def)
  show thesis
  proof (cases rule: calloc_watcher_cases [of s])
    case (null s1)
    then have "pd_watcher_create P l fd ev cb ud s = Some (NULL, s1)"
      using l by (simp add: pd_watcher_create_def)
    then show thesis
      using pd_wf_alloc [OF wf(1) null(2)] binv_alloc [OF wf(2) null(2)]
        lists_become_alloc [OF null(2)] upd_alloc_frame(2) [OF null(2)]
      by (intro that(1))
  next
    case (some w s1)
    let ?s2 = "s1\<lparr>st_watchers := (st_watchers s)(w \<mapsto> zero_watcher)\<rparr>"
    have fr: "st_loops s1 = st_loops s" "st_watchers s1 = st_watchers s"
      using some(4) by (simp_all add: upd_alloc_frame)
    have s1: "pd_wf s1" "binv s1" using pd_wf_alloc [OF wf(1) some(4)] binv_alloc [OF wf(2) some(4)] .
    have s2: "pd_wf ?s2"
      using pd_wf_new_watcher [OF s1(1), of w zero_watcher] some(2,3) fr by (simp add: zero_watcher_def)
    have b2: "binv ?s2"
      using s1(2) by (rule binv_stable)
        (use some(3) fr in \<open>auto simp: same_pdata_def loop_pdata_def watcher_pdata_def map_le_def dom_def zero_watcher_def\<close>)
    have un: "w \<notin> set (watcher_list kp)" if "st_loops ?s2 k = Some kp" for k kp
      using pd_wf_loop [OF wf(1), of k kp] that some(3) fr by (auto simp: loop_ok_def)
    have w2: "st_watchers ?s2 w = Some zero_watcher" and lp2: "st_loops ?s2 l = Some lp"
      using lp fr by simp_all
    obtain r s3 y where s3: "pd_watcher_init P w l fd ev cb ud ?s2 = Some (r, s3)" "pd_wf s3" "binv s3"
      "st_watchers s3 = (st_watchers ?s2)(w \<mapsto> y)" "upd_pdata (new_watcher l fd ev cb ud) y"
      "lists_become (\<lambda>k ws. if k = l \<and> r = PD_OK then ws @ [w] else ws) ?s2 s3"
      "r = PD_OK \<longrightarrow> registered_as reg s3 l w (new_watcher l fd ev cb ud)"
      by (rule init_step [OF s2 b2 w2 lp2 un, where fd = fd and ev = ev and cb = cb and ud = ud])
    have lists: "lists_become (\<lambda>k ws. if k = l \<and> r = PD_OK then ws @ [w] else ws) s s3"
      using lists_become_trans [OF lists_become_alloc [OF some(4)] s3(6) [unfolded lists_become_watchers]] .
    have w3: "st_watchers s3 w = Some y" "st_watchers s3 = (st_watchers s)(w \<mapsto> y)" using s3(4) by simp_all
    show thesis
    proof (cases "r = PD_OK")
      case True
      then have "pd_watcher_create P l fd ev cb ud s = Some (w, s3)"
        using l some(1,2) s3(1) by (simp add: pd_watcher_create_def)
      then show thesis
        using s3 w3 some True lists by (intro that(2)) simp_all
    next
      case False
      have same: "lists_become (\<lambda>_ ws. ws) s s3"
        using False by (intro lists_become_cong [OF lists]) simp
      have un3: "w \<notin> set (watcher_list kp')" if kp': "st_loops s3 k = Some kp'" for k kp'
      proof -
        obtain kp where kp: "st_loops s k = Some kp" "watcher_list kp' = watcher_list kp"
          by (rule lists_become_back [OF same kp'])
        then show ?thesis using un [of k kp] fr by simp
      qed
      obtain s4 where s4: "free_watcher w s3 = Some s4" "pd_wf s4" "binv s4"
        "st_watchers s4 = (st_watchers s3)(w := None)" "s4 = s3\<lparr>st_watchers := (st_watchers s3)(w := None)\<rparr>"
        by (rule free_step [OF s3(2,3) w3(1)]) (use un3 in blast)+
      have "pd_watcher_create P l fd ev cb ud s = Some (NULL, s4)"
        using l some(1,2) s3(1) s4(1) False by (simp add: pd_watcher_create_def)
      moreover have "st_watchers s4 = st_watchers s"
        using s4(4) w3(2) some(3) by (simp add: fun_upd_idem)
      moreover have "lists_become (\<lambda>_ ws. ws) s s4"
        using same by (simp add: s4(5) lists_become_watchers)
      ultimately show thesis
        using s4(2,3) by (intro that(1))
    qed
  qed
qed

end

section \<open>Active is registered\<close>

text \<open>
  On a readiness backend a watcher is active exactly while it has platform data. Every
  operation of the generic layer keeps this, whatever the backend answers.
\<close>

definition status_ok :: "('ld, 'wd, 'td, 'k) pd_state \<Rightarrow> bool" where
  "status_ok s \<longleftrightarrow> (\<forall>w wt. st_watchers s w = Some wt \<longrightarrow> w_loop wt \<noteq> NULL \<longrightarrow>
     (w_active wt \<longleftrightarrow> w_platform_data wt \<noteq> NULL))"

lemma status_okD:
  "status_ok s \<Longrightarrow> st_watchers s w = Some wt \<Longrightarrow> w_loop wt \<noteq> NULL \<Longrightarrow> w_active wt \<longleftrightarrow> w_platform_data wt \<noteq> NULL"
  unfolding status_ok_def by blast

lemma status_ok_upd:
  assumes "status_ok s" and "st_watchers s' = (st_watchers s)(w \<mapsto> y)"
    and "w_active y \<longleftrightarrow> w_platform_data y \<noteq> NULL"
  shows "status_ok s'"
  using assms unfolding status_ok_def by (metis fun_upd_apply option.inject)

lemma status_ok_less: "status_ok s \<Longrightarrow> st_watchers s' = (st_watchers s)(w := None) \<Longrightarrow> status_ok s'"
  unfolding status_ok_def by (metis fun_upd_apply option.distinct(1))

lemma status_ok_same: "st_watchers s' = st_watchers s \<Longrightarrow> status_ok s' = status_ok s"
  by (simp add: status_ok_def)

context readiness_backend begin

lemma reg_call:
  assumes wf: "pd_wf s" "binv s" and w: "st_watchers s w = Some wt" and l: "w_loop wt \<noteq> NULL"
    and p: "w_platform_data wt = NULL"
  obtains r s' y where "reg (w_loop wt) w s = Some (r, s')" "st_watchers s' = (st_watchers s)(w \<mapsto> y)"
    "upd_pdata wt y" "(r = PD_OK) = (w_platform_data y \<noteq> NULL)"
proof -
  obtain r s' where r: "reg (w_loop wt) w s = Some (r, s')" "only_watcher upd_pdata w s s'"
    using reg_step [OF wf w l] by blast
  from r(2) obtain y where y: "st_watchers s' w = Some y" "upd_pdata wt y" "st_watchers s' = (st_watchers s)(w \<mapsto> y)"
    using w by (elim only_watcherE) auto
  have "(r = PD_OK) = (w_platform_data y \<noteq> NULL)"
    using reg_ok [OF wf w l] reg_fail [OF wf w l] r(1) y(1) w p by (cases "r = PD_OK") fastforce+
  with r y show thesis by (intro that)
qed

lemma unreg_call:
  assumes wf: "pd_wf s" "binv s" and w: "st_watchers s w = Some wt" and l: "w_loop wt \<noteq> NULL"
  obtains r s' y where "unreg w s = Some (r, s')" "st_watchers s' = (st_watchers s)(w \<mapsto> y)"
    "upd_pdata wt y" "w_platform_data y = (if r = PD_OK then NULL else w_platform_data wt)"
proof -
  obtain r s' where r: "unreg w s = Some (r, s')" "only_watcher upd_pdata w s s'"
    using unreg_step [OF wf w l] by blast
  from r(2) obtain y where y: "st_watchers s' w = Some y" "upd_pdata wt y" "st_watchers s' = (st_watchers s)(w \<mapsto> y)"
    using w by (elim only_watcherE) auto
  have "w_platform_data y = (if r = PD_OK then NULL else w_platform_data wt)"
    using unreg_ok [OF wf w l] unreg_fail [OF wf w l] r(1) y(1) w by (cases "r = PD_OK") fastforce+
  with r y show thesis by (intro that)
qed

lemma stop_status:
  assumes wf: "pd_wf s" "binv s" and st: "status_ok s"
    and w: "st_watchers s w = Some wt" and l: "w_loop wt \<noteq> NULL"
    and run: "pd_watcher_stop P w s = Some (r, s')"
  shows "status_ok s'"
proof -
  have nz: "w \<noteq> NULL" using pd_wf_watcher [OF wf(1) w] by (simp add: watcher_ok_def)
  show ?thesis
  proof (cases "w_active wt")
    case False
    then have "s' = s" using run nz l w by (simp add: pd_watcher_stop_def)
    then show ?thesis using st by simp
  next
    case True
    let ?x = "wt\<lparr>w_active := False\<rparr>" and ?s1 = "s\<lparr>st_watchers := (st_watchers s)(w \<mapsto> wt\<lparr>w_active := False\<rparr>)\<rparr>"
    have s1: "pd_wf ?s1" "binv ?s1"
      using write_status [OF wf w, of ?x] by simp_all
    obtain q s2 y where s2: "unreg w ?s1 = Some (q, s2)" "st_watchers s2 = (st_watchers ?s1)(w \<mapsto> y)"
      "upd_pdata ?x y" "w_platform_data y = (if q = PD_OK then NULL else w_platform_data ?x)"
      by (rule unreg_call [OF s1, of w ?x]) (use l in auto)
    have p: "w_platform_data wt \<noteq> NULL" using status_okD [OF st w l] True by simp
    have ya: "\<not> w_active y" using s2(3) by (auto elim!: upd_pdataE)
    obtain lp where "st_loops s (w_loop wt) = Some lp" "loop_op op_watcher_unregister P lp = Some unreg"
      using loop_after_write [OF wf(1) w l] by blast
    then have "s' = (if q = PD_OK then s2 else s2\<lparr>st_watchers := (st_watchers s2)(w \<mapsto> y\<lparr>w_active := True\<rparr>)\<rparr>)"
      using run nz l w True s2(1,2) by (auto simp: pd_watcher_stop_def heap_write_def)
    then show ?thesis
      using s2 ya p by (intro status_ok_upd [OF st, of s' w "if q = PD_OK then y else y\<lparr>w_active := True\<rparr>"])
        (simp_all split: if_splits)
  qed
qed

lemma start_status:
  assumes wf: "pd_wf s" "binv s" and st: "status_ok s"
    and w: "st_watchers s w = Some wt" and l: "w_loop wt \<noteq> NULL"
    and run: "pd_watcher_start P w s = Some (r, s')"
  shows "status_ok s'"
proof -
  have nz: "w \<noteq> NULL" using pd_wf_watcher [OF wf(1) w] by (simp add: watcher_ok_def)
  show ?thesis
  proof (cases "w_active wt")
    case True
    then have "s' = s" using run nz l w by (simp add: pd_watcher_start_def)
    then show ?thesis using st by simp
  next
    case False
    let ?x = "wt\<lparr>w_active := True\<rparr>" and ?s1 = "s\<lparr>st_watchers := (st_watchers s)(w \<mapsto> wt\<lparr>w_active := True\<rparr>)\<rparr>"
    have s1: "pd_wf ?s1" "binv ?s1"
      using write_status [OF wf w, of ?x] by simp_all
    have p: "w_platform_data ?x = NULL" using status_okD [OF st w l] False by simp
    have x: "st_watchers ?s1 w = Some ?x" "w_loop ?x \<noteq> NULL" using l by simp_all
    obtain q s2 y where s2: "reg (w_loop ?x) w ?s1 = Some (q, s2)" "st_watchers s2 = (st_watchers ?s1)(w \<mapsto> y)"
      "upd_pdata ?x y" "(q = PD_OK) = (w_platform_data y \<noteq> NULL)"
      by (rule reg_call [OF s1 x p])
    have ya: "w_active y" using s2(3) by (auto elim!: upd_pdataE)
    obtain lp where "st_loops s (w_loop wt) = Some lp" "loop_op op_watcher_register P lp = Some reg"
      using loop_after_write [OF wf(1) w l] by blast
    then have "s' = (if q = PD_OK then s2 else s2\<lparr>st_watchers := (st_watchers s2)(w \<mapsto> y\<lparr>w_active := False\<rparr>)\<rparr>)"
      using run nz l w False s2(1,2) by (auto simp: pd_watcher_start_def heap_write_def)
    then show ?thesis
      using s2 ya by (intro status_ok_upd [OF st, of s' w "if q = PD_OK then y else y\<lparr>w_active := False\<rparr>"])
        (simp_all split: if_splits)
  qed
qed

lemma update_status:
  assumes wf: "pd_wf s" "binv s" and st: "status_ok s"
    and w: "st_watchers s w = Some wt" and l: "w_loop wt \<noteq> NULL"
    and run: "pd_watcher_update P w ev s = Some (r, s')"
  shows "status_ok s'"
proof -
  have nz: "w \<noteq> NULL" using pd_wf_watcher [OF wf(1) w] by (simp add: watcher_ok_def)
  show ?thesis
  proof (cases "w_active wt")
    case False
    then have "s' = s" using run nz l w by (simp add: pd_watcher_update_def)
    then show ?thesis using st by simp
  next
    case True
    let ?x = "wt\<lparr>w_events := ev\<rparr>" and ?s1 = "s\<lparr>st_watchers := (st_watchers s)(w \<mapsto> wt\<lparr>w_events := ev\<rparr>)\<rparr>"
    have s1: "pd_wf ?s1" "binv ?s1"
      using write_status [OF wf w, of ?x] by simp_all
    have x: "st_watchers ?s1 w = Some ?x" "w_loop ?x \<noteq> NULL" "w_events ?x = ev" using l by simp_all
    obtain q s2 where s2: "upd w ev ?s1 = Some (q, s2)" "only_watcher upd_pdata w ?s1 s2"
      using upd_step [OF s1 x] by blast
    obtain lp where "st_loops s (w_loop wt) = Some lp" "loop_op op_watcher_update P lp = Some upd"
      using loop_after_write [OF wf(1) w l] by blast
    then have "s' = s2"
      using run nz l w True s2(1) by (auto simp: pd_watcher_update_def heap_write_def)
    moreover have "st_watchers s2 w = Some ?x"
      using upd_same [OF s1 x s2(1)] by simp
    ultimately have "st_watchers s' = (st_watchers s)(w \<mapsto> ?x)"
      using s2(2) by (elim only_watcherE) (auto simp: fun_upd_idem)
    then show ?thesis
      using status_okD [OF st w l] True by (intro status_ok_upd [OF st, of s' w ?x]) simp_all
  qed
qed

lemma create_status:
  assumes wf: "pd_wf s" "binv s" and st: "status_ok s" and lp: "st_loops s l = Some lp"
    and run: "pd_watcher_create P l fd ev cb ud s = Some (w, s')"
  shows "status_ok s'"
  using wf lp
proof (cases rule: create_step [where fd = fd and ev = ev and cb = cb and ud = ud])
  case (null s1)
  then show ?thesis using run st status_ok_same by force
next
  case (some v s1 y)
  have l: "l \<noteq> NULL" using pd_wf_loop [OF wf(1) lp] by (simp add: loop_ok_def)
  obtain t1 t2 where t: "pd_wf t1" "binv t1" "st_watchers t1 v = Some (new_watcher l fd ev cb ud)"
    "reg l v t1 = Some (PD_OK, t2)" "st_watchers t2 = st_watchers s1"
    using some(9) by (auto simp: registered_as_def)
  obtain z where z: "st_watchers t2 v = Some z" "w_platform_data z \<noteq> NULL"
    using reg_ok [OF t(1,2,3)] t(4) l by auto
  have "z = y" using z(1) t(5) some(6) by simp
  then have "status_ok s1"
    using z(2) some(7) by (intro status_ok_upd [OF st some(6)]) (auto elim!: upd_pdataE)
  then show ?thesis using run some(1) by simp
qed

lemma destroy_status:
  assumes "pd_wf s" "binv s" "status_ok s" "st_watchers s w = Some wt" "w_loop wt \<noteq> NULL"
    and "pd_watcher_destroy P w s = Some s'"
  shows "status_ok s'"
  using destroy_step [OF assms(1,2,4,5)] assms(3,6) status_ok_less
  by (metis option.inject)

end

end
