(* ===== verification/Pd_System.thy ===== *)
theory Pd_System
  imports Pd_State
begin

text \<open>
  What the backends of all operating systems share: how C sees the result of a system call
  (\<open>-1\<close> and \<^verbatim>\<open>errno\<close>), and that a call changes the kernel and \<^verbatim>\<open>errno\<close> only.
\<close>

section \<open>System calls\<close>

text \<open>The error of an interrupted call has the same number on Linux, the BSDs and macOS.\<close>

definition EINTR :: int where "EINTR = 4"

text \<open>\<^verbatim>\<open>struct timespec\<close>; its fields are signed 64-bit integers on the 64-bit platforms.\<close>

record timespec =
  tv_sec :: "64 word"
  tv_nsec :: "64 word"

text \<open>The result of a call as C sees it: \<open>None\<close> for \<open>-1\<close>, and then \<^verbatim>\<open>errno\<close> is set.\<close>

definition syscall ::
  "('k \<Rightarrow> (int + 'a) \<times> 'k) \<Rightarrow> ('ld, 'wd, 'td, 'k) pd_state \<Rightarrow> 'a option \<times> ('ld, 'wd, 'td, 'k) pd_state" where
  "syscall f s = (case f (st_kernel s) of
     (Inl e, k) \<Rightarrow> (None, s\<lparr>st_kernel := k, st_errno := e\<rparr>)
   | (Inr v, k) \<Rightarrow> (Some v, s\<lparr>st_kernel := k\<rparr>))"

text \<open>A descriptor as C holds it: \<open>-1\<close> when the call failed.\<close>

definition c_fd :: "nat option \<Rightarrow> int" where
  "c_fd r = (case r of None \<Rightarrow> - 1 | Some fd \<Rightarrow> int fd)"

lemma c_fd_neg [simp]: "c_fd r < 0 \<longleftrightarrow> r = None" "0 \<le> c_fd r \<longleftrightarrow> r \<noteq> None"
  by (cases r; simp add: c_fd_def)+

lemma syscall_cases:
  obtains (fail) e k where "syscall f s = (None, s\<lparr>st_kernel := k, st_errno := e\<rparr>)" "f (st_kernel s) = (Inl e, k)"
  | (ok) v k where "syscall f s = (Some v, s\<lparr>st_kernel := k\<rparr>)" "f (st_kernel s) = (Inr v, k)"
proof (cases "f (st_kernel s)")
  case (Pair q k)
  then show thesis using that by (cases q) (simp_all add: syscall_def)
qed

lemma syscall_snd: "\<exists>en. snd (syscall f s) = s\<lparr>st_kernel := snd (f (st_kernel s)), st_errno := en\<rparr>"
proof (cases "f (st_kernel s)")
  case (Pair r k)
  then show ?thesis by (cases r) (auto simp: syscall_def intro: exI [of _ "st_errno s"])
qed

text \<open>A call changes the kernel and \<^verbatim>\<open>errno\<close> only.\<close>

definition upd_kernel :: "('ld, 'wd, 'td, 'k) pd_state \<Rightarrow> ('ld, 'wd, 'td, 'k) pd_state \<Rightarrow> bool" where
  "upd_kernel s s' \<longleftrightarrow> s' = s\<lparr>st_kernel := st_kernel s', st_errno := st_errno s'\<rparr>"

lemma upd_kernelE:
  assumes "upd_kernel s s'"
  obtains k e where "s' = s\<lparr>st_kernel := k, st_errno := e\<rparr>"
  using assms by (auto simp: upd_kernel_def)

lemma syscall_upd_kernel: "syscall f s = (r, s') \<Longrightarrow> upd_kernel s s'"
  by (auto simp: syscall_def upd_kernel_def split: prod.splits sum.splits)

lemma syscall_kernel: "upd_kernel s (snd (syscall f s))"
  by (cases "syscall f s") (simp add: syscall_upd_kernel)

lemma upd_kernel_refl [simp]: "upd_kernel s s"
  by (simp add: upd_kernel_def)

lemma upd_kernel_trans: "upd_kernel a b \<Longrightarrow> upd_kernel b c \<Longrightarrow> upd_kernel a c"
  by (elim upd_kernelE) (simp add: upd_kernel_def)

lemma upd_kernel_frame:
  assumes "upd_kernel s s'"
  shows "st_loops s' = st_loops s" "st_watchers s' = st_watchers s" "st_timers s' = st_timers s"
    "st_ldata s' = st_ldata s" "st_wdata s' = st_wdata s" "st_tdata s' = st_tdata s"
    "st_choices s' = st_choices s" "st_default_loop s' = st_default_loop s"
    "st_thread_safe s' = st_thread_safe s"
  using assms by (auto elim!: upd_kernelE)

section \<open>Association lists of the example kernels\<close>

definition rk_put :: "'a \<Rightarrow> 'b \<Rightarrow> ('a \<times> 'b) list \<Rightarrow> ('a \<times> 'b) list" where
  "rk_put a b xs = (a, b) # filter (\<lambda>x. fst x \<noteq> a) xs"

definition rk_del :: "'a \<Rightarrow> ('a \<times> 'b) list \<Rightarrow> ('a \<times> 'b) list" where
  "rk_del a xs = filter (\<lambda>x. fst x \<noteq> a) xs"

lemma map_of_rk_put: "map_of (rk_put a b xs) = (map_of xs)(a \<mapsto> b)"
  by (auto simp: rk_put_def map_of_filter_in fun_eq_iff) (induction xs, auto)

lemma map_of_rk_del: "map_of (rk_del a xs) = (map_of xs)(a := None)"
  unfolding rk_del_def by (induction xs) auto

lemma fold_max_less: "x \<in> set xs \<Longrightarrow> x \<le> fold max xs (b :: int)" "b \<le> fold max xs b"
proof (induction xs arbitrary: b)
  case (Cons a xs)
  { case 1 then show ?case using Cons(1)[of "max a b"] Cons(2)[of "max a b"] by fastforce }
  { case 2 then show ?case using Cons(2)[of "max a b"] by simp }
qed auto

end
