(* ===== verification/Pd_Backend.thy ===== *)
theory Pd_Backend
  imports Pd_Contract Pd_System
begin

text \<open>
  What the proofs about a backend share: the outcomes of the allocations it makes, the effect
  of releasing platform data, and how updates of the state move the ownership of platform data
  that the backend invariants speak of.
\<close>

section \<open>Ownership of platform data\<close>

lemma loop_pdata_Some: "st_loops s l = Some lp \<Longrightarrow> loop_pdata s l = Some (l_platform_data lp)"
  by (simp add: loop_pdata_def)

lemma watcher_pdata_Some:
  "st_watchers s w = Some wt \<Longrightarrow> w_platform_data wt \<noteq> NULL \<Longrightarrow> watcher_pdata s w = Some (w_platform_data wt)"
  by (simp add: watcher_pdata_def)

section \<open>Outcomes of small steps\<close>

lemma set_error_eq:
  "st_loops s l = Some lp \<Longrightarrow> l \<noteq> NULL \<Longrightarrow>
   pd_set_system_error l e s = Some (s\<lparr>st_loops := (st_loops s)(l \<mapsto> lp\<lparr>l_system_error := e\<rparr>)\<rparr>)"
  by (simp add: pd_set_system_error_def heap_write_def)

lemma calloc_wdata_cases:
  obtains (null) cs e where "calloc_wdata z s = (NULL, s\<lparr>st_choices := cs, st_errno := e\<rparr>)"
  | (some) p cs e where "calloc_wdata z s = (p, s\<lparr>st_choices := cs, st_errno := e, st_wdata := (st_wdata s)(p \<mapsto> z)\<rparr>)"
      "p \<noteq> NULL" "st_wdata s p = None"
proof (rule heap_alloc_cases [of s st_wdata "\<lambda>h s. s\<lparr>st_wdata := h\<rparr>" z])
  fix s1 assume "upd_alloc s s1" then show "st_wdata s1 = st_wdata s" by (rule upd_alloc_frame)
next
  fix s1 assume "calloc_wdata z s = (NULL, s1)" "upd_alloc s s1"
  then show thesis using null by (elim upd_allocE) simp
next
  fix a s1 assume "calloc_wdata z s = (a, s1\<lparr>st_wdata := (st_wdata s)(a \<mapsto> z)\<rparr>)" "a \<noteq> NULL"
    "st_wdata s a = None" "upd_alloc s s1"
  then show thesis using some by (elim upd_allocE) simp
qed

lemma alloc_array_cases:
  obtains b cs e where "alloc_array s = (b, s\<lparr>st_choices := cs, st_errno := e\<rparr>)"
  using alloc_array_frame [of s] by (metis surj_pair)

lemma calloc_ldata_cases:
  obtains (null) cs e where "calloc_ldata z s = (NULL, s\<lparr>st_choices := cs, st_errno := e\<rparr>)"
  | (some) p cs e where "calloc_ldata z s = (p, s\<lparr>st_choices := cs, st_errno := e, st_ldata := (st_ldata s)(p \<mapsto> z)\<rparr>)"
      "p \<noteq> NULL" "st_ldata s p = None"
proof (rule heap_alloc_cases [of s st_ldata "\<lambda>h s. s\<lparr>st_ldata := h\<rparr>" z])
  fix s1 assume "upd_alloc s s1" then show "st_ldata s1 = st_ldata s" by (rule upd_alloc_frame)
next
  fix s1 assume "calloc_ldata z s = (NULL, s1)" "upd_alloc s s1"
  then show thesis using null by (elim upd_allocE) simp
next
  fix a s1 assume "calloc_ldata z s = (a, s1\<lparr>st_ldata := (st_ldata s)(a \<mapsto> z)\<rparr>)" "a \<noteq> NULL"
    "st_ldata s a = None" "upd_alloc s s1"
  then show thesis using some by (elim upd_allocE) simp
qed

lemma calloc_tdata_cases:
  obtains (null) s1 where "calloc_tdata z s = (NULL, s1)" "upd_alloc s s1"
  | (some) p s1 where "calloc_tdata z s = (p, s1\<lparr>st_tdata := (st_tdata s)(p \<mapsto> z)\<rparr>)"
      "p \<noteq> NULL" "st_tdata s p = None" "upd_alloc s s1"
  by (rule heap_alloc_cases [of s st_tdata "\<lambda>h s. s\<lparr>st_tdata := h\<rparr>" z])
    (erule upd_alloc_frame, (assumption | erule null | erule (3) some)+)

section \<open>Releasing platform data\<close>

definition wdata_freed :: "addr \<Rightarrow> (addr \<Rightarrow> 'a option) \<Rightarrow> addr \<Rightarrow> 'a option" where
  "wdata_freed p h = (if p = NULL then h else h(p := None))"

lemma free_wdata_eq:
  "p = NULL \<or> st_wdata s p \<noteq> None \<Longrightarrow> free_wdata p s = Some (s\<lparr>st_wdata := wdata_freed p (st_wdata s)\<rparr>)"
  by (auto simp: heap_free_def wdata_freed_def)

section \<open>What updates change\<close>

lemma pdata_states:
  "loop_pdata (s\<lparr>st_watchers := W\<rparr>) = loop_pdata s" "loop_pdata (s\<lparr>st_ldata := D\<rparr>) = loop_pdata s"
  "loop_pdata (s\<lparr>st_wdata := H\<rparr>) = loop_pdata s" "loop_pdata (s\<lparr>st_kernel := k\<rparr>) = loop_pdata s"
  "loop_pdata (s\<lparr>st_errno := e\<rparr>) = loop_pdata s" "loop_pdata (s\<lparr>st_choices := cs\<rparr>) = loop_pdata s"
  "watcher_pdata (s\<lparr>st_loops := L\<rparr>) = watcher_pdata s" "watcher_pdata (s\<lparr>st_ldata := D\<rparr>) = watcher_pdata s"
  "watcher_pdata (s\<lparr>st_wdata := H\<rparr>) = watcher_pdata s" "watcher_pdata (s\<lparr>st_kernel := k\<rparr>) = watcher_pdata s"
  "watcher_pdata (s\<lparr>st_errno := e\<rparr>) = watcher_pdata s" "watcher_pdata (s\<lparr>st_choices := cs\<rparr>) = watcher_pdata s"
  by (simp_all add: loop_pdata_def watcher_pdata_def fun_eq_iff)

lemma loop_pdata_error:
  "st_loops s l = Some lp \<Longrightarrow> loop_pdata (x\<lparr>st_loops := (st_loops s)(l \<mapsto> lp\<lparr>l_system_error := e\<rparr>)\<rparr>) = loop_pdata s"
  by (auto simp: loop_pdata_def fun_eq_iff)

lemma watcher_pdata_set:
  "p \<noteq> NULL \<Longrightarrow> watcher_pdata (x\<lparr>st_watchers := (st_watchers s)(w \<mapsto> wt\<lparr>w_platform_data := p\<rparr>)\<rparr>) = (watcher_pdata s)(w \<mapsto> p)"
  "watcher_pdata (x\<lparr>st_watchers := (st_watchers s)(w \<mapsto> wt\<lparr>w_platform_data := NULL\<rparr>)\<rparr>) = (watcher_pdata s)(w := None)"
  by (auto simp: watcher_pdata_def fun_eq_iff)

lemmas inv_simps = pdata_states loop_pdata_error watcher_pdata_set

lemma only_watcherI:
  assumes "st_watchers s w = Some x" "R x y" "st_watchers s' = (st_watchers s)(w \<mapsto> y)"
    and "\<And>l. rel_option upd_error (st_loops s l) (st_loops s' l)"
    and "st_timers s' = st_timers s" "st_tdata s' = st_tdata s"
    and "st_default_loop s' = st_default_loop s" "st_thread_safe s' = st_thread_safe s"
  shows "only_watcher R w s s'"
  using assms by (simp add: only_watcher_def)

lemma rel_error_put:
  "st_loops s l = Some lp \<Longrightarrow>
   rel_option upd_error (st_loops s k) (((st_loops s)(l \<mapsto> lp\<lparr>l_system_error := e\<rparr>)) k)"
  by simp

lemma freed_inv:
  assumes "owned (watcher_pdata s) (st_wdata s) (\<lambda>_. True)" "st_watchers s w = Some wt"
  shows "owned ((watcher_pdata s)(w := None)) (wdata_freed (w_platform_data wt) (st_wdata s)) (\<lambda>_. True)"
  using assms owned_free [OF assms(1) watcher_pdata_Some [OF assms(2)]] owned_drop [OF assms(1)]
  by (simp add: wdata_freed_def)

lemma loop_pdata_upd:
  "loop_pdata (x\<lparr>st_loops := (st_loops s)(l \<mapsto> lp\<lparr>l_platform_data := p\<rparr>)\<rparr>) = (loop_pdata s)(l \<mapsto> p)"
  "loop_pdata (x\<lparr>st_loops := st_loops s\<rparr>) = loop_pdata s"
  "loop_pdata (x\<lparr>st_loops := (st_loops s)(l := None)\<rparr>) = (loop_pdata s)(l := None)"
  by (auto simp: loop_pdata_def fun_eq_iff)

lemma pd_loop_same: "l_platform_data lp = p \<Longrightarrow> lp\<lparr>l_system_error := e, l_platform_data := p\<rparr> = lp\<lparr>l_system_error := e\<rparr>"
  "l_system_error lp = e \<Longrightarrow> lp\<lparr>l_system_error := e, l_platform_data := p\<rparr> = lp\<lparr>l_platform_data := p\<rparr>"
  by (auto intro!: pd_loop.equality)

end
