(* ===== verification/Pd_Linux.thy ===== *)
theory Pd_Linux
  imports Pd_System
begin

text \<open>
  The system calls of Linux that \<^verbatim>\<open>src/platform/epoll.c\<close> makes. The kernel is not part of
  the repository: its calls are a record of functions over a kernel state, a parameter of
  every definition of the epoll backend. Here are the constants of its headers and the
  locale that states what the manual pages promise about an epoll instance's interest list,
  with a small kernel that keeps these promises.
\<close>

section \<open>Constants of the headers\<close>

definition EPOLLIN :: "32 word" where "EPOLLIN = 0x001"
definition EPOLLPRI :: "32 word" where "EPOLLPRI = 0x002"
definition EPOLLOUT :: "32 word" where "EPOLLOUT = 0x004"
definition EPOLLERR :: "32 word" where "EPOLLERR = 0x008"
definition EPOLLHUP :: "32 word" where "EPOLLHUP = 0x010"
definition EPOLLRDHUP :: "32 word" where "EPOLLRDHUP = 0x2000"
definition EPOLLET :: "32 word" where "EPOLLET = 0x80000000"

lemmas epoll_defs = EPOLLIN_def EPOLLPRI_def EPOLLOUT_def EPOLLERR_def EPOLLHUP_def
  EPOLLRDHUP_def EPOLLET_def

definition ENOENT :: int where "ENOENT = 2"
definition EBADF :: int where "EBADF = 9"
definition EAGAIN :: int where "EAGAIN = 11"
definition EFAULT :: int where "EFAULT = 14"
definition EEXIST :: int where "EEXIST = 17"

lemmas errno_defs = ENOENT_def EINTR_def EBADF_def EAGAIN_def EFAULT_def EEXIST_def

section \<open>The calls\<close>

record epoll_event =
  ee_events :: "32 word"
  ee_data :: addr  \<comment> \<open>the member \<^verbatim>\<open>ptr\<close> of the union \<^verbatim>\<open>data\<close>, the only one used\<close>

datatype epoll_ctl_op = EPOLL_CTL_ADD | EPOLL_CTL_MOD | EPOLL_CTL_DEL

text \<open>\<^verbatim>\<open>struct itimerspec\<close> of two \<open>timespec\<close>s.\<close>

record itimerspec =
  it_interval :: timespec
  it_value :: timespec

definition zero_itimerspec :: itimerspec where
  "zero_itimerspec = \<lparr>it_interval = \<lparr>tv_sec = 0, tv_nsec = 0\<rparr>, it_value = \<lparr>tv_sec = 0, tv_nsec = 0\<rparr>\<rparr>"

text \<open>
  A call gives \<open>Inl errno\<close> when it fails. A new descriptor is a natural number. The events
  of a wait are the list the kernel stores into the caller's array; \<open>read\<close> and \<open>write\<close>
  are those of 8 bytes, which is all the backend asks for.
\<close>

record 'k linux =
  sys_epoll_create1 :: "'k \<Rightarrow> (int + nat) \<times> 'k"
  sys_epoll_ctl :: "int \<Rightarrow> epoll_ctl_op \<Rightarrow> int \<Rightarrow> epoll_event option \<Rightarrow> 'k \<Rightarrow> (int + unit) \<times> 'k"
  sys_epoll_wait :: "int \<Rightarrow> int \<Rightarrow> int \<Rightarrow> 'k \<Rightarrow> (int + epoll_event list) \<times> 'k"
  sys_eventfd :: "'k \<Rightarrow> (int + nat) \<times> 'k"
  sys_timerfd_create :: "'k \<Rightarrow> (int + nat) \<times> 'k"
  sys_timerfd_settime :: "int \<Rightarrow> itimerspec \<Rightarrow> 'k \<Rightarrow> (int + unit) \<times> 'k"
  sys_read :: "int \<Rightarrow> 'k \<Rightarrow> (int + 64 word) \<times> 'k"
  sys_write :: "int \<Rightarrow> 64 word \<Rightarrow> 'k \<Rightarrow> (int + unit) \<times> 'k"
  sys_close :: "int \<Rightarrow> 'k \<Rightarrow> (int + unit) \<times> 'k"

section \<open>What the manual pages promise\<close>

text \<open>
  \<open>interest k epfd fd\<close> is the entry of \<open>fd\<close> in the interest list of the epoll instance
  \<open>epfd\<close>, if any (epoll(7)). \<open>EPOLL_CTL_ADD\<close> fails for a descriptor that is in the list,
  the other two for one that is not (epoll_ctl(2)), and succeed for one that is; a failing
  call changes nothing. A wait returns at most as many events as asked for, each of them
  reports another entry of the list: it has the entry's data, and conditions the entry asked
  for, or the two that are always reported (epoll_wait(2)). Waiting and reading a descriptor
  leave the list as it is.
\<close>

definition reports :: "(int \<Rightarrow> epoll_event option) \<Rightarrow> epoll_event \<Rightarrow> int \<Rightarrow> bool" where
  "reports entries ev fd \<longleftrightarrow> (\<exists>en. entries fd = Some en \<and> ee_data ev = ee_data en \<and>
     ee_events ev AND NOT (ee_events en OR EPOLLERR OR EPOLLHUP) = 0)"

locale epoll_kernel =
  fixes K :: "'k linux" and interest :: "'k \<Rightarrow> int \<Rightarrow> int \<Rightarrow> epoll_event option"
  assumes add_ok: "sys_epoll_ctl K ep EPOLL_CTL_ADD fd (Some ev) k = (Inr v, k') \<Longrightarrow>
      interest k ep fd = None \<and> interest k' = (interest k)(ep := (interest k ep)(fd \<mapsto> ev))"
    and mod_ok: "sys_epoll_ctl K ep EPOLL_CTL_MOD fd (Some ev) k = (Inr v, k') \<Longrightarrow>
      interest k ep fd \<noteq> None \<and> interest k' = (interest k)(ep := (interest k ep)(fd \<mapsto> ev))"
    and del_ok: "sys_epoll_ctl K ep EPOLL_CTL_DEL fd None k = (Inr v, k') \<Longrightarrow>
      interest k ep fd \<noteq> None \<and> interest k' = (interest k)(ep := (interest k ep)(fd := None))"
    and mod_works: "interest k ep fd \<noteq> None \<Longrightarrow> \<exists>v. fst (sys_epoll_ctl K ep EPOLL_CTL_MOD fd (Some ev) k) = Inr v"
    and del_works: "interest k ep fd \<noteq> None \<Longrightarrow> \<exists>v. fst (sys_epoll_ctl K ep EPOLL_CTL_DEL fd None k) = Inr v"
    and ctl_fail: "sys_epoll_ctl K ep op fd evo k = (Inl e, k') \<Longrightarrow> interest k' = interest k"
    and wait_ok: "sys_epoll_wait K ep n t k = (Inr evs, k') \<Longrightarrow> 0 < n \<Longrightarrow> int (length evs) \<le> n \<and>
      interest k' = interest k \<and> (\<exists>fds. distinct fds \<and> list_all2 (reports (interest k ep)) evs fds)"
    and wait_fail: "sys_epoll_wait K ep n t k = (Inl e, k') \<Longrightarrow> interest k' = interest k"
    and read_interest: "sys_read K fd k = (r, k') \<Longrightarrow> interest k' = interest k"

context epoll_kernel begin

text \<open>A failing change means that there was no entry, and a deletion always leaves none.\<close>

lemma del_failed: "sys_epoll_ctl K ep EPOLL_CTL_DEL fd None k = (Inl e, k') \<Longrightarrow> interest k ep fd = None"
  using del_works [of k ep fd] by (cases "interest k ep fd") auto

lemma del_removes:
  assumes "sys_epoll_ctl K ep EPOLL_CTL_DEL fd None k = (r, k')"
  shows "interest k' = (interest k)(ep := (interest k ep)(fd := None))"
proof (cases r)
  case (Inl e)
  then have "interest k' = interest k" "interest k ep fd = None" using ctl_fail del_failed assms by blast+
  then show ?thesis by (simp add: fun_upd_idem)
next
  case (Inr v)
  then show ?thesis using del_ok assms by blast
qed

lemma mod_failed: "sys_epoll_ctl K ep EPOLL_CTL_MOD fd (Some ev) k = (Inl e, k') \<Longrightarrow> interest k ep fd = None"
  using mod_works [of k ep fd ev] by (cases "interest k ep fd") auto

lemma del_interest:
  assumes "sys_epoll_ctl K ep EPOLL_CTL_DEL fd None k = (r, k')"
  shows "interest k' = (interest k)(ep := (interest k ep)(fd := None))"
proof (cases r)
  case (Inl e)
  then show ?thesis using del_failed ctl_fail assms by (simp add: fun_upd_idem)
next
  case (Inr v)
  then show ?thesis using del_ok assms by simp
qed

end

text \<open>
  \<open>opened k\<close> are the open descriptors (open(2), close(2)): a call that makes a descriptor
  gives a new one, \<^verbatim>\<open>close\<close> releases its argument, also when it reports an error, and the other
  calls open and close nothing.
\<close>

locale fd_kernel =
  fixes K :: "'k linux" and opened :: "'k \<Rightarrow> int set"
  assumes epoll_create1_ok: "sys_epoll_create1 K k = (Inr fd, k') \<Longrightarrow> int fd \<notin> opened k \<and> opened k' = insert (int fd) (opened k)"
    and epoll_create1_fail: "sys_epoll_create1 K k = (Inl e, k') \<Longrightarrow> opened k' = opened k"
    and eventfd_ok: "sys_eventfd K k = (Inr fd, k') \<Longrightarrow> int fd \<notin> opened k \<and> opened k' = insert (int fd) (opened k)"
    and eventfd_fail: "sys_eventfd K k = (Inl e, k') \<Longrightarrow> opened k' = opened k"
    and timerfd_ok: "sys_timerfd_create K k = (Inr fd, k') \<Longrightarrow> int fd \<notin> opened k \<and> opened k' = insert (int fd) (opened k)"
    and timerfd_fail: "sys_timerfd_create K k = (Inl e, k') \<Longrightarrow> opened k' = opened k"
    and ctl_opened: "sys_epoll_ctl K ep op f ev k = (r, k') \<Longrightarrow> opened k' = opened k"
    and settime_opened: "sys_timerfd_settime K f its k = (r2, k') \<Longrightarrow> opened k' = opened k"
    and close_opened: "sys_close K f k = (r3, k') \<Longrightarrow> opened k' = opened k - {f}"

text \<open>
  A new descriptor is in no interest list, and a new instance has an empty one: an entry
  leaves the lists when its descriptor is closed (epoll(7), for descriptors that were not
  duplicated). The calls on descriptors other than \<^verbatim>\<open>epoll_ctl\<close> and \<^verbatim>\<open>close\<close> leave the lists as
  they are.
\<close>

definition fresh_fd :: "('k \<Rightarrow> int \<Rightarrow> int \<Rightarrow> epoll_event option) \<Rightarrow> 'k \<Rightarrow> int + nat \<Rightarrow> 'k \<Rightarrow> bool" where
  "fresh_fd interest k r k' \<longleftrightarrow> interest k' = interest k \<and>
     (case r of Inl e \<Rightarrow> True | Inr fd \<Rightarrow> \<forall>ep. interest k ep (int fd) = None)"

locale linux_kernel = epoll_kernel K interest for K :: "'k linux" and interest +
  assumes create1_interest: "sys_epoll_create1 K k = (r, k') \<Longrightarrow> interest k' = interest k \<and>
      (\<forall>ep. r = Inr ep \<longrightarrow> interest k (int ep) = Map.empty)"
    and eventfd_interest: "sys_eventfd K k = (r, k') \<Longrightarrow> fresh_fd interest k r k'"
    and timerfd_interest: "sys_timerfd_create K k = (r, k') \<Longrightarrow> fresh_fd interest k r k'"
    and settime_interest: "sys_timerfd_settime K fd its k = (q, k') \<Longrightarrow> interest k' = interest k"
    and write_interest: "sys_write K fd v k = (q, k') \<Longrightarrow> interest k' = interest k"
    and close_interest: "sys_close K fd k = (q, k') \<Longrightarrow> interest k' ep \<subseteq>\<^sub>m interest k ep"

section \<open>A kernel that keeps them\<close>

text \<open>
  \<open>rk_open\<close> are the descriptors not closed yet; a new one is above them all, and above those
  of the interest lists. The interest
  list is an association list keyed by instance and descriptor; \<open>rk_ready\<close> are the
  conditions that hold of a descriptor. An eventfd is ready while its counter is positive,
  a timerfd once it is armed (its time is taken to have come by the next wait), and after it
  is read again only if it is periodic.
\<close>

record ref_kernel =
  rk_open :: "int list"
  rk_interest :: "((int \<times> int) \<times> epoll_event) list"
  rk_ready :: "(int \<times> 32 word) list"
  rk_counter :: "(int \<times> 64 word) list"
  rk_periodic :: "int list"

definition rk_init :: ref_kernel where
  "rk_init = \<lparr>rk_open = [], rk_interest = [], rk_ready = [], rk_counter = [], rk_periodic = []\<rparr>"

definition rk_open_fd :: "ref_kernel \<Rightarrow> (int + nat) \<times> ref_kernel" where
  "rk_open_fd k =
    (let fd = nat (fold max (rk_open k @ map (fst \<circ> fst) (rk_interest k) @ map (snd \<circ> fst) (rk_interest k)) 2 + 1)
     in (Inr fd, k\<lparr>rk_open := int fd # rk_open k\<rparr>))"

definition rk_epoll_ctl :: "int \<Rightarrow> epoll_ctl_op \<Rightarrow> int \<Rightarrow> epoll_event option \<Rightarrow> ref_kernel \<Rightarrow> (int + unit) \<times> ref_kernel" where
  "rk_epoll_ctl ep op fd ev k =
    (case map_of (rk_interest k) (ep, fd) of
       None \<Rightarrow>
         if ep \<notin> set (rk_open k) \<or> fd \<notin> set (rk_open k) then (Inl EBADF, k)
         else (case (op, ev) of
             (EPOLL_CTL_ADD, Some e) \<Rightarrow> (Inr (), k\<lparr>rk_interest := rk_put (ep, fd) e (rk_interest k)\<rparr>)
           | (EPOLL_CTL_ADD, None) \<Rightarrow> (Inl EFAULT, k)
           | _ \<Rightarrow> (Inl ENOENT, k))
     | Some _ \<Rightarrow>
         (case (op, ev) of
             (EPOLL_CTL_ADD, _) \<Rightarrow> (Inl EEXIST, k)
           | (EPOLL_CTL_MOD, Some e) \<Rightarrow> (Inr (), k\<lparr>rk_interest := rk_put (ep, fd) e (rk_interest k)\<rparr>)
           | (EPOLL_CTL_MOD, None) \<Rightarrow> (Inl EFAULT, k)
           | (EPOLL_CTL_DEL, _) \<Rightarrow> (Inr (), k\<lparr>rk_interest := rk_del (ep, fd) (rk_interest k)\<rparr>)))"

text \<open>The events of one entry: the conditions that hold and were asked for.\<close>

definition rk_events :: "ref_kernel \<Rightarrow> int \<Rightarrow> (int \<times> int) \<times> epoll_event \<Rightarrow> epoll_event list" where
  "rk_events k ep x = (case x of ((e, fd), en) \<Rightarrow>
     let m = (case map_of (rk_ready k) fd of None \<Rightarrow> 0 | Some r \<Rightarrow> r AND (ee_events en OR EPOLLERR OR EPOLLHUP))
     in if e = ep \<and> m \<noteq> 0 \<and> map_of (rk_interest k) (e, fd) = Some en
        then [\<lparr>ee_events = m, ee_data = ee_data en\<rparr>] else [])"

definition rk_epoll_wait :: "int \<Rightarrow> int \<Rightarrow> int \<Rightarrow> ref_kernel \<Rightarrow> (int + epoll_event list) \<times> ref_kernel" where
  "rk_epoll_wait ep n t k = (Inr (take (nat n) (concat (map (rk_events k ep) (remdups (rk_interest k))))), k)"

definition rk_write :: "int \<Rightarrow> 64 word \<Rightarrow> ref_kernel \<Rightarrow> (int + unit) \<times> ref_kernel" where
  "rk_write fd v k =
    (if fd \<notin> set (rk_open k) then (Inl EBADF, k)
     else let c = (case map_of (rk_counter k) fd of None \<Rightarrow> 0 | Some c \<Rightarrow> c) in
       if c + v < c then (Inl EAGAIN, k)
       else (Inr (), k\<lparr>rk_counter := rk_put fd (c + v) (rk_counter k), rk_ready := rk_put fd EPOLLIN (rk_ready k)\<rparr>))"

definition rk_read :: "int \<Rightarrow> ref_kernel \<Rightarrow> (int + 64 word) \<times> ref_kernel" where
  "rk_read fd k =
    (if fd \<notin> set (rk_open k) then (Inl EBADF, k)
     else case map_of (rk_counter k) fd of
       None \<Rightarrow> (Inl EAGAIN, k)
     | Some c \<Rightarrow> (Inr c, if fd \<in> set (rk_periodic k) then k
         else k\<lparr>rk_counter := rk_del fd (rk_counter k), rk_ready := rk_del fd (rk_ready k)\<rparr>))"

definition rk_timerfd_settime :: "int \<Rightarrow> itimerspec \<Rightarrow> ref_kernel \<Rightarrow> (int + unit) \<times> ref_kernel" where
  "rk_timerfd_settime fd its k =
    (if fd \<notin> set (rk_open k) then (Inl EBADF, k)
     else if tv_sec (it_value its) = 0 \<and> tv_nsec (it_value its) = 0
     then (Inr (), k\<lparr>rk_counter := rk_del fd (rk_counter k), rk_ready := rk_del fd (rk_ready k),
       rk_periodic := removeAll fd (rk_periodic k)\<rparr>)
     else (Inr (), k\<lparr>rk_counter := rk_put fd 1 (rk_counter k), rk_ready := rk_put fd EPOLLIN (rk_ready k),
       rk_periodic := (if tv_sec (it_interval its) = 0 \<and> tv_nsec (it_interval its) = 0
         then removeAll fd (rk_periodic k) else fd # rk_periodic k)\<rparr>))"

definition rk_close :: "int \<Rightarrow> ref_kernel \<Rightarrow> (int + unit) \<times> ref_kernel" where
  "rk_close fd k =
    (if fd \<notin> set (rk_open k) then (Inl EBADF, k)
     else (Inr (), k\<lparr>rk_open := removeAll fd (rk_open k),
       rk_interest := filter (\<lambda>((e, f), _). e \<noteq> fd \<and> f \<noteq> fd) (rk_interest k),
       rk_ready := rk_del fd (rk_ready k), rk_counter := rk_del fd (rk_counter k),
       rk_periodic := removeAll fd (rk_periodic k)\<rparr>))"

definition ref_linux :: "ref_kernel linux" where
  "ref_linux = \<lparr>sys_epoll_create1 = rk_open_fd, sys_epoll_ctl = rk_epoll_ctl, sys_epoll_wait = rk_epoll_wait,
     sys_eventfd = rk_open_fd, sys_timerfd_create = rk_open_fd, sys_timerfd_settime = rk_timerfd_settime,
     sys_read = rk_read, sys_write = rk_write, sys_close = rk_close\<rparr>"

definition rk_entry :: "ref_kernel \<Rightarrow> int \<Rightarrow> int \<Rightarrow> epoll_event option" where
  "rk_entry k ep fd = map_of (rk_interest k) (ep, fd)"

lemma and_masked: "(r AND m) AND NOT m = (0 :: 'a::len word)"
  by (simp add: and.assoc)

lemma rk_wait_ok:
  assumes "distinct xs"
  shows "\<exists>fds. distinct fds \<and> list_all2 (reports (rk_entry k ep)) (concat (map (rk_events k ep) xs)) fds \<and>
    (\<forall>fd\<in>set fds. \<exists>en. ((ep, fd), en) \<in> set xs \<and> rk_entry k ep fd = Some en)"
  using assms
proof (induction xs)
  case (Cons x xs)
  then obtain fds where fds: "distinct fds" "list_all2 (reports (rk_entry k ep)) (concat (map (rk_events k ep) xs)) fds"
    "\<forall>fd\<in>set fds. \<exists>en. ((ep, fd), en) \<in> set xs \<and> rk_entry k ep fd = Some en" by auto
  obtain e fd en where x: "x = ((e, fd), en)" by (cases x) auto
  show ?case
  proof (cases "rk_events k ep x = []")
    case True
    then show ?thesis using fds by (intro exI [of _ fds]) auto
  next
    case False
    then obtain r where r: "e = ep" "rk_entry k ep fd = Some en"
      "rk_events k ep x = [\<lparr>ee_events = r AND (ee_events en OR EPOLLERR OR EPOLLHUP), ee_data = ee_data en\<rparr>]"
      by (auto simp: x rk_events_def Let_def rk_entry_def split: if_splits option.splits)
    have "fd \<notin> set fds" using fds(3) r(1,2) Cons.prems x by auto
    moreover have "reports (rk_entry k ep) (hd (rk_events k ep x)) fd"
      using r(2) and_masked [of r "ee_events en OR EPOLLERR OR EPOLLHUP"] by (simp add: reports_def r(3))
    ultimately show ?thesis using fds r by (intro exI [of _ "fd # fds"]) (auto simp: x)
  qed
qed simp

interpretation ref: epoll_kernel ref_linux rk_entry
proof
  fix ep fd :: int and ev k v k' e op evo n t evs r
  show "sys_epoll_ctl ref_linux ep EPOLL_CTL_ADD fd (Some ev) k = (Inr v, k') \<Longrightarrow>
      rk_entry k ep fd = None \<and> rk_entry k' = (rk_entry k)(ep := (rk_entry k ep)(fd \<mapsto> ev))"
    by (auto simp: ref_linux_def rk_epoll_ctl_def rk_entry_def map_of_rk_put fun_eq_iff split: if_splits option.splits epoll_ctl_op.splits)
  show "sys_epoll_ctl ref_linux ep EPOLL_CTL_MOD fd (Some ev) k = (Inr v, k') \<Longrightarrow>
      rk_entry k ep fd \<noteq> None \<and> rk_entry k' = (rk_entry k)(ep := (rk_entry k ep)(fd \<mapsto> ev))"
    by (auto simp: ref_linux_def rk_epoll_ctl_def rk_entry_def map_of_rk_put fun_eq_iff split: if_splits option.splits epoll_ctl_op.splits)
  show "sys_epoll_ctl ref_linux ep EPOLL_CTL_DEL fd None k = (Inr v, k') \<Longrightarrow>
      rk_entry k ep fd \<noteq> None \<and> rk_entry k' = (rk_entry k)(ep := (rk_entry k ep)(fd := None))"
    by (auto simp: ref_linux_def rk_epoll_ctl_def rk_entry_def map_of_rk_del fun_eq_iff split: if_splits option.splits epoll_ctl_op.splits)
  show "rk_entry k ep fd \<noteq> None \<Longrightarrow> \<exists>v. fst (sys_epoll_ctl ref_linux ep EPOLL_CTL_MOD fd (Some ev) k) = Inr v"
    by (auto simp: ref_linux_def rk_epoll_ctl_def rk_entry_def)
  show "rk_entry k ep fd \<noteq> None \<Longrightarrow> \<exists>v. fst (sys_epoll_ctl ref_linux ep EPOLL_CTL_DEL fd None k) = Inr v"
    by (auto simp: ref_linux_def rk_epoll_ctl_def rk_entry_def)
  show "sys_epoll_ctl ref_linux ep op fd evo k = (Inl e, k') \<Longrightarrow> rk_entry k' = rk_entry k"
    by (auto simp: ref_linux_def rk_epoll_ctl_def split: if_splits epoll_ctl_op.splits option.splits)
  show "sys_epoll_wait ref_linux ep n t k = (Inl e, k') \<Longrightarrow> rk_entry k' = rk_entry k"
    by (simp add: ref_linux_def rk_epoll_wait_def)
  show "sys_read ref_linux fd k = (r, k') \<Longrightarrow> rk_entry k' = rk_entry k"
    by (auto simp: ref_linux_def rk_read_def rk_entry_def fun_eq_iff split: if_splits option.splits)
  assume w: "sys_epoll_wait ref_linux ep n t k = (Inr evs, k')" and n: "0 < n"
  then have evs: "evs = take (nat n) (concat (map (rk_events k ep) (remdups (rk_interest k))))" and k': "k' = k"
    by (auto simp: ref_linux_def rk_epoll_wait_def)
  obtain fds where fds: "distinct fds"
    "list_all2 (reports (rk_entry k ep)) (concat (map (rk_events k ep) (remdups (rk_interest k)))) fds"
    using rk_wait_ok [of "remdups (rk_interest k)" k ep] by auto
  then have "distinct (take (nat n) fds) \<and> list_all2 (reports (rk_entry k ep)) evs (take (nat n) fds)"
    by (simp add: evs list_all2_takeI)
  then show "int (length evs) \<le> n \<and> rk_entry k' = rk_entry k \<and>
      (\<exists>fds. distinct fds \<and> list_all2 (reports (rk_entry k ep)) evs fds)"
    using n k' by (auto simp: evs)
qed

lemma rk_open_fd_fresh:
  assumes "rk_open_fd k = (r, k')"
  obtains fd where "r = Inr fd" "int fd \<notin> set (rk_open k)" "set (rk_open k') = insert (int fd) (set (rk_open k))"
    "rk_entry k' = rk_entry k" "\<And>e. rk_entry k e (int fd) = None" "rk_entry k (int fd) = Map.empty"
proof -
  let ?xs = "rk_open k @ map (fst \<circ> fst) (rk_interest k) @ map (snd \<circ> fst) (rk_interest k)"
  let ?fd = "nat (fold max ?xs 2 + 1)"
  have "2 \<le> fold max ?xs 2" by (rule fold_max_less(2))
  then have fd: "int ?fd \<notin> set ?xs" using fold_max_less(1) [of "int ?fd" ?xs 2] by auto
  have entry: "rk_entry k e f = None" if "e \<notin> fst ` fst ` set (rk_interest k) \<or> f \<notin> snd ` fst ` set (rk_interest k)" for e f
  proof (rule ccontr)
    assume "rk_entry k e f \<noteq> None"
    then obtain en where "((e, f), en) \<in> set (rk_interest k)" by (auto simp: rk_entry_def dest: map_of_SomeD)
    then show False using that by force
  qed
  have k': "r = Inr ?fd" "k' = k\<lparr>rk_open := int ?fd # rk_open k\<rparr>" using assms by (simp_all add: rk_open_fd_def Let_def)
  have none: "rk_entry k e (int ?fd) = None" "rk_entry k (int ?fd) e = None" for e
    using fd entry [of "int ?fd" e] entry [of e "int ?fd"] by (auto simp: image_comp)
  then show thesis using fd k' by (intro that [of ?fd]) (auto simp: rk_entry_def fun_eq_iff)
qed

interpretation ref_fd: fd_kernel ref_linux "\<lambda>k. set (rk_open k)"
proof
  fix k k' fd e ep op evo r its r2 r3 and f :: int
  show "sys_epoll_create1 ref_linux k = (Inr fd, k') \<Longrightarrow> int fd \<notin> set (rk_open k) \<and> set (rk_open k') = insert (int fd) (set (rk_open k))"
    "sys_eventfd ref_linux k = (Inr fd, k') \<Longrightarrow> int fd \<notin> set (rk_open k) \<and> set (rk_open k') = insert (int fd) (set (rk_open k))"
    "sys_timerfd_create ref_linux k = (Inr fd, k') \<Longrightarrow> int fd \<notin> set (rk_open k) \<and> set (rk_open k') = insert (int fd) (set (rk_open k))"
    by (auto simp: ref_linux_def elim!: rk_open_fd_fresh)
  show "sys_epoll_create1 ref_linux k = (Inl e, k') \<Longrightarrow> set (rk_open k') = set (rk_open k)"
    "sys_eventfd ref_linux k = (Inl e, k') \<Longrightarrow> set (rk_open k') = set (rk_open k)"
    "sys_timerfd_create ref_linux k = (Inl e, k') \<Longrightarrow> set (rk_open k') = set (rk_open k)"
    by (simp_all add: ref_linux_def rk_open_fd_def Let_def)
  show "sys_epoll_ctl ref_linux ep op f evo k = (r, k') \<Longrightarrow> set (rk_open k') = set (rk_open k)"
    by (auto simp: ref_linux_def rk_epoll_ctl_def split: option.splits if_splits epoll_ctl_op.splits)
  show "sys_timerfd_settime ref_linux f its k = (r2, k') \<Longrightarrow> set (rk_open k') = set (rk_open k)"
    by (auto simp: ref_linux_def rk_timerfd_settime_def split: if_splits)
  show "sys_close ref_linux f k = (r3, k') \<Longrightarrow> set (rk_open k') = set (rk_open k) - {f}"
    by (auto simp: ref_linux_def rk_close_def split: if_splits)
qed

lemma map_of_filter_key: "map_of (filter (\<lambda>(a, _). P a) xs) = (\<lambda>a. if P a then map_of xs a else None)"
  by (induction xs) (auto simp: fun_eq_iff)

lemma rk_close_entries: "rk_entry (snd (rk_close fd k)) ep \<subseteq>\<^sub>m rk_entry k ep"
  using map_of_filter_key [of "\<lambda>(e, f). e \<noteq> fd \<and> f \<noteq> fd" "rk_interest k"]
  by (auto simp: rk_entry_def [abs_def] rk_close_def map_le_def dom_def case_prod_unfold)

interpretation ref_kernel: linux_kernel ref_linux rk_entry
proof (intro linux_kernel.intro linux_kernel_axioms.intro ref.epoll_kernel_axioms)
  fix k k' r q ep its v and fd :: int
  show "rk_entry k' = rk_entry k \<and> (\<forall>ep. r = Inr ep \<longrightarrow> rk_entry k (int ep) = Map.empty)" if "sys_epoll_create1 ref_linux k = (r, k')"
    using that by (auto simp: ref_linux_def elim!: rk_open_fd_fresh)
  show "fresh_fd rk_entry k r k'" if "sys_eventfd ref_linux k = (r, k')"
    using that by (auto simp: ref_linux_def fresh_fd_def elim!: rk_open_fd_fresh)
  show "fresh_fd rk_entry k r k'" if "sys_timerfd_create ref_linux k = (r, k')"
    using that by (auto simp: ref_linux_def fresh_fd_def elim!: rk_open_fd_fresh)
  show "rk_entry k' = rk_entry k" if "sys_timerfd_settime ref_linux fd its k = (q, k')"
    using that by (auto simp: ref_linux_def rk_timerfd_settime_def rk_entry_def fun_eq_iff split: if_splits)
  show "rk_entry k' = rk_entry k" if "sys_write ref_linux fd v k = (q, k')"
    using that by (auto simp: ref_linux_def rk_write_def rk_entry_def fun_eq_iff Let_def split: if_splits)
  show "rk_entry k' ep \<subseteq>\<^sub>m rk_entry k ep" if "sys_close ref_linux fd k = (q, k')"
    using that rk_close_entries [of fd k ep] by (simp add: ref_linux_def)
qed

end
