(* ===== verification/Pd_Registrations.thy ===== *)
theory Pd_Registrations
  imports Pd_State
begin

text \<open>
  The registration table that the epoll and the kqueue backend both keep in a loop's
  platform data: the record of which watcher owns which descriptor, in an unordered array
  that is searched linearly and from which an element is removed by moving the last one
  into its place. The platform data of each backend extends \<open>reg_table\<close>, and the
  operations work on any extension. The table refines a finite map from descriptors to
  watchers.
\<close>

section \<open>The table\<close>

record pd_registration =
  reg_fd :: int
  reg_watcher :: addr

record reg_table =
  registrations :: "pd_registration c_array"
  registration_count :: nat
  registration_capacity :: nat

section \<open>The operations on the table\<close>

definition evict_stale_registration :: "'z reg_table_scheme \<Rightarrow> int \<Rightarrow> addr \<Rightarrow> 'z reg_table_scheme option" where
  "evict_stale_registration data fd watcher = do {
     found \<leftarrow> arr_find (\<lambda>r. reg_fd r = fd \<and> reg_watcher r \<noteq> watcher)
                (registrations data) 0 (registration_count data);
     case found of
       Some i \<Rightarrow> do {
         regs \<leftarrow> arr_fill_hole (registrations data) i (registration_count data);
         Some (data\<lparr>registrations := regs, registration_count := registration_count data - 1\<rparr>) }
     | None \<Rightarrow> Some data }"

text \<open>The capacity asked for when the table is full, and the store of a new record.\<close>

definition grown_capacity :: "'z reg_table_scheme \<Rightarrow> nat" where
  "grown_capacity data = (if registration_capacity data = 0 then 8 else registration_capacity data * 2)"

definition grow_registrations :: "'z reg_table_scheme \<Rightarrow> 'z reg_table_scheme" where
  "grow_registrations data = (let new_cap = grown_capacity data in
     data\<lparr>registrations := arr_realloc (registrations data) new_cap, registration_capacity := new_cap\<rparr>)"

definition store_registration :: "'z reg_table_scheme \<Rightarrow> int \<Rightarrow> addr \<Rightarrow> 'z reg_table_scheme option" where
  "store_registration data fd watcher = do {
     regs \<leftarrow> arr_set (registrations data) (registration_count data) \<lparr>reg_fd = fd, reg_watcher = watcher\<rparr>;
     Some (data\<lparr>registrations := regs, registration_count := registration_count data + 1\<rparr>) }"

definition find_registration :: "'z reg_table_scheme \<Rightarrow> addr \<Rightarrow> nat option option" where
  "find_registration data watcher =
     arr_find (\<lambda>r. reg_watcher r = watcher) (registrations data) 0 (registration_count data)"

definition drop_registration :: "'z reg_table_scheme \<Rightarrow> nat \<Rightarrow> 'z reg_table_scheme option" where
  "drop_registration data i = do {
     regs \<leftarrow> arr_fill_hole (registrations data) i (registration_count data);
     Some (data\<lparr>registrations := regs, registration_count := registration_count data - 1\<rparr>) }"

section \<open>The list and the map of the table\<close>

definition reg_list :: "'z reg_table_scheme \<Rightarrow> pd_registration list" where
  "reg_list data = arr_list (registrations data) (registration_count data)"

definition wf_table :: "'z reg_table_scheme \<Rightarrow> bool" where
  "wf_table data \<longleftrightarrow> length (registrations data) = registration_capacity data \<and>
     registration_count data \<le> registration_capacity data \<and>
     None \<notin> set (take (registration_count data) (registrations data))"

text \<open>No descriptor and no watcher has two records.\<close>

definition unique_table :: "'z reg_table_scheme \<Rightarrow> bool" where
  "unique_table data \<longleftrightarrow> distinct (map reg_fd (reg_list data)) \<and> distinct (map reg_watcher (reg_list data))"

definition owner :: "'z reg_table_scheme \<Rightarrow> int \<Rightarrow> addr option" where
  "owner data = map_of (map (\<lambda>r. (reg_fd r, reg_watcher r)) (reg_list data))"

lemma wf_table_holds: "wf_table d \<Longrightarrow> arr_holds (registrations d) (reg_list d)"
  unfolding wf_table_def reg_list_def arr_holds_def arr_list_def
  by (auto intro!: map_idI [symmetric] simp: min.absorb2) (metis option.collapse)

lemma wf_table_count: "wf_table d \<Longrightarrow> registration_count d = length (reg_list d)"
  by (simp add: wf_table_def reg_list_def arr_list_def)

lemma wf_tableI:
  assumes "arr_holds (registrations d) rs" and "registration_count d = length rs"
    and "registration_capacity d = length (registrations d)"
  shows "wf_table d \<and> reg_list d = rs"
  using assms arr_holds_le [OF assms(1)] arr_holds_list [OF assms(1)]
  by (auto simp: wf_table_def reg_list_def arr_holds_def)

text \<open>The table operations change the table only.\<close>

definition upd_table :: "'z reg_table_scheme \<Rightarrow> 'z reg_table_scheme \<Rightarrow> bool" where
  "upd_table d d' \<longleftrightarrow> d' = d\<lparr>registrations := registrations d',
     registration_count := registration_count d', registration_capacity := registration_capacity d'\<rparr>"

lemma upd_tableE:
  assumes "upd_table d d'"
  obtains r n c where "d' = d\<lparr>registrations := r, registration_count := n, registration_capacity := c\<rparr>"
  using assms by (auto simp: upd_table_def)

lemma upd_table_refl [simp]: "upd_table d d"
  by (simp add: upd_table_def)

lemma upd_table_trans: "upd_table a b \<Longrightarrow> upd_table b c \<Longrightarrow> upd_table a c"
  by (elim upd_tableE) (simp add: upd_table_def)

lemma drop_step:
  assumes wf: "wf_table d" and i: "i < length (reg_list d)"
  obtains d' where "drop_registration d i = Some d'" "wf_table d'" "upd_table d d'"
    "reg_list d' = swap_out i (reg_list d)"
proof -
  obtain rs where rs: "arr_fill_hole (registrations d) i (registration_count d) = Some rs"
    "arr_holds rs (swap_out i (reg_list d))" "length rs = length (registrations d)"
    using arr_fill_hole_holds [OF wf_table_holds [OF wf] i] wf_table_count [OF wf] by auto
  let ?d = "d\<lparr>registrations := rs, registration_count := registration_count d - 1\<rparr>"
  have "wf_table ?d \<and> reg_list ?d = swap_out i (reg_list d)"
    using rs wf wf_table_count [OF wf] by (intro wf_tableI) (simp_all add: wf_table_def)
  then show thesis
    using rs(1) by (intro that [of ?d]) (simp_all add: drop_registration_def upd_table_def)
qed

lemma find_eq: "wf_table d \<Longrightarrow> find_registration d w = Some (first_index (\<lambda>r. reg_watcher r = w) (reg_list d))"
  by (simp add: find_registration_def wf_table_count arr_find_first [OF wf_table_holds])

lemma evict_eq:
  assumes "wf_table d"
  shows "evict_stale_registration d fd w =
    (case first_index (\<lambda>r. reg_fd r = fd \<and> reg_watcher r \<noteq> w) (reg_list d) of
       None \<Rightarrow> Some d | Some i \<Rightarrow> drop_registration d i)"
  using assms
  by (simp add: evict_stale_registration_def drop_registration_def wf_table_count
      arr_find_first [OF wf_table_holds] cong: option.case_cong)

lemma evict_step:
  assumes wf: "wf_table d"
  obtains d' where "evict_stale_registration d fd w = Some d'" "wf_table d'" "upd_table d d'"
    "reg_list d' = (case first_index (\<lambda>r. reg_fd r = fd \<and> reg_watcher r \<noteq> w) (reg_list d) of
       None \<Rightarrow> reg_list d | Some i \<Rightarrow> swap_out i (reg_list d))"
proof (cases "first_index (\<lambda>r. reg_fd r = fd \<and> reg_watcher r \<noteq> w) (reg_list d)")
  case None
  then show thesis using evict_eq [OF wf] wf by (intro that [of d]) simp_all
next
  case (Some i)
  then have "i < length (reg_list d)" by (blast dest: first_index_Some)
  from drop_step [OF wf this] obtain d' where "drop_registration d i = Some d'" "wf_table d'" "upd_table d d'"
    "reg_list d' = swap_out i (reg_list d)" .
  then show thesis using evict_eq [OF wf] Some by (intro that [of d']) simp_all
qed

text \<open>Growing, when the table is full, and storing append.\<close>

lemma grow_step:
  assumes wf: "wf_table d" and full: "registration_capacity d \<le> registration_count d"
  shows "wf_table (grow_registrations d)" "reg_list (grow_registrations d) = reg_list d"
    "upd_table d (grow_registrations d)"
    "registration_count (grow_registrations d) < registration_capacity (grow_registrations d)"
proof -
  let ?d = "grow_registrations d"
  have le: "length (registrations d) \<le> grown_capacity d" "registration_count d < grown_capacity d"
    using wf full by (auto simp: grown_capacity_def wf_table_def)
  have fields: "registrations ?d = arr_realloc (registrations d) (grown_capacity d)"
    "registration_count ?d = registration_count d" "registration_capacity ?d = grown_capacity d"
    by (simp_all add: grow_registrations_def Let_def)
  have "wf_table ?d \<and> reg_list ?d = reg_list d"
    using arr_holds_realloc [OF wf_table_holds [OF wf] le(1)] le wf_table_count [OF wf]
    by (intro wf_tableI) (simp_all add: fields)
  then show "wf_table ?d" "reg_list ?d = reg_list d" by simp_all
  show "upd_table d ?d" by (simp add: upd_table_def grow_registrations_def Let_def)
  show "registration_count ?d < registration_capacity ?d" using le by (simp add: fields)
qed

lemma store_step:
  assumes wf: "wf_table d" and room: "registration_count d < registration_capacity d"
  obtains d' where "store_registration d fd w = Some d'" "wf_table d'" "upd_table d d'"
    "reg_list d' = reg_list d @ [\<lparr>reg_fd = fd, reg_watcher = w\<rparr>]"
proof -
  let ?r = "\<lparr>reg_fd = fd, reg_watcher = w\<rparr>"
  let ?d = "d\<lparr>registrations := (registrations d)[registration_count d := Some ?r],
     registration_count := registration_count d + 1\<rparr>"
  have len: "registration_count d < length (registrations d)" using wf room by (simp add: wf_table_def)
  have n: "registration_count d = length (reg_list d)" by (rule wf_table_count [OF wf])
  have "arr_holds (registrations ?d) (reg_list d @ [?r])"
    using arr_holds_snoc [OF wf_table_holds [OF wf], of ?r] len by (simp add: n)
  then have "wf_table ?d \<and> reg_list ?d = reg_list d @ [?r]"
    using wf n by (intro wf_tableI) (simp_all add: wf_table_def)
  then show thesis
    using len by (intro that [of ?d]) (simp_all add: store_registration_def upd_table_def)
qed

section \<open>Refinement of the map\<close>

abbreviation reg_pair :: "pd_registration \<Rightarrow> int \<times> addr" where
  "reg_pair r \<equiv> (reg_fd r, reg_watcher r)"

lemma fst_reg_pair [simp]: "map (fst \<circ> (\<lambda>r. reg_pair r)) rs = map reg_fd rs"
  by (simp add: comp_def)

lemma owner_Some:
  "unique_table d \<Longrightarrow> owner d fd = Some w \<longleftrightarrow> \<lparr>reg_fd = fd, reg_watcher = w\<rparr> \<in> set (reg_list d)"
proof -
  assume u: "unique_table d"
  then have "distinct (map fst (map (\<lambda>r. reg_pair r) (reg_list d)))"
    by (simp add: unique_table_def)
  then have "owner d fd = Some w \<longleftrightarrow> (fd, w) \<in> set (map (\<lambda>r. reg_pair r) (reg_list d))"
    by (simp only: owner_def map_of_eq_Some_iff)
  also have "\<dots> \<longleftrightarrow> \<lparr>reg_fd = fd, reg_watcher = w\<rparr> \<in> set (reg_list d)"
    by (auto simp: image_iff) (metis pd_registration.surjective unit.exhaust, force)
  finally show ?thesis .
qed

lemma ran_owner: "unique_table d \<Longrightarrow> ran (owner d) = reg_watcher ` set (reg_list d)"
  by (auto simp: owner_def ran_distinct unique_table_def image_image)

lemma dom_owner: "dom (owner d) = reg_fd ` set (reg_list d)"
  by (simp add: owner_def dom_map_of_conv_image_fst image_image)

lemma swap_out_owner:
  assumes u: "unique_table d" and i: "i < length (reg_list d)" and d': "reg_list d' = swap_out i (reg_list d)"
  shows "unique_table d'" "owner d' = (owner d)(reg_fd (reg_list d ! i) := None)"
proof -
  let ?rs = "reg_list d" and ?r = "reg_list d ! i"
  have fds: "distinct (map reg_fd (swap_out i ?rs))" "reg_fd ?r \<notin> reg_fd ` set (swap_out i ?rs)"
    and ws: "distinct (map reg_watcher (swap_out i ?rs))"
    using distinct_map_swap_out [OF i] u unfolding unique_table_def by blast+
  show "unique_table d'" using fds(1) ws by (simp add: unique_table_def d')
  have "map_of (map (\<lambda>r. reg_pair r) (?r # swap_out i ?rs)) = owner d"
    unfolding owner_def
  proof (subst map_of_inject_set)
    show "distinct (map fst (map (\<lambda>r. reg_pair r) (?r # swap_out i ?rs)))"
      using fds by (simp add: comp_def)
    show "distinct (map fst (map (\<lambda>r. reg_pair r) ?rs))"
      using u by (simp add: unique_table_def comp_def)
    show "set (map (\<lambda>r. reg_pair r) (?r # swap_out i ?rs)) = set (map (\<lambda>r. reg_pair r) ?rs)"
      using set_swap_out [OF i] by (simp only: set_map list.set)
  qed
  then have "owner d = (owner d')(reg_fd ?r \<mapsto> reg_watcher ?r)" by (simp add: owner_def d')
  moreover have "owner d' (reg_fd ?r) = None"
    using fds(2) dom_owner [of d'] d' by (auto simp: domIff)
  ultimately show "owner d' = (owner d)(reg_fd ?r := None)" by (simp add: fun_upd_idem)
qed

lemma evict_owner:
  assumes wf: "wf_table d" and u: "unique_table d"
  obtains d' where "evict_stale_registration d fd w = Some d'" "wf_table d'" "upd_table d d'" "unique_table d'"
    "owner d' = (if owner d fd = None \<or> owner d fd = Some w then owner d else (owner d)(fd := None))"
proof -
  let ?p = "\<lambda>r. reg_fd r = fd \<and> reg_watcher r \<noteq> w"
  obtain d' where d': "evict_stale_registration d fd w = Some d'" "wf_table d'" "upd_table d d'"
    "reg_list d' = (case first_index ?p (reg_list d) of None \<Rightarrow> reg_list d | Some i \<Rightarrow> swap_out i (reg_list d))"
    by (rule evict_step [OF wf])
  show thesis
  proof (cases "first_index ?p (reg_list d)")
    case None
    have "owner d fd = None \<or> owner d fd = Some w"
    proof (cases "owner d fd")
      case (Some v)
      then have "\<lparr>reg_fd = fd, reg_watcher = v\<rparr> \<in> set (reg_list d)" using owner_Some [OF u] by blast
      then have "v = w" using None first_index_None [of ?p] by fastforce
      with Some show ?thesis by simp
    qed simp
    moreover have "unique_table d'" "owner d' = owner d"
      using d'(4) None u by (simp_all add: unique_table_def owner_def)
    ultimately show thesis using d' by (intro that [of d']) auto
  next
    case (Some i)
    then have i: "i < length (reg_list d)" "reg_fd (reg_list d ! i) = fd" "reg_watcher (reg_list d ! i) \<noteq> w"
      by (blast dest: first_index_Some)+
    have "reg_list d ! i = \<lparr>reg_fd = fd, reg_watcher = reg_watcher (reg_list d ! i)\<rparr>"
      using i(2) by simp
    then have "owner d fd = Some (reg_watcher (reg_list d ! i))"
      using owner_Some [OF u] nth_mem [OF i(1)] by simp
    moreover have "unique_table d'" "owner d' = (owner d)(fd := None)"
      using swap_out_owner [OF u i(1), of d'] d'(4) Some i(2) by simp_all
    ultimately show thesis using d' i(3) by (intro that [of d']) auto
  qed
qed

lemma store_owner:
  assumes u: "unique_table d" and fd: "owner d fd = None" and w: "w \<notin> ran (owner d)"
    and d': "reg_list d' = reg_list d @ [\<lparr>reg_fd = fd, reg_watcher = w\<rparr>]"
  shows "unique_table d'" "owner d' = (owner d)(fd \<mapsto> w)"
proof -
  have nfd: "fd \<notin> reg_fd ` set (reg_list d)" using fd dom_owner [of d] by blast
  show "unique_table d'"
    using u w nfd by (auto simp: unique_table_def d' ran_owner [OF u])
  show "owner d' = (owner d)(fd \<mapsto> w)"
  proof
    fix x
    show "owner d' x = ((owner d)(fd \<mapsto> w)) x"
      using fd by (auto simp: owner_def d' map_add_def split: option.splits)
  qed
qed

lemma found_owner_fd:
  assumes wf: "wf_table d" and u: "unique_table d" and own: "owner d fd = Some w"
    and found: "find_registration d w = Some (Some i)"
  shows "reg_fd (reg_list d ! i) = fd"
proof -
  from found have "first_index (\<lambda>r. reg_watcher r = w) (reg_list d) = Some i" by (simp add: find_eq wf)
  then have "i < length (reg_list d)" "reg_watcher (reg_list d ! i) = w" by (blast dest: first_index_Some)+
  moreover have "\<lparr>reg_fd = fd, reg_watcher = w\<rparr> \<in> set (reg_list d)" using owner_Some [OF u] own by blast
  ultimately show ?thesis
    using u unfolding unique_table_def distinct_map
    by (metis inj_onD nth_mem pd_registration.select_convs(1,2))
qed

lemma find_owner:
  assumes wf: "wf_table d" and u: "unique_table d"
  obtains (missing) "find_registration d w = Some None" "w \<notin> ran (owner d)"
  | (found) i fd d' where "find_registration d w = Some (Some i)" "i < registration_count d"
      "owner d fd = Some w" "drop_registration d i = Some d'" "wf_table d'" "upd_table d d'" "unique_table d'"
      "owner d' = (owner d)(fd := None)"
proof (cases "first_index (\<lambda>r. reg_watcher r = w) (reg_list d)")
  case None
  then have "w \<notin> ran (owner d)"
    using first_index_None [of "\<lambda>r. reg_watcher r = w"] by (auto simp: ran_owner [OF u])
  then show thesis using None find_eq [OF wf] by (intro missing) simp_all
next
  case (Some i)
  then have i: "i < length (reg_list d)" "reg_watcher (reg_list d ! i) = w"
    by (blast dest: first_index_Some)+
  obtain d' where d': "drop_registration d i = Some d'" "wf_table d'" "upd_table d d'"
    "reg_list d' = swap_out i (reg_list d)" by (rule drop_step [OF wf i(1)])
  have "reg_list d ! i = \<lparr>reg_fd = reg_fd (reg_list d ! i), reg_watcher = w\<rparr>" using i(2) by simp
  then have "owner d (reg_fd (reg_list d ! i)) = Some w"
    using owner_Some [OF u] nth_mem [OF i(1)] by metis
  then show thesis
    using Some d' i(1) wf_table_count [OF wf] find_eq [OF wf] swap_out_owner [OF u i(1) d'(4)]
    by (intro found) simp_all
qed

end
