(* ===== verification/Pd_Epoll_Data.thy ===== *)
theory Pd_Epoll_Data
  imports Pd_Linux Pd_Registrations
begin

text \<open>The platform data of the epoll backend's loops and watchers.\<close>

type_synonym pd_epoll_registration = pd_registration

record pd_epoll_data = reg_table +
  ed_epoll_fd :: int
  ed_events :: "epoll_event c_array"
  ed_max_events :: int
  ed_eventfd_fd :: int

record pd_epoll_watcher_data =
  ew_epoll_event :: epoll_event

definition zero_epoll_event :: epoll_event where
  "zero_epoll_event = \<lparr>ee_events = 0, ee_data = NULL\<rparr>"

definition zero_epoll_data :: pd_epoll_data where
  "zero_epoll_data = \<lparr>registrations = [], registration_count = 0, registration_capacity = 0,
     ed_epoll_fd = 0, ed_events = [], ed_max_events = 0, ed_eventfd_fd = 0\<rparr>"

definition zero_epoll_watcher_data :: pd_epoll_watcher_data where
  "zero_epoll_watcher_data = \<lparr>ew_epoll_event = zero_epoll_event\<rparr>"

lemma zero_epoll_watcher_data_event [simp]:
  "zero_epoll_watcher_data\<lparr>ew_epoll_event := e\<rparr> = \<lparr>ew_epoll_event = e\<rparr>"
  by (simp add: zero_epoll_watcher_data_def)

end
