(* ===== verification/Pd_Epoll.thy ===== *)
theory Pd_Epoll
  imports Pd_Backend Pd_Epoll_Data
begin

text \<open>
  The watcher operations of the epoll backend (\<^verbatim>\<open>src/platform/epoll.c\<close>): the translation
  of event masks and register, update and unregister, over a kernel \<open>K\<close>. They keep the
  backend's invariant \<open>epoll_inv\<close> whatever the kernel and the allocator answer, which
  makes them a \<open>readiness_backend\<close>.
\<close>

type_synonym 'k epoll_state = "(pd_epoll_data, pd_epoll_watcher_data, int, 'k) pd_state"

section \<open>Event masks\<close>

definition events_to_epoll :: "pd_event \<Rightarrow> 32 word" where
  "events_to_epoll events =
    (let epoll_events = 0;
         epoll_events = (if has_flag events PD_EVENT_READ then epoll_events OR EPOLLIN else epoll_events);
         epoll_events = (if has_flag events PD_EVENT_WRITE then epoll_events OR EPOLLOUT else epoll_events);
         epoll_events = (if has_flag events PD_EVENT_ERROR then epoll_events OR EPOLLERR else epoll_events);
         epoll_events = (if has_flag events PD_EVENT_HANGUP then epoll_events OR (EPOLLHUP OR EPOLLRDHUP) else epoll_events);
         epoll_events = (if has_flag events PD_EVENT_PRI then epoll_events OR EPOLLPRI else epoll_events);
         epoll_events = (if has_flag events PD_EVENT_EDGE then epoll_events OR EPOLLET else epoll_events)
     in epoll_events)"

definition epoll_to_events :: "32 word \<Rightarrow> pd_event" where
  "epoll_to_events epoll_events =
    (let events = PD_EVENT_NONE;
         events = (if has_flag epoll_events EPOLLIN then events OR PD_EVENT_READ else events);
         events = (if has_flag epoll_events EPOLLOUT then events OR PD_EVENT_WRITE else events);
         events = (if has_flag epoll_events EPOLLERR then events OR PD_EVENT_ERROR else events);
         events = (if has_flag epoll_events (EPOLLHUP OR EPOLLRDHUP) then events OR PD_EVENT_HANGUP else events);
         events = (if has_flag epoll_events EPOLLPRI then events OR PD_EVENT_PRI else events)
     in events)"

text \<open>The masks bit by bit.\<close>

lemma epoll_flags:
  "EPOLLIN = push_bit 0 1" "EPOLLPRI = push_bit 1 1" "EPOLLOUT = push_bit 2 1" "EPOLLERR = push_bit 3 1"
  "EPOLLHUP = push_bit 4 1" "EPOLLRDHUP = push_bit 13 1" "EPOLLET = push_bit 31 1"
  by (simp_all add: epoll_defs push_bit_eq_mult)

lemma epoll_has_flag:
  "has_flag m EPOLLIN \<longleftrightarrow> bit m 0" "has_flag m EPOLLPRI \<longleftrightarrow> bit m 1" "has_flag m EPOLLOUT \<longleftrightarrow> bit m 2"
  "has_flag m EPOLLERR \<longleftrightarrow> bit m 3" "has_flag m EPOLLHUP \<longleftrightarrow> bit m 4" "has_flag m EPOLLRDHUP \<longleftrightarrow> bit m 13"
  "has_flag m EPOLLET \<longleftrightarrow> bit m 31"
  unfolding epoll_flags by (rule has_flag_exp, simp)+

lemma epoll_bits:
  "bit EPOLLIN n \<longleftrightarrow> n = 0" "bit EPOLLPRI n \<longleftrightarrow> n = 1" "bit EPOLLOUT n \<longleftrightarrow> n = 2"
  "bit EPOLLERR n \<longleftrightarrow> n = 3" "bit EPOLLHUP n \<longleftrightarrow> n = 4" "bit EPOLLRDHUP n \<longleftrightarrow> n = 13"
  "bit EPOLLET n \<longleftrightarrow> n = 31"
  unfolding epoll_flags by (rule bit_single, simp)+

lemma bit_events_to_epoll:
  "bit (events_to_epoll ev) n \<longleftrightarrow>
     n = 0 \<and> bit ev 0 \<or> n = 2 \<and> bit ev 1 \<or> n = 3 \<and> bit ev 2 \<or> (n = 4 \<or> n = 13) \<and> bit ev 3 \<or>
     n = 1 \<and> bit ev 4 \<or> n = 31 \<and> bit ev 5"
  unfolding events_to_epoll_def Let_def bit_if_or event_has_flag by (auto simp: bit_or_iff epoll_bits)

lemma bit_epoll_to_events:
  "bit (epoll_to_events m) n \<longleftrightarrow>
     n = 0 \<and> bit m 0 \<or> n = 1 \<and> bit m 2 \<or> n = 2 \<and> bit m 3 \<or> n = 3 \<and> (bit m 4 \<or> bit m 13) \<or> n = 4 \<and> bit m 1"
  unfolding epoll_to_events_def Let_def bit_if_or has_flag_or epoll_has_flag
  by (auto simp: event_bits PD_EVENT_NONE_def)

section \<open>Register, update, unregister\<close>

definition epoll_watcher_register_handle_unused ::
  "addr \<Rightarrow> addr \<Rightarrow> 'k epoll_state \<Rightarrow> (pd_error \<times> 'k epoll_state) option" where
  "epoll_watcher_register_handle_unused loop watcher s = Some (PD_ERR_NOT_IMPLEMENTED, s)"

definition epoll_watcher_register ::
  "'k linux \<Rightarrow> addr \<Rightarrow> addr \<Rightarrow> 'k epoll_state \<Rightarrow> (pd_error \<times> 'k epoll_state) option" where
  "epoll_watcher_register K loop watcher s =
    (if loop = NULL \<or> watcher = NULL then Some (PD_ERR_INVALID_ARG, s)
     else do {
       lp \<leftarrow> st_loops s loop;
       let data = l_platform_data lp;
       if data = NULL then Some (PD_ERR_LOOP_CLOSED, s)
       else let (watcher_data, s) = calloc_wdata zero_epoll_watcher_data s in
         if watcher_data = NULL
         then do { s \<leftarrow> pd_set_system_error loop (pd_get_current_system_error s) s; Some (PD_ERR_NO_MEMORY, s) }
         else do {
           w \<leftarrow> st_watchers s watcher;
           let event = \<lparr>ee_events = events_to_epoll (w_events w), ee_data = watcher\<rparr>;
           s \<leftarrow> write_wdata watcher_data (\<lambda>x. x\<lparr>ew_epoll_event := event\<rparr>) s;
           d \<leftarrow> st_ldata s data;
           d \<leftarrow> evict_stale_registration d (w_fd w) watcher;
           s \<leftarrow> write_ldata data (\<lambda>_. d) s;
           let (result, s) = syscall (sys_epoll_ctl K (ed_epoll_fd d) EPOLL_CTL_ADD (w_fd w) (Some event)) s;
           if result = None
           then do {
             s \<leftarrow> pd_set_system_error loop (pd_get_current_system_error s) s;
             s \<leftarrow> free_wdata watcher_data s;
             Some (PD_ERR_SYSTEM, s) }
           else do {
             d \<leftarrow> st_ldata s data;
             (room, s) \<leftarrow>
               (if registration_count d \<ge> registration_capacity d
                then (let (ok, s) = alloc_array s in
                  if \<not> ok then Some (False, s)
                  else do { s \<leftarrow> write_ldata data grow_registrations s; Some (True, s) })
                else Some (True, s));
             if \<not> room
             then
               let (_, s) = syscall (sys_epoll_ctl K (ed_epoll_fd d) EPOLL_CTL_DEL (w_fd w) None) s in do {
                 s \<leftarrow> free_wdata watcher_data s;
                 s \<leftarrow> pd_set_system_error loop (pd_get_current_system_error s) s;
                 Some (PD_ERR_NO_MEMORY, s) }
             else do {
               d \<leftarrow> st_ldata s data;
               d \<leftarrow> store_registration d (w_fd w) watcher;
               s \<leftarrow> write_ldata data (\<lambda>_. d) s;
               s \<leftarrow> write_watcher watcher (\<lambda>x. x\<lparr>w_platform_data := watcher_data\<rparr>) s;
               Some (PD_OK, s) } } } })"

definition epoll_watcher_update ::
  "'k linux \<Rightarrow> addr \<Rightarrow> pd_event \<Rightarrow> 'k epoll_state \<Rightarrow> (pd_error \<times> 'k epoll_state) option" where
  "epoll_watcher_update K watcher events s =
    (if watcher = NULL then Some (PD_ERR_INVALID_ARG, s)
     else do {
       w \<leftarrow> st_watchers s watcher;
       if w_loop w = NULL then Some (PD_ERR_INVALID_ARG, s)
       else do {
         lp \<leftarrow> st_loops s (w_loop w);
         let data = l_platform_data lp;
         if data = NULL then Some (PD_ERR_LOOP_CLOSED, s)
         else
           let watcher_data = w_platform_data w in
           if watcher_data = NULL then Some (PD_ERR_INVALID_ARG, s)
           else do {
             s \<leftarrow> write_wdata watcher_data
                    (\<lambda>x. x\<lparr>ew_epoll_event := (ew_epoll_event x)\<lparr>ee_events := events_to_epoll events\<rparr>\<rparr>) s;
             d \<leftarrow> st_ldata s data;
             wd \<leftarrow> st_wdata s watcher_data;
             let (result, s) = syscall (sys_epoll_ctl K (ed_epoll_fd d) EPOLL_CTL_MOD (w_fd w)
                                 (Some (ew_epoll_event wd))) s;
             if result = None
             then do {
               s \<leftarrow> pd_set_system_error (w_loop w) (pd_get_current_system_error s) s;
               Some (PD_ERR_SYSTEM, s) }
             else Some (PD_OK, s) } } })"

definition epoll_watcher_unregister ::
  "'k linux \<Rightarrow> addr \<Rightarrow> 'k epoll_state \<Rightarrow> (pd_error \<times> 'k epoll_state) option" where
  "epoll_watcher_unregister K watcher s =
    (if watcher = NULL then Some (PD_ERR_INVALID_ARG, s)
     else do {
       w \<leftarrow> st_watchers s watcher;
       if w_loop w = NULL then Some (PD_ERR_INVALID_ARG, s)
       else do {
         lp \<leftarrow> st_loops s (w_loop w);
         let data = l_platform_data lp;
         if data = NULL
         then do {
           s \<leftarrow> free_wdata (w_platform_data w) s;
           s \<leftarrow> write_watcher watcher (\<lambda>x. x\<lparr>w_platform_data := NULL\<rparr>) s;
           Some (PD_ERR_LOOP_CLOSED, s) }
         else do {
           d \<leftarrow> st_ldata s data;
           registration_index \<leftarrow> find_registration d watcher;
           (failed, s) \<leftarrow> (case registration_index of
              None \<Rightarrow> Some (False, s)
            | Some i \<Rightarrow>
                let (result, s) = syscall (sys_epoll_ctl K (ed_epoll_fd d) EPOLL_CTL_DEL (w_fd w) None) s in
                if result = None \<and> st_errno s \<noteq> EBADF
                then do {
                  s \<leftarrow> pd_set_system_error (w_loop w) (pd_get_current_system_error s) s;
                  Some (True, s) }
                else do {
                  d \<leftarrow> st_ldata s data;
                  d \<leftarrow> drop_registration d i;
                  s \<leftarrow> write_ldata data (\<lambda>_. d) s;
                  Some (False, s) });
           if failed then Some (PD_ERR_SYSTEM, s)
           else do {
             w \<leftarrow> st_watchers s watcher;
             s \<leftarrow> free_wdata (w_platform_data w) s;
             s \<leftarrow> write_watcher watcher (\<lambda>x. x\<lparr>w_platform_data := NULL\<rparr>) s;
             Some (PD_OK, s) } } } })"

text \<open>The watcher slots of the operation table.\<close>

definition epoll_watcher_ops :: "'k linux \<Rightarrow> 'k epoll_state pd_watcher_ops" where
  "epoll_watcher_ops K = \<lparr>op_watcher_register = Some (epoll_watcher_register K),
     op_watcher_register_handle = Some epoll_watcher_register_handle_unused,
     op_watcher_update = Some (epoll_watcher_update K),
     op_watcher_unregister = Some (epoll_watcher_unregister K),
     op_watcher_drain_read = None\<rparr>"

section \<open>The invariant\<close>

definition epoll_data_ok :: "pd_epoll_data \<Rightarrow> bool" where
  "epoll_data_ok d \<longleftrightarrow> wf_table d \<and> 0 < ed_max_events d \<and>
     length (ed_events d) = nat (ed_max_events d) \<and> None \<notin> set (ed_events d)"

definition epoll_inv :: "'k epoll_state \<Rightarrow> bool" where
  "epoll_inv s \<longleftrightarrow> owned (loop_pdata s) (st_ldata s) epoll_data_ok \<and>
     owned (watcher_pdata s) (st_wdata s) (\<lambda>_. True)"

lemma epoll_inv_stable: "epoll_inv s \<Longrightarrow> same_pdata s s' \<Longrightarrow> epoll_inv s'"
  by (auto simp: epoll_inv_def same_pdata_def intro: owned_less)

lemma epoll_data_table: "upd_table d d' \<Longrightarrow> wf_table d' \<Longrightarrow> epoll_data_ok d \<Longrightarrow> epoll_data_ok d'"
  by (auto simp: epoll_data_ok_def elim!: upd_tableE)

lemma epoll_inv_loop:
  assumes "epoll_inv s" "st_loops s l = Some lp"
  obtains d where "l_platform_data lp \<noteq> NULL" "st_ldata s (l_platform_data lp) = Some d"
    "epoll_data_ok d" "wf_table d"
proof -
  have "owned (loop_pdata s) (st_ldata s) epoll_data_ok" using assms(1) by (simp add: epoll_inv_def)
  from ownedD [OF this loop_pdata_Some [OF assms(2)]] that show thesis
    by (auto simp: epoll_data_ok_def)
qed

lemma epoll_inv_watcher:
  assumes "epoll_inv s" "st_watchers s w = Some wt"
  shows "w_platform_data wt = NULL \<or> st_wdata s (w_platform_data wt) \<noteq> None"
proof (cases "w_platform_data wt = NULL")
  case False
  have "owned (watcher_pdata s) (st_wdata s) (\<lambda>_. True)" using assms(1) by (simp add: epoll_inv_def)
  from ownedD [OF this watcher_pdata_Some [OF assms(2) False]] show ?thesis by blast
qed simp

section \<open>Register\<close>

text \<open>
  The outcomes of a registration of \<open>w\<close> with descriptor \<open>w_fd wt\<close>. \<open>d1\<close> is the loop's data
  after the eviction, \<open>k1\<close> the kernel after the \<open>EPOLL_CTL_ADD\<close>.
\<close>

definition watch_event :: "addr \<Rightarrow> pd_watcher \<Rightarrow> epoll_event" where
  "watch_event w wt = \<lparr>ee_events = events_to_epoll (w_events wt), ee_data = w\<rparr>"

lemma register_cases:
  assumes lp: "st_loops s l = Some lp" "l \<noteq> NULL" and w: "st_watchers s w = Some wt" "w \<noteq> NULL"
    and d: "l_platform_data lp \<noteq> NULL" "st_ldata s (l_platform_data lp) = Some d" "wf_table d"
    and d1: "evict_stale_registration d (w_fd wt) w = Some d1" "wf_table d1"
  obtains (no_data) s' e where "epoll_watcher_register K l w s = Some (PD_ERR_NO_MEMORY, s')"
      "\<exists>cs en. s' = s\<lparr>st_choices := cs, st_errno := en, st_loops := (st_loops s)(l \<mapsto> lp\<lparr>l_system_error := e\<rparr>)\<rparr>"
  | (refused) s' e k1 where "epoll_watcher_register K l w s = Some (PD_ERR_SYSTEM, s')"
      "sys_epoll_ctl K (ed_epoll_fd d1) EPOLL_CTL_ADD (w_fd wt) (Some (watch_event w wt)) (st_kernel s) = (Inl e, k1)"
      "\<exists>cs en. s' = s\<lparr>st_choices := cs, st_errno := en, st_ldata := (st_ldata s)(l_platform_data lp \<mapsto> d1),
         st_kernel := k1, st_loops := (st_loops s)(l \<mapsto> lp\<lparr>l_system_error := e\<rparr>)\<rparr>"
  | (no_room) s' e k1 r2 k2 v where "epoll_watcher_register K l w s = Some (PD_ERR_NO_MEMORY, s')"
      "sys_epoll_ctl K (ed_epoll_fd d1) EPOLL_CTL_ADD (w_fd wt) (Some (watch_event w wt)) (st_kernel s) = (Inr v, k1)"
      "sys_epoll_ctl K (ed_epoll_fd d1) EPOLL_CTL_DEL (w_fd wt) None k1 = (r2, k2)"
      "\<exists>cs en. s' = s\<lparr>st_choices := cs, st_errno := en, st_ldata := (st_ldata s)(l_platform_data lp \<mapsto> d1),
         st_kernel := k2, st_loops := (st_loops s)(l \<mapsto> lp\<lparr>l_system_error := e\<rparr>)\<rparr>"
  | (ok) s' k1 d2 p v where "epoll_watcher_register K l w s = Some (PD_OK, s')"
      "sys_epoll_ctl K (ed_epoll_fd d1) EPOLL_CTL_ADD (w_fd wt) (Some (watch_event w wt)) (st_kernel s) = (Inr v, k1)"
      "p \<noteq> NULL" "st_wdata s p = None" "wf_table d2" "upd_table d1 d2"
      "reg_list d2 = reg_list d1 @ [\<lparr>reg_fd = w_fd wt, reg_watcher = w\<rparr>]"
      "\<exists>cs en. s' = s\<lparr>st_choices := cs, st_errno := en,
         st_wdata := (st_wdata s)(p \<mapsto> \<lparr>ew_epoll_event = watch_event w wt\<rparr>),
         st_ldata := (st_ldata s)(l_platform_data lp \<mapsto> d2), st_kernel := k1,
         st_watchers := (st_watchers s)(w \<mapsto> wt\<lparr>w_platform_data := p\<rparr>)\<rparr>"
proof (cases rule: calloc_wdata_cases [of zero_epoll_watcher_data s])
  case (null cs e)
  then have "epoll_watcher_register K l w s = Some (PD_ERR_NO_MEMORY, s\<lparr>st_choices := cs, st_errno := e,
    st_loops := (st_loops s)(l \<mapsto> lp\<lparr>l_system_error := e\<rparr>)\<rparr>)"
    using lp w d by (simp add: epoll_watcher_register_def set_error_eq pd_get_current_system_error_def Let_def)
  then show thesis by (rule no_data) blast
next
  case (some p cs e)
  let ?data = "l_platform_data lp" and ?ev = "watch_event w wt"
  let ?s1 = "s\<lparr>st_choices := cs, st_errno := e, st_wdata := (st_wdata s)(p \<mapsto> \<lparr>ew_epoll_event = ?ev\<rparr>),
    st_ldata := (st_ldata s)(?data \<mapsto> d1)\<rparr>"
  note start = epoll_watcher_register_def lp w d(1,2) d1(1) some heap_write_def heap_free_def
    pd_get_current_system_error_def watch_event_def [symmetric] set_error_eq Let_def
  obtain r1 k1 where k1: "sys_epoll_ctl K (ed_epoll_fd d1) EPOLL_CTL_ADD (w_fd wt) (Some ?ev) (st_kernel s) = (r1, k1)"
    by fastforce
  show thesis
  proof (cases r1)
    case (Inl e1)
    have "epoll_watcher_register K l w s = Some (PD_ERR_SYSTEM, s\<lparr>st_choices := cs, st_errno := e1,
      st_wdata := st_wdata s, st_ldata := (st_ldata s)(?data \<mapsto> d1), st_kernel := k1,
      st_loops := (st_loops s)(l \<mapsto> lp\<lparr>l_system_error := e1\<rparr>)\<rparr>)"
      using k1 by (simp add: start Inl syscall_def fun_upd_idem)
    then show thesis
      using k1 Inl by (intro refused) auto
  next
    case (Inr v)
    let ?s2 = "s\<lparr>st_choices := cs, st_errno := e, st_wdata := (st_wdata s)(p \<mapsto> \<lparr>ew_epoll_event = ?ev\<rparr>),
      st_ldata := (st_ldata s)(?data \<mapsto> d1), st_kernel := k1\<rparr>"
    show thesis
    proof (cases "registration_capacity d1 \<le> registration_count d1")
      case False
      obtain d2 where d2: "store_registration d1 (w_fd wt) w = Some d2" "wf_table d2" "upd_table d1 d2"
        "reg_list d2 = reg_list d1 @ [\<lparr>reg_fd = w_fd wt, reg_watcher = w\<rparr>]"
        by (rule store_step [OF d1(2), of "w_fd wt" w]) (use False in simp)
      have "epoll_watcher_register K l w s = Some (PD_OK, s\<lparr>st_choices := cs, st_errno := e,
         st_wdata := (st_wdata s)(p \<mapsto> \<lparr>ew_epoll_event = ?ev\<rparr>), st_ldata := (st_ldata s)(?data \<mapsto> d2),
         st_kernel := k1, st_watchers := (st_watchers s)(w \<mapsto> wt\<lparr>w_platform_data := p\<rparr>)\<rparr>)"
        using k1 False by (simp add: start Inr syscall_def d2(1))
      then show thesis
        using k1 Inr some(2,3) d2 by (intro ok) blast+
    next
      case full: True
      obtain b cs2 e2 where b: "alloc_array ?s2 = (b, ?s2\<lparr>st_choices := cs2, st_errno := e2\<rparr>)"
        by (rule alloc_array_cases)
      show thesis
      proof (cases b)
        case False
        obtain r2 k2 where k2: "sys_epoll_ctl K (ed_epoll_fd d1) EPOLL_CTL_DEL (w_fd wt) None k1 = (r2, k2)"
          by fastforce
        let ?en = "case r2 of Inl en \<Rightarrow> en | Inr _ \<Rightarrow> e2"
        have "epoll_watcher_register K l w s = Some (PD_ERR_NO_MEMORY, s\<lparr>st_choices := cs2, st_errno := ?en,
          st_ldata := (st_ldata s)(?data \<mapsto> d1), st_kernel := k2,
          st_loops := (st_loops s)(l \<mapsto> lp\<lparr>l_system_error := ?en\<rparr>)\<rparr>)"
          using k1 full k2 b False
          by (simp add: start Inr syscall_def fun_upd_idem split: sum.splits)
        then show thesis
          using k1 Inr k2 by (intro no_room) blast+
      next
        case True
        obtain d2 where d2: "store_registration (grow_registrations d1) (w_fd wt) w = Some d2" "wf_table d2"
          "upd_table (grow_registrations d1) d2"
          "reg_list d2 = reg_list d1 @ [\<lparr>reg_fd = w_fd wt, reg_watcher = w\<rparr>]"
          using grow_step [OF d1(2) full] store_step [of "grow_registrations d1" "w_fd wt" w] by metis
        have "epoll_watcher_register K l w s = Some (PD_OK, s\<lparr>st_choices := cs2, st_errno := e2,
           st_wdata := (st_wdata s)(p \<mapsto> \<lparr>ew_epoll_event = ?ev\<rparr>), st_ldata := (st_ldata s)(?data \<mapsto> d2),
           st_kernel := k1, st_watchers := (st_watchers s)(w \<mapsto> wt\<lparr>w_platform_data := p\<rparr>)\<rparr>)"
          using k1 full b True by (simp add: start Inr syscall_def d2(1))
        moreover have "upd_table d1 d2" using grow_step(3) [OF d1(2) full] d2(3) by (rule upd_table_trans)
        ultimately show thesis
          using k1 Inr some(2,3) d2(2,4) by (intro ok) blast+
      qed
    qed
  qed
qed

section \<open>Unregister\<close>

lemma unregister_cases:
  assumes w: "st_watchers s w = Some wt" "w \<noteq> NULL" "w_loop wt \<noteq> NULL"
    and lp: "st_loops s (w_loop wt) = Some lp"
    and d: "l_platform_data lp \<noteq> NULL" "st_ldata s (l_platform_data lp) = Some d" "wf_table d"
    and p: "w_platform_data wt = NULL \<or> st_wdata s (w_platform_data wt) \<noteq> None"
  obtains (absent) "find_registration d w = Some None"
      "epoll_watcher_unregister K w s = Some (PD_OK,
         s\<lparr>st_wdata := wdata_freed (w_platform_data wt) (st_wdata s),
           st_watchers := (st_watchers s)(w \<mapsto> wt\<lparr>w_platform_data := NULL\<rparr>)\<rparr>)"
  | (refused) i e k1 where "find_registration d w = Some (Some i)"
      "sys_epoll_ctl K (ed_epoll_fd d) EPOLL_CTL_DEL (w_fd wt) None (st_kernel s) = (Inl e, k1)" "e \<noteq> EBADF"
      "epoll_watcher_unregister K w s = Some (PD_ERR_SYSTEM,
         s\<lparr>st_kernel := k1, st_errno := e,
           st_loops := (st_loops s)(w_loop wt \<mapsto> lp\<lparr>l_system_error := e\<rparr>)\<rparr>)"
  | (removed) i r k1 d' en where "find_registration d w = Some (Some i)"
      "sys_epoll_ctl K (ed_epoll_fd d) EPOLL_CTL_DEL (w_fd wt) None (st_kernel s) = (r, k1)"
      "r = Inl EBADF \<or> (\<exists>v. r = Inr v)"
      "drop_registration d i = Some d'" "wf_table d'" "upd_table d d'" "reg_list d' = swap_out i (reg_list d)"
      "i < length (reg_list d)"
      "epoll_watcher_unregister K w s = Some (PD_OK,
         s\<lparr>st_kernel := k1, st_errno := en, st_ldata := (st_ldata s)(l_platform_data lp \<mapsto> d'),
           st_wdata := wdata_freed (w_platform_data wt) (st_wdata s),
           st_watchers := (st_watchers s)(w \<mapsto> wt\<lparr>w_platform_data := NULL\<rparr>)\<rparr>)"
proof -
  note start = epoll_watcher_unregister_def w lp d(1,2) heap_write_def Let_def
    pd_get_current_system_error_def set_error_eq free_wdata_eq
  show thesis
  proof (cases "first_index (\<lambda>r. reg_watcher r = w) (reg_list d)")
    case None
    then have find: "find_registration d w = Some None" by (simp add: find_eq d(3))
    show thesis using p by (intro absent) (simp_all add: find start)
  next
    case (Some i)
    then have find: "find_registration d w = Some (Some i)" by (simp add: find_eq d(3))
    have i: "i < length (reg_list d)" using Some by (blast dest: first_index_Some)
    obtain d' where d': "drop_registration d i = Some d'" "wf_table d'" "upd_table d d'"
      "reg_list d' = swap_out i (reg_list d)" by (rule drop_step [OF d(3) i])
    obtain r k1 where k1: "sys_epoll_ctl K (ed_epoll_fd d) EPOLL_CTL_DEL (w_fd wt) None (st_kernel s) = (r, k1)"
      by fastforce
    show thesis
    proof (cases r)
      case (Inl e)
      show thesis
      proof (cases "e = EBADF")
        case False
        have "epoll_watcher_unregister K w s = Some (PD_ERR_SYSTEM, s\<lparr>st_kernel := k1, st_errno := e,
           st_loops := (st_loops s)(w_loop wt \<mapsto> lp\<lparr>l_system_error := e\<rparr>)\<rparr>)"
          using k1 p False by (simp add: start find Inl syscall_def)
        then show thesis using k1 Inl False find by (intro refused) simp_all
      next
        case True
        have "epoll_watcher_unregister K w s = Some (PD_OK,
           s\<lparr>st_kernel := k1, st_errno := EBADF, st_ldata := (st_ldata s)(l_platform_data lp \<mapsto> d'),
             st_wdata := wdata_freed (w_platform_data wt) (st_wdata s),
             st_watchers := (st_watchers s)(w \<mapsto> wt\<lparr>w_platform_data := NULL\<rparr>)\<rparr>)"
          using k1 p True by (simp add: start find Inl syscall_def d'(1))
        then show thesis using k1 Inl True find d' i by (intro removed) (simp, simp, blast, simp_all)
      qed
    next
      case (Inr v)
      have "epoll_watcher_unregister K w s = Some (PD_OK,
         s\<lparr>st_kernel := k1, st_errno := st_errno s, st_ldata := (st_ldata s)(l_platform_data lp \<mapsto> d'),
           st_wdata := wdata_freed (w_platform_data wt) (st_wdata s),
           st_watchers := (st_watchers s)(w \<mapsto> wt\<lparr>w_platform_data := NULL\<rparr>)\<rparr>)"
        using k1 p by (simp add: start find Inr syscall_def d'(1))
      then show thesis using k1 Inr find d' i by (intro removed) blast+
    qed
  qed
qed

section \<open>Update\<close>

lemma update_cases:
  assumes w: "st_watchers s w = Some wt" "w \<noteq> NULL" "w_loop wt \<noteq> NULL"
    and lp: "st_loops s (w_loop wt) = Some lp"
    and d: "l_platform_data lp \<noteq> NULL" "st_ldata s (l_platform_data lp) = Some d"
  obtains (none) "w_platform_data wt = NULL" "epoll_watcher_update K w ev s = Some (PD_ERR_INVALID_ARG, s)"
  | (refused) x e k1 where "w_platform_data wt \<noteq> NULL" "st_wdata s (w_platform_data wt) = Some x"
      "sys_epoll_ctl K (ed_epoll_fd d) EPOLL_CTL_MOD (w_fd wt)
         (Some (ew_epoll_event x\<lparr>ee_events := events_to_epoll ev\<rparr>)) (st_kernel s) = (Inl e, k1)"
      "epoll_watcher_update K w ev s = Some (PD_ERR_SYSTEM, s\<lparr>
         st_wdata := (st_wdata s)(w_platform_data wt \<mapsto>
           x\<lparr>ew_epoll_event := ew_epoll_event x\<lparr>ee_events := events_to_epoll ev\<rparr>\<rparr>),
         st_kernel := k1, st_errno := e, st_loops := (st_loops s)(w_loop wt \<mapsto> lp\<lparr>l_system_error := e\<rparr>)\<rparr>)"
  | (ok) x k1 v where "w_platform_data wt \<noteq> NULL" "st_wdata s (w_platform_data wt) = Some x"
      "sys_epoll_ctl K (ed_epoll_fd d) EPOLL_CTL_MOD (w_fd wt)
         (Some (ew_epoll_event x\<lparr>ee_events := events_to_epoll ev\<rparr>)) (st_kernel s) = (Inr v, k1)"
      "epoll_watcher_update K w ev s = Some (PD_OK, s\<lparr>
         st_wdata := (st_wdata s)(w_platform_data wt \<mapsto>
           x\<lparr>ew_epoll_event := ew_epoll_event x\<lparr>ee_events := events_to_epoll ev\<rparr>\<rparr>),
         st_kernel := k1\<rparr>)"
  | (dangling) "w_platform_data wt \<noteq> NULL" "st_wdata s (w_platform_data wt) = None"
proof (cases "w_platform_data wt = NULL")
  case True
  then show thesis by (intro none) (simp_all add: epoll_watcher_update_def w lp d Let_def)
next
  case pd: False
  show thesis
  proof (cases "st_wdata s (w_platform_data wt)")
    case None
    with pd show thesis by (rule dangling)
  next
    case (Some x)
    let ?ev = "ew_epoll_event x\<lparr>ee_events := events_to_epoll ev\<rparr>"
    obtain r k1 where k1: "sys_epoll_ctl K (ed_epoll_fd d) EPOLL_CTL_MOD (w_fd wt) (Some ?ev) (st_kernel s) = (r, k1)"
      by fastforce
    note start = epoll_watcher_update_def w lp d Let_def heap_write_def pd_get_current_system_error_def
      set_error_eq Some pd
    show thesis
    proof (cases r)
      case (Inl e)
      then show thesis
        using k1 by (intro refused [OF pd Some]) (simp_all add: start syscall_def)
    next
      case (Inr v)
      then show thesis
        using k1 by (intro ok [OF pd Some]) (simp_all add: start syscall_def)
    qed
  qed
qed

section \<open>The invariant is kept\<close>

lemma epoll_unregister_step:
  assumes inv: "epoll_inv s" and wf: "pd_wf s" and w: "st_watchers s w = Some wt" "w_loop wt \<noteq> NULL"
  shows "\<exists>r s'. epoll_watcher_unregister K w s = Some (r, s') \<and> only_watcher upd_pdata w s s' \<and> epoll_inv s' \<and>
    st_watchers s' = (st_watchers s)(w \<mapsto> if r = PD_OK then wt\<lparr>w_platform_data := NULL\<rparr> else wt)"
proof -
  have nz: "w \<noteq> NULL" using pd_wf_watcher [OF wf w(1)] by (simp add: watcher_ok_def)
  obtain lp where lp: "st_loops s (w_loop wt) = Some lp" by (rule pd_wf_loop_of [OF wf w])
  obtain d where d: "l_platform_data lp \<noteq> NULL" "st_ldata s (l_platform_data lp) = Some d"
    "epoll_data_ok d" "wf_table d" by (rule epoll_inv_loop [OF inv lp])
  have own: "owned (loop_pdata s) (st_ldata s) epoll_data_ok" "owned (watcher_pdata s) (st_wdata s) (\<lambda>_. True)"
    using inv by (simp_all add: epoll_inv_def)
  note facts = w(1) nz w(2) lp d(1,2,4) epoll_inv_watcher [OF inv w(1)]
  from facts show ?thesis
  proof (cases rule: unregister_cases [where K = K])
    case absent
    then show ?thesis
      using own(1) freed_inv [OF own(2) w(1)] w(1)
      by (auto simp: epoll_inv_def inv_simps intro!: only_watcherI)
  next
    case (refused i e k1)
    then show ?thesis
      using own w(1) lp by (auto simp: epoll_inv_def inv_simps intro!: only_watcherI)
  next
    case (removed i r k1 d' en)
    have "epoll_data_ok d'" using removed(6) removed(5) d(3) by (rule epoll_data_table)
    from owned_write [OF own(1) this] removed show ?thesis
      using freed_inv [OF own(2) w(1)] w(1)
      by (auto simp: epoll_inv_def inv_simps intro!: only_watcherI)
  qed
qed

lemma epoll_update_step:
  assumes inv: "epoll_inv s" and wf: "pd_wf s" and w: "st_watchers s w = Some wt" "w_loop wt \<noteq> NULL"
  shows "\<exists>r s'. epoll_watcher_update K w ev s = Some (r, s') \<and> only_watcher upd_pdata w s s' \<and> epoll_inv s' \<and>
    st_watchers s' = st_watchers s"
proof -
  have nz: "w \<noteq> NULL" using pd_wf_watcher [OF wf w(1)] by (simp add: watcher_ok_def)
  obtain lp where lp: "st_loops s (w_loop wt) = Some lp" by (rule pd_wf_loop_of [OF wf w])
  obtain d where d: "l_platform_data lp \<noteq> NULL" "st_ldata s (l_platform_data lp) = Some d"
    by (rule epoll_inv_loop [OF inv lp])
  have own: "owned (loop_pdata s) (st_ldata s) epoll_data_ok" "owned (watcher_pdata s) (st_wdata s) (\<lambda>_. True)"
    using inv by (simp_all add: epoll_inv_def)
  note facts = w(1) nz w(2) lp d
  from facts show ?thesis
  proof (cases rule: update_cases [where K = K and ev = ev])
    case none
    then show ?thesis using inv w(1) by (auto intro!: only_watcherI)
  next
    case (refused x e k1)
    then show ?thesis
      using own(1) owned_write [OF own(2)] w(1) lp
      by (auto simp: epoll_inv_def inv_simps intro!: only_watcherI)
  next
    case (ok x k1)
    then show ?thesis
      using own(1) owned_write [OF own(2)] w(1) lp
      by (auto simp: epoll_inv_def inv_simps intro!: only_watcherI)
  next
    case dangling
    then show ?thesis using epoll_inv_watcher [OF inv w(1)] by simp
  qed
qed

lemma epoll_register_step:
  assumes inv: "epoll_inv s" and wf: "pd_wf s" and w: "st_watchers s w = Some wt" "w_loop wt \<noteq> NULL"
  shows "\<exists>r s' p. epoll_watcher_register K (w_loop wt) w s = Some (r, s') \<and>
    only_watcher upd_pdata w s s' \<and> epoll_inv s' \<and> p \<noteq> NULL \<and>
    st_watchers s' = (st_watchers s)(w \<mapsto> if r = PD_OK then wt\<lparr>w_platform_data := p\<rparr> else wt)"
proof -
  have nz: "w \<noteq> NULL" using pd_wf_watcher [OF wf w(1)] by (simp add: watcher_ok_def)
  obtain lp where lp: "st_loops s (w_loop wt) = Some lp" by (rule pd_wf_loop_of [OF wf w])
  obtain d where d: "l_platform_data lp \<noteq> NULL" "st_ldata s (l_platform_data lp) = Some d"
    "epoll_data_ok d" "wf_table d" by (rule epoll_inv_loop [OF inv lp])
  have own: "owned (loop_pdata s) (st_ldata s) epoll_data_ok" "owned (watcher_pdata s) (st_wdata s) (\<lambda>_. True)"
    using inv by (simp_all add: epoll_inv_def)
  obtain d1 where d1: "evict_stale_registration d (w_fd wt) w = Some d1" "wf_table d1" "upd_table d d1"
    by (rule evict_step [OF d(4), of "w_fd wt" w])
  have ok1: "epoll_data_ok d1" using d1(3,2) d(3) by (rule epoll_data_table)
  note facts = lp w(2,1) nz d(1,2,4) d1(1,2)
  from facts show ?thesis
  proof (cases rule: register_cases [where K = K])
    case (no_data s' e)
    then show ?thesis
      using own w(1) lp by (intro exI [of _ PD_ERR_NO_MEMORY] exI [of _ s'] exI [of _ 1])
        (auto simp: epoll_inv_def inv_simps intro!: only_watcherI)
  next
    case (refused s' e k1)
    then show ?thesis
      using own(2) owned_write [OF own(1) ok1] w(1) lp
      by (intro exI [of _ PD_ERR_SYSTEM] exI [of _ s'] exI [of _ 1])
        (auto simp: epoll_inv_def inv_simps intro!: only_watcherI)
  next
    case (no_room s' e k1 r2 k2 v)
    then show ?thesis
      using own(2) owned_write [OF own(1) ok1] w(1) lp
      by (intro exI [of _ PD_ERR_NO_MEMORY] exI [of _ s'] exI [of _ 1])
        (auto simp: epoll_inv_def inv_simps intro!: only_watcherI)
  next
    case (ok s' k1 d2 p v)
    have "epoll_data_ok d2" using ok(6,5) ok1 by (rule epoll_data_table)
    from owned_write [OF own(1) this] ok show ?thesis
      using owned_new [OF own(2) ok(4,3)] w(1)
      by (intro exI [of _ PD_OK] exI [of _ s'] exI [of _ p])
        (auto simp: epoll_inv_def inv_simps intro!: only_watcherI)
  qed
qed

section \<open>The contract is met\<close>

text \<open>For every table whose watcher slots are the backend's, and every kernel.\<close>

lemma epoll_readiness:
  assumes slots: "op_watcher_register P = Some (epoll_watcher_register K)"
    "op_watcher_unregister P = Some (epoll_watcher_unregister K)"
    "op_watcher_update P = Some (epoll_watcher_update K)"
  shows "readiness_backend P (epoll_watcher_register K) (epoll_watcher_unregister K) (epoll_watcher_update K) epoll_inv"
proof unfold_locales
  fix s s' :: "'a epoll_state" and w wt r ev
  show "epoll_inv s \<Longrightarrow> same_pdata s s' \<Longrightarrow> epoll_inv s'" by (rule epoll_inv_stable)
  assume wf: "pd_wf s" and inv: "epoll_inv s" and w: "st_watchers s w = Some wt" and l: "w_loop wt \<noteq> NULL"
  show "\<exists>r s'. epoll_watcher_register K (w_loop wt) w s = Some (r, s') \<and> only_watcher upd_pdata w s s' \<and> epoll_inv s'"
    using epoll_register_step [OF inv wf w l] by blast
  show "\<exists>r s'. epoll_watcher_unregister K w s = Some (r, s') \<and> only_watcher upd_pdata w s s' \<and> epoll_inv s'"
    using epoll_unregister_step [OF inv wf w l] by blast
  show "\<exists>r s'. epoll_watcher_update K w ev s = Some (r, s') \<and> only_watcher upd_pdata w s s' \<and> epoll_inv s'"
    using epoll_update_step [OF inv wf w l] by blast
  show "epoll_watcher_register K (w_loop wt) w s = Some (PD_OK, s') \<Longrightarrow>
      \<exists>y. st_watchers s' w = Some y \<and> w_platform_data y \<noteq> NULL"
    using epoll_register_step [OF inv wf w l, of K] by force
  show "epoll_watcher_register K (w_loop wt) w s = Some (r, s') \<Longrightarrow> r \<noteq> PD_OK \<Longrightarrow> st_watchers s' w = st_watchers s w"
    using epoll_register_step [OF inv wf w l, of K] w by force
  show "epoll_watcher_unregister K w s = Some (PD_OK, s') \<Longrightarrow>
      \<exists>y. st_watchers s' w = Some y \<and> w_platform_data y = NULL"
    using epoll_unregister_step [OF inv wf w l, of K] by force
  show "epoll_watcher_unregister K w s = Some (r, s') \<Longrightarrow> r \<noteq> PD_OK \<Longrightarrow> st_watchers s' w = st_watchers s w"
    using epoll_unregister_step [OF inv wf w l, of K] w by force
  show "epoll_watcher_update K w ev s = Some (r, s') \<Longrightarrow> st_watchers s' w = st_watchers s w"
    using epoll_update_step [OF inv wf w l, of K ev] by force
qed (simp_all add: slots)

interpretation epoll: readiness_backend "epoll_watcher_ops K" "epoll_watcher_register K"
    "epoll_watcher_unregister K" "epoll_watcher_update K" epoll_inv for K
  by (rule epoll_readiness) (simp_all add: epoll_watcher_ops_def)

end
