(* ===== verification/Pd_Loop.thy ===== *)
theory Pd_Loop
  imports Pd_Contract
begin

text \<open>
  The event loop, \<^verbatim>\<open>src/loop.c\<close>: creation and reference counting, the run loop, stop and
  the asynchronous notification, over an operation table \<open>P\<close>. The watcher array of the
  same file is in \<open>Pd_Loop_List\<close>.
\<close>

section \<open>Creation\<close>

definition DEFAULT_MAX_EVENTS_PER_WAIT :: int where "DEFAULT_MAX_EVENTS_PER_WAIT = 64"
definition DEFAULT_THREAD_SAFETY :: int where "DEFAULT_THREAD_SAFETY = 1"

definition init_config_defaults :: "pd_loop_config \<Rightarrow> pd_loop_config" where
  "init_config_defaults config =
    (let config = (if max_events_per_wait config \<le> 0
           then config\<lparr>max_events_per_wait := DEFAULT_MAX_EVENTS_PER_WAIT\<rparr> else config)
     in if enable_thread_safety config < 0
        then config\<lparr>enable_thread_safety := DEFAULT_THREAD_SAFETY\<rparr> else config)"

text \<open>
  Initialising a mutex may fail for want of resources, which is one more verdict of the
  allocator; it reports through its result and not through \<^verbatim>\<open>errno\<close>. Without
  \<^verbatim>\<open>PD_THREAD_SAFE\<close> the macro assigns 0. Destroying a mutex that is held or was not
  initialised is undefined.
\<close>

definition PD_MUTEX_INIT ::
  "addr \<Rightarrow> ('ld, 'wd, 'td, 'k) pd_state \<Rightarrow> (bool \<times> ('ld, 'wd, 'td, 'k) pd_state) option" where
  "PD_MUTEX_INIT loop s =
    (if st_thread_safe s then
       (case alloc_array s of (ok, s1) \<Rightarrow>
          let s1 = s1\<lparr>st_errno := st_errno s\<rparr> in
          if ok then do { s1 \<leftarrow> write_loop loop (\<lambda>x. x\<lparr>l_mutex := Mutex_free\<rparr>) s1; Some (True, s1) }
          else Some (False, s1))
     else Some (True, s))"

definition PD_MUTEX_DESTROY ::
  "addr \<Rightarrow> ('ld, 'wd, 'td, 'k) pd_state \<Rightarrow> ('ld, 'wd, 'td, 'k) pd_state option" where
  "PD_MUTEX_DESTROY loop s =
    (if st_thread_safe s then do {
       lp \<leftarrow> st_loops s loop;
       if l_mutex lp = Mutex_free then write_loop loop (\<lambda>x. x\<lparr>l_mutex := Mutex_uninit\<rparr>) s else None }
     else Some s)"

definition init_mutex_if ::
  "addr \<Rightarrow> ('ld, 'wd, 'td, 'k) pd_state \<Rightarrow> (bool \<times> ('ld, 'wd, 'td, 'k) pd_state) option" where
  "init_mutex_if loop s = do {
     lp \<leftarrow> st_loops s loop;
     if l_enable_thread_safety lp \<noteq> 0 then PD_MUTEX_INIT loop s else Some (True, s) }"

definition destroy_mutex_if ::
  "addr \<Rightarrow> ('ld, 'wd, 'td, 'k) pd_state \<Rightarrow> ('ld, 'wd, 'td, 'k) pd_state option" where
  "destroy_mutex_if loop s = do {
     lp \<leftarrow> st_loops s loop;
     if l_enable_thread_safety lp \<noteq> 0 then PD_MUTEX_DESTROY loop s else Some s }"

text \<open>
  \<open>target\<close> is the platform the library is built for and \<open>P\<close> the table linked into that
  build; \<open>config\<close> is \<open>None\<close> for a null pointer.
\<close>

definition pd_loop_create ::
  "pd_target \<Rightarrow> ('ld, 'wd, 'td, 'k) pd_state pd_platform_ops \<Rightarrow> pd_loop_config option \<Rightarrow>
   ('ld, 'wd, 'td, 'k) pd_state \<Rightarrow> (addr \<times> ('ld, 'wd, 'td, 'k) pd_state) option" where
  "pd_loop_create target P config s =
    (let (loop, s) = calloc_loop s in
     if loop = NULL then Some (NULL, s)
     else
       let config_copy = init_config_defaults (case config of
             Some c \<Rightarrow> c
           | None \<Rightarrow> \<lparr>max_events_per_wait = 0, enable_thread_safety = 0\<rparr>)
       in do {
         s \<leftarrow> write_loop loop (\<lambda>x. x\<lparr>
                l_max_events_per_wait := max_events_per_wait config_copy,
                l_enable_thread_safety := enable_thread_safety config_copy,
                l_ref_count := 1, l_running := False, l_stop_requested := False,
                l_system_error := 0, l_async_data := NULL\<rparr>) s;
         (ok, s) \<leftarrow> init_mutex_if loop s;
         if \<not> ok then do { s \<leftarrow> free_loop loop s; Some (NULL, s) }
         else do {
           s \<leftarrow> write_loop loop (\<lambda>x. x\<lparr>l_ops := pd_platform_detect target\<rparr>) s;
           if pd_platform_detect target = None
           then do { s \<leftarrow> destroy_mutex_if loop s; s \<leftarrow> free_loop loop s; Some (NULL, s) }
           else
             let (ok, s) = alloc_array s in
             if \<not> ok then do { s \<leftarrow> destroy_mutex_if loop s; s \<leftarrow> free_loop loop s; Some (NULL, s) }
             else do {
               s \<leftarrow> write_loop loop (\<lambda>x. x\<lparr>l_watcher_capacity := 16, l_watchers := arr_new 16\<rparr>) s;
               loop_create \<leftarrow> op_loop_create P;
               (result, s) \<leftarrow> loop_create loop config_copy s;
               if result \<noteq> PD_OK
               then do {
                 s \<leftarrow> write_loop loop (\<lambda>x. x\<lparr>l_watchers := []\<rparr>) s;
                 s \<leftarrow> destroy_mutex_if loop s;
                 s \<leftarrow> free_loop loop s;
                 Some (NULL, s) }
               else Some (loop, s) } } })"

text \<open>
  The static mutex around the default loop is taken and released in this function only,
  which calls nothing that takes it again; it is left out.
\<close>

definition pd_loop_default ::
  "pd_target \<Rightarrow> ('ld, 'wd, 'td, 'k) pd_state pd_platform_ops \<Rightarrow>
   ('ld, 'wd, 'td, 'k) pd_state \<Rightarrow> (addr \<times> ('ld, 'wd, 'td, 'k) pd_state) option" where
  "pd_loop_default target P s = do {
     s \<leftarrow> (if st_default_loop s = NULL
          then do {
            (loop, s) \<leftarrow> pd_loop_create target P None s;
            let s = s\<lparr>st_default_loop := loop\<rparr>;
            if loop \<noteq> NULL
            then do {
              lp \<leftarrow> st_loops s loop;
              if l_ref_count lp = INT_MAX then None
              else write_loop loop (\<lambda>x. x\<lparr>l_ref_count := l_ref_count x + 1\<rparr>) s }
            else Some s }
          else Some s);
     Some (st_default_loop s, s) }"

section \<open>References\<close>

definition pd_loop_ref ::
  "addr \<Rightarrow> ('ld, 'wd, 'td, 'k) pd_state \<Rightarrow> ('ld, 'wd, 'td, 'k) pd_state option" where
  "pd_loop_ref loop s =
    (if loop = NULL then Some s
     else do {
       s \<leftarrow> PD_MUTEX_LOCK loop s;
       lp \<leftarrow> st_loops s loop;
       s \<leftarrow> (if l_ref_count lp = INT_MAX then None
            else write_loop loop (\<lambda>x. x\<lparr>l_ref_count := l_ref_count x + 1\<rparr>) s);
       PD_MUTEX_UNLOCK loop s })"

text \<open>
  \<open>for (i = 0; i < loop->watcher_count; i++) if (loop->watchers[i]) pd_watcher_destroy(...)\<close>:
  the bound and the array are read anew in each round. \<open>None\<close> also stands for a loop that
  does not end.
\<close>

partial_function (option) destroy_watchers ::
  "(('ld, 'wd, 'td, 'k) pd_state, 'z) pd_watcher_ops_scheme \<Rightarrow> addr \<Rightarrow> nat \<Rightarrow>
   ('ld, 'wd, 'td, 'k) pd_state \<Rightarrow> ('ld, 'wd, 'td, 'k) pd_state option" where
  "destroy_watchers P loop i s = do {
     lp \<leftarrow> st_loops s loop;
     if i < l_watcher_count lp
     then do {
       w \<leftarrow> arr_get (l_watchers lp) i;
       s \<leftarrow> (if w \<noteq> NULL then pd_watcher_destroy P w s else Some s);
       destroy_watchers P loop (i + 1) s }
     else Some s }"

definition pd_loop_unref ::
  "('ld, 'wd, 'td, 'k) pd_state pd_platform_ops \<Rightarrow> addr \<Rightarrow>
   ('ld, 'wd, 'td, 'k) pd_state \<Rightarrow> ('ld, 'wd, 'td, 'k) pd_state option" where
  "pd_loop_unref P loop s =
    (if loop = NULL then Some s
     else do {
       s \<leftarrow> PD_MUTEX_LOCK loop s;
       lp \<leftarrow> st_loops s loop;
       s \<leftarrow> (if l_ref_count lp = INT_MIN then None
            else write_loop loop (\<lambda>x. x\<lparr>l_ref_count := l_ref_count x - 1\<rparr>) s);
       lp \<leftarrow> st_loops s loop;
       let should_destroy = (l_ref_count lp = 0);
       s \<leftarrow> PD_MUTEX_UNLOCK loop s;
       if should_destroy
       then do {
         s \<leftarrow> destroy_watchers P loop 0 s;
         s \<leftarrow> write_loop loop (\<lambda>x. x\<lparr>l_watchers := []\<rparr>) s;
         lp \<leftarrow> st_loops s loop;
         s \<leftarrow> (case loop_op op_loop_destroy P lp of
            Some loop_destroy \<Rightarrow> loop_destroy loop s
          | None \<Rightarrow> Some s);
         s \<leftarrow> destroy_mutex_if loop s;
         free_loop loop s }
       else Some s })"

definition pd_loop_destroy ::
  "('ld, 'wd, 'td, 'k) pd_state pd_platform_ops \<Rightarrow> addr \<Rightarrow>
   ('ld, 'wd, 'td, 'k) pd_state \<Rightarrow> ('ld, 'wd, 'td, 'k) pd_state option" where
  "pd_loop_destroy P loop s = (if loop = NULL then Some s else pd_loop_unref P loop s)"

section \<open>Running\<close>

definition pd_loop_run_once ::
  "('ld, 'wd, 'td, 'k) pd_state pd_platform_ops \<Rightarrow> addr \<Rightarrow> int \<Rightarrow>
   ('ld, 'wd, 'td, 'k) pd_state \<Rightarrow> (int \<times> ('ld, 'wd, 'td, 'k) pd_state) option" where
  "pd_loop_run_once P loop timeout_ms s =
    (if loop = NULL then Some (err_code PD_ERR_INVALID_ARG, s)
     else do {
       lp \<leftarrow> st_loops s loop;
       if l_ops lp = None then Some (err_code PD_ERR_INVALID_ARG, s)
       else do {
         s \<leftarrow> PD_MUTEX_LOCK loop s;
         lp \<leftarrow> st_loops s loop;
         let should_stop = l_stop_requested lp;
         s \<leftarrow> PD_MUTEX_UNLOCK loop s;
         if should_stop then Some (0, s)
         else do {
           loop_run \<leftarrow> op_loop_run P;
           loop_run loop timeout_ms s } } })"

text \<open>
  The run loop may run for ever. It is given a number of rounds: \<open>Running\<close> is the state
  when they are used up, \<open>Returned\<close> the result of the function; \<open>None\<close> is undefined
  behaviour only.
\<close>

datatype 's run_result = Running 's | Returned int 's

fun run_rounds ::
  "('ld, 'wd, 'td, 'k) pd_state pd_platform_ops \<Rightarrow> nat \<Rightarrow> addr \<Rightarrow>
   ('ld, 'wd, 'td, 'k) pd_state \<Rightarrow> ('ld, 'wd, 'td, 'k) pd_state run_result option" where
  "run_rounds P 0 loop s = Some (Running s)"
| "run_rounds P (Suc n) loop s = do {
     lp \<leftarrow> st_loops s loop;
     if \<not> l_stop_requested lp \<and> l_watcher_count lp > 0
     then do {
       (result, s) \<leftarrow> pd_loop_run_once P loop (- 1) s;
       if result < 0
       then do {
         s \<leftarrow> write_loop loop (\<lambda>x. x\<lparr>l_running := False\<rparr>) s;
         Some (Returned result s) }
       else run_rounds P n loop s }
     else do {
       s \<leftarrow> write_loop loop (\<lambda>x. x\<lparr>l_running := False\<rparr>) s;
       Some (Returned (err_code PD_OK) s) } }"

definition pd_loop_run ::
  "('ld, 'wd, 'td, 'k) pd_state pd_platform_ops \<Rightarrow> nat \<Rightarrow> addr \<Rightarrow>
   ('ld, 'wd, 'td, 'k) pd_state \<Rightarrow> ('ld, 'wd, 'td, 'k) pd_state run_result option" where
  "pd_loop_run P n loop s =
    (if loop = NULL then Some (Returned (err_code PD_ERR_INVALID_ARG) s)
     else do {
       s \<leftarrow> write_loop loop (\<lambda>x. x\<lparr>l_running := True, l_stop_requested := False\<rparr>) s;
       run_rounds P n loop s })"

section \<open>Stopping and the asynchronous notification\<close>

definition pd_loop_stop ::
  "('ld, 'wd, 'td, 'k) pd_state pd_platform_ops \<Rightarrow> addr \<Rightarrow>
   ('ld, 'wd, 'td, 'k) pd_state \<Rightarrow> (pd_error \<times> ('ld, 'wd, 'td, 'k) pd_state) option" where
  "pd_loop_stop P loop s =
    (if loop = NULL then Some (PD_ERR_INVALID_ARG, s)
     else do {
       s \<leftarrow> PD_MUTEX_LOCK loop s;
       s \<leftarrow> write_loop loop (\<lambda>x. x\<lparr>l_stop_requested := True\<rparr>) s;
       s \<leftarrow> PD_MUTEX_UNLOCK loop s;
       lp \<leftarrow> st_loops s loop;
       (_, s) \<leftarrow> (case loop_op op_async_send P lp of
          Some async_send \<Rightarrow> async_send loop NULL s
        | None \<Rightarrow> Some (PD_OK, s));
       Some (PD_OK, s) })"

definition pd_loop_async_send ::
  "('ld, 'wd, 'td, 'k) pd_state pd_platform_ops \<Rightarrow> addr \<Rightarrow> addr \<Rightarrow>
   ('ld, 'wd, 'td, 'k) pd_state \<Rightarrow> (pd_error \<times> ('ld, 'wd, 'td, 'k) pd_state) option" where
  "pd_loop_async_send P loop data s =
    (if loop = NULL then Some (PD_ERR_INVALID_ARG, s)
     else do {
       lp \<leftarrow> st_loops s loop;
       if l_ops lp = None then Some (PD_ERR_INVALID_ARG, s)
       else (case op_async_send P of
          None \<Rightarrow> Some (PD_ERR_NOT_IMPLEMENTED, s)
        | Some async_send \<Rightarrow> do {
            s \<leftarrow> PD_MUTEX_LOCK loop s;
            s \<leftarrow> write_loop loop (\<lambda>x. x\<lparr>l_async_data := data\<rparr>) s;
            s \<leftarrow> PD_MUTEX_UNLOCK loop s;
            async_send loop data s }) })"

definition pd_loop_get_async_data ::
  "addr \<Rightarrow> ('ld, 'wd, 'td, 'k) pd_state \<Rightarrow> (addr \<times> ('ld, 'wd, 'td, 'k) pd_state) option" where
  "pd_loop_get_async_data loop s =
    (if loop = NULL then Some (NULL, s)
     else do {
       s \<leftarrow> PD_MUTEX_LOCK loop s;
       lp \<leftarrow> st_loops s loop;
       let data = l_async_data lp;
       s \<leftarrow> PD_MUTEX_UNLOCK loop s;
       Some (data, s) })"

section \<open>Writing the control fields of a loop\<close>

lemma pd_wf_put_loop:
  assumes wf: "pd_wf s" and ok: "loop_ok s l lp"
  shows "pd_wf (s\<lparr>st_loops := (st_loops s)(l \<mapsto> lp)\<rparr>)"
proof -
  have same: "loop_ok (s\<lparr>st_loops := h\<rparr>) k kp = loop_ok s k kp" for h k kp
    by (simp add: loop_ok_def)
  show ?thesis
    using ok pd_wf_loop [OF wf] pd_wf_watcher [OF wf]
    by (auto simp: pd_wf_def same watcher_ok_def)
qed

text \<open>\<open>upd_control lp lp'\<close>: the loops differ in control fields only.\<close>

definition upd_control :: "pd_loop \<Rightarrow> pd_loop \<Rightarrow> bool" where
  "upd_control lp lp' \<longleftrightarrow> lp' = lp\<lparr>l_ref_count := l_ref_count lp', l_running := l_running lp',
     l_stop_requested := l_stop_requested lp', l_system_error := l_system_error lp',
     l_async_data := l_async_data lp'\<rparr>"

lemma upd_controlE:
  assumes "upd_control lp lp'"
  obtains rc rn st e d where "lp' = lp\<lparr>l_ref_count := rc, l_running := rn, l_stop_requested := st,
    l_system_error := e, l_async_data := d\<rparr>"
  using assms by (auto simp: upd_control_def)

lemma upd_control_simps [simp]:
  "upd_control lp (lp\<lparr>l_ref_count := c\<rparr>)" "upd_control lp (lp\<lparr>l_running := b\<rparr>)"
  "upd_control lp (lp\<lparr>l_stop_requested := b\<rparr>)" "upd_control lp (lp\<lparr>l_async_data := d\<rparr>)"
  "upd_control lp (lp\<lparr>l_running := b, l_stop_requested := b'\<rparr>)" "upd_control lp lp"
  by (simp_all add: upd_control_def)

lemma upd_control_trans: "upd_control a b \<Longrightarrow> upd_control b c \<Longrightarrow> upd_control a c"
  by (elim upd_controlE) (simp add: upd_control_def)

lemma upd_error_control: "upd_error lp lp' \<Longrightarrow> upd_control lp lp'"
  by (auto simp: upd_control_def elim!: upd_errorE)

lemma upd_control_list: "upd_control lp lp' \<Longrightarrow> watcher_list lp' = watcher_list lp"
  by (auto simp: watcher_list_def elim!: upd_controlE)

lemma loop_ok_control: "upd_control lp lp' \<Longrightarrow> loop_ok s l lp \<Longrightarrow> loop_ok s l lp'"
  by (auto simp: loop_ok_def wf_array_def watcher_list_def elim!: upd_controlE)

lemma pd_wf_control:
  assumes "pd_wf s" "st_loops s l = Some lp" "upd_control lp lp'"
  shows "pd_wf (s\<lparr>st_loops := (st_loops s)(l \<mapsto> lp')\<rparr>)"
  using assms by (intro pd_wf_put_loop loop_ok_control [OF assms(3)] pd_wf_loop)

text \<open>The three operations that only take the mutex around one access.\<close>

lemma pd_loop_ref_eq:
  assumes "st_loops s l = Some lp" "mutex_ready lp s" "l \<noteq> NULL" "l_ref_count lp \<noteq> INT_MAX"
  shows "pd_loop_ref l s = Some (s\<lparr>st_loops := (st_loops s)(l \<mapsto> lp\<lparr>l_ref_count := l_ref_count lp + 1\<rparr>)\<rparr>)"
  using assms by (simp add: pd_loop_ref_def lock_eq [OF assms(1,2)] heap_write_def)

lemma pd_loop_get_async_data_eq:
  assumes "st_loops s l = Some lp" "mutex_ready lp s" "l \<noteq> NULL"
  shows "pd_loop_get_async_data l s = Some (l_async_data lp, s)"
  using assms by (simp add: pd_loop_get_async_data_def lock_eq [OF assms(1,2)])

lemma run_once_eq:
  assumes "st_loops s l = Some lp" "mutex_ready lp s" "l \<noteq> NULL" "l_ops lp \<noteq> None"
  shows "pd_loop_run_once P l t s =
    (if l_stop_requested lp then Some (0, s) else do { run \<leftarrow> op_loop_run P; run l t s })"
proof -
  from assms(4) obtain p where "l_ops lp = Some p" by blast
  with assms show ?thesis by (simp add: pd_loop_run_once_def lock_eq [OF assms(1,2)])
qed

lemma unref_keep_eq:
  assumes "st_loops s l = Some lp" "mutex_ready lp s" "l \<noteq> NULL" "l_ref_count lp \<noteq> INT_MIN" "l_ref_count lp \<noteq> 1"
  shows "pd_loop_unref P l s = Some (s\<lparr>st_loops := (st_loops s)(l \<mapsto> lp\<lparr>l_ref_count := l_ref_count lp - 1\<rparr>)\<rparr>)"
  using assms by (simp add: pd_loop_unref_def lock_eq [OF assms(1,2)] heap_write_def)

lemma async_send_eq:
  assumes lp: "st_loops s l = Some lp" and m: "mutex_ready lp s" and nz: "l \<noteq> NULL" and ops: "l_ops lp \<noteq> None"
    and send: "op_async_send P = Some send"
  shows "pd_loop_async_send P l d s = send l d (s\<lparr>st_loops := (st_loops s)(l \<mapsto> lp\<lparr>l_async_data := d\<rparr>)\<rparr>)"
  unfolding pd_loop_async_send_def send
  using m by (simp add: nz ops lp lock_eq [OF lp m] heap_write_def)

lemma stop_eq:
  assumes "st_loops s l = Some lp" "mutex_ready lp s" "l \<noteq> NULL" "l_ops lp \<noteq> None"
    and "op_async_send P = Some send"
  shows "pd_loop_stop P l s = do {
    (_, s) \<leftarrow> send l NULL (s\<lparr>st_loops := (st_loops s)(l \<mapsto> lp\<lparr>l_stop_requested := True\<rparr>)\<rparr>); Some (PD_OK, s) }"
proof -
  from assms(4) obtain p where "l_ops lp = Some p" by blast
  with assms show ?thesis by (simp add: pd_loop_stop_def lock_eq [OF assms(1,2)] heap_write_def loop_op_def)
qed

section \<open>The rounds of the run loop\<close>

lemma run_rounds_mono:
  assumes "run_rounds P n l s = Some (Returned r s')" and "n \<le> m"
  shows "run_rounds P m l s = Some (Returned r s')"
  using assms
proof (induction n arbitrary: m s)
  case (Suc n)
  then obtain k where m: "m = Suc k" "n \<le> k" by (cases m) auto
  from Suc.prems obtain lp where lp: "st_loops s l = Some lp" by (auto simp: bind_Some_iff)
  show ?case
  proof (cases "\<not> l_stop_requested lp \<and> 0 < l_watcher_count lp")
    case False
    then show ?thesis using Suc.prems(1) lp by (simp add: m(1) if_not_P [OF False])
  next
    case True
    then obtain q s1 where q: "pd_loop_run_once P l (- 1) s = Some (q, s1)"
      using Suc.prems(1) lp by (auto simp: bind_Some_iff)
    show ?thesis
      using Suc.prems(1) Suc.IH [OF _ m(2), of s1] lp True q by (simp add: m(1) split: if_splits)
  qed
qed simp

text \<open>
  \<open>rounds k s s'\<close>: \<open>k\<close> rounds of \<^verbatim>\<open>pd_loop_run_once\<close>, each entered with watchers and
  without a stop request and each with a result that is not negative, lead from \<open>s\<close> to \<open>s'\<close>.
\<close>

definition idle :: "addr \<Rightarrow> ('ld, 'wd, 'td, 'k) pd_state \<Rightarrow> bool" where
  "idle l s \<longleftrightarrow> (\<exists>lp. st_loops s l = Some lp \<and> (l_stop_requested lp \<or> l_watcher_count lp = 0))"

inductive rounds ::
  "('ld, 'wd, 'td, 'k) pd_state pd_platform_ops \<Rightarrow> addr \<Rightarrow> nat \<Rightarrow>
   ('ld, 'wd, 'td, 'k) pd_state \<Rightarrow> ('ld, 'wd, 'td, 'k) pd_state \<Rightarrow> bool" for P l where
  rounds_0: "rounds P l 0 s s"
| rounds_Suc: "st_loops s l = Some lp \<Longrightarrow> \<not> l_stop_requested lp \<Longrightarrow> 0 < l_watcher_count lp \<Longrightarrow>
    pd_loop_run_once P l (- 1) s = Some (r, s1) \<Longrightarrow> 0 \<le> r \<Longrightarrow> rounds P l k s1 s2 \<Longrightarrow>
    rounds P l (Suc k) s s2"

inductive_cases rounds_0E: "rounds P l 0 s s'"
inductive_cases rounds_SucE: "rounds P l (Suc k) s s'"

lemma rounds_run: "rounds P l k s s' \<Longrightarrow> run_rounds P (k + n) l s = run_rounds P n l s'"
  by (induction rule: rounds.induct) auto

lemma run_rounds_idle:
  "idle l s \<Longrightarrow> st_loops s l = Some lp \<Longrightarrow> run_rounds P (Suc n) l s =
     Some (Returned 0 (s\<lparr>st_loops := (st_loops s)(l \<mapsto> lp\<lparr>l_running := False\<rparr>)\<rparr>))"
  by (auto simp: idle_def heap_write_def)

lemma rounds_return:
  assumes "rounds P l k s s'" "idle l s'" "st_loops s' l = Some lp" "k < n"
  shows "run_rounds P n l s = Some (Returned 0 (s'\<lparr>st_loops := (st_loops s')(l \<mapsto> lp\<lparr>l_running := False\<rparr>)\<rparr>))"
proof -
  obtain m where "n = k + Suc m" using assms(4) less_imp_Suc_add by fastforce
  then show ?thesis
    using rounds_run [OF assms(1), of "Suc m"] run_rounds_idle [OF assms(2,3)] by simp
qed

text \<open>The converse: a run that returns went through such rounds.\<close>

lemma run_rounds_Returned:
  assumes "run_rounds P n l s = Some (Returned r s')"
  shows "\<exists>k s1. k < n \<and> rounds P l k s s1 \<and>
    (idle l s1 \<and> r = 0 \<and> write_loop l (\<lambda>x. x\<lparr>l_running := False\<rparr>) s1 = Some s' \<or>
     (\<exists>s2. \<not> idle l s1 \<and> r < 0 \<and> pd_loop_run_once P l (- 1) s1 = Some (r, s2) \<and>
        write_loop l (\<lambda>x. x\<lparr>l_running := False\<rparr>) s2 = Some s'))"
  using assms
proof (induction n arbitrary: s)
  case (Suc n)
  from Suc.prems obtain lp where lp: "st_loops s l = Some lp" by (auto simp: bind_Some_iff)
  show ?case
  proof (cases "\<not> l_stop_requested lp \<and> 0 < l_watcher_count lp")
    case False
    then have "idle l s" using lp by (auto simp: idle_def)
    moreover have "write_loop l (\<lambda>x. x\<lparr>l_running := False\<rparr>) s = Some s'" "r = 0"
      using Suc.prems False lp by (auto simp: bind_Some_iff)
    ultimately show ?thesis by (intro exI [of _ 0]) (auto intro: rounds_0)
  next
    case True
    then have ni: "\<not> idle l s" using lp by (auto simp: idle_def)
    obtain q s1 where q: "pd_loop_run_once P l (- 1) s = Some (q, s1)"
      using Suc.prems True lp by (auto simp: bind_Some_iff)
    show ?thesis
    proof (cases "q < 0")
      case neg: True
      then have "write_loop l (\<lambda>x. x\<lparr>l_running := False\<rparr>) s1 = Some s'" "r = q"
        using Suc.prems True lp q by (auto simp: bind_Some_iff)
      with neg q ni show ?thesis by (intro exI [of _ 0]) (auto intro: rounds_0)
    next
      case False
      then have "run_rounds P n l s1 = Some (Returned r s')"
        using Suc.prems True lp q by simp
      from Suc.IH [OF this] obtain k s2 where k: "k < n" "rounds P l k s1 s2"
        "idle l s2 \<and> r = 0 \<and> write_loop l (\<lambda>x. x\<lparr>l_running := False\<rparr>) s2 = Some s' \<or>
         (\<exists>s3. \<not> idle l s2 \<and> r < 0 \<and> pd_loop_run_once P l (- 1) s2 = Some (r, s3) \<and>
            write_loop l (\<lambda>x. x\<lparr>l_running := False\<rparr>) s3 = Some s')" by blast
      have "rounds P l (Suc k) s s2"
        using lp True q False k(2) by (intro rounds_Suc) auto
      with k show ?thesis by (intro exI [of _ "Suc k"] exI [of _ s2]) simp
    qed
  qed
qed simp

section \<open>The contract of a backend's loop operations\<close>

definition only_error :: "('ld, 'wd, 'td, 'k) pd_state \<Rightarrow> ('ld, 'wd, 'td, 'k) pd_state \<Rightarrow> bool" where
  "only_error s s' \<longleftrightarrow> (\<forall>l. rel_option upd_error (st_loops s l) (st_loops s' l)) \<and>
     st_watchers s' = st_watchers s \<and> st_timers s' = st_timers s \<and> st_tdata s' = st_tdata s \<and>
     st_default_loop s' = st_default_loop s \<and> st_thread_safe s' = st_thread_safe s"

definition same_objects :: "('ld, 'wd, 'td, 'k) pd_state \<Rightarrow> ('ld, 'wd, 'td, 'k) pd_state \<Rightarrow> bool" where
  "same_objects s s' \<longleftrightarrow> st_watchers s' = st_watchers s \<and> st_timers s' = st_timers s \<and>
     st_wdata s' = st_wdata s \<and> st_tdata s' = st_tdata s \<and>
     st_default_loop s' = st_default_loop s \<and> st_thread_safe s' = st_thread_safe s"

text \<open>
  Creating a loop's platform data sets it, or fails and leaves none; destroying it frees
  it; a wake-up changes nothing of the program's objects but the loop's error.
\<close>

locale loop_backend = watcher_backend P reg unreg upd binv
  for P :: "('ld, 'wd, 'td, 'k) pd_state pd_platform_ops" and reg unreg upd binv +
  fixes lcreate :: "addr \<Rightarrow> pd_loop_config \<Rightarrow> ('ld, 'wd, 'td, 'k) pd_state \<Rightarrow>
        (pd_error \<times> ('ld, 'wd, 'td, 'k) pd_state) option"
    and ldestroy :: "addr \<Rightarrow> ('ld, 'wd, 'td, 'k) pd_state \<Rightarrow> ('ld, 'wd, 'td, 'k) pd_state option"
    and asend :: "addr \<Rightarrow> addr \<Rightarrow> ('ld, 'wd, 'td, 'k) pd_state \<Rightarrow>
        (pd_error \<times> ('ld, 'wd, 'td, 'k) pd_state) option"
  assumes op_slots: "op_loop_create P = Some lcreate" "op_loop_destroy P = Some ldestroy"
      "op_async_send P = Some asend"
    and create_law: "binv s \<Longrightarrow> st_loops s l = None \<Longrightarrow> l \<noteq> NULL \<Longrightarrow> l_platform_data lp = NULL \<Longrightarrow>
      l_system_error lp = 0 \<Longrightarrow> 0 < max_events_per_wait cfg \<Longrightarrow>
      \<exists>r s' e p. lcreate l cfg (s\<lparr>st_loops := (st_loops s)(l \<mapsto> lp)\<rparr>) = Some (r, s') \<and>
        st_loops s' = (st_loops s)(l \<mapsto> lp\<lparr>l_system_error := e, l_platform_data := p\<rparr>) \<and> same_objects s s' \<and>
        (if r = PD_OK then p \<noteq> NULL \<and> binv s'
         else p = NULL \<and> st_ldata s' = st_ldata s \<and> binv (s'\<lparr>st_loops := st_loops s\<rparr>))"
    and destroy_law: "binv s \<Longrightarrow> st_loops s l = Some lp \<Longrightarrow> l \<noteq> NULL \<Longrightarrow>
      \<exists>s'. ldestroy l s = Some s' \<and> st_loops s' = (st_loops s)(l \<mapsto> lp\<lparr>l_platform_data := NULL\<rparr>) \<and>
        same_objects s s' \<and> st_ldata s' = (st_ldata s)(l_platform_data lp := None) \<and>
        binv (s'\<lparr>st_loops := (st_loops s)(l := None)\<rparr>)"
    and send_law: "binv s \<Longrightarrow> st_loops s l = Some lp \<Longrightarrow> l \<noteq> NULL \<Longrightarrow>
      \<exists>r s'. asend l d s = Some (r, s') \<and> only_error s s' \<and> binv s'"

lemma only_error_loop:
  assumes "only_error s s'" "st_loops s l = Some lp"
  obtains e where "st_loops s' l = Some (lp\<lparr>l_system_error := e\<rparr>)"
  using assms rel_error_Some unfolding only_error_def by metis

lemma pd_wf_only_error:
  assumes wf: "pd_wf s" and fr: "only_error s s'"
  shows "pd_wf s'"
proof -
  have rel: "rel_option upd_error (st_loops s l) (st_loops s' l)" for l
    using fr by (simp add: only_error_def)
  have same: "st_watchers s' = st_watchers s" "st_thread_safe s' = st_thread_safe s"
    using fr by (simp_all add: only_error_def)
  have ok: "loop_ok s' k kp = loop_ok s k kp" for k kp
    using same by (simp add: loop_ok_def mutex_ready_frame [OF same(2)])
  have "loop_ok s' l lp'" if lp': "st_loops s' l = Some lp'" for l lp'
  proof -
    obtain lp e where lp: "st_loops s l = Some lp" "lp' = lp\<lparr>l_system_error := e\<rparr>"
      using rel [of l] lp' by (auto elim: rel_error_cases)
    then show ?thesis
      using loop_ok_error [OF _ pd_wf_loop [OF wf lp(1)], of lp'] by (simp add: ok)
  qed
  moreover have "watcher_ok s' w wt" if w: "st_watchers s' w = Some wt" for w wt
    using pd_wf_watcher [OF wf, of w wt] w same rel [of "w_loop wt"]
    by (auto simp: watcher_ok_def elim!: rel_error_Some)
  ultimately show ?thesis by (simp add: pd_wf_def)
qed

context loop_backend begin

lemma binv_control:
  assumes "binv s" "st_loops s l = Some lp" "upd_control lp lp'"
  shows "binv (s\<lparr>st_loops := (st_loops s)(l \<mapsto> lp')\<rparr>)"
  using assms(1) by (rule binv_stable)
    (use assms(2,3) in \<open>auto simp: same_pdata_def loop_pdata_def watcher_pdata_def map_le_def elim!: upd_controlE\<close>)

text \<open>Stop and send set their field, wake the loop and keep the invariants.\<close>

lemma stop_loop_step:
  assumes wf: "pd_wf s" "binv s" and lp: "st_loops s l = Some lp"
  obtains s' e where "pd_loop_stop P l s = Some (PD_OK, s')" "pd_wf s'" "binv s'"
    "st_loops s' l = Some (lp\<lparr>l_stop_requested := True, l_system_error := e\<rparr>)"
    "only_error (s\<lparr>st_loops := (st_loops s)(l \<mapsto> lp\<lparr>l_stop_requested := True\<rparr>)\<rparr>) s'"
proof -
  let ?lp = "lp\<lparr>l_stop_requested := True\<rparr>" and ?s = "s\<lparr>st_loops := (st_loops s)(l \<mapsto> lp\<lparr>l_stop_requested := True\<rparr>)\<rparr>"
  have ok: "mutex_ready lp s" "l \<noteq> NULL" "l_ops lp \<noteq> None"
    using pd_wf_loop [OF wf(1) lp] by (simp_all add: loop_ok_def)
  have s: "pd_wf ?s" "binv ?s"
    using pd_wf_control [OF wf(1) lp, of ?lp] binv_control [OF wf(2) lp, of ?lp] by simp_all
  obtain r s' where s': "asend l NULL ?s = Some (r, s')" "only_error ?s s'" "binv s'"
    using send_law [OF s(2), of l ?lp NULL] ok(2) by auto
  obtain e where "st_loops s' l = Some (?lp\<lparr>l_system_error := e\<rparr>)"
    by (rule only_error_loop [OF s'(2), of l ?lp]) simp_all
  moreover have "pd_loop_stop P l s = Some (PD_OK, s')"
    using s'(1) by (simp add: stop_eq [OF lp ok op_slots(3)])
  ultimately show thesis
    using s' pd_wf_only_error [OF s(1) s'(2)] by (intro that)
qed

lemma async_send_step:
  assumes wf: "pd_wf s" "binv s" and lp: "st_loops s l = Some lp"
  obtains r s' e where "pd_loop_async_send P l d s = Some (r, s')" "pd_wf s'" "binv s'"
    "st_loops s' l = Some (lp\<lparr>l_async_data := d, l_system_error := e\<rparr>)"
    "only_error (s\<lparr>st_loops := (st_loops s)(l \<mapsto> lp\<lparr>l_async_data := d\<rparr>)\<rparr>) s'"
proof -
  let ?lp = "lp\<lparr>l_async_data := d\<rparr>" and ?s = "s\<lparr>st_loops := (st_loops s)(l \<mapsto> lp\<lparr>l_async_data := d\<rparr>)\<rparr>"
  have ok: "mutex_ready lp s" "l \<noteq> NULL" "l_ops lp \<noteq> None"
    using pd_wf_loop [OF wf(1) lp] by (simp_all add: loop_ok_def)
  have s: "pd_wf ?s" "binv ?s"
    using pd_wf_control [OF wf(1) lp, of ?lp] binv_control [OF wf(2) lp, of ?lp] by simp_all
  obtain r s' where s': "asend l d ?s = Some (r, s')" "only_error ?s s'" "binv s'"
    using send_law [OF s(2), of l ?lp d] ok(2) by auto
  obtain e where "st_loops s' l = Some (?lp\<lparr>l_system_error := e\<rparr>)"
    by (rule only_error_loop [OF s'(2), of l ?lp]) simp_all
  moreover have "pd_loop_async_send P l d s = Some (r, s')"
    using s'(1) by (simp add: async_send_eq [OF lp ok op_slots(3)])
  ultimately show thesis
    using s' pd_wf_only_error [OF s(1) s'(2)] by (intro that)
qed

end

section \<open>Destroying the watchers of a loop\<close>

text \<open>The elements at even and at odd positions.\<close>

fun evens :: "'a list \<Rightarrow> 'a list" where
  "evens [] = []"
| "evens [x] = [x]"
| "evens (x # y # r) = x # evens r"

fun odds :: "'a list \<Rightarrow> 'a list" where
  "odds (x # y # r) = y # odds r"
| "odds xs = []"

lemma filter_neq_id: "x \<notin> set xs \<Longrightarrow> filter (\<lambda>w. w \<noteq> x) xs = xs"
  by (induction xs) auto

lemma set_evens_odds: "set xs = set (evens xs) \<union> set (odds xs)"
  by (induction xs rule: evens.induct) auto

lemma distinct_evens_odds: "distinct xs \<Longrightarrow> set (evens xs) \<inter> set (odds xs) = {}"
proof (induction xs rule: evens.induct)
  case (3 x y r)
  then show ?case using set_evens_odds [of r] by auto
qed auto

lemma filter_evens: "distinct xs \<Longrightarrow> filter (\<lambda>x. x \<notin> set (evens xs)) xs = odds xs"
proof (induction xs rule: evens.induct)
  case (3 x y r)
  have "y \<notin> set (evens r)" using 3(2) set_evens_odds [of r] by auto
  moreover have "filter (\<lambda>z. z \<noteq> x \<and> z \<notin> set (evens r)) r = filter (\<lambda>z. z \<notin> set (evens r)) r"
    using 3(2) by (intro filter_cong) auto
  ultimately show ?case using 3 by auto
qed auto

text \<open>
  Removing the element at the index shifts its successor to the index, and the index moves
  on: the loop destroys the watchers at even positions.
\<close>

context watcher_backend begin

lemma destroy_nth:
  assumes wf: "pd_wf s" "binv s" and lp: "st_loops s l = Some lp" and list: "watcher_list lp = before @ x # rest"
  obtains s' where "pd_watcher_destroy P x s = Some s'" "pd_wf s'" "binv s'"
    "st_watchers s' = (st_watchers s)(x := None)" "lists_become (\<lambda>_. filter (\<lambda>w. w \<noteq> x)) s s'"
    "x \<noteq> NULL" "arr_get (l_watchers lp) (length before) = Some x" "length before < l_watcher_count lp"
proof -
  have ok: "wf_array lp" "l \<noteq> NULL" using pd_wf_loop [OF wf(1) lp] by (simp_all add: loop_ok_def)
  have "x \<in> set (watcher_list lp)" using list by simp
  then obtain wt where wt: "st_watchers s x = Some wt" "w_loop wt = l"
    using pd_wf_loop [OF wf(1) lp] by (auto simp: loop_ok_def)
  then have l: "w_loop wt \<noteq> NULL" using ok by simp
  obtain s' where s': "pd_watcher_destroy P x s = Some s'" "pd_wf s'" "binv s'"
    "st_watchers s' = (st_watchers s)(x := None)" "lists_become (\<lambda>k. remove1 x) s s'"
    by (rule destroy_step [OF wf wt(1) l])
  have "lists_become (\<lambda>_. filter (\<lambda>w. w \<noteq> x)) s s'"
    using s'(5)
  proof (rule lists_become_cong)
    fix k kp assume "st_loops s k = Some kp"
    then have "distinct (watcher_list kp)" using pd_wf_loop [OF wf(1)] by (auto simp: loop_ok_def)
    then show "remove1 x (watcher_list kp) = filter (\<lambda>w. w \<noteq> x) (watcher_list kp)"
      by (auto simp: distinct_remove1_removeAll removeAll_filter_not_eq intro!: filter_cong)
  qed
  moreover have "arr_get (l_watchers lp) (length before) = Some x"
    using arr_holds_get [OF wf_array_holds [OF ok(1)], of "length before"] list by simp
  moreover have "length before < l_watcher_count lp"
    using wf_array_count [OF ok(1)] list by simp
  moreover have "x \<noteq> NULL" using pd_wf_watcher [OF wf(1) wt(1)] by (simp add: watcher_ok_def)
  ultimately show thesis using s' by (intro that)
qed

lemma destroy_watchers_step:
  assumes "pd_wf s" "binv s" "st_loops s l = Some lp" "watcher_list lp = before @ rest"
  shows "\<exists>s'. destroy_watchers P l (length before) s = Some s' \<and> pd_wf s' \<and> binv s' \<and>
    st_watchers s' = (st_watchers s) |` (- set (evens rest)) \<and>
    lists_become (\<lambda>_. filter (\<lambda>w. w \<notin> set (evens rest))) s s'"
  using assms
proof (induction rest arbitrary: s lp before rule: evens.induct)
  case (1 s lp)
  have "l_watcher_count lp = length before"
    using wf_array_count [of lp] pd_wf_loop [OF 1(1,3)] 1(4) by (simp add: loop_ok_def)
  then have "destroy_watchers P l (length before) s = Some s"
    using 1(3) by (simp add: destroy_watchers.simps)
  moreover have "lists_become (\<lambda>_ ws. ws) s s"
    by (simp add: lists_become_def upd_list_intros)
  ultimately show ?case using 1 by simp
next
  case (2 x s lp)
  obtain s1 where s1: "pd_watcher_destroy P x s = Some s1" "pd_wf s1" "binv s1"
    "st_watchers s1 = (st_watchers s)(x := None)" "lists_become (\<lambda>_. filter (\<lambda>w. w \<noteq> x)) s s1"
    "x \<noteq> NULL" "arr_get (l_watchers lp) (length before) = Some x"
    "length before < l_watcher_count lp"
    using destroy_nth [OF 2(1,2,3), of before x "[]"] 2(4) by auto
  obtain lp1 where lp1: "st_loops s1 l = Some lp1" "watcher_list lp1 = filter (\<lambda>w. w \<noteq> x) (watcher_list lp)"
    by (rule lists_become_D [OF s1(5) 2(3)])
  have "distinct (watcher_list lp)" using pd_wf_loop [OF 2(1,3)] by (simp add: loop_ok_def)
  then have "watcher_list lp1 = before"
    using lp1(2) 2(4) by (auto simp: filter_neq_id)
  then have "l_watcher_count lp1 = length before"
    using wf_array_count [of lp1] pd_wf_loop [OF s1(2) lp1(1)] by (simp add: loop_ok_def)
  then have "destroy_watchers P l (Suc (length before)) s1 = Some s1"
    using lp1(1) by (subst destroy_watchers.simps) simp
  then have "destroy_watchers P l (length before) s = Some s1"
    using s1 2(3) by (subst destroy_watchers.simps) simp
  then show ?case using s1 by (auto simp: restrict_map_def fun_eq_iff)
next
  case (3 x y r s lp)
  obtain s1 where s1: "pd_watcher_destroy P x s = Some s1" "pd_wf s1" "binv s1"
    "st_watchers s1 = (st_watchers s)(x := None)" "lists_become (\<lambda>_. filter (\<lambda>w. w \<noteq> x)) s s1"
    "x \<noteq> NULL" "arr_get (l_watchers lp) (length before) = Some x"
    "length before < l_watcher_count lp"
    using destroy_nth [OF 3(2,3,4), of before x "y # r"] 3(5) by auto
  obtain lp1 where lp1: "st_loops s1 l = Some lp1" "watcher_list lp1 = filter (\<lambda>w. w \<noteq> x) (watcher_list lp)"
    by (rule lists_become_D [OF s1(5) 3(4)])
  have d: "distinct (watcher_list lp)" using pd_wf_loop [OF 3(2,4)] by (simp add: loop_ok_def)
  then have "watcher_list lp1 = (before @ [y]) @ r"
    using lp1(2) 3(5) by (auto simp: filter_neq_id)
  from "3.IH" [OF s1(2,3) lp1(1) this] obtain s2 where
    s2: "destroy_watchers P l (Suc (length before)) s1 = Some s2" "pd_wf s2" "binv s2"
    "st_watchers s2 = (st_watchers s1) |` (- set (evens r))"
    "lists_become (\<lambda>_. filter (\<lambda>w. w \<notin> set (evens r))) s1 s2" by auto
  have "destroy_watchers P l (length before) s = Some s2"
    using s1 s2(1) 3(4) by (subst destroy_watchers.simps) simp
  moreover have "lists_become (\<lambda>_. filter (\<lambda>w. w \<notin> set (evens (x # y # r)))) s s2"
    using lists_become_trans [OF s1(5) s2(5)] by (simp add: filter_filter conj_commute)
  moreover have "st_watchers s2 = (st_watchers s) |` (- set (evens (x # y # r)))"
    by (auto simp: s1(4) s2(4) restrict_map_def fun_eq_iff)
  ultimately show ?case using s2(2,3) by blast
qed

end

section \<open>The last reference\<close>

lemma destroy_mutex_if_eq:
  assumes "st_loops s l = Some lp" and "mutex_ready lp s"
  shows "\<exists>m. destroy_mutex_if l s = Some (s\<lparr>st_loops := (st_loops s)(l \<mapsto> lp\<lparr>l_mutex := m\<rparr>)\<rparr>)"
proof (cases "uses_mutex lp s")
  case True
  then have "destroy_mutex_if l s = Some (s\<lparr>st_loops := (st_loops s)(l \<mapsto> lp\<lparr>l_mutex := Mutex_uninit\<rparr>)\<rparr>)"
    using assms by (simp add: destroy_mutex_if_def PD_MUTEX_DESTROY_def heap_write_def uses_mutex_def mutex_ready_def)
  then show ?thesis by blast
next
  case False
  then have "destroy_mutex_if l s = Some s"
    using assms by (auto simp: destroy_mutex_if_def PD_MUTEX_DESTROY_def uses_mutex_def)
  moreover have "s = s\<lparr>st_loops := (st_loops s)(l \<mapsto> lp\<lparr>l_mutex := l_mutex lp\<rparr>)\<rparr>"
    using assms(1) by simp
  ultimately show ?thesis by metis
qed

text \<open>The end of every path that gives up a loop: destroy the mutex, free the loop.\<close>

lemma free_loop_eq:
  assumes "st_loops s l = Some lp" and "mutex_ready lp s" and "l \<noteq> NULL"
  shows "do { s \<leftarrow> destroy_mutex_if l s; free_loop l s } = Some (s\<lparr>st_loops := (st_loops s)(l := None)\<rparr>)"
    "do { s \<leftarrow> destroy_mutex_if l s; s \<leftarrow> free_loop l s; Some (a, s) } =
       Some (a, s\<lparr>st_loops := (st_loops s)(l := None)\<rparr>)"
proof -
  obtain m where m: "destroy_mutex_if l s = Some (s\<lparr>st_loops := (st_loops s)(l \<mapsto> lp\<lparr>l_mutex := m\<rparr>)\<rparr>)"
    using destroy_mutex_if_eq [OF assms(1,2)] by blast
  show "do { s \<leftarrow> destroy_mutex_if l s; free_loop l s } = Some (s\<lparr>st_loops := (st_loops s)(l := None)\<rparr>)"
    using assms(3) by (simp add: m heap_free_def)
  show "do { s \<leftarrow> destroy_mutex_if l s; s \<leftarrow> free_loop l s; Some (a, s) } =
       Some (a, s\<lparr>st_loops := (st_loops s)(l := None)\<rparr>)"
    using assms(3) by (simp add: m heap_free_def)
qed

lemma give_up:
  assumes h: "h l = None" and m: "mutex_ready x s" and l: "l \<noteq> NULL"
  shows "do { s \<leftarrow> destroy_mutex_if l (s\<lparr>st_loops := h(l \<mapsto> x)\<rparr>); s \<leftarrow> free_loop l s; Some (a, s) } =
    Some (a, s\<lparr>st_loops := h\<rparr>)"
proof -
  have "h(l := None) = h" using h by auto
  moreover have "st_loops (s\<lparr>st_loops := h(l \<mapsto> x)\<rparr>) l = Some x" "mutex_ready x (s\<lparr>st_loops := h(l \<mapsto> x)\<rparr>)"
    using m by simp_all
  note free_loop_eq(2) [OF this l, of a]
  ultimately show ?thesis by simp
qed

context loop_backend begin

lemma unref_last_step:
  assumes wf: "pd_wf s" "binv s" and lp: "st_loops s l = Some lp" and rc: "l_ref_count lp = 1"
  obtains s' where "pd_loop_unref P l s = Some s'" "binv s'" "st_loops s' l = None"
    "st_watchers s' = (st_watchers s) |` (- set (evens (watcher_list lp)))"
    "\<And>k. k \<noteq> l \<Longrightarrow> rel_option upd_list (st_loops s k) (st_loops s' k)"
    "\<And>k kp'. st_loops s' k = Some kp' \<Longrightarrow> \<exists>kp. st_loops s k = Some kp \<and> watcher_list kp' = watcher_list kp"
    "st_ldata s' (l_platform_data lp) = None" "st_timers s' = st_timers s" "st_tdata s' = st_tdata s"
proof -
  have ok: "mutex_ready lp s" "l \<noteq> NULL" "l_ops lp \<noteq> None" "distinct (watcher_list lp)"
    using pd_wf_loop [OF wf(1) lp] by (simp_all add: loop_ok_def)
  let ?lp = "lp\<lparr>l_ref_count := 0\<rparr>" and ?s1 = "s\<lparr>st_loops := (st_loops s)(l \<mapsto> lp\<lparr>l_ref_count := 0\<rparr>)\<rparr>"
  have s1: "pd_wf ?s1" "binv ?s1" "st_loops ?s1 l = Some ?lp" "watcher_list ?lp = [] @ watcher_list lp"
    using pd_wf_control [OF wf(1) lp, of ?lp] binv_control [OF wf(2) lp, of ?lp]
      upd_control_list [of lp ?lp] by simp_all
  from destroy_watchers_step [OF s1] obtain s2 where
    s2: "destroy_watchers P l 0 ?s1 = Some s2" "pd_wf s2" "binv s2"
      "st_watchers s2 = (st_watchers s) |` (- set (evens (watcher_list lp)))"
      "lists_become (\<lambda>_. filter (\<lambda>w. w \<notin> set (evens (watcher_list lp)))) ?s1 s2" by auto
  obtain lp2 where lp2: "st_loops s2 l = Some lp2" "upd_list ?lp lp2"
    by (rule lists_become_D [OF s2(5) s1(3)])
  let ?lp3 = "lp2\<lparr>l_watchers := []\<rparr>" and ?s3 = "s2\<lparr>st_loops := (st_loops s2)(l \<mapsto> lp2\<lparr>l_watchers := []\<rparr>)\<rparr>"
  have b3: "binv ?s3"
    using s2(3) by (rule binv_stable)
      (use lp2 in \<open>auto simp: same_pdata_def loop_pdata_def watcher_pdata_def map_le_def\<close>)
  obtain s4 where s4: "ldestroy l ?s3 = Some s4"
    "st_loops s4 = (st_loops s2)(l \<mapsto> ?lp3\<lparr>l_platform_data := NULL\<rparr>)" "same_objects s2 s4"
    "st_ldata s4 = (st_ldata s2)(l_platform_data lp2 := None)" "binv (s4\<lparr>st_loops := (st_loops s2)(l := None)\<rparr>)"
    using destroy_law [OF b3, of l ?lp3] ok(2) by (auto simp: same_objects_def)
  have m2: "mutex_ready lp2 s2" "l_ops lp2 \<noteq> None"
    using pd_wf_loop [OF s2(2) lp2(1)] by (simp_all add: loop_ok_def)
  have m4: "mutex_ready (?lp3\<lparr>l_platform_data := NULL\<rparr>) s4"
    using m2(1) s4(3) by (simp add: mutex_ready_def uses_mutex_def same_objects_def)
  have ops3: "loop_op op_loop_destroy P ?lp3 = Some ldestroy" using m2(2) op_slots by (simp add: loop_op_def)
  let ?s5 = "s4\<lparr>st_loops := (st_loops s2)(l := None)\<rparr>"
  have l4: "st_loops s4 l = Some (?lp3\<lparr>l_platform_data := NULL\<rparr>)" using s4(2) by simp
  have end4: "do { s \<leftarrow> destroy_mutex_if l s4; free_loop l s } = Some ?s5"
    using free_loop_eq(1) [OF l4 m4 ok(2)] s4(2) by simp
  have unlock: "PD_MUTEX_UNLOCK l (s\<lparr>st_loops := (st_loops s)(l \<mapsto> locked s ?lp)\<rparr>) = Some ?s1"
    using ok(1) by simp
  have run: "pd_loop_unref P l s = Some ?s5"
    unfolding pd_loop_unref_def
    by (simp only: ok(2) if_False lock_eq [OF lp ok(1)] bind.bind_lunit)
       (simp add: rc INT_MIN_def heap_write_def unlock s2(1) lp2(1) ops3 s4(1) end4)
  have other: "st_loops ?s5 k = (if k = l then None else st_loops s2 k)" for k by simp
  have rel: "rel_option upd_list (st_loops s k) (st_loops ?s5 k)" if k: "k \<noteq> l" for k
  proof (cases "st_loops s k")
    case None
    then have "st_loops ?s1 k = None" using k by simp
    then show ?thesis using s2(5) k None by (auto simp: lists_become_def)
  next
    case (Some kp)
    then have "st_loops ?s1 k = Some kp" using k by simp
    from lists_become_D [OF s2(5) this] obtain kp' where "st_loops s2 k = Some kp'" "upd_list kp kp'" by blast
    then show ?thesis using Some k by simp
  qed
  have bwd: "\<exists>kp. st_loops s k = Some kp \<and> watcher_list kp' = watcher_list kp"
    if kp': "st_loops ?s5 k = Some kp'" for k kp'
  proof -
    have k: "k \<noteq> l" "st_loops s2 k = Some kp'" using kp' by (simp_all split: if_splits)
    from lists_become_back [OF s2(5) k(2)] obtain kp where
      kp: "st_loops ?s1 k = Some kp" "watcher_list kp' = filter (\<lambda>w. w \<notin> set (evens (watcher_list lp))) (watcher_list kp)"
      by blast
    then have kps: "st_loops s k = Some kp" using k by simp
    have "w \<notin> set (evens (watcher_list lp))" if w: "w \<in> set (watcher_list kp)" for w
    proof
      assume "w \<in> set (evens (watcher_list lp))"
      then have "w \<in> set (watcher_list lp)" using set_evens_odds [of "watcher_list lp"] by simp
      moreover obtain wt where "st_watchers s w = Some wt" "w_loop wt = k"
        using pd_wf_loop [OF wf(1) kps] w by (auto simp: loop_ok_def)
      ultimately show False using pd_wf_listed [OF wf(1) lp] k(1) by blast
    qed
    then have "watcher_list kp' = watcher_list kp" by (simp add: kp(2) filter_id_conv)
    with kps show ?thesis by blast
  qed
  have "l_platform_data lp2 = l_platform_data lp" using lp2(2) by (auto elim!: upd_listE)
  with s4(4) have ld: "st_ldata ?s5 (l_platform_data lp) = None" by simp
  have rest: "st_watchers ?s5 = (st_watchers s) |` (- set (evens (watcher_list lp)))"
    "st_timers ?s5 = st_timers s" "st_tdata ?s5 = st_tdata s"
    using s2(4,5) s4(3) by (simp_all add: same_objects_def lists_become_def)
  show thesis by (rule that [OF run s4(5) _ rest(1) rel bwd ld rest(2,3)]) simp
qed

end

section \<open>Creating a loop\<close>

lemma calloc_loop_cases:
  obtains (null) s1 where "calloc_loop s = (NULL, s1)" "upd_alloc s s1"
  | (some) l s1 where "calloc_loop s = (l, s1\<lparr>st_loops := (st_loops s)(l \<mapsto> zero_loop)\<rparr>)"
      "l \<noteq> NULL" "st_loops s l = None" "upd_alloc s s1"
  by (rule heap_alloc_cases [of s st_loops "\<lambda>h s. s\<lparr>st_loops := h\<rparr>" zero_loop])
    (erule upd_alloc_frame, (assumption | erule null | erule (3) some)+)

lemma init_config_defaults_bounds:
  "0 < max_events_per_wait (init_config_defaults c)" "0 \<le> enable_thread_safety (init_config_defaults c)"
  by (simp_all add: init_config_defaults_def DEFAULT_MAX_EVENTS_PER_WAIT_def DEFAULT_THREAD_SAFETY_def Let_def)

lemma mutex_init_cases:
  assumes lp: "st_loops s l = Some lp"
  obtains (fail) s1 where
      "init_mutex_if l s = Some (False, s1)"
      "upd_alloc s s1"
  | (ok) s1 m where
      "init_mutex_if l s =
         Some (True, s1\<lparr>st_loops := (st_loops s)(l \<mapsto> lp\<lparr>l_mutex := m\<rparr>)\<rparr>)"
      "upd_alloc s s1" "mutex_ready (lp\<lparr>l_mutex := m\<rparr>) s"
proof (cases "uses_mutex lp s")
  case False
  then have "init_mutex_if l s = Some (True, s)"
    using lp by (auto simp: init_mutex_if_def uses_mutex_def PD_MUTEX_INIT_def)
  then show thesis
    using False lp by (intro ok [of "l_mutex lp" s]) (simp_all add: mutex_ready_def)
next
  case True
  obtain b s1 where b: "alloc_array s = (b, s1)" by fastforce
  let ?s1 = "s1\<lparr>st_errno := st_errno s\<rparr>"
  have fr: "upd_alloc s s1" using b by (intro upd_allocI alloc_array_frame)
  then have fr1: "upd_alloc s ?s1" by (elim upd_allocE) (simp add: upd_alloc_def)
  have lp1: "st_loops s1 = st_loops s" using fr by (simp add: upd_alloc_frame)
  show thesis
  proof (cases b)
    case False
    then show thesis
      using True b lp by (intro fail [OF _ fr1]) (simp add: init_mutex_if_def uses_mutex_def PD_MUTEX_INIT_def Let_def)
  next
    case ok': True
    have "init_mutex_if l s = Some (True, ?s1\<lparr>st_loops := (st_loops s)(l \<mapsto> lp\<lparr>l_mutex := Mutex_free\<rparr>)\<rparr>)"
      using True b ok' lp lp1 by (simp add: init_mutex_if_def uses_mutex_def PD_MUTEX_INIT_def Let_def heap_write_def)
    then show thesis
      using True by (intro ok [of Mutex_free, OF _ fr1]) (simp_all add: uses_mutex_def mutex_ready_def)
  qed
qed

text \<open>The loop that \<^verbatim>\<open>pd_loop_create\<close> returns, up to what the backend and the mutex write.\<close>

definition new_loop :: "pd_loop_config \<Rightarrow> ops_ptr option \<Rightarrow> pd_mutex \<Rightarrow> pd_loop" where
  "new_loop cfg ops m = zero_loop\<lparr>l_ops := ops, l_ref_count := 1,
     l_max_events_per_wait := max_events_per_wait cfg, l_enable_thread_safety := enable_thread_safety cfg,
     l_watchers := arr_new 16, l_watcher_capacity := 16, l_mutex := m\<rparr>"

lemma new_loop_simps [simp]:
  "watcher_list (new_loop cfg ops m) = []" "l_platform_data (new_loop cfg ops m) = NULL"
  "l_ref_count (new_loop cfg ops m) = 1" "l_system_error (new_loop cfg ops m) = 0"
  "l_ops (new_loop cfg ops m) = ops" "l_enable_thread_safety (new_loop cfg ops m) = enable_thread_safety cfg"
  by (simp_all add: new_loop_def zero_loop_def watcher_list_def arr_list_def)

lemma new_loop_created:
  "wf_array ((new_loop cfg ops m)\<lparr>l_system_error := e, l_platform_data := p\<rparr>)"
  "watcher_list ((new_loop cfg ops m)\<lparr>l_system_error := e, l_platform_data := p\<rparr>) = []"
  "mutex_ready ((new_loop cfg ops m)\<lparr>l_system_error := e, l_platform_data := p\<rparr>) s = mutex_ready (new_loop cfg ops m) s"
  by (simp_all add: wf_array_def new_loop_def zero_loop_def watcher_list_def arr_list_def
      mutex_ready_def uses_mutex_def)

definition loop_config :: "pd_loop_config option \<Rightarrow> pd_loop_config" where
  "loop_config config = init_config_defaults (case config of
     Some c \<Rightarrow> c | None \<Rightarrow> \<lparr>max_events_per_wait = 0, enable_thread_safety = 0\<rparr>)"

lemma same_objects_alloc: "upd_alloc s s1 \<Longrightarrow> same_objects s s1"
  by (simp add: same_objects_def upd_alloc_frame)

lemma same_objects_trans: "same_objects a b \<Longrightarrow> same_objects b c \<Longrightarrow> same_objects a c"
  by (simp add: same_objects_def)

lemma same_objects_loops [simp]:
  "same_objects s (s'\<lparr>st_loops := h\<rparr>) = same_objects s s'" "same_objects (s\<lparr>st_loops := h\<rparr>) s' = same_objects s s'"
  by (simp_all add: same_objects_def)

lemma upd_alloc_trans: "upd_alloc a b \<Longrightarrow> upd_alloc b c \<Longrightarrow> upd_alloc a c"
  by (elim upd_allocE) (simp add: upd_alloc_def)

lemma upd_alloc_put: "upd_alloc s s' \<Longrightarrow> upd_alloc (s\<lparr>st_loops := h\<rparr>) (s'\<lparr>st_loops := h\<rparr>)"
  by (elim upd_allocE) (simp add: upd_alloc_def)

lemma upd_alloc_undo:
  "upd_alloc s s1 \<Longrightarrow> upd_alloc (s1\<lparr>st_loops := h\<rparr>) s2 \<Longrightarrow> upd_alloc s (s2\<lparr>st_loops := st_loops s\<rparr>)"
  "upd_alloc s s1 \<Longrightarrow> upd_alloc (s1\<lparr>st_loops := h\<rparr>) s2 \<Longrightarrow> s2\<lparr>st_loops := h'\<rparr> = (s2\<lparr>st_loops := st_loops s\<rparr>)\<lparr>st_loops := h'\<rparr>"
  by (elim upd_allocE, simp add: upd_alloc_def) simp

lemma mutex_ready_same_objects: "same_objects s s' \<Longrightarrow> mutex_ready lp s \<Longrightarrow> mutex_ready lp s'"
  by (simp add: same_objects_def mutex_ready_def uses_mutex_def)

text \<open>
  The first half of \<^verbatim>\<open>pd_loop_create\<close> is the same for every backend: it gives up with
  nothing left behind, or calls the backend on the zeroed loop with its fields filled in.
\<close>

lemma create_loop_front:
  obtains (null) s1 where "pd_loop_create target P config s = Some (NULL, s1)" "upd_alloc s s1"
  | (backend) l s1 m where "l \<noteq> NULL" "st_loops s l = None" "upd_alloc s s1" "pd_platform_detect target \<noteq> None"
      "mutex_ready (new_loop (loop_config config) (pd_platform_detect target) m) s"
      "pd_loop_create target P config s = do {
         loop_create \<leftarrow> op_loop_create P;
         (result, s) \<leftarrow> loop_create l (loop_config config) (s1\<lparr>st_loops := (st_loops s)(l \<mapsto>
            new_loop (loop_config config) (pd_platform_detect target) m)\<rparr>);
         if result \<noteq> PD_OK
         then do {
           s \<leftarrow> write_loop l (\<lambda>x. x\<lparr>l_watchers := []\<rparr>) s;
           s \<leftarrow> destroy_mutex_if l s;
           s \<leftarrow> free_loop l s;
           Some (NULL, s) }
         else Some (l, s) }"
proof (cases rule: calloc_loop_cases [of s])
  case (null s1)
  then have "pd_loop_create target P config s = Some (NULL, s1)" by (simp add: pd_loop_create_def)
  then show thesis using null(2) by (intro that(1))
next
  case (some l s1)
  let ?cfg = "loop_config config" and ?ops = "pd_platform_detect target"
  let ?lp = "zero_loop\<lparr>l_max_events_per_wait := max_events_per_wait ?cfg,
    l_enable_thread_safety := enable_thread_safety ?cfg, l_ref_count := 1, l_running := False,
    l_stop_requested := False, l_system_error := 0, l_async_data := NULL\<rparr>"
  let ?s = "s1\<lparr>st_loops := (st_loops s)(l \<mapsto> ?lp)\<rparr>"
  have l: "st_loops ?s l = Some ?lp" by simp
  have undo: "(st_loops s)(l := None) = st_loops s" using some by (simp add: fun_upd_idem)
  have same: "st_loops s1 = st_loops s" "st_thread_safe s1 = st_thread_safe s"
    using some by (simp_all add: upd_alloc_frame)
  note front = some pd_loop_create_def loop_config_def [symmetric] heap_write_def Let_def
  from l show thesis
  proof (cases rule: mutex_init_cases)
    case (fail s2)
    have "upd_alloc s (s2\<lparr>st_loops := st_loops s\<rparr>)"
      using some(4) fail(2) by (rule upd_alloc_undo)
    moreover have "pd_loop_create target P config s = Some (NULL, s2\<lparr>st_loops := st_loops s\<rparr>)"
      using fail(1) upd_alloc_frame(1) [OF fail(2)] by (simp add: front heap_free_def undo split del: if_split)
    ultimately show thesis by (intro that(1))
  next
    case (ok s2 m)
    let ?lp2 = "?lp\<lparr>l_mutex := m\<rparr>"
    have fr2: "upd_alloc s (s2\<lparr>st_loops := st_loops s\<rparr>)"
      using some(4) ok(2) by (rule upd_alloc_undo)
    have m2: "mutex_ready x s2 = mutex_ready x s" for x
      using upd_alloc_frame(9) [OF fr2] by (simp add: mutex_ready_def uses_mutex_def)
    obtain b s3 where b: "alloc_array s2 = (b, s3)" by fastforce
    then have fr3: "upd_alloc s2 s3" by (intro upd_allocI alloc_array_frame)
    have fr: "upd_alloc s (s3\<lparr>st_loops := st_loops s\<rparr>)"
      using fr2 upd_alloc_put [OF fr3] by (rule upd_alloc_trans)
    have ts3: "mutex_ready x s3 = mutex_ready x s" for x
      using upd_alloc_frame(9) [OF fr] by (simp add: mutex_ready_def uses_mutex_def)
    have "mutex_ready ?lp2 s" using ok(3) by (simp add: mutex_ready_def uses_mutex_def same)
    then have ready: "mutex_ready (?lp2\<lparr>l_ops := x\<rparr>) s2" "mutex_ready (?lp2\<lparr>l_ops := x\<rparr>) s3" for x
      unfolding m2 ts3 by (simp_all add: mutex_ready_def uses_mutex_def)
    show thesis
    proof (cases "?ops")
      case None
      have "pd_loop_create target P config s = Some (NULL, s2\<lparr>st_loops := st_loops s\<rparr>)"
        by (simp add: front ok(1) None give_up [of "st_loops s", OF some(3) ready(1) some(2)] split del: if_split)
      then show thesis using fr2 by (intro that(1))
    next
      case (Some ops)
      show thesis
      proof (cases b)
        case False
        have "pd_loop_create target P config s = Some (NULL, s3\<lparr>st_loops := st_loops s\<rparr>)"
          by (simp add: front ok(1) Some alloc_array_loops b False give_up [of "st_loops s", OF some(3) ready(2) some(2)]
              split del: if_split)
        then show thesis using fr by (intro that(1))
      next
        case True
        have new: "new_loop ?cfg (Some ops) m = ?lp2\<lparr>l_ops := Some ops, l_watcher_capacity := 16, l_watchers := arr_new 16\<rparr>"
          by (simp add: new_loop_def Some zero_loop_def)
        show thesis
        proof (rule that(2) [OF some(2,3) fr])
          show "?ops \<noteq> None" by (simp add: Some)
          show "mutex_ready (new_loop ?cfg ?ops m) s"
            using ok(3) by (simp add: new_loop_def mutex_ready_def uses_mutex_def same)
        qed (simp add: front ok(1) alloc_array_loops b True Some new split del: if_split)
      qed
    qed
  qed
qed

lemma pd_wf_loops_undo: "st_watchers s' = st_watchers s \<Longrightarrow> st_loops s' = st_loops s \<Longrightarrow>
   st_thread_safe s' = st_thread_safe s \<Longrightarrow> pd_wf s' = pd_wf s"
  unfolding pd_wf_def loop_ok_def watcher_ok_def mutex_ready_def uses_mutex_def by simp

context loop_backend begin

lemma create_loop_step:
  assumes wf: "pd_wf s" "binv s"
  obtains (null) s' where "pd_loop_create target P config s = Some (NULL, s')" "pd_wf s'" "binv s'"
      "st_loops s' = st_loops s" "st_ldata s' = st_ldata s" "same_objects s s'"
  | (some) l s' e p m where "pd_loop_create target P config s = Some (l, s')" "pd_wf s'" "binv s'"
      "l \<noteq> NULL" "st_loops s l = None" "p \<noteq> NULL" "same_objects s s'"
      "st_loops s' = (st_loops s)(l \<mapsto> (new_loop (loop_config config) (pd_platform_detect target) m)
         \<lparr>l_system_error := e, l_platform_data := p\<rparr>)"
proof (cases rule: create_loop_front [of target P config s])
  case (null s1)
  then show thesis
    using pd_wf_alloc [OF wf(1)] binv_alloc [OF wf(2)] same_objects_alloc [of s s1]
    by (intro that(1)) (auto simp: upd_alloc_frame)
next
  case (backend l s1 m)
  let ?lp = "new_loop (loop_config config) (pd_platform_detect target) m"
  have s1: "pd_wf s1" "binv s1" "st_loops s1 = st_loops s"
    using pd_wf_alloc [OF wf(1) backend(3)] binv_alloc [OF wf(2) backend(3)] backend(3)
    by (simp_all add: upd_alloc_frame)
  have cfg: "0 < max_events_per_wait (loop_config config)"
    by (simp add: loop_config_def init_config_defaults_bounds)
  have l1: "st_loops s1 l = None" "l_platform_data ?lp = NULL" "l_system_error ?lp = 0"
    using backend(2) s1(3) by simp_all
  obtain r s2 e p where s2: "lcreate l (loop_config config) (s1\<lparr>st_loops := (st_loops s)(l \<mapsto> ?lp)\<rparr>) = Some (r, s2)"
    "st_loops s2 = (st_loops s)(l \<mapsto> ?lp\<lparr>l_system_error := e, l_platform_data := p\<rparr>)" "same_objects s1 s2"
    "if r = PD_OK then p \<noteq> NULL \<and> binv s2
     else p = NULL \<and> st_ldata s2 = st_ldata s1 \<and> binv (s2\<lparr>st_loops := st_loops s\<rparr>)"
    using create_law [OF s1(2) l1(1) backend(1) l1(2,3) cfg] unfolding s1(3) by blast
  have same: "same_objects s s2"
    using same_objects_alloc [OF backend(3)] s2(3) by (rule same_objects_trans)
  show thesis
  proof (cases "r = PD_OK")
    case True
    have "loop_ok (s2\<lparr>st_loops := st_loops s\<rparr>) l (?lp\<lparr>l_system_error := e, l_platform_data := p\<rparr>)"
      using backend(1,4) mutex_ready_same_objects [OF same backend(5)]
      by (simp add: loop_ok_def new_loop_created)
    moreover have "pd_wf (s2\<lparr>st_loops := st_loops s\<rparr>)"
      using wf(1) same by (subst pd_wf_loops_undo [of _ s]) (simp_all add: same_objects_def)
    ultimately have "pd_wf (s2\<lparr>st_loops := st_loops s2\<rparr>)"
      unfolding s2(2) using pd_wf_put_loop [of "s2\<lparr>st_loops := st_loops s\<rparr>" l] by simp
    then have "pd_wf s2" by simp
    moreover have "pd_loop_create target P config s = Some (l, s2)"
      unfolding backend(6) using s2(1) True by (simp add: op_slots)
    ultimately show thesis
      using s2 True same backend(1,2) by (intro that(2)) simp_all
  next
    case False
    have m2: "mutex_ready (?lp\<lparr>l_system_error := e, l_platform_data := p, l_watchers := []\<rparr>) s2"
      using mutex_ready_same_objects [OF same backend(5)] by (simp add: mutex_ready_def uses_mutex_def)
    have run: "pd_loop_create target P config s = Some (NULL, s2\<lparr>st_loops := st_loops s\<rparr>)"
      unfolding backend(6) using s2(1,2) False
      by (simp add: op_slots heap_write_def give_up [of "st_loops s", OF backend(2) m2 backend(1)])
    have "pd_wf (s2\<lparr>st_loops := st_loops s\<rparr>)"
      using wf(1) same by (subst pd_wf_loops_undo [of _ s]) (simp_all add: same_objects_def)
    with run show thesis
      using s2(4) False same upd_alloc_frame(4) [OF backend(3)]
      by (intro that(1) [of "s2\<lparr>st_loops := st_loops s\<rparr>"]) simp_all
  qed
qed

end

end
