(* ===== verification/Pd_Timer.thy ===== *)
theory Pd_Timer
  imports Pd_Loop
begin

text \<open>
  The generic timer layer, \<^verbatim>\<open>src/timer.c\<close>: one definition per function, over an operation
  table \<open>P\<close>, with the steps of start and stop that hold for every backend.
\<close>

section \<open>The operations of \<^verbatim>\<open>src/timer.c\<close>\<close>

definition pd_timer_create ::
  "('ld, 'wd, 'td, 'k) pd_state pd_platform_ops \<Rightarrow> addr \<Rightarrow> 64 word \<Rightarrow> 64 word \<Rightarrow>
   pd_callback option \<Rightarrow> addr \<Rightarrow> ('ld, 'wd, 'td, 'k) pd_state \<Rightarrow>
   (addr \<times> ('ld, 'wd, 'td, 'k) pd_state) option" where
  "pd_timer_create P loop timeout_ms interval_ms callback user_data s =
    (if loop = NULL \<or> callback = None then Some (NULL, s)
     else let (timer, s) = calloc_timer s in
       if timer = NULL then Some (NULL, s)
       else do {
         s \<leftarrow> write_timer timer (\<lambda>t. t\<lparr>t_loop := loop, t_timeout_ms := timeout_ms,
                t_interval_ms := interval_ms, t_callback := callback, t_user_data := user_data,
                t_active := False, t_watcher := NULL, t_platform_data := NULL\<rparr>) s;
         lp \<leftarrow> st_loops s loop;
         case loop_op op_timer_create P lp of
           Some timer_create \<Rightarrow> do {
             (result, s) \<leftarrow> timer_create loop timer s;
             if result \<noteq> PD_OK
             then do { s \<leftarrow> free_timer timer s; Some (NULL, s) }
             else Some (timer, s) }
         | None \<Rightarrow> Some (timer, s) })"

definition pd_timer_start ::
  "('ld, 'wd, 'td, 'k) pd_state pd_platform_ops \<Rightarrow> addr \<Rightarrow>
   ('ld, 'wd, 'td, 'k) pd_state \<Rightarrow> (pd_error \<times> ('ld, 'wd, 'td, 'k) pd_state) option" where
  "pd_timer_start P timer s =
    (if timer = NULL then Some (PD_ERR_INVALID_ARG, s)
     else do {
       t \<leftarrow> st_timers s timer;
       if t_loop t = NULL then Some (PD_ERR_INVALID_ARG, s)
       else if t_active t then Some (PD_OK, s)
       else do {
         s \<leftarrow> write_timer timer (\<lambda>t. t\<lparr>t_active := True\<rparr>) s;
         lp \<leftarrow> st_loops s (t_loop t);
         case loop_op op_timer_start P lp of
           Some timer_start \<Rightarrow> do {
             (result, s) \<leftarrow> timer_start timer s;
             if result \<noteq> PD_OK
             then do { s \<leftarrow> write_timer timer (\<lambda>t. t\<lparr>t_active := False\<rparr>) s; Some (result, s) }
             else Some (PD_OK, s) }
         | None \<Rightarrow> Some (PD_OK, s) } })"

definition pd_timer_stop ::
  "('ld, 'wd, 'td, 'k) pd_state pd_platform_ops \<Rightarrow> addr \<Rightarrow>
   ('ld, 'wd, 'td, 'k) pd_state \<Rightarrow> (pd_error \<times> ('ld, 'wd, 'td, 'k) pd_state) option" where
  "pd_timer_stop P timer s =
    (if timer = NULL then Some (PD_ERR_INVALID_ARG, s)
     else do {
       t \<leftarrow> st_timers s timer;
       if t_loop t = NULL then Some (PD_ERR_INVALID_ARG, s)
       else if \<not> t_active t then Some (PD_OK, s)
       else do {
         s \<leftarrow> write_timer timer (\<lambda>t. t\<lparr>t_active := False\<rparr>) s;
         lp \<leftarrow> st_loops s (t_loop t);
         case loop_op op_timer_stop P lp of
           Some timer_stop \<Rightarrow> do {
             (result, s) \<leftarrow> timer_stop timer s;
             if result \<noteq> PD_OK
             then do { s \<leftarrow> write_timer timer (\<lambda>t. t\<lparr>t_active := True\<rparr>) s; Some (result, s) }
             else Some (PD_OK, s) }
         | None \<Rightarrow> Some (PD_OK, s) } })"

definition pd_timer_destroy ::
  "('ld, 'wd, 'td, 'k) pd_state pd_platform_ops \<Rightarrow> addr \<Rightarrow>
   ('ld, 'wd, 'td, 'k) pd_state \<Rightarrow> (pd_error \<times> ('ld, 'wd, 'td, 'k) pd_state) option" where
  "pd_timer_destroy P timer s =
    (if timer = NULL then Some (PD_ERR_INVALID_ARG, s)
     else do {
       t \<leftarrow> st_timers s timer;
       s \<leftarrow> (if t_active t then do { (_, s) \<leftarrow> pd_timer_stop P timer s; Some s } else Some s);
       t \<leftarrow> st_timers s timer;
       s \<leftarrow> (if t_watcher t \<noteq> NULL \<and> t_owns_watcher t
            then do {
              s \<leftarrow> pd_watcher_destroy P (t_watcher t) s;
              write_timer timer (\<lambda>t. t\<lparr>t_watcher := NULL\<rparr>) s }
            else Some s);
       t \<leftarrow> st_timers s timer;
       (safe_to_free, s) \<leftarrow>
         (if t_loop t = NULL then Some (True, s)
          else do {
            lp \<leftarrow> st_loops s (t_loop t);
            case loop_op op_timer_destroy P lp of
              Some timer_destroy \<Rightarrow> timer_destroy timer s
            | None \<Rightarrow> Some (True, s) });
       s \<leftarrow> (if safe_to_free then free_timer timer s else Some s);
       Some (PD_OK, s) })"

end
