(* ===== verification/Pd_Epoll_Loop.thy ===== *)
theory Pd_Epoll_Loop
  imports Pd_Epoll Pd_Timer
begin

text \<open>
  The loop and timer operations of the epoll backend (\<^verbatim>\<open>src/platform/epoll.c\<close>): creation
  and destruction of the platform data, the wait with its dispatch, the eventfd wake-up,
  and timers on timerfds. \<open>U\<close> is what the user's callback functions do to the state.
\<close>

section \<open>Create and destroy\<close>

definition epoll_loop_create ::
  "'k linux \<Rightarrow> addr \<Rightarrow> pd_loop_config \<Rightarrow> 'k epoll_state \<Rightarrow> (pd_error \<times> 'k epoll_state) option" where
  "epoll_loop_create K loop config s =
    (let (data, s) = calloc_ldata zero_epoll_data s in
     if data = NULL
     then do { s \<leftarrow> pd_set_system_error loop (pd_get_current_system_error s) s; Some (PD_ERR_NO_MEMORY, s) }
     else let (r, s) = syscall (sys_epoll_create1 K) s in do {
       s \<leftarrow> write_ldata data (\<lambda>d. d\<lparr>ed_epoll_fd := c_fd r\<rparr>) s;
       if c_fd r < 0
       then do {
         s \<leftarrow> pd_set_system_error loop (pd_get_current_system_error s) s;
         s \<leftarrow> free_ldata data s;
         Some (PD_ERR_SYSTEM, s) }
       else do {
         s \<leftarrow> write_ldata data (\<lambda>d. d\<lparr>ed_max_events := max_events_per_wait config\<rparr>) s;
         let (ok, s) = alloc_array s;
         d \<leftarrow> st_ldata s data;
         if \<not> ok
         then let (_, s) = syscall (sys_close K (ed_epoll_fd d)) s in do {
           s \<leftarrow> free_ldata data s;
           Some (PD_ERR_NO_MEMORY, s) }
         else do {
           s \<leftarrow> write_ldata data
                  (\<lambda>d. d\<lparr>ed_events := replicate (nat (ed_max_events d)) (Some zero_epoll_event)\<rparr>) s;
           let (r2, s) = syscall (sys_eventfd K) s;
           s \<leftarrow> write_ldata data (\<lambda>d. d\<lparr>ed_eventfd_fd := c_fd r2\<rparr>) s;
           if c_fd r2 < 0
           then do {
             s \<leftarrow> pd_set_system_error loop (pd_get_current_system_error s) s;
             let (_, s) = syscall (sys_close K (ed_epoll_fd d)) s;
             s \<leftarrow> free_ldata data s;
             Some (PD_ERR_SYSTEM, s) }
           else
             let ev = \<lparr>ee_events = EPOLLIN, ee_data = NULL\<rparr>;
                 (r3, s) = syscall (sys_epoll_ctl K (ed_epoll_fd d) EPOLL_CTL_ADD (c_fd r2) (Some ev)) s in
             if r3 = None
             then do {
               s \<leftarrow> pd_set_system_error loop (pd_get_current_system_error s) s;
               let (_, s) = syscall (sys_close K (c_fd r2)) s;
               let (_, s) = syscall (sys_close K (ed_epoll_fd d)) s;
               s \<leftarrow> free_ldata data s;
               Some (PD_ERR_SYSTEM, s) }
             else do {
               s \<leftarrow> write_loop loop (\<lambda>lp. lp\<lparr>l_platform_data := data\<rparr>) s;
               Some (PD_OK, s) } } } })"

definition epoll_loop_destroy :: "'k linux \<Rightarrow> addr \<Rightarrow> 'k epoll_state \<Rightarrow> 'k epoll_state option" where
  "epoll_loop_destroy K loop s =
    (if loop = NULL then Some s
     else do {
       lp \<leftarrow> st_loops s loop;
       let data = l_platform_data lp;
       if data = NULL then Some s
       else do {
         d \<leftarrow> st_ldata s data;
         let s = (if ed_eventfd_fd d \<ge> 0 then snd (syscall (sys_close K (ed_eventfd_fd d)) s) else s);
         let s = (if ed_epoll_fd d \<ge> 0 then snd (syscall (sys_close K (ed_epoll_fd d)) s) else s);
         s \<leftarrow> free_ldata data s;
         write_loop loop (\<lambda>lp. lp\<lparr>l_platform_data := NULL\<rparr>) s } })"

section \<open>Waiting and dispatching\<close>

type_synonym 'k user_callbacks =
  "nat \<Rightarrow> addr \<Rightarrow> addr \<Rightarrow> pd_event \<Rightarrow> addr \<Rightarrow> 'k epoll_state \<Rightarrow> 'k epoll_state option"

text \<open>
  The callback of a timer's internal watcher. A user cannot name this static function, so
  a timer whose own callback were it is undefined.
\<close>

definition timerfd_callback ::
  "'k linux \<Rightarrow> 'k user_callbacks \<Rightarrow> addr \<Rightarrow> addr \<Rightarrow> pd_event \<Rightarrow> addr \<Rightarrow> 'k epoll_state \<Rightarrow> 'k epoll_state option" where
  "timerfd_callback K U loop watcher events user_data s =
    (let timer = user_data in
     if timer = NULL then Some s
     else do {
       w \<leftarrow> st_watchers s watcher;
       let timerfd = w_fd w;
       let s = (if timerfd \<ge> 0 then snd (syscall (sys_read K timerfd) s) else s);
       t \<leftarrow> st_timers s timer;
       case t_callback t of
         None \<Rightarrow> Some s
       | Some (Cb_user f) \<Rightarrow> U f loop watcher PD_EVENT_READ (t_user_data t) s
       | Some Cb_timerfd \<Rightarrow> None })"

definition run_callback ::
  "'k linux \<Rightarrow> 'k user_callbacks \<Rightarrow> pd_callback \<Rightarrow> addr \<Rightarrow> addr \<Rightarrow> pd_event \<Rightarrow> addr \<Rightarrow>
   'k epoll_state \<Rightarrow> 'k epoll_state option" where
  "run_callback K U cb = (case cb of Cb_user f \<Rightarrow> U f | Cb_timerfd \<Rightarrow> timerfd_callback K U)"

text \<open>One round of the dispatch loop: the event is read from the loop's array again.\<close>

definition epoll_process_event ::
  "'k linux \<Rightarrow> 'k user_callbacks \<Rightarrow> addr \<Rightarrow> addr \<Rightarrow> nat \<Rightarrow> 'k epoll_state \<Rightarrow> 'k epoll_state option" where
  "epoll_process_event K U loop data i s = do {
     d \<leftarrow> st_ldata s data;
     event \<leftarrow> arr_get (ed_events d) i;
     if ee_data event = NULL
     then Some (snd (syscall (sys_read K (ed_eventfd_fd d)) s))
     else do {
       let watcher = ee_data event;
       w \<leftarrow> st_watchers s watcher;
       case w_callback w of
         None \<Rightarrow> Some s
       | Some cb \<Rightarrow> run_callback K U cb loop watcher (epoll_to_events (ee_events event)) (w_user_data w) s } }"

fun epoll_dispatch ::
  "'k linux \<Rightarrow> 'k user_callbacks \<Rightarrow> addr \<Rightarrow> addr \<Rightarrow> nat \<Rightarrow> nat \<Rightarrow> 'k epoll_state \<Rightarrow> 'k epoll_state option" where
  "epoll_dispatch K U loop data i 0 s = Some s"
| "epoll_dispatch K U loop data i (Suc n) s = do {
     s \<leftarrow> epoll_process_event K U loop data i s;
     epoll_dispatch K U loop data (i + 1) n s }"

text \<open>
  The kernel stores its events into the loop's array; more of them than the array holds
  would be a buffer overflow.
\<close>

definition epoll_loop_run ::
  "'k linux \<Rightarrow> 'k user_callbacks \<Rightarrow> addr \<Rightarrow> int \<Rightarrow> 'k epoll_state \<Rightarrow> (int \<times> 'k epoll_state) option" where
  "epoll_loop_run K U loop timeout_ms s =
    (if loop = NULL then Some (err_code PD_ERR_INVALID_ARG, s)
     else do {
       lp \<leftarrow> st_loops s loop;
       let data = l_platform_data lp;
       if data = NULL then Some (err_code PD_ERR_INVALID_ARG, s)
       else do {
         d \<leftarrow> st_ldata s data;
         let epoll_timeout = (if timeout_ms < 0 then - 1 else timeout_ms);
         let (r, s) = syscall (sys_epoll_wait K (ed_epoll_fd d) (ed_max_events d) epoll_timeout) s;
         case r of
           None \<Rightarrow>
             if st_errno s = EINTR then Some (0, s)
             else do {
               s \<leftarrow> pd_set_system_error loop (pd_get_current_system_error s) s;
               Some (err_code PD_ERR_SYSTEM, s) }
         | Some events \<Rightarrow>
             if length events > length (ed_events d) then None
             else do {
               s \<leftarrow> write_ldata data (\<lambda>d. d\<lparr>ed_events := map Some events @ drop (length events) (ed_events d)\<rparr>) s;
               s \<leftarrow> epoll_dispatch K U loop data 0 (length events) s;
               Some (int (length events), s) } } })"

definition epoll_loop_stop :: "addr \<Rightarrow> 'k epoll_state \<Rightarrow> (pd_error \<times> 'k epoll_state) option" where
  "epoll_loop_stop loop s = Some (PD_OK, s)"

section \<open>Waking the loop\<close>

definition epoll_async_send ::
  "'k linux \<Rightarrow> addr \<Rightarrow> addr \<Rightarrow> 'k epoll_state \<Rightarrow> (pd_error \<times> 'k epoll_state) option" where
  "epoll_async_send K loop data s =
    (if loop = NULL then Some (PD_ERR_INVALID_ARG, s)
     else do {
       lp \<leftarrow> st_loops s loop;
       let pdata = l_platform_data lp;
       if pdata = NULL then Some (PD_ERR_INVALID_ARG, s)
       else do {
         d \<leftarrow> st_ldata s pdata;
         if ed_eventfd_fd d < 0 then Some (PD_ERR_SYSTEM, s)
         else
           let (r, s) = syscall (sys_write K (ed_eventfd_fd d) 1) s in
           if r = None \<and> st_errno s \<noteq> EAGAIN
           then do {
             s \<leftarrow> pd_set_system_error loop (pd_get_current_system_error s) s;
             Some (PD_ERR_SYSTEM, s) }
           else Some (PD_OK, s) } })"

section \<open>Timers\<close>

definition epoll_timer_create ::
  "'k linux \<Rightarrow> addr \<Rightarrow> addr \<Rightarrow> 'k epoll_state \<Rightarrow> (pd_error \<times> 'k epoll_state) option" where
  "epoll_timer_create K loop timer s =
    (if loop = NULL \<or> timer = NULL then Some (PD_ERR_INVALID_ARG, s)
     else let (r, s) = syscall (sys_timerfd_create K) s in
       case r of
         None \<Rightarrow> do {
           s \<leftarrow> pd_set_system_error loop (pd_get_current_system_error s) s;
           Some (PD_ERR_SYSTEM, s) }
       | Some fd \<Rightarrow>
           let timerfd = int fd; (timerfd_ptr, s) = calloc_tdata 0 s in
           if timerfd_ptr = NULL
           then Some (PD_ERR_NO_MEMORY, snd (syscall (sys_close K timerfd) s))
           else do {
             s \<leftarrow> write_tdata timerfd_ptr (\<lambda>_. timerfd) s;
             s \<leftarrow> write_timer timer (\<lambda>t. t\<lparr>t_platform_data := timerfd_ptr\<rparr>) s;
             (watcher, s) \<leftarrow> pd_watcher_create (epoll_watcher_ops K) loop timerfd PD_EVENT_READ
                                (Some Cb_timerfd) timer s;
             s \<leftarrow> write_timer timer (\<lambda>t. t\<lparr>t_watcher := watcher\<rparr>) s;
             if watcher = NULL
             then
               let (_, s) = syscall (sys_close K timerfd) s in do {
                 s \<leftarrow> free_tdata timerfd_ptr s;
                 s \<leftarrow> write_timer timer (\<lambda>t. t\<lparr>t_platform_data := NULL\<rparr>) s;
                 Some (PD_ERR_SYSTEM, s) }
             else do {
               s \<leftarrow> write_timer timer (\<lambda>t. t\<lparr>t_owns_watcher := True\<rparr>) s;
               (_, s) \<leftarrow> pd_watcher_stop (epoll_watcher_ops K) watcher s;
               Some (PD_OK, s) } })"

text \<open>
  The itimerspec of a timer: the arithmetic is on \<^verbatim>\<open>uint64_t\<close>.
\<close>

definition timer_spec :: "64 word \<Rightarrow> 64 word \<Rightarrow> itimerspec" where
  "timer_spec timeout_ms interval_ms = \<lparr>
     it_interval =
       (if interval_ms > 0
        then \<lparr>tv_sec = interval_ms div 1000, tv_nsec = (interval_ms mod 1000) * 1000000\<rparr>
        else \<lparr>tv_sec = 0, tv_nsec = 0\<rparr>),
     it_value =
       (if timeout_ms > 0
        then \<lparr>tv_sec = timeout_ms div 1000, tv_nsec = (timeout_ms mod 1000) * 1000000\<rparr>
        else \<lparr>tv_sec = 0, tv_nsec = 1\<rparr>)\<rparr>"

definition epoll_timer_start ::
  "'k linux \<Rightarrow> addr \<Rightarrow> 'k epoll_state \<Rightarrow> (pd_error \<times> 'k epoll_state) option" where
  "epoll_timer_start K timer s =
    (if timer = NULL then Some (PD_ERR_INVALID_ARG, s)
     else do {
       t \<leftarrow> st_timers s timer;
       if t_loop t = NULL then Some (PD_ERR_INVALID_ARG, s)
       else do {
         timerfd \<leftarrow> st_tdata s (t_platform_data t);
         if timerfd < 0 then Some (PD_ERR_SYSTEM, s)
         else
           let (r, s) = syscall (sys_timerfd_settime K timerfd (timer_spec (t_timeout_ms t) (t_interval_ms t))) s in
           if r = None
           then do {
             s \<leftarrow> pd_set_system_error (t_loop t) (pd_get_current_system_error s) s;
             Some (PD_ERR_SYSTEM, s) }
           else if t_watcher t \<noteq> NULL then pd_watcher_start (epoll_watcher_ops K) (t_watcher t) s
           else Some (PD_OK, s) } })"

definition epoll_timer_stop ::
  "'k linux \<Rightarrow> addr \<Rightarrow> 'k epoll_state \<Rightarrow> (pd_error \<times> 'k epoll_state) option" where
  "epoll_timer_stop K timer s =
    (if timer = NULL then Some (PD_ERR_INVALID_ARG, s)
     else do {
       t \<leftarrow> st_timers s timer;
       if t_loop t = NULL then Some (PD_ERR_INVALID_ARG, s)
       else do {
         timerfd \<leftarrow> st_tdata s (t_platform_data t);
         if timerfd < 0 then Some (PD_ERR_SYSTEM, s)
         else
           let (r, s) = syscall (sys_timerfd_settime K timerfd zero_itimerspec) s in
           if r = None
           then do {
             s \<leftarrow> pd_set_system_error (t_loop t) (pd_get_current_system_error s) s;
             Some (PD_ERR_SYSTEM, s) }
           else if t_watcher t \<noteq> NULL then pd_watcher_stop (epoll_watcher_ops K) (t_watcher t) s
           else Some (PD_OK, s) } })"

definition epoll_timer_destroy ::
  "'k linux \<Rightarrow> addr \<Rightarrow> 'k epoll_state \<Rightarrow> (bool \<times> 'k epoll_state) option" where
  "epoll_timer_destroy K timer s =
    (if timer = NULL then Some (True, s)
     else do {
       t \<leftarrow> st_timers s timer;
       if t_platform_data t = NULL then Some (True, s)
       else do {
         timerfd \<leftarrow> st_tdata s (t_platform_data t);
         let s = (if timerfd \<ge> 0 then snd (syscall (sys_close K timerfd) s) else s);
         s \<leftarrow> free_tdata (t_platform_data t) s;
         s \<leftarrow> write_timer timer (\<lambda>t. t\<lparr>t_platform_data := NULL\<rparr>) s;
         Some (True, s) } })"

section \<open>The operation table\<close>

definition pd_platform_epoll :: "'k linux \<Rightarrow> 'k user_callbacks \<Rightarrow> 'k epoll_state pd_platform_ops" where
  "pd_platform_epoll K U = \<lparr>op_watcher_register = Some (epoll_watcher_register K),
     op_watcher_register_handle = Some epoll_watcher_register_handle_unused,
     op_watcher_update = Some (epoll_watcher_update K),
     op_watcher_unregister = Some (epoll_watcher_unregister K),
     op_watcher_drain_read = None,
     op_loop_create = Some (epoll_loop_create K),
     op_loop_destroy = Some (epoll_loop_destroy K),
     op_loop_run = Some (epoll_loop_run K U),
     op_loop_stop = Some epoll_loop_stop,
     op_async_send = Some (epoll_async_send K),
     op_timer_create = Some (epoll_timer_create K),
     op_timer_start = Some (epoll_timer_start K),
     op_timer_stop = Some (epoll_timer_stop K),
     op_timer_destroy = Some (epoll_timer_destroy K),
     op_name = ''epoll'',
     op_max_events = 1024\<rparr>"

lemma epoll_table [simp]:
  "op_watcher_register (pd_platform_epoll K U) = Some (epoll_watcher_register K)"
  "op_watcher_update (pd_platform_epoll K U) = Some (epoll_watcher_update K)"
  "op_watcher_unregister (pd_platform_epoll K U) = Some (epoll_watcher_unregister K)"
  "op_loop_create (pd_platform_epoll K U) = Some (epoll_loop_create K)"
  "op_loop_destroy (pd_platform_epoll K U) = Some (epoll_loop_destroy K)"
  "op_loop_run (pd_platform_epoll K U) = Some (epoll_loop_run K U)"
  "op_async_send (pd_platform_epoll K U) = Some (epoll_async_send K)"
  "op_timer_create (pd_platform_epoll K U) = Some (epoll_timer_create K)"
  "op_timer_start (pd_platform_epoll K U) = Some (epoll_timer_start K)"
  "op_timer_stop (pd_platform_epoll K U) = Some (epoll_timer_stop K)"
  "op_timer_destroy (pd_platform_epoll K U) = Some (epoll_timer_destroy K)"
  by (simp_all add: pd_platform_epoll_def)

section \<open>The contract of the loop operations\<close>

text \<open>The outcome of the creation, with the calls that were made.\<close>

definition new_epoll_data :: "nat \<Rightarrow> nat \<Rightarrow> int \<Rightarrow> pd_epoll_data" where
  "new_epoll_data ep ev n = zero_epoll_data\<lparr>ed_epoll_fd := int ep, ed_max_events := n,
     ed_events := replicate (nat n) (Some zero_epoll_event), ed_eventfd_fd := int ev\<rparr>"

lemma new_epoll_data_ok: "0 < n \<Longrightarrow> epoll_data_ok (new_epoll_data ep ev n)"
  by (simp add: epoll_data_ok_def new_epoll_data_def zero_epoll_data_def wf_table_def)

definition close_fd :: "'k linux \<Rightarrow> int \<Rightarrow> 'k \<Rightarrow> 'k" where
  "close_fd K fd k = snd (sys_close K fd k)"

text \<open>The kernel after a creation that failed: what had been opened is closed again.\<close>

definition wake_event :: epoll_event where
  "wake_event = \<lparr>ee_events = EPOLLIN, ee_data = NULL\<rparr>"

inductive create_failed :: "'k linux \<Rightarrow> 'k \<Rightarrow> 'k \<Rightarrow> bool" for K k where
  no_data: "create_failed K k k"
| no_epoll: "sys_epoll_create1 K k = (Inl x, k1) \<Longrightarrow> create_failed K k k1"
| no_events: "sys_epoll_create1 K k = (Inr ep, k1) \<Longrightarrow> create_failed K k (close_fd K (int ep) k1)"
| no_eventfd: "sys_epoll_create1 K k = (Inr ep, k1) \<Longrightarrow> sys_eventfd K k1 = (Inl x, k2) \<Longrightarrow>
    create_failed K k (close_fd K (int ep) k2)"
| no_add: "sys_epoll_create1 K k = (Inr ep, k1) \<Longrightarrow> sys_eventfd K k1 = (Inr ev, k2) \<Longrightarrow>
    sys_epoll_ctl K (int ep) EPOLL_CTL_ADD (int ev) (Some wake_event) k2 = (Inl x, k3) \<Longrightarrow>
    create_failed K k (close_fd K (int ep) (close_fd K (int ev) k3))"

lemma loop_create_cases:
  assumes lp: "st_loops s l = Some lp" "l \<noteq> NULL"
  obtains (failed) s' r e k cs en where "epoll_loop_create K l cfg s = Some (r, s')" "r \<noteq> PD_OK"
      "s' = s\<lparr>st_choices := cs, st_errno := en, st_kernel := k, st_loops := (st_loops s)(l \<mapsto> lp\<lparr>l_system_error := e\<rparr>)\<rparr>"
      "create_failed K (st_kernel s) k"
  | (ok) s' p cs en k1 k2 k3 ep ev v where "epoll_loop_create K l cfg s = Some (PD_OK, s')"
      "s' = s\<lparr>st_choices := cs, st_errno := en, st_kernel := k3,
         st_ldata := (st_ldata s)(p \<mapsto> new_epoll_data ep ev (max_events_per_wait cfg)),
         st_loops := (st_loops s)(l \<mapsto> lp\<lparr>l_platform_data := p\<rparr>)\<rparr>"
      "p \<noteq> NULL" "st_ldata s p = None"
      "sys_epoll_create1 K (st_kernel s) = (Inr ep, k1)" "sys_eventfd K k1 = (Inr ev, k2)"
      "sys_epoll_ctl K (int ep) EPOLL_CTL_ADD (int ev) (Some wake_event) k2 = (Inr v, k3)"
proof (cases rule: calloc_ldata_cases [of zero_epoll_data s])
  case (null cs e)
  then have "epoll_loop_create K l cfg s = Some (PD_ERR_NO_MEMORY, s\<lparr>st_choices := cs, st_errno := e,
    st_kernel := st_kernel s, st_loops := (st_loops s)(l \<mapsto> lp\<lparr>l_system_error := e\<rparr>)\<rparr>)"
    using lp by (simp add: epoll_loop_create_def set_error_eq pd_get_current_system_error_def)
  from failed [OF this _ refl no_data] show thesis by simp
next
  case (some p cs e)
  have undo: "(st_ldata s)(p := None) = st_ldata s" using some(3) by (simp add: fun_upd_idem)
  have same: "(st_loops s)(l \<mapsto> lp\<lparr>l_system_error := l_system_error lp\<rparr>) = st_loops s"
    using lp(1) by auto
  note idem = same [simplified]
  note start = epoll_loop_create_def some heap_write_def heap_free_def lp set_error_eq undo
    pd_get_current_system_error_def c_fd_def Let_def syscall_def wake_event_def [symmetric]
  obtain r1 k1 where k1: "sys_epoll_create1 K (st_kernel s) = (r1, k1)" by fastforce
  show thesis
  proof (cases r1)
    case (Inl x)
    then have "epoll_loop_create K l cfg s = Some (PD_ERR_SYSTEM, s\<lparr>st_choices := cs, st_errno := x,
      st_kernel := k1, st_loops := (st_loops s)(l \<mapsto> lp\<lparr>l_system_error := x\<rparr>)\<rparr>)"
      using k1 by (simp add: start)
    from failed [OF this _ refl no_epoll [OF k1 [unfolded Inl]]] show thesis by simp
  next
    case (Inr ep)
    note k1 = k1 [unfolded Inr]
    let ?d1 = "zero_epoll_data\<lparr>ed_epoll_fd := int ep, ed_max_events := max_events_per_wait cfg\<rparr>"
    let ?s1 = "s\<lparr>st_choices := cs, st_errno := e, st_kernel := k1, st_ldata := (st_ldata s)(p \<mapsto> ?d1)\<rparr>"
    obtain b cs2 e2 where b: "alloc_array ?s1 = (b, ?s1\<lparr>st_choices := cs2, st_errno := e2\<rparr>)"
      by (rule alloc_array_cases)
    show thesis
    proof (cases b)
      case False
      obtain c k4 where k4: "sys_close K (int ep) k1 = (c, k4)" by fastforce
      have "epoll_loop_create K l cfg s = Some (PD_ERR_NO_MEMORY, s\<lparr>st_choices := cs2,
        st_errno := (case c of Inl x \<Rightarrow> x | Inr _ \<Rightarrow> e2), st_kernel := close_fd K (int ep) k1,
        st_loops := (st_loops s)(l \<mapsto> lp\<lparr>l_system_error := l_system_error lp\<rparr>)\<rparr>)"
        using k1 b False k4 by (auto simp: start idem close_fd_def intro!: pd_state.equality split: sum.splits)
      from failed [OF this _ refl no_events [OF k1]] show thesis by simp
    next
      case True
      obtain r2 k2 where k2: "sys_eventfd K k1 = (r2, k2)" by fastforce
      show thesis
      proof (cases r2)
        case (Inl x)
        obtain c k4 where k4: "sys_close K (int ep) k2 = (c, k4)" by fastforce
        have "epoll_loop_create K l cfg s = Some (PD_ERR_SYSTEM, s\<lparr>st_choices := cs2,
          st_errno := (case c of Inl x \<Rightarrow> x | Inr _ \<Rightarrow> x), st_kernel := close_fd K (int ep) k2,
          st_loops := (st_loops s)(l \<mapsto> lp\<lparr>l_system_error := x\<rparr>)\<rparr>)"
          using k1 b True k2 Inl k4 by (simp add: start close_fd_def split: sum.splits)
        from failed [OF this _ refl no_eventfd [OF k1 k2 [unfolded Inl]]] show thesis by simp
      next
        case (Inr ev)
        note k2 = k2 [unfolded Inr]
        obtain r3 k3 where k3: "sys_epoll_ctl K (int ep) EPOLL_CTL_ADD (int ev) (Some wake_event) k2 = (r3, k3)"
          by fastforce
        show thesis
        proof (cases r3)
          case (Inl x)
          obtain c4 k4 where k4: "sys_close K (int ev) k3 = (c4, k4)" by fastforce
          obtain c5 k5 where k5: "sys_close K (int ep) k4 = (c5, k5)" by fastforce
          have "epoll_loop_create K l cfg s = Some (PD_ERR_SYSTEM, s\<lparr>st_choices := cs2,
            st_errno := (case c5 of Inl x \<Rightarrow> x | Inr _ \<Rightarrow> (case c4 of Inl x \<Rightarrow> x | Inr _ \<Rightarrow> x)),
            st_kernel := close_fd K (int ep) (close_fd K (int ev) k3),
            st_loops := (st_loops s)(l \<mapsto> lp\<lparr>l_system_error := x\<rparr>)\<rparr>)"
            using k1 b True k2 k3 Inl k4 k5 by (simp add: start close_fd_def split: sum.splits)
          from failed [OF this _ refl no_add [OF k1 k2 k3 [unfolded Inl]]] show thesis by simp
        next
          case (Inr v)
          have "epoll_loop_create K l cfg s = Some (PD_OK, s\<lparr>st_choices := cs2, st_errno := e2, st_kernel := k3,
            st_ldata := (st_ldata s)(p \<mapsto> new_epoll_data ep ev (max_events_per_wait cfg)),
            st_loops := (st_loops s)(l \<mapsto> lp\<lparr>l_platform_data := p\<rparr>)\<rparr>)"
            using k1 b True k2 k3 Inr by (simp add: start new_epoll_data_def)
          from ok [OF this refl some(2,3) k1 k2 k3 [unfolded Inr]] show thesis .
        qed
      qed
    qed
  qed
qed

lemma epoll_create_law:
  fixes s :: "'k epoll_state"
  assumes inv: "epoll_inv s" and l: "st_loops s l = None" "l \<noteq> NULL" and lp: "l_platform_data lp = NULL" "l_system_error lp = 0"
    and n: "0 < max_events_per_wait cfg"
  shows "\<exists>r s' e p. epoll_loop_create K l cfg (s\<lparr>st_loops := (st_loops s)(l \<mapsto> lp)\<rparr>) = Some (r, s') \<and>
    st_loops s' = (st_loops s)(l \<mapsto> lp\<lparr>l_system_error := e, l_platform_data := p\<rparr>) \<and> same_objects s s' \<and>
    (if r = PD_OK then p \<noteq> NULL \<and> epoll_inv s'
     else p = NULL \<and> st_ldata s' = st_ldata s \<and> epoll_inv (s'\<lparr>st_loops := st_loops s\<rparr>))"
proof -
  let ?s = "s\<lparr>st_loops := (st_loops s)(l \<mapsto> lp)\<rparr>"
  have own: "owned (loop_pdata s) (st_ldata s) epoll_data_ok" "owned (watcher_pdata s) (st_wdata s) (\<lambda>_. True)"
    using inv by (simp_all add: epoll_inv_def)
  have lp0: "st_loops ?s l = Some lp" by simp
  from lp0 l(2) show ?thesis
  proof (cases rule: loop_create_cases [where K = K and cfg = cfg])
    case (failed s' r e k cs en)
    have "epoll_inv (s'\<lparr>st_loops := st_loops s\<rparr>)"
      using own by (simp add: failed(3) epoll_inv_def inv_simps loop_pdata_upd)
    moreover have "st_loops s' = (st_loops s)(l \<mapsto> lp\<lparr>l_system_error := e, l_platform_data := NULL\<rparr>)"
      using lp(1) by (simp add: failed(3) pd_loop_same)
    ultimately show ?thesis
      using failed(1,2) by (intro exI [of _ r] exI [of _ s'] exI [of _ e] exI [of _ NULL])
        (simp add: failed(3) same_objects_def)
  next
    case (ok s' p cs en k1 k2 k3 ep ev v)
    have "owned ((loop_pdata s)(l \<mapsto> p)) ((st_ldata s)(p \<mapsto> new_epoll_data ep ev (max_events_per_wait cfg))) epoll_data_ok"
      using ok(3,4) new_epoll_data_ok [OF n] by (intro owned_new [OF own(1)]) simp_all
    then have "epoll_inv s'"
      using own(2) by (simp add: ok(2) epoll_inv_def inv_simps loop_pdata_upd fun_upd_upd)
    moreover have "st_loops s' = (st_loops s)(l \<mapsto> lp\<lparr>l_system_error := 0, l_platform_data := p\<rparr>)"
      using lp(2) by (simp add: ok(2) pd_loop_same)
    ultimately show ?thesis
      using ok(1,3) by (intro exI [of _ PD_OK] exI [of _ s'] exI [of _ 0] exI [of _ p])
        (simp add: ok(2) same_objects_def)
  qed
qed

text \<open>Destroying closes both descriptors and frees the data.\<close>

lemma loop_destroy_eq:
  assumes lp: "st_loops s l = Some lp" "l \<noteq> NULL"
    and d: "l_platform_data lp \<noteq> NULL" "st_ldata s (l_platform_data lp) = Some d"
  obtains en where "epoll_loop_destroy K l s = Some (s\<lparr>
    st_kernel := (if 0 \<le> ed_epoll_fd d then close_fd K (ed_epoll_fd d) else id)
      ((if 0 \<le> ed_eventfd_fd d then close_fd K (ed_eventfd_fd d) else id) (st_kernel s)),
    st_errno := en, st_ldata := (st_ldata s)(l_platform_data lp := None),
    st_loops := (st_loops s)(l \<mapsto> lp\<lparr>l_platform_data := NULL\<rparr>)\<rparr>)"
proof -
  have close: "\<exists>en. snd (syscall (sys_close K fd) t) = t\<lparr>st_kernel := close_fd K fd (st_kernel t), st_errno := en\<rparr>"
    for fd and t :: "'a epoll_state"
  proof -
    obtain c k where "sys_close K fd (st_kernel t) = (c, k)" by fastforce
    then show ?thesis
      by (cases c) (auto simp: syscall_def close_fd_def intro: exI [of _ "st_errno t"])
  qed
  let ?s1 = "if 0 \<le> ed_eventfd_fd d then snd (syscall (sys_close K (ed_eventfd_fd d)) s) else s"
  obtain e1 where s1: "?s1 = s\<lparr>st_kernel := (if 0 \<le> ed_eventfd_fd d then close_fd K (ed_eventfd_fd d) else id) (st_kernel s),
      st_errno := e1\<rparr>"
    using close [of "ed_eventfd_fd d" s] by (cases "0 \<le> ed_eventfd_fd d") (auto intro: that [of "st_errno s"])
  let ?s2 = "if 0 \<le> ed_epoll_fd d then snd (syscall (sys_close K (ed_epoll_fd d)) ?s1) else ?s1"
  obtain e2 where s2: "?s2 = ?s1\<lparr>st_kernel := (if 0 \<le> ed_epoll_fd d then close_fd K (ed_epoll_fd d) else id) (st_kernel ?s1),
      st_errno := e2\<rparr>"
    using close [of "ed_epoll_fd d" ?s1] by (cases "0 \<le> ed_epoll_fd d") (auto intro: that [of "st_errno ?s1"])
  have "epoll_loop_destroy K l s = (do { s \<leftarrow> free_ldata (l_platform_data lp) ?s2;
      write_loop l (\<lambda>lp. lp\<lparr>l_platform_data := NULL\<rparr>) s })"
    by (simp only: epoll_loop_destroy_def lp d Let_def if_False bind.bind_lunit)
  then have "epoll_loop_destroy K l s = Some (s\<lparr>
    st_kernel := (if 0 \<le> ed_epoll_fd d then close_fd K (ed_epoll_fd d) else id)
      ((if 0 \<le> ed_eventfd_fd d then close_fd K (ed_eventfd_fd d) else id) (st_kernel s)),
    st_errno := e2, st_ldata := (st_ldata s)(l_platform_data lp := None),
    st_loops := (st_loops s)(l \<mapsto> lp\<lparr>l_platform_data := NULL\<rparr>)\<rparr>)"
    unfolding s2 unfolding s1 using lp d by (simp add: heap_free_def heap_write_def)
  then show thesis by (rule that)
qed

lemma epoll_destroy_law:
  assumes inv: "epoll_inv s" and lp: "st_loops s l = Some lp" and l: "l \<noteq> NULL"
  shows "\<exists>s'. epoll_loop_destroy K l s = Some s' \<and>
    st_loops s' = (st_loops s)(l \<mapsto> lp\<lparr>l_platform_data := NULL\<rparr>) \<and>
    same_objects s s' \<and> st_ldata s' = (st_ldata s)(l_platform_data lp := None) \<and>
    epoll_inv (s'\<lparr>st_loops := (st_loops s)(l := None)\<rparr>)"
proof -
  obtain d where d: "l_platform_data lp \<noteq> NULL" "st_ldata s (l_platform_data lp) = Some d"
    by (rule epoll_inv_loop [OF inv lp])
  have own: "owned (loop_pdata s) (st_ldata s) epoll_data_ok" "owned (watcher_pdata s) (st_wdata s) (\<lambda>_. True)"
    using inv by (simp_all add: epoll_inv_def)
  have f: "owned ((loop_pdata s)(l := None)) ((st_ldata s)(l_platform_data lp := None)) epoll_data_ok"
    by (rule owned_free [OF own(1) loop_pdata_Some [OF lp]])
  obtain en where run: "epoll_loop_destroy K l s = Some (s\<lparr>
    st_kernel := (if 0 \<le> ed_epoll_fd d then close_fd K (ed_epoll_fd d) else id)
      ((if 0 \<le> ed_eventfd_fd d then close_fd K (ed_eventfd_fd d) else id) (st_kernel s)),
    st_errno := en, st_ldata := (st_ldata s)(l_platform_data lp := None),
    st_loops := (st_loops s)(l \<mapsto> lp\<lparr>l_platform_data := NULL\<rparr>)\<rparr>)"
    by (rule loop_destroy_eq [OF lp l d])
  show ?thesis
    using f own(2) unfolding run
    by (simp add: same_objects_def epoll_inv_def inv_simps loop_pdata_upd)
qed

text \<open>A wake-up writes 1 to the eventfd.\<close>

lemma async_send_cases:
  assumes lp: "st_loops s l = Some lp" "l \<noteq> NULL"
    and d: "l_platform_data lp \<noteq> NULL" "st_ldata s (l_platform_data lp) = Some d"
  obtains (closed) "ed_eventfd_fd d < 0" "epoll_async_send K l data s = Some (PD_ERR_SYSTEM, s)"
  | (written) r k en where "0 \<le> ed_eventfd_fd d" "sys_write K (ed_eventfd_fd d) 1 (st_kernel s) = (r, k)"
      "r = Inl EAGAIN \<or> (\<exists>v. r = Inr v)"
      "epoll_async_send K l data s = Some (PD_OK, s\<lparr>st_kernel := k, st_errno := en\<rparr>)"
  | (refused) e k where "0 \<le> ed_eventfd_fd d" "sys_write K (ed_eventfd_fd d) 1 (st_kernel s) = (Inl e, k)"
      "e \<noteq> EAGAIN"
      "epoll_async_send K l data s = Some (PD_ERR_SYSTEM,
         s\<lparr>st_kernel := k, st_errno := e, st_loops := (st_loops s)(l \<mapsto> lp\<lparr>l_system_error := e\<rparr>)\<rparr>)"
proof -
  note start = epoll_async_send_def lp d Let_def syscall_def set_error_eq pd_get_current_system_error_def
  obtain r k where k: "sys_write K (ed_eventfd_fd d) 1 (st_kernel s) = (r, k)" by fastforce
  show thesis
  proof (cases "ed_eventfd_fd d < 0")
    case True
    then show thesis by (intro closed) (simp_all add: start)
  next
    case False
    show thesis
    proof (cases r)
      case (Inl e)
      show thesis
      proof (cases "e = EAGAIN")
        case True
        have "epoll_async_send K l data s = Some (PD_OK, s\<lparr>st_kernel := k, st_errno := EAGAIN\<rparr>)"
          using False k Inl True by (simp add: start)
        with False k Inl True show thesis by (intro written) auto
      next
        case ne: False
        then show thesis using False k Inl by (intro refused) (simp_all add: start)
      qed
    next
      case (Inr v)
      have "epoll_async_send K l data s = Some (PD_OK, s\<lparr>st_kernel := k, st_errno := st_errno s\<rparr>)"
        using False k Inr by (simp add: start)
      moreover have "0 \<le> ed_eventfd_fd d" using False by simp
      ultimately show thesis using k Inr by (intro written) blast+
    qed
  qed
qed

lemma epoll_send_law:
  assumes inv: "epoll_inv s" and lp: "st_loops s l = Some lp" and l: "l \<noteq> NULL"
  shows "\<exists>r s'. epoll_async_send K l data s = Some (r, s') \<and> only_error s s' \<and> epoll_inv s'"
proof -
  obtain d where d: "l_platform_data lp \<noteq> NULL" "st_ldata s (l_platform_data lp) = Some d"
    by (rule epoll_inv_loop [OF inv lp])
  from lp l d show ?thesis
    by (cases rule: async_send_cases [where K = K and data = data])
      (use inv lp in \<open>auto simp: only_error_def epoll_inv_def inv_simps\<close>)
qed

text \<open>Both contracts, for every kernel and every set of callbacks.\<close>

lemma epoll_loop_backend:
  "loop_backend (pd_platform_epoll K U) (epoll_watcher_register K) (epoll_watcher_unregister K)
     (epoll_watcher_update K) epoll_inv (epoll_loop_create K) (epoll_loop_destroy K) (epoll_async_send K)"
proof (intro loop_backend.intro loop_backend_axioms.intro)
  show "watcher_backend (pd_platform_epoll K U) (epoll_watcher_register K) (epoll_watcher_unregister K)
     (epoll_watcher_update K) epoll_inv"
    by (rule readiness_backend.axioms(1) [OF epoll_readiness]) simp_all
qed (rule epoll_table epoll_create_law epoll_destroy_law epoll_send_law; assumption)+

interpretation epl: loop_backend "pd_platform_epoll K U" "epoll_watcher_register K"
    "epoll_watcher_unregister K" "epoll_watcher_update K" epoll_inv "epoll_loop_create K"
    "epoll_loop_destroy K" "epoll_async_send K" for K U
  by (rule epoll_loop_backend)

interpretation eps: readiness_backend "pd_platform_epoll K U" "epoll_watcher_register K"
    "epoll_watcher_unregister K" "epoll_watcher_update K" epoll_inv for K U
  by (rule epoll_readiness) simp_all

end
