(* ===== verification/Pd_Epoll_Props.thy ===== *)
theory Pd_Epoll_Props
  imports Pd_Epoll_Loop
begin

text \<open>
  The properties of the library on Linux: the generic layer run on the epoll backend's
  operation table, and the backend's own operations. The witnesses are runs on one example
  state over the kernel of \<open>Pd_Linux\<close>.
\<close>

section \<open>The example state\<close>

text \<open>
  A loop with three watchers: 10 is registered for descriptor 7; 11 is stopped; 12 is stale,
  that is, its descriptor was closed and its number, 7 again, now belongs to 10. The
  registration table is full, so that the next registration grows it.
\<close>

definition ex_watcher :: "int \<Rightarrow> bool \<Rightarrow> addr \<Rightarrow> pd_watcher" where
  "ex_watcher fd active p = (new_watcher 1 fd PD_EVENT_READ (Some (Cb_user 0)) NULL)
     \<lparr>w_active := active, w_platform_data := p\<rparr>"

definition ex_data :: pd_epoll_data where
  "ex_data = (new_epoll_data 3 4 2)\<lparr>registrations := [Some \<lparr>reg_fd = 7, reg_watcher = 10\<rparr>],
     registration_count := 1, registration_capacity := 1\<rparr>"

definition ex_kernel :: ref_kernel where
  "ex_kernel = \<lparr>rk_open = [3, 4, 6, 7],
     rk_interest = [((3, 4), wake_event), ((3, 7), \<lparr>ee_events = EPOLLIN, ee_data = 10\<rparr>)],
     rk_ready = [(7, EPOLLIN)], rk_counter = [], rk_periodic = []\<rparr>"

definition ex_loop :: pd_loop where
  "ex_loop = example_loop 4 [10, 11, 12]"

definition ex_state :: "ref_kernel epoll_state" where
  "ex_state = (init_state ex_kernel True [Gives 601, Gives 700, Gives 800, Gives 900])\<lparr>
     st_loops := [1 \<mapsto> ex_loop],
     st_watchers := [10 \<mapsto> ex_watcher 7 True 600, 11 \<mapsto> ex_watcher 6 False NULL, 12 \<mapsto> ex_watcher 7 True 602],
     st_ldata := [500 \<mapsto> ex_data],
     st_wdata := [600 \<mapsto> \<lparr>ew_epoll_event = \<lparr>ee_events = EPOLLIN, ee_data = 10\<rparr>\<rparr>,
       602 \<mapsto> \<lparr>ew_epoll_event = \<lparr>ee_events = EPOLLIN, ee_data = 12\<rparr>\<rparr>]\<rparr>"

lemma ex_state_simps [simp]:
  "st_loops ex_state = [1 \<mapsto> ex_loop]"
  "st_watchers ex_state = [10 \<mapsto> ex_watcher 7 True 600, 11 \<mapsto> ex_watcher 6 False NULL, 12 \<mapsto> ex_watcher 7 True 602]"
  "st_ldata ex_state = [500 \<mapsto> ex_data]"
  "st_wdata ex_state = [600 \<mapsto> \<lparr>ew_epoll_event = \<lparr>ee_events = EPOLLIN, ee_data = 10\<rparr>\<rparr>,
     602 \<mapsto> \<lparr>ew_epoll_event = \<lparr>ee_events = EPOLLIN, ee_data = 12\<rparr>\<rparr>]"
  "st_timers ex_state = (\<lambda>_. None)" "st_tdata ex_state = (\<lambda>_. None)"
  "st_kernel ex_state = ex_kernel" "st_thread_safe ex_state" "st_default_loop ex_state = NULL"
  by (simp_all add: ex_state_def init_state_def)

lemma ex_loop_simps [simp]:
  "l_platform_data ex_loop = 500" "l_ops ex_loop = Some Ops_epoll" "watcher_list ex_loop = [10, 11, 12]"
  "l_ref_count ex_loop = 1" "\<not> l_stop_requested ex_loop" "l_watcher_count ex_loop = 3"
  "mutex_ready ex_loop s" "wf_array ex_loop" "l_system_error ex_loop = 0"
  by (simp_all add: ex_loop_def) (simp_all add: example_loop_def zero_loop_def)

lemma ex_watcher_simps [simp]:
  "w_fd (ex_watcher fd a p) = fd" "w_loop (ex_watcher fd a p) = 1" "w_active (ex_watcher fd a p) = a"
  "w_platform_data (ex_watcher fd a p) = p" "w_events (ex_watcher fd a p) = PD_EVENT_READ"
  "w_callback (ex_watcher fd a p) = Some (Cb_user 0)" "w_user_data (ex_watcher fd a p) = NULL"
  by (simp_all add: ex_watcher_def)

lemma ex_data_simps [simp]:
  "reg_list ex_data = [\<lparr>reg_fd = 7, reg_watcher = 10\<rparr>]" "unique_table ex_data" "wf_table ex_data"
  "owner ex_data = [7 \<mapsto> 10]" "ed_epoll_fd ex_data = 3" "ed_eventfd_fd ex_data = 4"
  "epoll_data_ok ex_data" "length (ed_events ex_data) = 2"
  by (simp_all add: ex_data_def reg_list_def arr_list_def unique_table_def wf_table_def owner_def
      epoll_data_ok_def new_epoll_data_def)

lemma ex_pd_wf [simp]: "pd_wf ex_state"
  by (auto simp: pd_wf_def loop_ok_def watcher_ok_def split: if_splits)

lemma ex_epoll_inv [simp]: "epoll_inv ex_state"
  by (auto simp: epoll_inv_def owned_def loop_pdata_def watcher_pdata_def split: if_splits)

lemma ex_status_ok [simp]: "status_ok ex_state"
  by (auto simp: status_ok_def split: if_splits)

text \<open>Callbacks that do nothing, and callbacks that stop their loop.\<close>

definition ex_quiet :: "'k user_callbacks" where
  "ex_quiet f l w ev ud s = Some s"

section \<open>Event masks\<close>

text \<open>
  C27: translating a watcher's events to epoll and back keeps every condition it asks for
  and drops only the edge-trigger bit and bits that name no condition.
\<close>

theorem event_masks_round_trip:
  "epoll_to_events (events_to_epoll ev) =
     ev AND (PD_EVENT_READ OR PD_EVENT_WRITE OR PD_EVENT_ERROR OR PD_EVENT_HANGUP OR PD_EVENT_PRI)"
  by (rule bit_eqI) (auto simp: bit_epoll_to_events bit_events_to_epoll bit_and_iff bit_or_iff event_bits)



section \<open>Watchers\<close>



text \<open>
  C22: stopping a watcher always has a result. With \<^verbatim>\<open>PD_OK\<close> the watcher is inactive and
  unregistered, otherwise it is as active as before; an inactive one is left alone. Nothing
  else of the watcher and no other watcher changes, and the invariants are kept.
\<close>

theorem epoll_watcher_stop:
  assumes "pd_wf s" and "epoll_inv s" and "status_ok s" and "st_watchers s w = Some wt" and "w_loop wt \<noteq> NULL"
  shows "\<exists>r s' y. pd_watcher_stop (pd_platform_epoll K U) w s = Some (r, s') \<and>
    st_watchers s' = (st_watchers s)(w \<mapsto> y) \<and> upd_status wt y \<and> w_events y = w_events wt \<and>
    (w_active y \<longleftrightarrow> w_active wt \<and> r \<noteq> PD_OK) \<and> (w_platform_data y = NULL \<longleftrightarrow> \<not> w_active y) \<and>
    (\<not> w_active wt \<longrightarrow> r = PD_OK \<and> s' = s) \<and> pd_wf s' \<and> epoll_inv s' \<and> status_ok s'"
proof -
  obtain r s' y where s': "pd_watcher_stop (pd_platform_epoll K U) w s = Some (r, s')" "st_watchers s' w = Some y"
    "only_watcher upd_status w s s'" "pd_wf s'" "epoll_inv s'" "w_active y = (w_active wt \<and> r \<noteq> PD_OK)"
    "w_events y = w_events wt" "\<not> w_active wt \<longrightarrow> r = PD_OK \<and> s' = s"
    using epl.stop_step [OF assms(1,2,4,5), of K U] .
  have st: "status_ok s'" by (rule eps.stop_status [OF assms s'(1)])
  have y: "st_watchers s' = (st_watchers s)(w \<mapsto> y)" "upd_status wt y"
    using s'(2,3) assms(4) by (auto elim!: only_watcherE)
  then have "w_loop y \<noteq> NULL" using assms(5) upd_status_loop by metis
  then have "w_platform_data y = NULL \<longleftrightarrow> \<not> w_active y" using status_okD [OF st s'(2)] by blast
  with s' y st show ?thesis by (intro exI [of _ r] exI [of _ s'] exI [of _ y] conjI)
qed

theorem epoll_watcher_stop_witness:
  "\<exists>s' y. pd_watcher_stop (pd_platform_epoll ref_linux ex_quiet) 10 ex_state = Some (PD_OK, s') \<and>
     st_watchers s' 10 = Some y \<and> w_fd y = 7 \<and> \<not> w_active y"
proof -
  have ok: "map_option fst (pd_watcher_stop (pd_platform_epoll ref_linux ex_quiet) 10 ex_state) = Some PD_OK"
    by code_simp
  have w: "st_watchers ex_state 10 = Some (ex_watcher 7 True 600)" "w_loop (ex_watcher 7 True 600) \<noteq> NULL" by simp_all
  from epoll_watcher_stop [OF ex_pd_wf ex_epoll_inv ex_status_ok w, of ref_linux ex_quiet] ok
  show ?thesis by (auto elim!: upd_statusE)
qed

text \<open>
  Starting a watcher always has a result. With \<^verbatim>\<open>PD_OK\<close> it is active and registered,
  otherwise as it was; one that is active is left alone.
\<close>

theorem epoll_watcher_start:
  assumes "pd_wf s" and "epoll_inv s" and "status_ok s" and "st_watchers s w = Some wt" and "w_loop wt \<noteq> NULL"
  shows "\<exists>r s' y. pd_watcher_start (pd_platform_epoll K U) w s = Some (r, s') \<and>
    st_watchers s' = (st_watchers s)(w \<mapsto> y) \<and> upd_status wt y \<and> w_events y = w_events wt \<and>
    (w_active y \<longleftrightarrow> w_active wt \<or> r = PD_OK) \<and> (w_platform_data y = NULL \<longleftrightarrow> \<not> w_active y) \<and>
    (w_active wt \<longrightarrow> r = PD_OK \<and> s' = s) \<and> pd_wf s' \<and> epoll_inv s' \<and> status_ok s'"
proof -
  obtain r s' y where s': "pd_watcher_start (pd_platform_epoll K U) w s = Some (r, s')" "st_watchers s' w = Some y"
    "only_watcher upd_status w s s'" "pd_wf s'" "epoll_inv s'" "w_active y = (w_active wt \<or> r = PD_OK)"
    "w_events y = w_events wt" "w_active wt \<longrightarrow> r = PD_OK \<and> s' = s"
    using epl.start_step [OF assms(1,2,4,5), of K U] .
  have st: "status_ok s'" by (rule eps.start_status [OF assms s'(1)])
  have y: "st_watchers s' = (st_watchers s)(w \<mapsto> y)" "upd_status wt y"
    using s'(2,3) assms(4) by (auto elim!: only_watcherE)
  then have "w_loop y \<noteq> NULL" using assms(5) upd_status_loop by metis
  then have "w_platform_data y = NULL \<longleftrightarrow> \<not> w_active y" using status_okD [OF st s'(2)] by blast
  with s' y st show ?thesis by (intro exI [of _ r] exI [of _ s'] exI [of _ y] conjI)
qed

theorem epoll_watcher_start_witness:
  "\<exists>s' y. pd_watcher_start (pd_platform_epoll ref_linux ex_quiet) 11 ex_state = Some (PD_OK, s') \<and>
     st_watchers s' 11 = Some y \<and> w_fd y = 6 \<and> w_active y"
proof -
  have ok: "map_option fst (pd_watcher_start (pd_platform_epoll ref_linux ex_quiet) 11 ex_state) = Some PD_OK"
    by code_simp
  have w: "st_watchers ex_state 11 = Some (ex_watcher 6 False NULL)" "w_loop (ex_watcher 6 False NULL) \<noteq> NULL" by simp_all
  from epoll_watcher_start [OF ex_pd_wf ex_epoll_inv ex_status_ok w, of ref_linux ex_quiet] ok
  show ?thesis by (auto elim!: upd_statusE)
qed

text \<open>
  C15: destroying a watcher never goes wrong: it frees exactly that watcher, takes it out of
  every list and keeps the invariants, also when the kernel refuses to unregister it.
\<close>

theorem epoll_watcher_destroy:
  assumes "pd_wf s" and "epoll_inv s" and "status_ok s" and "st_watchers s w = Some wt" and "w_loop wt \<noteq> NULL"
  shows "\<exists>s'. pd_watcher_destroy (pd_platform_epoll K U) w s = Some s' \<and>
    st_watchers s' = (st_watchers s)(w := None) \<and> lists_become (\<lambda>_. remove1 w) s s' \<and>
    pd_wf s' \<and> epoll_inv s' \<and> status_ok s'"
proof -
  obtain s' where s': "pd_watcher_destroy (pd_platform_epoll K U) w s = Some s'" "pd_wf s'" "epoll_inv s'"
    "st_watchers s' = (st_watchers s)(w := None)" "lists_become (\<lambda>k. remove1 w) s s'"
    by (rule epl.destroy_step [OF assms(1,2,4,5), of K U])
  then show ?thesis using eps.destroy_status [OF assms s'(1)] by blast
qed

theorem epoll_watcher_destroy_witness:
  "\<exists>s'. pd_watcher_destroy (pd_platform_epoll ref_linux ex_quiet) 10 ex_state = Some s' \<and>
     st_watchers s' 10 = None \<and> pd_wf s'"
proof -
  have w: "st_watchers ex_state 10 = Some (ex_watcher 7 True 600)" "w_loop (ex_watcher 7 True 600) \<noteq> NULL" by simp_all
  from epoll_watcher_destroy [OF ex_pd_wf ex_epoll_inv ex_status_ok w, of ref_linux ex_quiet]
  show ?thesis by auto
qed

section \<open>The registration table and the kernel\<close>

text \<open>
  C10: registering a watcher that has no record refines one update of the map from
  descriptors to owners: on success the watcher owns its descriptor and every other
  descriptor has the owner it had. On failure the map is as it was, except that another
  owner of the same descriptor may have been dropped. No record is ever duplicated.
\<close>

theorem epoll_register_refines:
  assumes "pd_wf s" and "epoll_inv s" and w: "st_watchers s w = Some wt" "w_loop wt \<noteq> NULL"
    and lp: "st_loops s (w_loop wt) = Some lp" and d: "st_ldata s (l_platform_data lp) = Some d"
    and u: "unique_table d" and new: "w \<notin> ran (owner d)"
  shows "\<exists>r s' d'. epoll_watcher_register K (w_loop wt) w s = Some (r, s') \<and>
    st_ldata s' = (st_ldata s)(l_platform_data lp \<mapsto> d') \<and> wf_table d' \<and> unique_table d' \<and>
    (if r = PD_OK then owner d' = (owner d)(w_fd wt \<mapsto> w)
     else owner d' = owner d \<or> owner d' = (owner d)(w_fd wt := None))"
proof -
  have nz: "w \<noteq> NULL" using pd_wf_watcher [OF assms(1) w(1)] by (simp add: watcher_ok_def)
  have dd: "l_platform_data lp \<noteq> NULL" "wf_table d"
    using epoll_inv_loop [OF assms(2) lp] d by auto
  obtain d1 where d1: "evict_stale_registration d (w_fd wt) w = Some d1" "wf_table d1" "unique_table d1"
    "owner d1 = (if owner d (w_fd wt) = None \<or> owner d (w_fd wt) = Some w then owner d else (owner d)(w_fd wt := None))"
    by (rule evict_owner [OF dd(2) u, of "w_fd wt" w])
  have free: "owner d1 (w_fd wt) = None" "w \<notin> ran (owner d1)"
    using new d1(4) by (auto simp: ran_def split: if_splits)
  note facts = lp w(2,1) nz dd(1) d dd(2) d1(1,2)
  from facts show ?thesis
  proof (cases rule: register_cases [where K = K])
    case (no_data s' e)
    then show ?thesis using d dd(2) u
      by (intro exI [of _ PD_ERR_NO_MEMORY] exI [of _ s'] exI [of _ d]) (auto simp: fun_upd_idem)
  next
    case (refused s' e k1)
    then show ?thesis using d1
      by (intro exI [of _ PD_ERR_SYSTEM] exI [of _ s'] exI [of _ d1]) auto
  next
    case (no_room s' e k1 r2 k2 v)
    then show ?thesis using d1
      by (intro exI [of _ PD_ERR_NO_MEMORY] exI [of _ s'] exI [of _ d1]) auto
  next
    case (ok s' k1 d2 p v)
    have "unique_table d2" "owner d2 = (owner d1)(w_fd wt \<mapsto> w)"
      using store_owner [OF d1(3) free ok(7)] .
    moreover have "(owner d1)(w_fd wt \<mapsto> w) = (owner d)(w_fd wt \<mapsto> w)"
      using d1(4) by (simp add: fun_eq_iff)
    ultimately show ?thesis using ok(1,5,8)
      by (intro exI [of _ PD_OK] exI [of _ s'] exI [of _ d2]) auto
  qed
qed

theorem epoll_register_refines_witness:
  "\<exists>s' d'. epoll_watcher_register ref_linux 1 11 ex_state = Some (PD_OK, s') \<and> st_ldata s' 500 = Some d' \<and>
    owner d' = [7 \<mapsto> 10, 6 \<mapsto> 11]"
proof -
  have ok: "map_option fst (epoll_watcher_register ref_linux 1 11 ex_state) = Some PD_OK" by code_simp
  have w: "st_watchers ex_state 11 = Some (ex_watcher 6 False NULL)" "w_loop (ex_watcher 6 False NULL) \<noteq> NULL" by simp_all
  have lp: "st_loops ex_state (w_loop (ex_watcher 6 False NULL)) = Some ex_loop"
    "st_ldata ex_state (l_platform_data ex_loop) = Some ex_data" "unique_table ex_data" "11 \<notin> ran (owner ex_data)"
    by (simp_all add: ran_def)
  from epoll_register_refines [OF ex_pd_wf ex_epoll_inv w lp, of ref_linux] ok show ?thesis by auto
qed

text \<open>
  C17: on a kernel that keeps the promises of the manual pages, a successful registration
  enters exactly the watcher's descriptor, with the translated events and the watcher as
  data, and a failed one leaves the kernel's interest list as it was, also when the record
  cannot be stored after the kernel has accepted the descriptor.
\<close>

theorem epoll_register_kernel:
  assumes K: "epoll_kernel K interest" and "pd_wf s" and "epoll_inv s"
    and w: "st_watchers s w = Some wt" "w_loop wt \<noteq> NULL"
    and lp: "st_loops s (w_loop wt) = Some lp" and d: "st_ldata s (l_platform_data lp) = Some d"
  shows "\<exists>r s'. epoll_watcher_register K (w_loop wt) w s = Some (r, s') \<and>
    interest (st_kernel s') = (if r = PD_OK
      then (interest (st_kernel s))(ed_epoll_fd d := (interest (st_kernel s) (ed_epoll_fd d))
        (w_fd wt \<mapsto> \<lparr>ee_events = events_to_epoll (w_events wt), ee_data = w\<rparr>))
      else interest (st_kernel s))"
proof -
  have nz: "w \<noteq> NULL" using pd_wf_watcher [OF assms(2) w(1)] by (simp add: watcher_ok_def)
  have dd: "l_platform_data lp \<noteq> NULL" "wf_table d"
    using epoll_inv_loop [OF assms(3) lp] d by auto
  obtain d1 where d1: "evict_stale_registration d (w_fd wt) w = Some d1" "wf_table d1" "upd_table d d1"
    by (rule evict_step [OF dd(2), of "w_fd wt" w])
  have ep: "ed_epoll_fd d1 = ed_epoll_fd d" using d1(3) by (auto elim!: upd_tableE)
  note facts = lp w(2,1) nz dd(1) d dd(2) d1(1,2)
  from facts show ?thesis
  proof (cases rule: register_cases [where K = K])
    case (no_data s' e)
    then show ?thesis by (intro exI [of _ PD_ERR_NO_MEMORY] exI [of _ s']) auto
  next
    case (refused s' e k1)
    then show ?thesis
      using epoll_kernel.ctl_fail [OF K refused(2)] by (intro exI [of _ PD_ERR_SYSTEM] exI [of _ s']) auto
  next
    case (no_room s' e k1 r2 k2 v)
    have add: "interest (st_kernel s) (ed_epoll_fd d) (w_fd wt) = None"
      "interest k1 = (interest (st_kernel s))(ed_epoll_fd d := (interest (st_kernel s) (ed_epoll_fd d))(w_fd wt \<mapsto> watch_event w wt))"
      using epoll_kernel.add_ok [OF K no_room(2)] ep by simp_all
    then have "interest k1 (ed_epoll_fd d) (w_fd wt) \<noteq> None" by simp
    then obtain v2 where "sys_epoll_ctl K (ed_epoll_fd d) EPOLL_CTL_DEL (w_fd wt) None k1 = (Inr v2, k2)"
      using epoll_kernel.del_works [OF K] no_room(3) ep by (metis fst_conv)
    from epoll_kernel.del_ok [OF K this]
    have "interest k2 = interest (st_kernel s)" using add by (auto simp: fun_upd_idem)
    then show ?thesis using no_room(1,4) by (intro exI [of _ PD_ERR_NO_MEMORY] exI [of _ s']) auto
  next
    case (ok s' k1 d2 p v)
    show ?thesis
      using epoll_kernel.add_ok [OF K ok(2)] ok(1,8) ep
      by (intro exI [of _ PD_OK] exI [of _ s']) (auto simp: watch_event_def)
  qed
qed

theorem epoll_register_kernel_witness:
  "\<exists>s'. epoll_watcher_register ref_linux 1 11 ex_state = Some (PD_OK, s') \<and>
    rk_entry (st_kernel s') 3 6 = Some \<lparr>ee_events = events_to_epoll PD_EVENT_READ, ee_data = 11\<rparr>"
proof -
  have ok: "map_option fst (epoll_watcher_register ref_linux 1 11 ex_state) = Some PD_OK" by code_simp
  have w: "st_watchers ex_state 11 = Some (ex_watcher 6 False NULL)" "w_loop (ex_watcher 6 False NULL) \<noteq> NULL" by simp_all
  have lp: "st_loops ex_state (w_loop (ex_watcher 6 False NULL)) = Some ex_loop"
    "st_ldata ex_state (l_platform_data ex_loop) = Some ex_data" by simp_all
  from epoll_register_kernel [OF ref.epoll_kernel_axioms ex_pd_wf ex_epoll_inv w lp] ok
  show ?thesis by auto
qed

text \<open>
  C8: unregistering a watcher that owns no descriptor (its descriptor was closed, and the
  number may by now belong to another watcher) succeeds without a system call and leaves
  the kernel and the registration table exactly as they were.
\<close>

theorem epoll_unregister_stale:
  assumes "pd_wf s" and "epoll_inv s" and w: "st_watchers s w = Some wt" "w_loop wt \<noteq> NULL"
    and lp: "st_loops s (w_loop wt) = Some lp" and d: "st_ldata s (l_platform_data lp) = Some d"
    and u: "unique_table d" and stale: "w \<notin> ran (owner d)"
  shows "\<exists>s'. epoll_watcher_unregister K w s = Some (PD_OK, s') \<and> st_kernel s' = st_kernel s \<and>
    st_ldata s' = st_ldata s \<and> st_loops s' = st_loops s \<and>
    st_watchers s' = (st_watchers s)(w \<mapsto> wt\<lparr>w_platform_data := NULL\<rparr>)"
proof -
  have nz: "w \<noteq> NULL" using pd_wf_watcher [OF assms(1) w(1)] by (simp add: watcher_ok_def)
  have dd: "l_platform_data lp \<noteq> NULL" "wf_table d"
    using epoll_inv_loop [OF assms(2) lp] d by auto
  have find: "find_registration d w = Some None"
    by (rule find_owner [OF dd(2) u, of w]) (use stale in \<open>auto simp: ran_def\<close>)
  note facts = w(1) nz w(2) lp dd(1) d dd(2) epoll_inv_watcher [OF assms(2) w(1)]
  from facts show ?thesis
    by (cases rule: unregister_cases [where K = K]) (simp_all add: find)
qed

theorem epoll_unregister_stale_witness:
  "\<exists>s'. epoll_watcher_unregister ref_linux 12 ex_state = Some (PD_OK, s') \<and> st_kernel s' = ex_kernel \<and>
    st_ldata s' 500 = Some ex_data"
proof -
  have w: "st_watchers ex_state 12 = Some (ex_watcher 7 True 602)" "w_loop (ex_watcher 7 True 602) \<noteq> NULL" by simp_all
  have lp: "st_loops ex_state (w_loop (ex_watcher 7 True 602)) = Some ex_loop"
    "st_ldata ex_state (l_platform_data ex_loop) = Some ex_data" "unique_table ex_data" "12 \<notin> ran (owner ex_data)"
    by (simp_all add: ran_def)
  from epoll_unregister_stale [OF ex_pd_wf ex_epoll_inv w lp, of ref_linux] show ?thesis by auto
qed

text \<open>
  C16: unregistering the owner of a descriptor removes its kernel entry and its record
  together. When the entry is there the call succeeds; when it fails, the table, the
  interest list and the watcher are as they were; no other descriptor is affected.
\<close>

theorem epoll_unregister_owner:
  assumes K: "epoll_kernel K interest" and "pd_wf s" and "epoll_inv s"
    and w: "st_watchers s w = Some wt" "w_loop wt \<noteq> NULL"
    and lp: "st_loops s (w_loop wt) = Some lp" and d: "st_ldata s (l_platform_data lp) = Some d"
    and u: "unique_table d" and own: "owner d (w_fd wt) = Some w"
  shows "\<exists>r s' d'. epoll_watcher_unregister K w s = Some (r, s') \<and>
    st_ldata s' = (st_ldata s)(l_platform_data lp \<mapsto> d') \<and> unique_table d' \<and>
    (interest (st_kernel s) (ed_epoll_fd d) (w_fd wt) \<noteq> None \<longrightarrow> r = PD_OK) \<and>
    (if r = PD_OK
     then owner d' = (owner d)(w_fd wt := None) \<and> interest (st_kernel s') =
       (interest (st_kernel s))(ed_epoll_fd d := (interest (st_kernel s) (ed_epoll_fd d))(w_fd wt := None))
     else d' = d \<and> interest (st_kernel s') = interest (st_kernel s) \<and> st_watchers s' = st_watchers s)"
proof -
  have nz: "w \<noteq> NULL" using pd_wf_watcher [OF assms(2) w(1)] by (simp add: watcher_ok_def)
  have dd: "l_platform_data lp \<noteq> NULL" "wf_table d"
    using epoll_inv_loop [OF assms(3) lp] d by auto
  have there: "w \<in> ran (owner d)" using own by (auto simp: ran_def)
  note facts = w(1) nz w(2) lp dd(1) d dd(2) epoll_inv_watcher [OF assms(3) w(1)]
  from facts show ?thesis
  proof (cases rule: unregister_cases [where K = K])
    case absent
    have "find_registration d w \<noteq> Some None"
      by (rule find_owner [OF dd(2) u, of w]) (use there in simp_all)
    with absent(1) show ?thesis by simp
  next
    case (refused i e k1)
    have "interest (st_kernel s) (ed_epoll_fd d) (w_fd wt) = None"
      by (rule epoll_kernel.del_failed [OF K refused(2)])
    then show ?thesis
      using refused(4) epoll_kernel.ctl_fail [OF K refused(2)] d u
      by (intro exI [of _ PD_ERR_SYSTEM] exI [of _ "s\<lparr>st_kernel := k1, st_errno := e,
           st_loops := (st_loops s)(w_loop wt \<mapsto> lp\<lparr>l_system_error := e\<rparr>)\<rparr>"] exI [of _ d])
        (simp add: fun_upd_idem)
  next
    case (removed i r k1 d' en)
    have "unique_table d'" "owner d' = (owner d)(w_fd wt := None)"
      using swap_out_owner [OF u removed(8,7)] found_owner_fd [OF dd(2) u own removed(1)] by simp_all
    moreover have "interest k1 = (interest (st_kernel s))(ed_epoll_fd d :=
        (interest (st_kernel s) (ed_epoll_fd d))(w_fd wt := None))"
      by (rule epoll_kernel.del_removes [OF K removed(2)])
    ultimately show ?thesis
      using removed(9) by (intro exI [of _ PD_OK] exI [of _ d'] exI conjI) auto
  qed
qed

theorem epoll_unregister_owner_witness:
  "\<exists>s' d'. epoll_watcher_unregister ref_linux 10 ex_state = Some (PD_OK, s') \<and> st_ldata s' 500 = Some d' \<and>
    owner d' 7 = None \<and> rk_entry (st_kernel s') 3 7 = None"
proof -
  have w: "st_watchers ex_state 10 = Some (ex_watcher 7 True 600)" "w_loop (ex_watcher 7 True 600) \<noteq> NULL" by simp_all
  have lp: "st_loops ex_state (w_loop (ex_watcher 7 True 600)) = Some ex_loop"
    "st_ldata ex_state (l_platform_data ex_loop) = Some ex_data" "unique_table ex_data"
    "owner ex_data (w_fd (ex_watcher 7 True 600)) = Some 10"
    by simp_all
  have "rk_entry (st_kernel ex_state) (ed_epoll_fd ex_data) (w_fd (ex_watcher 7 True 600)) \<noteq> None"
    by (simp add: rk_entry_def ex_kernel_def)
  with epoll_unregister_owner [OF ref.epoll_kernel_axioms ex_pd_wf ex_epoll_inv w lp] show ?thesis by auto
qed

text \<open>
  A successful update makes the kernel watch the watcher's descriptor for the new
  events; a failed one leaves the interest list alone.
\<close>

theorem epoll_update_kernel:
  assumes K: "epoll_kernel K interest" and "pd_wf s" and "epoll_inv s"
    and w: "st_watchers s w = Some wt" "w_loop wt \<noteq> NULL" "w_platform_data wt \<noteq> NULL"
    and lp: "st_loops s (w_loop wt) = Some lp" and d: "st_ldata s (l_platform_data lp) = Some d"
    and x: "st_wdata s (w_platform_data wt) = Some x" "ee_data (ew_epoll_event x) = w"
  shows "\<exists>r s'. epoll_watcher_update K w ev s = Some (r, s') \<and>
    (r = PD_OK \<longleftrightarrow> interest (st_kernel s) (ed_epoll_fd d) (w_fd wt) \<noteq> None) \<and>
    interest (st_kernel s') = (if r = PD_OK
      then (interest (st_kernel s))(ed_epoll_fd d := (interest (st_kernel s) (ed_epoll_fd d))
        (w_fd wt \<mapsto> \<lparr>ee_events = events_to_epoll ev, ee_data = w\<rparr>))
      else interest (st_kernel s))"
proof -
  have nz: "w \<noteq> NULL" using pd_wf_watcher [OF assms(2) w(1)] by (simp add: watcher_ok_def)
  have dd: "l_platform_data lp \<noteq> NULL" using epoll_inv_loop [OF assms(3) lp] by auto
  have e: "ew_epoll_event x\<lparr>ee_events := events_to_epoll ev\<rparr> = \<lparr>ee_events = events_to_epoll ev, ee_data = w\<rparr>"
    using x(2) by (auto intro: epoll_event.equality)
  note facts = w(1) nz w(2) lp dd d
  from facts show ?thesis
  proof (cases rule: update_cases [where K = K and ev = ev])
    case none
    then show ?thesis using w(3) by simp
  next
    case (refused x' en k1)
    have "interest (st_kernel s) (ed_epoll_fd d) (w_fd wt) = None"
      by (rule epoll_kernel.mod_failed [OF K refused(3)])
    then show ?thesis
      using refused(4) epoll_kernel.ctl_fail [OF K refused(3)] by (intro exI [of _ PD_ERR_SYSTEM] exI conjI) auto
  next
    case (ok x' k1 v)
    then have "x' = x" using x(1) by simp
    with epoll_kernel.mod_ok [OF K ok(3)] ok(4) e show ?thesis
      by (intro exI [of _ PD_OK] exI conjI) auto
  next
    case dangling
    then show ?thesis using x(1) by simp
  qed
qed

text \<open>
  The witness is the watcher 12, which does not own its descriptor: \<^verbatim>\<open>epoll_watcher_update\<close>
  makes no ownership test, and the kernel's entry of the owner, watcher 10, now names 12.
\<close>

theorem epoll_update_kernel_witness:
  "\<exists>s'. epoll_watcher_update ref_linux 12 PD_EVENT_WRITE ex_state = Some (PD_OK, s') \<and>
    rk_entry (st_kernel s') 3 7 = Some \<lparr>ee_events = EPOLLOUT, ee_data = 12\<rparr>"
proof -
  have w: "st_watchers ex_state 12 = Some (ex_watcher 7 True 602)" "w_loop (ex_watcher 7 True 602) \<noteq> NULL"
    "w_platform_data (ex_watcher 7 True 602) \<noteq> NULL" by simp_all
  have lp: "st_loops ex_state (w_loop (ex_watcher 7 True 602)) = Some ex_loop"
    "st_ldata ex_state (l_platform_data ex_loop) = Some ex_data"
    "st_wdata ex_state (w_platform_data (ex_watcher 7 True 602)) = Some \<lparr>ew_epoll_event = \<lparr>ee_events = EPOLLIN, ee_data = 12\<rparr>\<rparr>"
    "ee_data (ew_epoll_event \<lparr>ew_epoll_event = \<lparr>ee_events = EPOLLIN, ee_data = 12\<rparr>\<rparr>) = 12" by simp_all
  have "rk_entry (st_kernel ex_state) (ed_epoll_fd ex_data) (w_fd (ex_watcher 7 True 602)) \<noteq> None"
    by (simp add: rk_entry_def ex_kernel_def)
  moreover have "events_to_epoll PD_EVENT_WRITE = EPOLLOUT" by code_simp
  ultimately show ?thesis
    using epoll_update_kernel [OF ref.epoll_kernel_axioms ex_pd_wf ex_epoll_inv w lp, of PD_EVENT_WRITE] by auto
qed

section \<open>Loops\<close>

lemma create_failed_opened:
  assumes K: "fd_kernel K opened" and "create_failed K k k'"
  shows "opened k' = opened k"
proof -
  have close: "opened (close_fd K fd k) = opened k - {fd}" for fd k
    using fd_kernel.close_opened [OF K] by (metis close_fd_def prod.collapse)
  note laws = fd_kernel.epoll_create1_ok [OF K] fd_kernel.epoll_create1_fail [OF K]
    fd_kernel.eventfd_ok [OF K] fd_kernel.eventfd_fail [OF K] fd_kernel.ctl_opened [OF K]
  show ?thesis
    using assms(2) by cases (auto simp: close dest!: laws)
qed

lemma loop_create_fds:
  assumes K: "fd_kernel K opened"
    and run: "pd_loop_create target (pd_platform_epoll K U) config s = Some (l, s')"
  shows "if l = NULL then opened (st_kernel s') = opened (st_kernel s)
    else \<exists>ep ev. ep \<notin> opened (st_kernel s) \<and> ev \<notin> opened (st_kernel s) \<and> ep \<noteq> ev \<and>
      opened (st_kernel s') = {ep, ev} \<union> opened (st_kernel s)"
proof (cases rule: create_loop_front [of target "pd_platform_epoll K U" config s])
  case (null s1)
  then show ?thesis using run by (simp add: upd_alloc_frame)
next
  case (backend k s1 m)
  let ?s = "s1\<lparr>st_loops := (st_loops s)(k \<mapsto> new_loop (loop_config config) (pd_platform_detect target) m)\<rparr>"
  have k1: "st_kernel s1 = st_kernel s" using backend(3) by (simp add: upd_alloc_frame)
  have lp: "st_loops ?s k = Some (new_loop (loop_config config) (pd_platform_detect target) m)" by simp
  from lp backend(1) show ?thesis
  proof (cases rule: loop_create_cases [where K = K and cfg = "loop_config config"])
    case (failed s2 r e k2 cs en)
    have "l = NULL \<and> st_kernel s' = k2"
      using run failed(1,2,3) unfolding backend(6)
      by (auto simp: heap_write_def bind_Some_iff destroy_mutex_if_def PD_MUTEX_DESTROY_def heap_free_def
          split: if_splits)
    then show ?thesis using create_failed_opened [OF K failed(4)] k1 by simp
  next
    case (ok s2 p cs en k1' k2 k3 ep ev v)
    have s': "l = k \<and> st_kernel s' = k3" using run ok(1,2) unfolding backend(6) by auto
    have ep: "int ep \<notin> opened (st_kernel s)" "opened k1' = insert (int ep) (opened (st_kernel s))"
      using fd_kernel.epoll_create1_ok [OF K ok(5)] k1 by simp_all
    have ev: "int ev \<notin> opened k1'" "opened k2 = insert (int ev) (opened k1')"
      using fd_kernel.eventfd_ok [OF K ok(6)] by simp_all
    have "opened k3 = opened k2" using fd_kernel.ctl_opened [OF K ok(7)] .
    then have "opened k3 = {int ep, int ev} \<union> opened (st_kernel s)" using ep ev by auto
    moreover have "int ev \<notin> opened (st_kernel s)" "int ep \<noteq> int ev" using ep ev by auto
    ultimately show ?thesis using s' backend(1) ep(1) by metis
  qed
qed

text \<open>
  C29: creating a loop is all or nothing. Null means that the program's objects and the
  open descriptors are those of before; otherwise the loop is new, has one reference, no
  watcher and the configuration with its defaults, owns one epoll and one event descriptor,
  and the invariants hold, whatever the kernel and the allocator answered.
\<close>

theorem epoll_loop_create_all_or_nothing:
  assumes K: "fd_kernel K opened" and wf: "pd_wf s" "epoll_inv s"
  shows "\<exists>l s'. pd_loop_create target (pd_platform_epoll K U) config s = Some (l, s') \<and> pd_wf s' \<and> epoll_inv s' \<and>
    same_objects s s' \<and>
    (if l = NULL then st_loops s' = st_loops s \<and> st_ldata s' = st_ldata s \<and>
       opened (st_kernel s') = opened (st_kernel s)
     else st_loops s l = None \<and>
       (\<exists>p m e. st_loops s' = (st_loops s)(l \<mapsto> (new_loop (loop_config config) (pd_platform_detect target) m)
          \<lparr>l_system_error := e, l_platform_data := p\<rparr>)) \<and>
       (\<exists>ep ev. ep \<notin> opened (st_kernel s) \<and> ev \<notin> opened (st_kernel s) \<and> ep \<noteq> ev \<and>
          opened (st_kernel s') = {ep, ev} \<union> opened (st_kernel s)))"
  using wf
proof (cases rule: epl.create_loop_step [where K = K and U = U and target = target and config = config])
  case (null s')
  then show ?thesis using loop_create_fds [OF K null(1)] by (intro exI [of _ NULL] exI [of _ s']) simp
next
  case (some l s' e p m)
  then show ?thesis using loop_create_fds [OF K some(1)] by (intro exI [of _ l] exI [of _ s']) auto
qed

theorem epoll_loop_create_all_or_nothing_witness:
  "\<exists>s' lp. pd_loop_create PD_PLATFORM_LINUX (pd_platform_epoll ref_linux ex_quiet) None ex_state = Some (601, s') \<and>
    st_loops s' 601 = Some lp \<and> l_ref_count lp = 1 \<and> watcher_list lp = [] \<and> card (set (rk_open (st_kernel s'))) = 6"
proof -
  have "map_option fst (pd_loop_create PD_PLATFORM_LINUX (pd_platform_epoll ref_linux ex_quiet) None ex_state) = Some 601"
    by code_simp
  then show ?thesis
    using epoll_loop_create_all_or_nothing [OF ref_fd.fd_kernel_axioms ex_pd_wf ex_epoll_inv, where U = ex_quiet
        and target = PD_PLATFORM_LINUX and config = None]
    by (auto simp: ex_kernel_def new_loop_created(2))
qed

end
