(* ===== verification/Pd_Epoll_Runs.thy ===== *)
theory Pd_Epoll_Runs
  imports Pd_Epoll_Props
begin

text \<open>
  The life of a loop on the epoll backend: references, the run loop, stop requests and the
  asynchronous notification.
\<close>

section \<open>References\<close>

text \<open>
  Taking and giving back a reference leaves the state as it was, whatever the backend.
\<close>

theorem ref_then_unref:
  assumes "st_loops s l = Some lp" and "mutex_ready lp s" and "l \<noteq> NULL"
    and "0 < l_ref_count lp" and "l_ref_count lp < INT_MAX"
  shows "do { s \<leftarrow> pd_loop_ref l s; pd_loop_unref P l s } = Some s"
proof -
  let ?lp = "lp\<lparr>l_ref_count := l_ref_count lp + 1\<rparr>"
  let ?s = "s\<lparr>st_loops := (st_loops s)(l \<mapsto> ?lp)\<rparr>"
  have "pd_loop_ref l s = Some ?s"
    using assms by (intro pd_loop_ref_eq) auto
  moreover have "mutex_ready ?lp ?s" using assms(2) by (simp add: mutex_ready_def uses_mutex_def)
  then have "pd_loop_unref P l ?s = Some (?s\<lparr>st_loops := (st_loops ?s)(l \<mapsto> ?lp\<lparr>l_ref_count := l_ref_count ?lp - 1\<rparr>)\<rparr>)"
    using assms by (intro unref_keep_eq) (simp_all add: INT_MIN_def)
  ultimately show ?thesis using assms(1) by (simp add: fun_upd_idem)
qed

theorem ref_then_unref_witness:
  "do { s \<leftarrow> pd_loop_ref 1 ex_state; pd_loop_unref (pd_platform_epoll ref_linux ex_quiet) 1 s } = Some ex_state"
  by (rule ref_then_unref [of _ _ ex_loop]) (simp_all add: INT_MAX_def)

lemma destroy_dangling:
  assumes "st_watchers s w = Some wt" and "st_loops s (w_loop wt) = None" and "w_loop wt \<noteq> NULL" and "w \<noteq> NULL"
  shows "pd_watcher_destroy P w s = None"
proof (cases "w_active wt")
  case True
  then have "pd_watcher_stop P w s = None"
    using assms by (simp add: pd_watcher_stop_def heap_write_def)
  then show ?thesis using assms by (simp add: pd_watcher_destroy_def)
next
  case False
  then have "pd_watcher_stop P w s = Some (PD_OK, s)"
    using assms by (simp add: pd_watcher_stop_def)
  moreover have "pd_watcher_cleanup P w s = None"
    using assms by (simp add: pd_watcher_cleanup_def)
  ultimately show ?thesis using assms by (simp add: pd_watcher_destroy_def)
qed

text \<open>
  C30: giving up the last reference frees the loop and its platform data, closes its
  descriptors, and destroys the watchers at the even positions of its list only: removing
  one shifts the array under the index of the C loop. The watchers at odd positions stay
  allocated with a pointer to the freed loop, and destroying one of them later is undefined.
  Other loops keep their watchers.
\<close>

theorem epoll_loop_unref_last:
  assumes "pd_wf s" and "epoll_inv s" and "st_loops s l = Some lp" and "l_ref_count lp = 1"
  shows "\<exists>s'. pd_loop_unref (pd_platform_epoll K U) l s = Some s' \<and> epoll_inv s' \<and>
    st_loops s' l = None \<and> st_ldata s' (l_platform_data lp) = None \<and>
    st_watchers s' = (st_watchers s) |` (- set (evens (watcher_list lp))) \<and>
    (\<forall>w\<in>set (odds (watcher_list lp)). (\<exists>wt. st_watchers s' w = Some wt \<and> w_loop wt = l) \<and>
       pd_watcher_destroy (pd_platform_epoll K U) w s' = None) \<and>
    (\<forall>k kp'. k \<noteq> l \<longrightarrow> st_loops s' k = Some kp' \<longrightarrow>
       (\<exists>kp. st_loops s k = Some kp \<and> watcher_list kp' = watcher_list kp))"
  using assms
proof (cases rule: epl.unref_last_step [where K = K and U = U])
  case (1 s')
  have ok: "distinct (watcher_list lp)" using pd_wf_loop [OF assms(1,3)] by (simp add: loop_ok_def)
  have "(\<exists>wt. st_watchers s' w = Some wt \<and> w_loop wt = l) \<and>
      pd_watcher_destroy (pd_platform_epoll K U) w s' = None" if w: "w \<in> set (odds (watcher_list lp))" for w
  proof -
    have "w \<in> set (watcher_list lp)" "w \<notin> set (evens (watcher_list lp))"
      using w set_evens_odds [of "watcher_list lp"] distinct_evens_odds [OF ok] by auto
    moreover from this(1) obtain wt where wt: "st_watchers s w = Some wt" "w_loop wt = l"
      using pd_wf_loop [OF assms(1,3)] by (auto simp: loop_ok_def)
    ultimately have "st_watchers s' w = Some wt" "w_loop wt = l" using 1(4) by simp_all
    moreover have "w \<noteq> NULL" "l \<noteq> NULL"
      using pd_wf_watcher [OF assms(1) wt(1)] pd_wf_loop [OF assms(1,3)] by (simp_all add: watcher_ok_def loop_ok_def)
    ultimately show ?thesis using destroy_dangling [of s' w wt] 1(3) by blast
  qed
  then show ?thesis using 1 by blast
qed

text \<open>
  The witness is the example state with the watchers 10, 11 and 12: 11 survives.
\<close>

theorem epoll_loop_unref_last_witness:
  "\<exists>s'. pd_loop_unref (pd_platform_epoll ref_linux ex_quiet) 1 ex_state = Some s' \<and> st_loops s' 1 = None \<and>
    st_watchers s' = [11 \<mapsto> ex_watcher 6 False NULL]"
proof -
  have "(st_watchers ex_state) |` (- set (evens [10, 11, 12 :: nat])) = [11 \<mapsto> ex_watcher 6 False NULL]"
    by (auto simp: restrict_map_def fun_eq_iff)
  then show ?thesis
    using epoll_loop_unref_last [of ex_state 1 ex_loop ref_linux ex_quiet] by auto
qed

section \<open>The run loop\<close>

lemma rounds_end:
  assumes "rounds P l k s s1"
    and "idle l s1 \<and> r = 0 \<and> write_loop l (\<lambda>x. x\<lparr>l_running := False\<rparr>) s1 = Some s' \<or>
       (\<exists>s2. \<not> idle l s1 \<and> r < 0 \<and> pd_loop_run_once P l (- 1) s1 = Some (r, s2) \<and>
          write_loop l (\<lambda>x. x\<lparr>l_running := False\<rparr>) s2 = Some s')"
  shows "run_rounds P (Suc k) l s = Some (Returned r s')"
proof -
  have run: "run_rounds P (Suc k) l s = run_rounds P (Suc 0) l s1"
    using rounds_run [OF assms(1), of "Suc 0"] by simp
  from assms(2) obtain lp where lp: "st_loops s1 l = Some lp"
    by (cases "st_loops s1 l") (auto simp: heap_write_def pd_loop_run_once_def idle_def split: if_splits)
  show ?thesis
    using assms(2) lp unfolding run by (auto simp: idle_def heap_write_def bind_Some_iff)
qed

text \<open>
  C14: \<^verbatim>\<open>pd_loop_run\<close> returns exactly when finitely many waits, each without an error, lead
  to a state in which a stop is requested or the loop has no watcher, and then its result
  is success; or lead to a wait that fails, and then its result is that wait's. A stop that
  was requested before the call is discarded.
\<close>

theorem pd_loop_run_returns:
  assumes "st_loops s l = Some lp" and "l \<noteq> NULL"
  shows "(\<exists>n. pd_loop_run P n l s = Some (Returned r s')) \<longleftrightarrow>
    (\<exists>k s1. rounds P l k (s\<lparr>st_loops := (st_loops s)(l \<mapsto> lp\<lparr>l_running := True, l_stop_requested := False\<rparr>)\<rparr>) s1 \<and>
      (idle l s1 \<and> r = err_code PD_OK \<and> write_loop l (\<lambda>x. x\<lparr>l_running := False\<rparr>) s1 = Some s' \<or>
       (\<exists>s2. \<not> idle l s1 \<and> r < 0 \<and> pd_loop_run_once P l (- 1) s1 = Some (r, s2) \<and>
          write_loop l (\<lambda>x. x\<lparr>l_running := False\<rparr>) s2 = Some s')))"
    (is "_ \<longleftrightarrow> (\<exists>k s1. rounds P l k ?s s1 \<and> ?end s1)")
proof -
  have run: "pd_loop_run P n l s = run_rounds P n l ?s" for n
    using assms by (simp add: pd_loop_run_def heap_write_def)
  have "\<exists>n. run_rounds P n l ?s = Some (Returned r s')" if "rounds P l k ?s s1" "?end s1" for k s1
    using that(2) by (intro exI [of _ "Suc k"] rounds_end [OF that(1)]) simp
  then show ?thesis
    using run_rounds_Returned [of P _ l ?s r s'] unfolding run err_code.simps by blast
qed

text \<open>
  The witness: the callback of the ready watcher 10 stops the loop; the run returns success
  after one wait.
\<close>

definition ex_stopping :: "ref_kernel user_callbacks" where
  "ex_stopping f l w ev ud s = map_option snd (pd_loop_stop (pd_platform_epoll ref_linux (\<lambda>f l w ev ud s. Some s)) l s)"

theorem pd_loop_run_returns_witness:
  "\<exists>s' k s1. pd_loop_run (pd_platform_epoll ref_linux ex_stopping) 2 1 ex_state = Some (Returned 0 s') \<and>
    rounds (pd_platform_epoll ref_linux ex_stopping) 1 k
      (ex_state\<lparr>st_loops := (st_loops ex_state)(1 \<mapsto> ex_loop\<lparr>l_running := True, l_stop_requested := False\<rparr>)\<rparr>) s1 \<and> idle 1 s1"
proof -
  have "map_option (\<lambda>r. case r of Running _ \<Rightarrow> 1 | Returned r _ \<Rightarrow> r)
    (pd_loop_run (pd_platform_epoll ref_linux ex_stopping) 2 1 ex_state) = Some 0" by code_simp
  then obtain z where "pd_loop_run (pd_platform_epoll ref_linux ex_stopping) 2 1 ex_state = Some z"
    "(case z of Running _ \<Rightarrow> 1 | Returned r _ \<Rightarrow> r) = 0" by (auto simp only: map_option_eq_Some)
  then obtain s' where s': "pd_loop_run (pd_platform_epoll ref_linux ex_stopping) 2 1 ex_state = Some (Returned 0 s')"
    by (cases z) auto
  have lp: "st_loops ex_state 1 = Some ex_loop" "(1 :: nat) \<noteq> NULL" by simp_all
  from pd_loop_run_returns [OF lp, where P = "pd_platform_epoll ref_linux ex_stopping" and r = 0] s'
  show ?thesis by fastforce
qed

section \<open>Stopping and waking\<close>

text \<open>The kernel after one wake-up of a loop with the data \<open>d\<close>.\<close>

definition wake_up :: "'k linux \<Rightarrow> pd_epoll_data \<Rightarrow> 'k \<Rightarrow> 'k" where
  "wake_up K d k = (if 0 \<le> ed_eventfd_fd d then snd (sys_write K (ed_eventfd_fd d) 1 k) else k)"

lemma epoll_send_wakes:
  assumes "st_loops s l = Some lp" "l \<noteq> NULL" "l_platform_data lp \<noteq> NULL" "st_ldata s (l_platform_data lp) = Some d"
    and "epoll_async_send K l x s = Some (r, s')"
  shows "st_kernel s' = wake_up K d (st_kernel s)" "st_ldata s' = st_ldata s"
  using assms(5) by (cases rule: async_send_cases [OF assms(1-4), where K = K and data = x]; auto simp: wake_up_def)+

text \<open>
  C21: stopping a loop succeeds, whatever the kernel answers, and wakes it with one write to
  its eventfd; from then on every \<^verbatim>\<open>pd_loop_run_once\<close> returns 0 without waiting, and the
  rounds of \<^verbatim>\<open>pd_loop_run\<close> end with success. No watcher and no other loop is affected.
\<close>

theorem epoll_loop_stop_ends_run:
  assumes "pd_wf s" and "epoll_inv s" and "st_loops s l = Some lp" and "st_ldata s (l_platform_data lp) = Some d"
  shows "\<exists>s' e. pd_loop_stop (pd_platform_epoll K U) l s = Some (PD_OK, s') \<and> pd_wf s' \<and> epoll_inv s' \<and>
    st_kernel s' = wake_up K d (st_kernel s) \<and> st_watchers s' = st_watchers s \<and>
    st_loops s' l = Some (lp\<lparr>l_stop_requested := True, l_system_error := e\<rparr>) \<and>
    (\<forall>t. pd_loop_run_once (pd_platform_epoll K U) l t s' = Some (0, s')) \<and>
    (\<forall>n. run_rounds (pd_platform_epoll K U) (Suc n) l s' = Some (Returned (err_code PD_OK)
       (s'\<lparr>st_loops := (st_loops s')(l \<mapsto> lp\<lparr>l_stop_requested := True, l_system_error := e, l_running := False\<rparr>)\<rparr>)))"
  using assms(1-3)
proof (cases rule: epl.stop_loop_step [where K = K and U = U])
  case (1 s' e)
  have ok: "mutex_ready lp s" "l \<noteq> NULL" "l_ops lp \<noteq> None"
    using pd_wf_loop [OF assms(1,3)] by (simp_all add: loop_ok_def)
  have d: "l_platform_data lp \<noteq> NULL" by (rule epoll_inv_loop [OF assms(2,3)])
  let ?s = "s\<lparr>st_loops := (st_loops s)(l \<mapsto> lp\<lparr>l_stop_requested := True\<rparr>)\<rparr>"
  from 1(1) obtain r where "epoll_async_send K l NULL ?s = Some (r, s')"
    by (auto simp: stop_eq [OF assms(3) ok, of "pd_platform_epoll K U"] bind_Some_iff)
  from epoll_send_wakes(1) [OF _ ok(2) _ _ this, of "lp\<lparr>l_stop_requested := True\<rparr>" d]
  have k: "st_kernel s' = wake_up K d (st_kernel s)" using assms(4) d by simp
  have ok': "mutex_ready (lp\<lparr>l_stop_requested := True, l_system_error := e\<rparr>) s'"
    using pd_wf_loop [OF 1(2,4)] by (simp add: loop_ok_def)
  have once: "pd_loop_run_once (pd_platform_epoll K U) l t s' = Some (0, s')" for t
    using run_once_eq [OF 1(4) ok' ok(2)] ok(3) by simp
  have "idle l s'" using 1(4) by (simp add: idle_def)
  from run_rounds_idle [OF this 1(4)] once k 1 show ?thesis by (intro exI [of _ s'] exI [of _ e]) (auto simp: only_error_def)
qed

theorem epoll_loop_stop_ends_run_witness:
  "\<exists>s'. pd_loop_stop (pd_platform_epoll ref_linux ex_quiet) 1 ex_state = Some (PD_OK, s') \<and>
    pd_loop_run_once (pd_platform_epoll ref_linux ex_quiet) 1 (- 1) s' = Some (0, s') \<and>
    map_of (rk_counter (st_kernel s')) 4 = Some 1"
proof -
  have "map_of (rk_counter (wake_up ref_linux ex_data ex_kernel)) 4 = Some 1" by code_simp
  then show ?thesis
    using epoll_loop_stop_ends_run [of ex_state 1 ex_loop ex_data ref_linux ex_quiet] by auto
qed

text \<open>
  Notifications are not queued: after two of them the loop's owner reads the data of the
  second, as often as it asks, while the kernel has seen both wake-ups.
\<close>

theorem epoll_async_last_wins:
  assumes "pd_wf s" and "epoll_inv s" and "st_loops s l = Some lp" and "st_ldata s (l_platform_data lp) = Some d"
  shows "\<exists>r1 s1 r2 s2. pd_loop_async_send (pd_platform_epoll K U) l x s = Some (r1, s1) \<and>
    pd_loop_async_send (pd_platform_epoll K U) l y s1 = Some (r2, s2) \<and>
    pd_loop_get_async_data l s1 = Some (x, s1) \<and> pd_loop_get_async_data l s2 = Some (y, s2) \<and>
    st_kernel s2 = wake_up K d (wake_up K d (st_kernel s)) \<and> pd_wf s2 \<and> epoll_inv s2"
proof -
  have one: "\<exists>r s' e. pd_loop_async_send (pd_platform_epoll K U) l x s = Some (r, s') \<and> pd_wf s' \<and> epoll_inv s' \<and>
      st_loops s' l = Some (lp\<lparr>l_async_data := x, l_system_error := e\<rparr>) \<and>
      pd_loop_get_async_data l s' = Some (x, s') \<and> st_kernel s' = wake_up K d (st_kernel s) \<and> st_ldata s' = st_ldata s"
    if "pd_wf s" "epoll_inv s" "st_loops s l = Some lp" "st_ldata s (l_platform_data lp) = Some d" for s lp x
    using that(1-3)
  proof (cases rule: epl.async_send_step [where K = K and U = U and d = x])
    case (1 r s' e)
    have ok: "mutex_ready lp s" "l \<noteq> NULL" "l_ops lp \<noteq> None"
      using pd_wf_loop [OF that(1,3)] by (simp_all add: loop_ok_def)
    have d: "l_platform_data lp \<noteq> NULL" by (rule epoll_inv_loop [OF that(2,3)])
    let ?s = "s\<lparr>st_loops := (st_loops s)(l \<mapsto> lp\<lparr>l_async_data := x\<rparr>)\<rparr>"
    from 1(1) have send: "epoll_async_send K l x ?s = Some (r, s')"
      by (simp add: async_send_eq [OF that(3) ok, of "pd_platform_epoll K U"])
    have "st_kernel s' = wake_up K d (st_kernel s)" "st_ldata s' = st_ldata s"
      using epoll_send_wakes [OF _ ok(2) _ _ send, of "lp\<lparr>l_async_data := x\<rparr>" d] that(4) d by simp_all
    moreover have "pd_loop_get_async_data l s' = Some (x, s')"
      using pd_loop_get_async_data_eq [OF 1(4) _ ok(2)] pd_wf_loop [OF 1(2,4)] by (simp add: loop_ok_def)
    ultimately show ?thesis using 1 by blast
  qed
  from one [OF assms, of x] obtain r1 s1 e where
    s1: "pd_loop_async_send (pd_platform_epoll K U) l x s = Some (r1, s1)" "pd_wf s1" "epoll_inv s1"
      "st_loops s1 l = Some (lp\<lparr>l_async_data := x, l_system_error := e\<rparr>)"
      "pd_loop_get_async_data l s1 = Some (x, s1)" "st_kernel s1 = wake_up K d (st_kernel s)" "st_ldata s1 = st_ldata s"
    by blast
  from one [OF s1(2-4), of y] s1 assms(4) show ?thesis by (simp, blast)
qed

theorem epoll_async_last_wins_witness:
  "\<exists>r1 s1 r2 s2. pd_loop_async_send (pd_platform_epoll ref_linux ex_quiet) 1 77 ex_state = Some (r1, s1) \<and>
    pd_loop_async_send (pd_platform_epoll ref_linux ex_quiet) 1 78 s1 = Some (r2, s2) \<and>
    pd_loop_get_async_data 1 s2 = Some (78, s2)"
  using epoll_async_last_wins [of ex_state 1 ex_loop ex_data ref_linux ex_quiet 77 78] by auto

end
