(* ===== verification/Pd_Pointers.thy ===== *)
theory Pd_Pointers
  imports Pd_Loop
begin

text \<open>
  The pointers to watchers that the kernel holds. A backend gives the kernel the address of
  a watcher and gets it back with an event, so a watcher must not be freed while the kernel
  still names it. \<open>pointer_backend\<close> states what a backend has to guarantee for that, and
  the operations of \<^verbatim>\<open>src/watcher.c\<close> are shown to keep it.
\<close>

section \<open>The contract\<close>

text \<open>What a backend's link between kernel and watchers may depend on.\<close>

definition watcher_key :: "('ld, 'wd, 'td, 'k) pd_state \<Rightarrow> addr \<Rightarrow> (addr \<times> int \<times> pd_event) option" where
  "watcher_key s w = map_option (\<lambda>x. (w_loop x, w_fd x, w_events x)) (st_watchers s w)"

definition same_link :: "('ld, 'wd, 'td, 'k) pd_state \<Rightarrow> ('ld, 'wd, 'td, 'k) pd_state \<Rightarrow> bool" where
  "same_link s s' \<longleftrightarrow> loop_pdata s' = loop_pdata s \<and> watcher_pdata s' \<subseteq>\<^sub>m watcher_pdata s \<and>
     st_ldata s' = st_ldata s \<and> st_wdata s' = st_wdata s \<and> st_kernel s' = st_kernel s"

lemma same_link_refl [simp]: "same_link s s"
  by (simp add: same_link_def)

lemma same_link_trans: "same_link a b \<Longrightarrow> same_link b c \<Longrightarrow> same_link a c"
  by (auto simp: same_link_def intro: map_le_trans)

text \<open>
  \<open>named s w\<close>: the kernel may report an event with the address \<open>w\<close>. \<open>linv\<close> is the backend's
  link invariant. \<open>can_reg\<close> and \<open>can_upd\<close> are what it asks of the caller of a registration
  and of an update.
\<close>

locale pointer_backend = watcher_backend P reg unreg upd binv
  for P :: "(('ld, 'wd, 'td, 'k) pd_state, 'z) pd_watcher_ops_scheme" and reg unreg upd binv +
  fixes linv :: "('ld, 'wd, 'td, 'k) pd_state \<Rightarrow> bool"
    and named :: "('ld, 'wd, 'td, 'k) pd_state \<Rightarrow> addr \<Rightarrow> bool"
    and can_reg :: "addr \<Rightarrow> int \<Rightarrow> pd_event \<Rightarrow> ('ld, 'wd, 'td, 'k) pd_state \<Rightarrow> bool"
    and can_upd :: "addr \<Rightarrow> pd_event \<Rightarrow> ('ld, 'wd, 'td, 'k) pd_state \<Rightarrow> bool"
  assumes named_live: "linv s \<Longrightarrow> named s w \<Longrightarrow> st_watchers s w \<noteq> None"
    and linv_stable: "linv s \<Longrightarrow> same_link s s' \<Longrightarrow>
      (\<And>v. named s v \<Longrightarrow> watcher_key s' v = watcher_key s v) \<Longrightarrow> linv s'"
    and named_stable: "same_link s s' \<Longrightarrow> named s' w = named s w"
    and can_reg_stable: "same_link s s' \<Longrightarrow> can_reg l fd ev s \<Longrightarrow> can_reg l fd ev s'"
    and reg_link: "pd_wf s \<Longrightarrow> binv s \<Longrightarrow> linv s \<Longrightarrow> st_watchers s w = Some wt \<Longrightarrow> w_loop wt \<noteq> NULL \<Longrightarrow>
      can_reg (w_loop wt) (w_fd wt) (w_events wt) s \<Longrightarrow> reg (w_loop wt) w s = Some (r, s') \<Longrightarrow>
      linv s' \<and> (r \<noteq> PD_OK \<longrightarrow> named s' w \<longrightarrow> named s w)"
    and unreg_link: "pd_wf s \<Longrightarrow> binv s \<Longrightarrow> linv s \<Longrightarrow> st_watchers s w = Some wt \<Longrightarrow> w_loop wt \<noteq> NULL \<Longrightarrow>
      unreg w s = Some (r, s') \<Longrightarrow> linv s' \<and> \<not> named s' w"
    and upd_link: "pd_wf s \<Longrightarrow> binv s \<Longrightarrow> linv s \<Longrightarrow> st_watchers s w = Some wt \<Longrightarrow> w_loop wt \<noteq> NULL \<Longrightarrow>
      can_upd w ev s \<Longrightarrow>
      upd w ev (s\<lparr>st_watchers := (st_watchers s)(w \<mapsto> wt\<lparr>w_events := ev\<rparr>)\<rparr>) = Some (r, s') \<Longrightarrow> linv s'"

section \<open>The operations keep the link\<close>

lemma same_link_watcher:
  assumes "st_watchers s w = Some x" "w_platform_data y = w_platform_data x \<or> w_platform_data y = NULL"
  shows "same_link s (s\<lparr>st_watchers := (st_watchers s)(w \<mapsto> y)\<rparr>)"
  using assms by (auto simp: same_link_def loop_pdata_def watcher_pdata_def map_le_def dom_def split: if_splits)

lemma same_link_new:
  assumes "st_watchers s w = None" "w_platform_data y = NULL"
  shows "same_link s (s\<lparr>st_watchers := (st_watchers s)(w \<mapsto> y)\<rparr>)"
  using assms by (auto simp: same_link_def loop_pdata_def watcher_pdata_def map_le_def dom_def split: if_splits)

lemma same_link_free: "same_link s (s\<lparr>st_watchers := (st_watchers s)(w := None)\<rparr>)"
  by (auto simp: same_link_def loop_pdata_def watcher_pdata_def map_le_def dom_def split: if_splits)

lemma same_link_alloc: "upd_alloc s s1 \<Longrightarrow> same_link s s1"
  by (auto simp: same_link_def loop_pdata_def watcher_pdata_def upd_alloc_frame map_le_def)

lemma same_link_loop:
  assumes "st_loops s l = Some lp" "l_platform_data lp' = l_platform_data lp"
  shows "same_link s (s\<lparr>st_loops := (st_loops s)(l \<mapsto> lp')\<rparr>)"
  using assms by (auto simp: same_link_def loop_pdata_def watcher_pdata_def map_le_def fun_eq_iff)

context pointer_backend begin

lemma linv_watcher:
  assumes "linv s" "st_watchers s w = Some x" "w_platform_data y = w_platform_data x"
    and "w_loop y = w_loop x \<and> w_fd y = w_fd x \<and> w_events y = w_events x"
  shows "linv (s\<lparr>st_watchers := (st_watchers s)(w \<mapsto> y)\<rparr>)"
  using assms(1)
proof (rule linv_stable)
  show "same_link s (s\<lparr>st_watchers := (st_watchers s)(w \<mapsto> y)\<rparr>)"
    using same_link_watcher [OF assms(2), of y] assms(3) by simp
qed (use assms(2,4) in \<open>simp add: watcher_key_def\<close>)

lemma linv_same:
  assumes "linv s" "same_link s s'" "st_watchers s' = st_watchers s"
  shows "linv s'"
  using assms(1,2) by (rule linv_stable) (simp add: watcher_key_def assms(3))

text \<open>Putting a watcher into its loop's list and taking it out.\<close>

lemma add_link:
  assumes "pd_wf s" "st_loops s l = Some lp" "w \<noteq> NULL" "pd_loop_add_watcher l w s = Some (r, s')"
  shows "same_link s s' \<and> st_watchers s' = st_watchers s"
proof -
  from pd_wf_loop [OF assms(1,2)] have ok: "mutex_ready lp s" "wf_array lp" "l \<noteq> NULL"
    by (auto simp: loop_ok_def)
  from assms(2) ok(1,2,3) assms(3) show ?thesis
  proof (cases rule: add_watcher_cases)
    case (ok lp' s1)
    have "l_platform_data lp' = l_platform_data lp" using ok(4) by (auto elim!: upd_arrayE)
    then have "same_link s1 (s1\<lparr>st_loops := (st_loops s1)(l \<mapsto> lp')\<rparr>)"
      using assms(2) ok(5) by (intro same_link_loop) (simp_all add: upd_alloc_frame)
    then show ?thesis
      using ok(1,5) assms(4) same_link_trans [OF same_link_alloc [OF ok(5)]] by (simp add: upd_alloc_frame)
  next
    case (no_memory s1)
    then show ?thesis using assms(4) by (simp add: same_link_alloc upd_alloc_frame)
  qed
qed

lemma remove_link:
  assumes "pd_wf s" "st_loops s l = Some lp" "w \<noteq> NULL" "pd_loop_remove_watcher l w s = Some (r, s')"
  shows "same_link s s' \<and> st_watchers s' = st_watchers s"
proof -
  from pd_wf_loop [OF assms(1,2)] have ok: "mutex_ready lp s" "wf_array lp" "l \<noteq> NULL"
    by (auto simp: loop_ok_def)
  obtain r' lp' where r: "pd_loop_remove_watcher l w s = Some (r', s\<lparr>st_loops := (st_loops s)(l \<mapsto> lp')\<rparr>)"
    "upd_array lp lp'" by (rule remove_watcher_step [OF assms(2) ok assms(3)]) blast
  have "l_platform_data lp' = l_platform_data lp" using r(2) by (auto elim!: upd_arrayE)
  then show ?thesis using same_link_loop [OF assms(2), of lp'] r(1) assms(4) by simp
qed

lemma stop_link:
  assumes wf: "pd_wf s" "binv s" "linv s" and w: "st_watchers s w = Some wt" "w_loop wt \<noteq> NULL"
    and run: "pd_watcher_stop P w s = Some (r, s')"
  shows "linv s' \<and> (w_active wt \<longrightarrow> \<not> named s' w)"
proof (cases "w_active wt")
  case False
  then have "s' = s" using run w by (auto simp: pd_watcher_stop_def split: if_splits)
  then show ?thesis using wf(3) False by simp
next
  case True
  let ?x = "wt\<lparr>w_active := False\<rparr>" and ?s1 = "s\<lparr>st_watchers := (st_watchers s)(w \<mapsto> wt\<lparr>w_active := False\<rparr>)\<rparr>"
  have nz: "w \<noteq> NULL" using pd_wf_watcher [OF wf(1) w(1)] by (simp add: watcher_ok_def)
  have s1: "pd_wf ?s1" "binv ?s1" using write_status [OF wf(1,2) w(1), of ?x] by simp_all
  have l1: "linv ?s1" using linv_watcher [OF wf(3) w(1), of ?x] by simp
  obtain q s2 where s2: "unreg w ?s1 = Some (q, s2)" "only_watcher upd_pdata w ?s1 s2"
    using unreg_step [OF s1, of w ?x] w(2) by auto
  have l2: "linv s2" "\<not> named s2 w" using unreg_link [OF s1 l1, of w ?x] w(2) s2(1) by simp_all
  obtain y where y: "st_watchers s2 w = Some y" using s2(2) by (elim only_watcherE)
  obtain lp where "st_loops s (w_loop wt) = Some lp" "loop_op op_watcher_unregister P lp = Some unreg"
    using loop_after_write [OF wf(1) w] by blast
  then have "s' = s2 \<or> s' = s2\<lparr>st_watchers := (st_watchers s2)(w \<mapsto> y\<lparr>w_active := True\<rparr>)\<rparr>"
    using run nz w True s2(1) y by (auto simp: pd_watcher_stop_def heap_write_def split: if_splits)
  moreover have "linv (s2\<lparr>st_watchers := (st_watchers s2)(w \<mapsto> y\<lparr>w_active := True\<rparr>)\<rparr>)"
    using linv_watcher [OF l2(1) y, of "y\<lparr>w_active := True\<rparr>"] by simp
  moreover have "\<not> named (s2\<lparr>st_watchers := (st_watchers s2)(w \<mapsto> y\<lparr>w_active := True\<rparr>)\<rparr>) w"
    using l2(2) named_stable [OF same_link_watcher [OF y, of "y\<lparr>w_active := True\<rparr>"]] by simp
  ultimately show ?thesis using l2 by (elim disjE) simp_all
qed

lemma start_link:
  assumes wf: "pd_wf s" "binv s" "linv s" and w: "st_watchers s w = Some wt" "w_loop wt \<noteq> NULL"
    and can: "can_reg (w_loop wt) (w_fd wt) (w_events wt) s"
    and run: "pd_watcher_start P w s = Some (r, s')"
  shows "linv s'"
proof (cases "w_active wt")
  case True
  then have "s' = s" using run w by (auto simp: pd_watcher_start_def split: if_splits)
  then show ?thesis using wf(3) by simp
next
  case False
  let ?x = "wt\<lparr>w_active := True\<rparr>" and ?s1 = "s\<lparr>st_watchers := (st_watchers s)(w \<mapsto> wt\<lparr>w_active := True\<rparr>)\<rparr>"
  have nz: "w \<noteq> NULL" using pd_wf_watcher [OF wf(1) w(1)] by (simp add: watcher_ok_def)
  have s1: "pd_wf ?s1" "binv ?s1" using write_status [OF wf(1,2) w(1), of ?x] by simp_all
  have l1: "linv ?s1" using linv_watcher [OF wf(3) w(1), of ?x] by simp
  have can1: "can_reg (w_loop wt) (w_fd wt) (w_events wt) ?s1"
    by (rule can_reg_stable [OF same_link_watcher [OF w(1)] can]) simp
  obtain q s2 where s2: "reg (w_loop wt) w ?s1 = Some (q, s2)" "only_watcher upd_pdata w ?s1 s2"
    using reg_step [OF s1, of w ?x] w(2) by auto
  have l2: "linv s2" using reg_link [OF s1 l1, of w ?x] w(2) s2(1) can1 by simp
  obtain y where y: "st_watchers s2 w = Some y" using s2(2) by (elim only_watcherE)
  obtain lp where "st_loops s (w_loop wt) = Some lp" "loop_op op_watcher_register P lp = Some reg"
    using loop_after_write [OF wf(1) w] by blast
  then have "s' = s2 \<or> s' = s2\<lparr>st_watchers := (st_watchers s2)(w \<mapsto> y\<lparr>w_active := False\<rparr>)\<rparr>"
    using run nz w False s2(1) y by (auto simp: pd_watcher_start_def heap_write_def split: if_splits)
  moreover have "linv (s2\<lparr>st_watchers := (st_watchers s2)(w \<mapsto> y\<lparr>w_active := False\<rparr>)\<rparr>)"
    using linv_watcher [OF l2 y, of "y\<lparr>w_active := False\<rparr>"] by simp
  ultimately show ?thesis using l2 by (elim disjE) simp_all
qed

lemma update_link:
  assumes wf: "pd_wf s" "binv s" "linv s" and w: "st_watchers s w = Some wt" "w_loop wt \<noteq> NULL"
    and can: "can_upd w ev s" and run: "pd_watcher_update P w ev s = Some (r, s')"
  shows "linv s'"
proof (cases "w_active wt")
  case False
  then have "s' = s" using run w by (auto simp: pd_watcher_update_def split: if_splits)
  then show ?thesis using wf(3) by simp
next
  case True
  let ?s1 = "s\<lparr>st_watchers := (st_watchers s)(w \<mapsto> wt\<lparr>w_events := ev\<rparr>)\<rparr>"
  have nz: "w \<noteq> NULL" using pd_wf_watcher [OF wf(1) w(1)] by (simp add: watcher_ok_def)
  obtain lp where "st_loops s (w_loop wt) = Some lp" "loop_op op_watcher_update P lp = Some upd"
    using loop_after_write [OF wf(1) w] by blast
  then have "upd w ev ?s1 = Some (r, s')"
    using run nz w True by (auto simp: pd_watcher_update_def heap_write_def)
  from upd_link [OF wf w can this] show ?thesis .
qed

lemma cleanup_link:
  assumes wf: "pd_wf s" "binv s" "linv s" and w: "st_watchers s w = Some wt" "w_loop wt \<noteq> NULL"
    and run: "pd_watcher_cleanup P w s = Some s'"
  shows "linv s' \<and> \<not> named s' w"
proof -
  have nz: "w \<noteq> NULL" using pd_wf_watcher [OF wf(1) w(1)] by (simp add: watcher_ok_def)
  obtain r s1 q where s1: "unreg w s = Some (r, s1)" "pd_loop_remove_watcher (w_loop wt) w s1 = Some (q, s')"
    by (rule cleanup_step [OF wf(1,2) w]) (use run in auto)
  have l1: "linv s1" "\<not> named s1 w" using unreg_link [OF wf w s1(1)] by simp_all
  have fr: "only_watcher upd_pdata w s s1" using unreg_step [OF wf(1,2) w] s1(1) by auto
  obtain lp where lp: "st_loops s (w_loop wt) = Some lp" by (rule pd_wf_loop_of [OF wf(1) w])
  obtain lp1 where lp1: "st_loops s1 (w_loop wt) = Some lp1"
    using lists_become_D [OF lists_become_only_watcher [OF fr] lp] .
  have "same_link s1 s'" "st_watchers s' = st_watchers s1"
    using remove_link [OF pd_wf_pdata [OF wf(1) fr] lp1 nz s1(2)] by simp_all
  then show ?thesis using l1 linv_same named_stable by blast
qed

lemma free_link:
  assumes "linv s" "\<not> named s w" "free_watcher w s = Some s'"
  shows "linv s'"
proof (cases "w = NULL")
  case True
  then show ?thesis using assms by (simp add: heap_free_def)
next
  case False
  then have s': "s' = s\<lparr>st_watchers := (st_watchers s)(w := None)\<rparr>"
    using assms(3) by (auto simp: heap_free_def split: if_splits)
  show ?thesis
    unfolding s' using assms(1) same_link_free
    by (rule linv_stable) (use assms(2) in \<open>auto simp: watcher_key_def\<close>)
qed

lemma destroy_link:
  assumes wf: "pd_wf s" "binv s" "linv s" and w: "st_watchers s w = Some wt" "w_loop wt \<noteq> NULL"
    and run: "pd_watcher_destroy P w s = Some s'"
  shows "linv s'"
proof -
  have nz: "w \<noteq> NULL" using pd_wf_watcher [OF wf(1) w(1)] by (simp add: watcher_ok_def)
  obtain r s1 y where s1: "pd_watcher_stop P w s = Some (r, s1)" "st_watchers s1 w = Some y"
    "only_watcher upd_status w s s1" "pd_wf s1" "binv s1"
    by (rule stop_step [OF wf(1,2) w])
  have l1: "linv s1" using stop_link [OF wf w s1(1)] by simp
  have "w_loop y = w_loop wt" using s1(2,3) w(1) by (auto elim!: only_watcherE dest: upd_status_loop)
  then have yl: "w_loop y \<noteq> NULL" using w(2) by simp
  obtain s2 where s2: "pd_watcher_cleanup P w s1 = Some s2" "free_watcher w s2 = Some s'"
    using run nz s1(1) by (auto simp: pd_watcher_destroy_def bind_Some_iff)
  from cleanup_link [OF s1(4,5) l1 s1(2) yl s2(1)] show ?thesis
    using free_link s2(2) by blast
qed

text \<open>A new watcher is not named, and after a creation that fails it is not named either.\<close>

lemma init_link:
  assumes wf: "pd_wf s" "binv s" "linv s" and w: "st_watchers s w = Some zero_watcher" "\<not> named s w"
    and lp: "st_loops s l = Some lp" and un: "\<And>k kp. st_loops s k = Some kp \<Longrightarrow> w \<notin> set (watcher_list kp)"
    and can: "can_reg l fd ev s" and run: "pd_watcher_init P w l fd ev cb ud s = Some (r, s')"
  shows "linv s' \<and> (r \<noteq> PD_OK \<longrightarrow> \<not> named s' w)"
proof -
  let ?x = "new_watcher l fd ev cb ud" and ?s1 = "s\<lparr>st_watchers := (st_watchers s)(w \<mapsto> new_watcher l fd ev cb ud)\<rparr>"
  have nz: "w \<noteq> NULL" using pd_wf_watcher [OF wf(1) w(1)] by (simp add: watcher_ok_def)
  have l: "l \<noteq> NULL" using pd_wf_loop [OF wf(1) lp] by (simp add: loop_ok_def)
  have "pd_wf (s\<lparr>st_watchers := (st_watchers s)(w := None)\<rparr>)" using wf(1) un by (rule pd_wf_free_watcher)
  from pd_wf_new_watcher [OF this, of w ?x] have s1: "pd_wf ?s1" using nz lp by simp
  have b1: "binv ?s1"
    using wf(2) by (rule binv_stable)
      (use w(1) in \<open>auto simp: same_pdata_def loop_pdata_def watcher_pdata_def map_le_def dom_def zero_watcher_def\<close>)
  have sl: "same_link s ?s1" using same_link_watcher [OF w(1), of ?x] by simp
  have l1: "linv ?s1"
    using wf(3) sl by (rule linv_stable) (use w(2) in \<open>auto simp: watcher_key_def\<close>)
  have n1: "\<not> named ?s1 w" using w(2) named_stable [OF sl] by simp
  obtain q s2 where s2: "reg l w ?s1 = Some (q, s2)" "only_watcher upd_pdata w ?s1 s2" "binv s2"
    using reg_step [OF s1 b1, of w ?x] l by auto
  have l2: "linv s2" "q \<noteq> PD_OK \<longrightarrow> \<not> named s2 w"
    using reg_link [OF s1 b1 l1, of w ?x] l s2(1) can_reg_stable [OF sl can] n1 by auto
  obtain y where y: "st_watchers s2 w = Some y" "upd_pdata ?x y" using s2(2) by (elim only_watcherE) auto
  have wf2: "pd_wf s2" by (rule pd_wf_pdata [OF s1 s2(2)])
  have slot: "loop_op op_watcher_register P lp = Some reg"
    using loop_slots [OF pd_wf_loop [OF wf(1) lp]] by simp
  have wr: "write_watcher w (\<lambda>w. w\<lparr>w_fd := fd, w_events := ev, w_callback := cb,
              w_user_data := ud, w_loop := l, w_active := True, w_ref_count := 1\<rparr>) s = Some ?s1"
    using w(1) by (simp add: heap_write_def new_watcher_def)
  show ?thesis
  proof (cases "q = PD_OK")
    case False
    then have "r = q" "s' = s2" using run nz l lp slot s2(1) by (simp_all add: pd_watcher_init_def wr)
    then show ?thesis using l2 False by simp
  next
    case True
    obtain lp2 where lp2: "st_loops s2 l = Some lp2"
      using lists_become_D [OF lists_become_only_watcher [OF s2(2)], of l lp] lp by auto
    obtain q3 s3 where s3: "pd_loop_add_watcher l w s2 = Some (q3, s3)"
      using run nz l lp slot s2(1) True by (auto simp: pd_watcher_init_def wr bind_Some_iff)
    have same3: "same_link s2 s3" "st_watchers s3 = st_watchers s2" using add_link [OF wf2 lp2 nz s3] by simp_all
    have l3: "linv s3" by (rule linv_same [OF l2(1) same3])
    show ?thesis
    proof (cases "q3 = PD_OK")
      case ok: True
      then have "r = PD_OK" "s' = s3" using run nz l lp slot s2(1) s3 True by (simp_all add: pd_watcher_init_def wr)
      then show ?thesis using l3 by simp
    next
      case False
      have new: "w \<notin> set (watcher_list lp2)"
        by (rule lists_become_back [OF lists_become_only_watcher [OF s2(2)] lp2]) (use un in auto)
      have yl: "w_loop y = l" using upd_pdata_loop [OF y(2)] by simp
      obtain q3' s3' where "pd_loop_add_watcher l w s2 = Some (q3', s3')" and wf3: "pd_wf s3'" "binv s3'"
        and lists3: "lists_become (\<lambda>k ws. if k = l \<and> q3' = PD_OK then ws @ [w] else ws) s2 s3'"
        by (rule add_step [OF wf2 s2(3) y(1) yl l lp2 new])
      then have eq3: "s3' = s3" "q3' = q3" using s3 by simp_all
      obtain lp3 where lp3: "st_loops s3 l = Some lp3" using lists_become_D [OF lists3 lp2] eq3 by auto
      have slot3: "loop_op op_watcher_unregister P lp3 = Some unreg"
        using loop_slots [OF pd_wf_loop [OF wf3(1)], of l lp3] lp3 eq3 by simp
      obtain q4 where s4: "unreg w s3 = Some (q4, s')"
        using run nz l lp slot s2(1) s3 True False lp3 slot3
        by (auto simp: pd_watcher_init_def wr bind_Some_iff)
      have "st_watchers s3 w = Some y" using same3(2) y(1) by simp
      from unreg_link [OF wf3 [unfolded eq3] l3 this _ s4] yl l show ?thesis by simp
    qed
  qed
qed

lemma create_link:
  assumes wf: "pd_wf s" "binv s" "linv s" and lp: "st_loops s l = Some lp"
    and can: "can_reg l fd ev s" and run: "pd_watcher_create P l fd ev cb ud s = Some (v, s')"
  shows "linv s'"
proof -
  have l: "l \<noteq> NULL" using pd_wf_loop [OF wf(1) lp] by (simp add: loop_ok_def)
  show ?thesis
  proof (cases rule: calloc_watcher_cases [of s])
    case (null s1)
    then have "s' = s1" using run l by (simp add: pd_watcher_create_def)
    then show ?thesis
      using linv_same [OF wf(3) same_link_alloc [OF null(2)]] null(2) by (simp add: upd_alloc_frame)
  next
    case (some w s1)
    let ?s2 = "s1\<lparr>st_watchers := (st_watchers s1)(w \<mapsto> zero_watcher)\<rparr>"
    have fr: "st_loops s1 = st_loops s" "st_watchers s1 = st_watchers s"
      using some(4) by (simp_all add: upd_alloc_frame)
    have s1: "pd_wf s1" "binv s1" using pd_wf_alloc [OF wf(1) some(4)] binv_alloc [OF wf(2) some(4)] .
    have s2: "pd_wf ?s2"
      using pd_wf_new_watcher [OF s1(1), of w zero_watcher] some(2,3) fr by (simp add: zero_watcher_def)
    have b2: "binv ?s2"
      using s1(2) by (rule binv_stable)
        (use some(3) fr in \<open>auto simp: same_pdata_def loop_pdata_def watcher_pdata_def map_le_def dom_def zero_watcher_def\<close>)
    have w1: "st_watchers s1 w = None" "w_platform_data zero_watcher = NULL"
      using some(3) fr(2) by (simp_all add: zero_watcher_def)
    have sl: "same_link s ?s2"
      using same_link_alloc [OF some(4)] same_link_new [OF w1] by (rule same_link_trans)
    have nw: "\<not> named s w" using named_live [OF wf(3)] some(3) by blast
    have l2: "linv ?s2"
      using wf(3) sl by (rule linv_stable) (use nw fr in \<open>auto simp: watcher_key_def\<close>)
    have n2: "\<not> named ?s2 w" using nw named_stable [OF sl] by simp
    have un: "w \<notin> set (watcher_list kp)" if "st_loops ?s2 k = Some kp" for k kp
      using pd_wf_loop [OF wf(1), of k kp] that some(3) fr by (auto simp: loop_ok_def)
    have w2: "st_watchers ?s2 w = Some zero_watcher" and lp2: "st_loops ?s2 l = Some lp"
      using lp fr by simp_all
    obtain r s3 where s3: "pd_watcher_init P w l fd ev cb ud ?s2 = Some (r, s3)"
      "if r = PD_OK then s' = s3 else free_watcher w s3 = Some s'"
      using run l some(1,2) fr(2) by (auto simp: pd_watcher_create_def bind_Some_iff split: if_splits)
    have "linv s3 \<and> (r \<noteq> PD_OK \<longrightarrow> \<not> named s3 w)"
      by (rule init_link [OF s2 b2 l2 w2 n2 lp2 un can_reg_stable [OF sl can] s3(1)])
    then show ?thesis using s3(2) free_link [of s3 w s'] by (simp split: if_splits)
  qed
qed

text \<open>
  A property of the state that registration, unregistration and update keep, and that depends
  on nothing else a generic operation changes, may be added to the link invariant: all lemmas
  of this locale then carry it along.
\<close>

lemma strengthen_link:
  assumes same: "\<And>s s'. same_link s s' \<Longrightarrow> J s \<Longrightarrow> J s'"
    and ops: "\<And>s w wt r s'. pd_wf s \<Longrightarrow> binv s \<Longrightarrow> linv s \<Longrightarrow> st_watchers s w = Some wt \<Longrightarrow> w_loop wt \<noteq> NULL \<Longrightarrow> J s \<Longrightarrow>
      reg (w_loop wt) w s = Some (r, s') \<or> unreg w s = Some (r, s') \<Longrightarrow> J s'"
    and upd: "\<And>s w wt ev r s'. pd_wf s \<Longrightarrow> binv s \<Longrightarrow> linv s \<Longrightarrow> st_watchers s w = Some wt \<Longrightarrow> w_loop wt \<noteq> NULL \<Longrightarrow> J s \<Longrightarrow>
      upd w ev (s\<lparr>st_watchers := (st_watchers s)(w \<mapsto> wt\<lparr>w_events := ev\<rparr>)\<rparr>) = Some (r, s') \<Longrightarrow> J s'"
  shows "pointer_backend P reg unreg upd binv (\<lambda>s. linv s \<and> J s) named can_reg can_upd"
proof (intro pointer_backend.intro pointer_backend_axioms.intro watcher_backend_axioms)
  fix s s' w wt r
  assume s: "pd_wf s" "binv s" "linv s \<and> J s" "st_watchers s w = Some wt" "w_loop wt \<noteq> NULL"
  show "(linv s' \<and> J s') \<and> (r \<noteq> PD_OK \<longrightarrow> named s' w \<longrightarrow> named s w)"
    if "can_reg (w_loop wt) (w_fd wt) (w_events wt) s" "reg (w_loop wt) w s = Some (r, s')"
    using reg_link [OF s(1,2) _ s(4,5) that] ops [OF s(1,2) _ s(4,5), of r s'] s(3) that(2) by blast
  show "(linv s' \<and> J s') \<and> \<not> named s' w" if "unreg w s = Some (r, s')"
    using unreg_link [OF s(1,2) _ s(4,5) that] ops [OF s(1,2) _ s(4,5), of r s'] s(3) that by blast
  show "linv s' \<and> J s'" if "can_upd w ev s"
    "upd w ev (s\<lparr>st_watchers := (st_watchers s)(w \<mapsto> wt\<lparr>w_events := ev\<rparr>)\<rparr>) = Some (r, s')" for ev
    using upd_link [OF s(1,2) _ s(4,5) that] upd [OF s(1,2) _ s(4,5) _ that(2)] s(3) by blast
qed (use named_live named_stable can_reg_stable linv_stable same in blast)+

end

section \<open>Any sequence of calls\<close>

text \<open>
  The calls a program may make, in any order and from any callback, and what the kernel may
  do by itself: \<open>env k k'\<close> is a change of the kernel that the program did not ask the
  library for. The guards are the two obligations of the caller.
\<close>

inductive client_step ::
  "(('ld, 'wd, 'td, 'k) pd_state, 'z) pd_watcher_ops_scheme \<Rightarrow>
   (addr \<Rightarrow> int \<Rightarrow> pd_event \<Rightarrow> ('ld, 'wd, 'td, 'k) pd_state \<Rightarrow> bool) \<Rightarrow>
   (addr \<Rightarrow> pd_event \<Rightarrow> ('ld, 'wd, 'td, 'k) pd_state \<Rightarrow> bool) \<Rightarrow> ('k \<Rightarrow> 'k \<Rightarrow> bool) \<Rightarrow>
   ('ld, 'wd, 'td, 'k) pd_state \<Rightarrow> ('ld, 'wd, 'td, 'k) pd_state \<Rightarrow> bool"
  for P can_reg can_upd env where
  create: "st_loops s l \<noteq> None \<Longrightarrow> can_reg l fd ev s \<Longrightarrow>
    pd_watcher_create P l fd ev cb ud s = Some (w, s') \<Longrightarrow> client_step P can_reg can_upd env s s'"
| start: "st_watchers s w = Some wt \<Longrightarrow> w_loop wt \<noteq> NULL \<Longrightarrow> can_reg (w_loop wt) (w_fd wt) (w_events wt) s \<Longrightarrow>
    pd_watcher_start P w s = Some (r, s') \<Longrightarrow> client_step P can_reg can_upd env s s'"
| stop: "st_watchers s w = Some wt \<Longrightarrow> w_loop wt \<noteq> NULL \<Longrightarrow>
    pd_watcher_stop P w s = Some (r, s') \<Longrightarrow> client_step P can_reg can_upd env s s'"
| update: "st_watchers s w = Some wt \<Longrightarrow> w_loop wt \<noteq> NULL \<Longrightarrow> can_upd w ev s \<Longrightarrow>
    pd_watcher_update P w ev s = Some (r, s') \<Longrightarrow> client_step P can_reg can_upd env s s'"
| destroy: "st_watchers s w = Some wt \<Longrightarrow> w_loop wt \<noteq> NULL \<Longrightarrow>
    pd_watcher_destroy P w s = Some s' \<Longrightarrow> client_step P can_reg can_upd env s s'"
| kernel: "env (st_kernel s) k \<Longrightarrow> client_step P can_reg can_upd env s (s\<lparr>st_kernel := k\<rparr>)"

context pointer_backend begin

lemma client_step_link:
  assumes "client_step P can_reg can_upd env s s'" and wf: "pd_wf s" "binv s" "linv s"
    and env: "\<And>s k. pd_wf s \<Longrightarrow> binv s \<Longrightarrow> linv s \<Longrightarrow> env (st_kernel s) k \<Longrightarrow>
      binv (s\<lparr>st_kernel := k\<rparr>) \<and> linv (s\<lparr>st_kernel := k\<rparr>)"
  shows "pd_wf s' \<and> binv s' \<and> linv s'"
  using assms(1)
proof cases
  case (create l fd ev cb ud w)
  then obtain lp where lp: "st_loops s l = Some lp" by blast
  have "pd_wf s' \<and> binv s'" by (rule create_step [OF wf(1,2) lp, of fd ev cb ud]) (use create(3) in auto)
  then show ?thesis using create_link [OF wf lp create(2,3)] by simp
next
  case (start w wt r)
  have "pd_wf s' \<and> binv s'" by (rule start_step [OF wf(1,2) start(1,2)]) (use start(4) in auto)
  then show ?thesis using start_link [OF wf start] by simp
next
  case (stop w wt r)
  have "pd_wf s' \<and> binv s'" by (rule stop_step [OF wf(1,2) stop(1,2)]) (use stop(3) in auto)
  then show ?thesis using stop_link [OF wf stop] by simp
next
  case (update w wt ev r)
  have "pd_wf s' \<and> binv s'" by (rule update_step [OF wf(1,2) update(1,2), of ev]) (use update(4) in auto)
  then show ?thesis using update_link [OF wf update] by simp
next
  case (destroy w wt)
  have "pd_wf s' \<and> binv s'" by (rule destroy_step [OF wf(1,2) destroy(1,2)]) (use destroy(3) in auto)
  then show ?thesis using destroy_link [OF wf destroy] by simp
next
  case (kernel k)
  have "pd_wf (s\<lparr>st_kernel := k\<rparr>)" using wf(1) pd_wf_loops_undo [of "s\<lparr>st_kernel := k\<rparr>" s] by simp
  then show ?thesis using env [OF wf kernel(2)] kernel(1) by simp
qed

lemma reachable_link:
  assumes "(client_step P can_reg can_upd env)\<^sup>*\<^sup>* s s'" and "pd_wf s" "binv s" "linv s"
    and env: "\<And>s k. pd_wf s \<Longrightarrow> binv s \<Longrightarrow> linv s \<Longrightarrow> env (st_kernel s) k \<Longrightarrow>
      binv (s\<lparr>st_kernel := k\<rparr>) \<and> linv (s\<lparr>st_kernel := k\<rparr>)"
  shows "pd_wf s' \<and> binv s' \<and> linv s'"
  using assms(1)
proof induction
  case (step y z)
  then show ?case using client_step_link [OF step(2) _ _ _ env] by blast
qed (use assms(2-4) in simp)

end

end
