(* ===== verification/Pd_Epoll_Link.thy ===== *)
theory Pd_Epoll_Link
  imports Pd_Epoll_Loop Pd_Pointers
begin

text \<open>
  The epoll backend meets the contract of \<open>Pd_Pointers\<close>: on a kernel that keeps the promises
  of the manual pages, every entry of a loop's interest list is the loop's wake-up entry or
  names a live watcher of that loop, under that watcher's descriptor, for which the loop's
  table has a record.
\<close>

section \<open>The link invariant\<close>

definition loop_data :: "'k epoll_state \<Rightarrow> addr \<Rightarrow> pd_epoll_data option" where
  "loop_data s l = Option.bind (loop_pdata s l) (st_ldata s)"

definition watch_data :: "'k epoll_state \<Rightarrow> addr \<Rightarrow> pd_epoll_watcher_data option" where
  "watch_data s w = Option.bind (watcher_pdata s w) (st_wdata s)"

definition watch_fd :: "'k epoll_state \<Rightarrow> addr \<Rightarrow> (addr \<times> int) option" where
  "watch_fd s w = map_option (\<lambda>x. (w_loop x, w_fd x)) (st_watchers s w)"

definition entry_ok :: "'k epoll_state \<Rightarrow> addr \<Rightarrow> pd_epoll_data \<Rightarrow> int \<Rightarrow> epoll_event \<Rightarrow> bool" where
  "entry_ok s l d fd en \<longleftrightarrow> ee_data en = NULL \<or>
     watch_fd s (ee_data en) = Some (l, fd) \<and>
     \<lparr>reg_fd = fd, reg_watcher = ee_data en\<rparr> \<in> set (reg_list d)"

definition epoll_linked :: "('k \<Rightarrow> int \<Rightarrow> int \<Rightarrow> epoll_event option) \<Rightarrow> 'k epoll_state \<Rightarrow> bool" where
  "epoll_linked interest s \<longleftrightarrow>
     (\<forall>l d fd en. loop_data s l = Some d \<longrightarrow> interest (st_kernel s) (ed_epoll_fd d) fd = Some en \<longrightarrow> entry_ok s l d fd en) \<and>
     (\<forall>l l' d d'. loop_data s l = Some d \<longrightarrow> loop_data s l' = Some d' \<longrightarrow> ed_epoll_fd d = ed_epoll_fd d' \<longrightarrow> l = l') \<and>
     (\<forall>w x. watch_data s w = Some x \<longrightarrow> ee_data (ew_epoll_event x) = w)"

definition epoll_named :: "('k \<Rightarrow> int \<Rightarrow> int \<Rightarrow> epoll_event option) \<Rightarrow> 'k epoll_state \<Rightarrow> addr \<Rightarrow> bool" where
  "epoll_named interest s w \<longleftrightarrow> w \<noteq> NULL \<and>
     (\<exists>l d fd en. loop_data s l = Some d \<and> interest (st_kernel s) (ed_epoll_fd d) fd = Some en \<and> ee_data en = w)"

text \<open>The obligations of the caller: a free descriptor, and a watcher that owns its descriptor.\<close>

definition epoll_can_reg ::
  "('k \<Rightarrow> int \<Rightarrow> int \<Rightarrow> epoll_event option) \<Rightarrow> addr \<Rightarrow> int \<Rightarrow> pd_event \<Rightarrow> 'k epoll_state \<Rightarrow> bool" where
  "epoll_can_reg interest l fd ev s \<longleftrightarrow>
     (\<forall>d. loop_data s l = Some d \<longrightarrow> interest (st_kernel s) (ed_epoll_fd d) fd = None)"

definition epoll_can_upd :: "addr \<Rightarrow> pd_event \<Rightarrow> 'k epoll_state \<Rightarrow> bool" where
  "epoll_can_upd w ev s \<longleftrightarrow> (\<forall>wt d. st_watchers s w = Some wt \<longrightarrow> loop_data s (w_loop wt) = Some d \<longrightarrow>
     \<lparr>reg_fd = w_fd wt, reg_watcher = w\<rparr> \<in> set (reg_list d))"

lemma epoll_linkedI:
  assumes "\<And>l d fd en. loop_data s l = Some d \<Longrightarrow> interest (st_kernel s) (ed_epoll_fd d) fd = Some en \<Longrightarrow> entry_ok s l d fd en"
    and "\<And>l l' d d'. loop_data s l = Some d \<Longrightarrow> loop_data s l' = Some d' \<Longrightarrow> ed_epoll_fd d = ed_epoll_fd d' \<Longrightarrow> l = l'"
    and "\<And>w x. watch_data s w = Some x \<Longrightarrow> ee_data (ew_epoll_event x) = w"
  shows "epoll_linked interest s"
  using assms unfolding epoll_linked_def by blast

lemma epoll_linked_facts:
  assumes "epoll_linked interest s"
  shows epoll_linked_entry: "loop_data s l = Some d \<Longrightarrow> interest (st_kernel s) (ed_epoll_fd d) fd = Some en \<Longrightarrow> entry_ok s l d fd en"
    and epoll_linked_inj: "loop_data s l = Some d \<Longrightarrow> loop_data s l' = Some d' \<Longrightarrow> ed_epoll_fd d = ed_epoll_fd d' \<Longrightarrow> l = l'"
    and epoll_linked_data: "watch_data s w = Some x \<Longrightarrow> ee_data (ew_epoll_event x) = w"
  using assms unfolding epoll_linked_def by blast+

lemma loop_data_Some: "st_loops s l = Some lp \<Longrightarrow> st_ldata s (l_platform_data lp) = Some d \<Longrightarrow> loop_data s l = Some d"
  by (simp add: loop_data_def loop_pdata_def)

lemma loop_data_same: "loop_pdata s' = loop_pdata s \<Longrightarrow> st_ldata s' = st_ldata s \<Longrightarrow> loop_data s' = loop_data s"
  by (intro ext) (simp add: loop_data_def)

lemma same_link_data: "same_link s s' \<Longrightarrow> loop_data s' = loop_data s"
  by (rule loop_data_same) (simp_all add: same_link_def)

text \<open>Writing one loop's data changes no other loop's.\<close>

lemma loop_data_put:
  assumes inv: "epoll_inv s" and lp: "st_loops s l = Some lp"
    and s': "loop_pdata s' = loop_pdata s" "st_ldata s' = (st_ldata s)(l_platform_data lp \<mapsto> d)"
  shows "loop_data s' = (loop_data s)(l \<mapsto> d)"
proof
  fix k
  have own: "owned (loop_pdata s) (st_ldata s) epoll_data_ok" using inv by (simp add: epoll_inv_def)
  have inj: "loop_pdata s k = Some (l_platform_data lp) \<Longrightarrow> k = l"
    using own loop_pdata_Some [OF lp] by (auto simp only: owned_def)
  show "loop_data s' k = ((loop_data s)(l \<mapsto> d)) k"
  proof (cases "loop_pdata s k")
    case None
    then show ?thesis using loop_pdata_Some [OF lp] by (cases "k = l") (simp_all add: loop_data_def s')
  next
    case (Some p)
    show ?thesis
    proof (cases "k = l")
      case True
      then show ?thesis using loop_pdata_Some [OF lp] by (simp add: loop_data_def s')
    next
      case False
      then have "p \<noteq> l_platform_data lp" using inj Some by blast
      then show ?thesis using Some False by (simp add: loop_data_def s')
    qed
  qed
qed

lemma set_swap_out_keeps:
  assumes "i < length xs" "y \<in> set xs" "y \<noteq> xs ! i"
  shows "y \<in> set (swap_out i xs)"
  using assms set_swap_out [OF assms(1)] by auto

lemma evict_keeps:
  assumes "wf_table d" "evict_stale_registration d fd w = Some d'" "r \<in> set (reg_list d)" "reg_fd r \<noteq> fd"
  shows "r \<in> set (reg_list d')"
proof -
  let ?i = "first_index (\<lambda>r. reg_fd r = fd \<and> reg_watcher r \<noteq> w) (reg_list d)"
  obtain d'' where "evict_stale_registration d fd w = Some d''"
    "reg_list d'' = (case ?i of None \<Rightarrow> reg_list d | Some i \<Rightarrow> swap_out i (reg_list d))"
    by (rule evict_step [OF assms(1), of fd w])
  then have l': "reg_list d' = (case ?i of None \<Rightarrow> reg_list d | Some i \<Rightarrow> swap_out i (reg_list d))"
    using assms(2) by simp
  show ?thesis
  proof (cases ?i)
    case (Some i)
    then have "i < length (reg_list d)" "reg_fd (reg_list d ! i) = fd" by (blast dest: first_index_Some)+
    then show ?thesis using l' Some set_swap_out_keeps [of i "reg_list d" r] assms(3,4) by auto
  qed (use l' assms(3) in simp)
qed

section \<open>Register, unregister, update\<close>

text \<open>
  One rule for the three: the data of one loop and the entry of one descriptor in its
  interest list change, and the rest of the link survives.
\<close>

lemma linked_change:
  assumes link: "epoll_linked interest s" and inv: "epoll_inv s" and lp: "st_loops s l = Some lp"
    and d: "st_ldata s (l_platform_data lp) = Some d"
    and s': "loop_pdata s' = loop_pdata s" "st_ldata s' = (st_ldata s)(l_platform_data lp \<mapsto> d')"
    and ep: "ed_epoll_fd d' = ed_epoll_fd d"
    and entries: "\<And>ep fd en. (ep, fd) \<noteq> (ed_epoll_fd d, f) \<Longrightarrow> interest (st_kernel s') ep fd = Some en \<Longrightarrow>
      interest (st_kernel s) ep fd = Some en"
    and entry: "\<And>en. interest (st_kernel s') (ed_epoll_fd d) f = Some en \<Longrightarrow> entry_ok s' l d' f en"
    and records: "\<And>r. r \<in> set (reg_list d) \<Longrightarrow> reg_fd r \<noteq> f \<Longrightarrow> interest (st_kernel s) (ed_epoll_fd d) (reg_fd r) \<noteq> None \<Longrightarrow>
      watch_fd s (reg_watcher r) = Some (l, reg_fd r) \<Longrightarrow> r \<in> set (reg_list d')"
    and keys: "\<And>v. watch_fd s' v = watch_fd s v"
    and data: "\<And>w x. watch_data s' w = Some x \<Longrightarrow> ee_data (ew_epoll_event x) = w"
  shows "epoll_linked interest s'"
proof (rule epoll_linkedI)
  have ld: "loop_data s' = (loop_data s)(l \<mapsto> d')" by (rule loop_data_put [OF inv lp s'])
  have ls: "loop_data s l = Some d" by (rule loop_data_Some [OF lp d])
  show "k = k'" if "loop_data s' k = Some c" "loop_data s' k' = Some c'" "ed_epoll_fd c = ed_epoll_fd c'" for k k' c c'
    using that ld epoll_linked_inj [OF link] ls ep by (metis fun_upd_apply option.inject)
  show "entry_ok s' k c fd en"
    if c: "loop_data s' k = Some c" "interest (st_kernel s') (ed_epoll_fd c) fd = Some en" for k c fd en
  proof (cases "k = l")
    case True
    then have c': "c = d'" using c(1) ld by simp
    show ?thesis
    proof (cases "fd = f")
      case True
      then show ?thesis using entry c(2) c' \<open>k = l\<close> ep by simp
    next
      case False
      then have old: "interest (st_kernel s) (ed_epoll_fd d) fd = Some en" using entries c(2) c' ep by simp
      from epoll_linked_entry [OF link ls this] False old
      show ?thesis unfolding entry_ok_def c' \<open>k = l\<close> keys
        by (auto intro: records [of "\<lparr>reg_fd = fd, reg_watcher = ee_data en\<rparr>", simplified])
    qed
  next
    case False
    then have ck: "loop_data s k = Some c" using c(1) ld by simp
    then have "ed_epoll_fd c \<noteq> ed_epoll_fd d" using epoll_linked_inj [OF link] ls False by blast
    then have "interest (st_kernel s) (ed_epoll_fd c) fd = Some en" using entries c(2) by blast
    from epoll_linked_entry [OF link ck this] show ?thesis by (simp add: entry_ok_def keys)
  qed
qed (rule data)

lemma watch_fd_key: "watcher_key s' v = watcher_key s v \<Longrightarrow> watch_fd s' v = watch_fd s v"
  by (auto simp: watcher_key_def watch_fd_def map_option_case split: option.splits)

lemma epoll_linked_stable:
  assumes link: "epoll_linked interest s" and same: "same_link s s'"
    and keys: "\<And>v. epoll_named interest s v \<Longrightarrow> watcher_key s' v = watcher_key s v"
  shows "epoll_linked interest s'"
proof (rule epoll_linkedI)
  have ld: "loop_data s' = loop_data s" and k: "st_kernel s' = st_kernel s"
    using same_link_data [OF same] same by (simp_all add: same_link_def)
  show "k = k'" if "loop_data s' k = Some c" "loop_data s' k' = Some c'" "ed_epoll_fd c = ed_epoll_fd c'" for k k' c c'
    using that epoll_linked_inj [OF link] unfolding ld by blast
  show "entry_ok s' l d fd en"
    if "loop_data s' l = Some d" "interest (st_kernel s') (ed_epoll_fd d) fd = Some en" for l d fd en
  proof -
    have old: "loop_data s l = Some d" "interest (st_kernel s) (ed_epoll_fd d) fd = Some en" using that ld k by simp_all
    then have "ee_data en \<noteq> NULL \<Longrightarrow> epoll_named interest s (ee_data en)" by (auto simp: epoll_named_def)
    then show ?thesis
      using epoll_linked_entry [OF link old] watch_fd_key [OF keys] by (auto simp: entry_ok_def)
  qed
  show "ee_data (ew_epoll_event x) = w" if "watch_data s' w = Some x" for w x
  proof (rule epoll_linked_data [OF link])
    have "watcher_pdata s' \<subseteq>\<^sub>m watcher_pdata s" "st_wdata s' = st_wdata s" using same by (simp_all add: same_link_def)
    then show "watch_data s w = Some x"
      using that map_le_Some [of "watcher_pdata s'" "watcher_pdata s" w] by (auto simp: watch_data_def bind_eq_Some_conv)
  qed
qed

lemma epoll_named_same:
  assumes "loop_data s l = Some d" "loop_data s' = (loop_data s)(l \<mapsto> d')" "ed_epoll_fd d' = ed_epoll_fd d"
    and "interest (st_kernel s') = interest (st_kernel s)" "epoll_named interest s' w"
  shows "epoll_named interest s w"
  using assms by (auto simp: epoll_named_def split: if_splits)

lemma same_link_error:
  assumes "st_loops s l = Some lp"
  shows "same_link s (s\<lparr>st_choices := cs, st_errno := en, st_loops := (st_loops s)(l \<mapsto> lp\<lparr>l_system_error := e\<rparr>)\<rparr>)"
  using assms by (auto simp: same_link_def loop_pdata_def watcher_pdata_def fun_eq_iff map_le_def)

lemma watch_fd_put:
  assumes "st_watchers s w = Some wt" "st_watchers s' = (st_watchers s)(w \<mapsto> y)" "w_loop y = w_loop wt" "w_fd y = w_fd wt"
  shows "watch_fd s' v = watch_fd s v"
  using assms by (simp add: watch_fd_def)

text \<open>A watcher whose own descriptor has no entry is not named.\<close>

lemma epoll_not_named:
  assumes link: "epoll_linked interest s" and w: "watch_fd s w = Some (l, fd)"
    and d: "loop_data s l = Some d" "interest (st_kernel s) (ed_epoll_fd d) fd = None"
  shows "\<not> epoll_named interest s w"
proof
  assume "epoll_named interest s w"
  then obtain k c f en where c: "w \<noteq> NULL" "loop_data s k = Some c" "interest (st_kernel s) (ed_epoll_fd c) f = Some en" "ee_data en = w"
    by (auto simp: epoll_named_def)
  from epoll_linked_entry [OF link c(2,3)] have "k = l" "f = fd" using c(1,4) w by (auto simp: entry_ok_def)
  then show False using c d by simp
qed

text \<open>Neither is one without a record.\<close>

lemma epoll_not_recorded:
  assumes link: "epoll_linked interest s" and w: "w \<noteq> NULL" "watch_fd s w = Some (l, fd)" and d: "loop_data s l = Some d"
    and none: "first_index (\<lambda>r. reg_watcher r = w) (reg_list d) = None"
  shows "\<not> epoll_named interest s w"
proof
  assume "epoll_named interest s w"
  then obtain k c f en where c: "loop_data s k = Some c" "interest (st_kernel s) (ed_epoll_fd c) f = Some en" "ee_data en = w"
    by (auto simp: epoll_named_def)
  from epoll_linked_entry [OF link c(1,2)] have "k = l" "\<lparr>reg_fd = f, reg_watcher = w\<rparr> \<in> set (reg_list c)"
    using c(3) w by (auto simp: entry_ok_def)
  then have "\<lparr>reg_fd = f, reg_watcher = w\<rparr> \<in> set (reg_list d)" using c(1) d by simp
  then show False using first_index_None [of "\<lambda>r. reg_watcher r = w" "reg_list d"] none by force
qed

lemma epoll_register_link:
  assumes K: "epoll_kernel K interest" and wf: "pd_wf s" and inv: "epoll_inv s" and link: "epoll_linked interest s"
    and w: "st_watchers s w = Some wt" "w_loop wt \<noteq> NULL"
    and can: "epoll_can_reg interest (w_loop wt) (w_fd wt) (w_events wt) s"
    and run: "epoll_watcher_register K (w_loop wt) w s = Some (r, s')"
  shows "epoll_linked interest s' \<and> (r \<noteq> PD_OK \<longrightarrow> epoll_named interest s' w \<longrightarrow> epoll_named interest s w)"
proof -
  have nz: "w \<noteq> NULL" using pd_wf_watcher [OF wf w(1)] by (simp add: watcher_ok_def)
  obtain lp where lp: "st_loops s (w_loop wt) = Some lp" by (rule pd_wf_loop_of [OF wf w])
  obtain d where d: "l_platform_data lp \<noteq> NULL" "st_ldata s (l_platform_data lp) = Some d"
    "epoll_data_ok d" "wf_table d" by (rule epoll_inv_loop [OF inv lp])
  have own: "owned (watcher_pdata s) (st_wdata s) (\<lambda>_. True)" using inv by (simp add: epoll_inv_def)
  have ld: "loop_data s (w_loop wt) = Some d" by (rule loop_data_Some [OF lp d(2)])
  have none: "interest (st_kernel s) (ed_epoll_fd d) (w_fd wt) = None" using can ld by (simp add: epoll_can_reg_def)
  obtain d1 where d1: "evict_stale_registration d (w_fd wt) w = Some d1" "wf_table d1" "upd_table d d1"
    by (rule evict_step [OF d(4), of "w_fd wt" w])
  have ep: "ed_epoll_fd d1 = ed_epoll_fd d" using d1(3) by (auto elim!: upd_tableE)
  have keep1: "\<And>r. r \<in> set (reg_list d) \<Longrightarrow> reg_fd r \<noteq> w_fd wt \<Longrightarrow> r \<in> set (reg_list d1)"
    using evict_keeps [OF d(4) d1(1)] .
  have failed: "epoll_linked interest s2 \<and> (epoll_named interest s2 w \<longrightarrow> epoll_named interest s w)"
    if s2: "s2 = s\<lparr>st_choices := cs, st_errno := en, st_ldata := (st_ldata s)(l_platform_data lp \<mapsto> d1),
         st_kernel := k, st_loops := (st_loops s)(w_loop wt \<mapsto> lp\<lparr>l_system_error := e\<rparr>)\<rparr>"
      and k: "interest k = interest (st_kernel s)" for s2 cs en k e
  proof -
    have fr: "loop_pdata s2 = loop_pdata s" "st_ldata s2 = (st_ldata s)(l_platform_data lp \<mapsto> d1)"
      "watch_data s2 = watch_data s" "st_watchers s2 = st_watchers s" "st_kernel s2 = k"
      using lp by (simp_all add: s2 inv_simps watch_data_def fun_eq_iff)
    have "epoll_linked interest s2"
      by (rule linked_change [OF link inv lp d(2) fr(1,2) ep, where f = "w_fd wt"])
        (use fr(3-5) k none keep1 epoll_linked_data [OF link] in \<open>simp_all add: watch_fd_def\<close>)
    moreover have "loop_data s2 = (loop_data s)(w_loop wt \<mapsto> d1)" by (rule loop_data_put [OF inv lp fr(1,2)])
    ultimately show ?thesis using epoll_named_same [OF ld _ ep] fr(5) k by auto
  qed
  note facts = lp w(2,1) nz d(1,2,4) d1(1,2)
  from facts show ?thesis
  proof (cases rule: register_cases [where K = K])
    case (no_data s1 e)
    then obtain cs en where s1: "s' = s\<lparr>st_choices := cs, st_errno := en,
        st_loops := (st_loops s)(w_loop wt \<mapsto> lp\<lparr>l_system_error := e\<rparr>)\<rparr>" using run by auto
    have same: "same_link s s'" unfolding s1 by (rule same_link_error [OF lp])
    then have "loop_data s' = loop_data s" "st_kernel s' = st_kernel s"
      using same_link_data [OF same] same by (simp_all add: same_link_def)
    then have "epoll_named interest s' w \<longrightarrow> epoll_named interest s w" by (simp add: epoll_named_def)
    moreover have "epoll_linked interest s'"
      by (rule epoll_linked_stable [OF link same]) (simp add: s1 watcher_key_def)
    ultimately show ?thesis by simp
  next
    case (refused s1 e k1)
    then show ?thesis using failed epoll_kernel.ctl_fail [OF K refused(2)] run by auto
  next
    case (no_room s1 e k1 r2 k2 v)
    have add: "interest k1 = (interest (st_kernel s))(ed_epoll_fd d := (interest (st_kernel s) (ed_epoll_fd d))(w_fd wt \<mapsto> watch_event w wt))"
      using epoll_kernel.add_ok [OF K no_room(2)] by (simp add: ep)
    have "interest k2 = interest (st_kernel s)"
      using epoll_kernel.del_interest [OF K no_room(3)] add none by (simp add: ep fun_upd_idem)
    then show ?thesis using failed no_room(1,4) run by auto
  next
    case (ok s1 k1 d2 p v)
    then obtain cs en where r: "r = PD_OK" and s1: "s' = s\<lparr>st_choices := cs, st_errno := en,
         st_wdata := (st_wdata s)(p \<mapsto> \<lparr>ew_epoll_event = watch_event w wt\<rparr>),
         st_ldata := (st_ldata s)(l_platform_data lp \<mapsto> d2), st_kernel := k1,
         st_watchers := (st_watchers s)(w \<mapsto> wt\<lparr>w_platform_data := p\<rparr>)\<rparr>" using run by auto
    have add: "interest k1 = (interest (st_kernel s))(ed_epoll_fd d := (interest (st_kernel s) (ed_epoll_fd d))(w_fd wt \<mapsto> watch_event w wt))"
      using epoll_kernel.add_ok [OF K ok(2)] by (simp add: ep)
    have ep2: "ed_epoll_fd d2 = ed_epoll_fd d" using ok(6) ep by (auto elim!: upd_tableE)
    have keys: "watch_fd s' x = watch_fd s x" for x
      by (rule watch_fd_put [OF w(1), of s' "wt\<lparr>w_platform_data := p\<rparr>"]) (simp_all add: s1)
    have fresh: "watcher_pdata s x \<noteq> Some p" for x using ownedD [OF own, of x p] ok(4) by auto
    have data: "ee_data (ew_epoll_event x) = u" if "watch_data s' u = Some x" for u x
    proof (cases "u = w")
      case True
      then show ?thesis using that ok(3) by (simp add: s1 watch_data_def watcher_pdata_def watch_event_def) (metis epoll_event.select_convs(2) pd_epoll_watcher_data.select_convs(1))
    next
      case False
      then have "watcher_pdata s' u = watcher_pdata s u" by (simp add: s1 watcher_pdata_def)
      then have "watch_data s u = Some x" using that fresh [of u] by (auto simp: watch_data_def s1 bind_eq_Some_conv)
      then show ?thesis by (rule epoll_linked_data [OF link])
    qed
    have fr: "loop_pdata s' = loop_pdata s" "st_ldata s' = (st_ldata s)(l_platform_data lp \<mapsto> d2)" "st_kernel s' = k1"
      by (simp_all add: s1 inv_simps)
    have "epoll_linked interest s'"
    proof (rule linked_change [OF link inv lp d(2) fr(1,2) ep2, where f = "w_fd wt"])
      show "entry_ok s' (w_loop wt) d2 (w_fd wt) en" if "interest (st_kernel s') (ed_epoll_fd d) (w_fd wt) = Some en" for en
        using that w(1) ok(7) keys [of w] by (auto simp: fr(3) add entry_ok_def watch_event_def watch_fd_def)
    qed (use fr(3) add keep1 ok(7) keys data in \<open>auto split: if_splits\<close>)
    then show ?thesis using r by simp
  qed
qed

lemma epoll_unregister_link:
  assumes K: "epoll_kernel K interest" and wf: "pd_wf s" and inv: "epoll_inv s" and link: "epoll_linked interest s"
    and w: "st_watchers s w = Some wt" "w_loop wt \<noteq> NULL"
    and run: "epoll_watcher_unregister K w s = Some (r, s')"
  shows "epoll_linked interest s' \<and> \<not> epoll_named interest s' w"
proof -
  have nz: "w \<noteq> NULL" using pd_wf_watcher [OF wf w(1)] by (simp add: watcher_ok_def)
  obtain lp where lp: "st_loops s (w_loop wt) = Some lp" by (rule pd_wf_loop_of [OF wf w])
  obtain d where d: "l_platform_data lp \<noteq> NULL" "st_ldata s (l_platform_data lp) = Some d"
    "epoll_data_ok d" "wf_table d" by (rule epoll_inv_loop [OF inv lp])
  have ld: "loop_data s (w_loop wt) = Some d" by (rule loop_data_Some [OF lp d(2)])
  have wfd: "watch_fd s w = Some (w_loop wt, w_fd wt)" using w(1) by (simp add: watch_fd_def)
  have del_none: "interest (st_kernel s) (ed_epoll_fd d) (w_fd wt) = None"
    if "sys_epoll_ctl K (ed_epoll_fd d) EPOLL_CTL_DEL (w_fd wt) None (st_kernel s) = (Inl e, k)" for e k
    using epoll_kernel.del_failed [OF K that] .
  have freed: "ee_data (ew_epoll_event x) = u"
    if s2: "st_wdata s2 = wdata_freed (w_platform_data wt) (st_wdata s)" "st_watchers s2 = (st_watchers s)(w \<mapsto> wt\<lparr>w_platform_data := NULL\<rparr>)"
      and x: "watch_data s2 u = Some x" for s2 u x
  proof (rule epoll_linked_data [OF link])
    have "watcher_pdata s2 u = (if u = w then None else watcher_pdata s u)"
      by (simp add: watcher_pdata_def s2(2))
    then show "watch_data s u = Some x"
      using x by (auto simp: watch_data_def s2(1) wdata_freed_def bind_eq_Some_conv split: if_splits)
  qed
  note facts = w(1) nz w(2) lp d(1,2,4) epoll_inv_watcher [OF inv w(1)]
  from facts show ?thesis
  proof (cases rule: unregister_cases [where K = K])
    case absent
    then have s': "s' = s\<lparr>st_wdata := wdata_freed (w_platform_data wt) (st_wdata s),
        st_watchers := (st_watchers s)(w \<mapsto> wt\<lparr>w_platform_data := NULL\<rparr>)\<rparr>" using run by simp
    have fr: "loop_pdata s' = loop_pdata s" "st_ldata s' = (st_ldata s)(l_platform_data lp \<mapsto> d)" "st_kernel s' = st_kernel s"
      using d(2) by (simp_all add: s' inv_simps fun_upd_idem)
    have keys: "watch_fd s' v = watch_fd s v" for v
      by (rule watch_fd_put [OF w(1), of s' "wt\<lparr>w_platform_data := NULL\<rparr>"]) (simp_all add: s')
    have ld': "loop_data s' = loop_data s" using loop_data_put [OF inv lp fr(1,2)] ld by (simp add: fun_upd_idem)
    have link': "epoll_linked interest s'"
    proof (rule linked_change [OF link inv lp d(2) fr(1,2) refl, where f = "w_fd wt"])
      show "entry_ok s' (w_loop wt) d (w_fd wt) en" if "interest (st_kernel s') (ed_epoll_fd d) (w_fd wt) = Some en" for en
        using epoll_linked_entry [OF link ld] that by (simp add: fr(3) entry_ok_def keys)
      show "ee_data (ew_epoll_event x) = u" if "watch_data s' u = Some x" for u x
        by (rule freed [OF _ _ that]) (simp_all add: s')
    qed (simp_all add: fr(3) keys)
    have "first_index (\<lambda>r. reg_watcher r = w) (reg_list d) = None" using absent(1) by (simp add: find_eq d(4))
    then have "\<not> epoll_named interest s' w"
      using epoll_not_recorded [OF link' nz] keys wfd ld ld' by simp
    with link' show ?thesis by simp
  next
    case (refused i e k1)
    then have s': "s' = s\<lparr>st_kernel := k1, st_errno := e, st_loops := (st_loops s)(w_loop wt \<mapsto> lp\<lparr>l_system_error := e\<rparr>)\<rparr>"
      using run by simp
    have fr: "loop_pdata s' = loop_pdata s" "st_ldata s' = (st_ldata s)(l_platform_data lp \<mapsto> d)"
      "interest (st_kernel s') = interest (st_kernel s)" "watch_data s' = watch_data s" "watch_fd s' = watch_fd s"
      using d(2) lp epoll_kernel.ctl_fail [OF K refused(2)]
      by (simp_all add: s' inv_simps fun_upd_idem watch_data_def watch_fd_def fun_eq_iff)
    have ld': "loop_data s' = loop_data s" using loop_data_put [OF inv lp fr(1,2)] ld by (simp add: fun_upd_idem)
    have link': "epoll_linked interest s'"
      by (rule linked_change [OF link inv lp d(2) fr(1,2) refl, where f = "w_fd wt"])
        (use fr(3-5) del_none [OF refused(2)] epoll_linked_data [OF link] in simp_all)
    moreover have "\<not> epoll_named interest s' w"
      by (rule epoll_not_named [OF link', of w "w_loop wt" "w_fd wt" d])
        (use wfd ld ld' fr(3,5) del_none [OF refused(2)] in simp_all)
    ultimately show ?thesis by simp
  next
    case (removed i q k1 d' en)
    then have s': "s' = s\<lparr>st_kernel := k1, st_errno := en, st_ldata := (st_ldata s)(l_platform_data lp \<mapsto> d'),
           st_wdata := wdata_freed (w_platform_data wt) (st_wdata s),
           st_watchers := (st_watchers s)(w \<mapsto> wt\<lparr>w_platform_data := NULL\<rparr>)\<rparr>" using run by simp
    have ep: "ed_epoll_fd d' = ed_epoll_fd d" using removed(6) by (auto elim!: upd_tableE)
    have fr: "loop_pdata s' = loop_pdata s" "st_ldata s' = (st_ldata s)(l_platform_data lp \<mapsto> d')" "st_kernel s' = k1"
      by (simp_all add: s' inv_simps)
    have keys: "watch_fd s' v = watch_fd s v" for v
      by (rule watch_fd_put [OF w(1), of s' "wt\<lparr>w_platform_data := NULL\<rparr>"]) (simp_all add: s')
    have k1: "interest k1 = (interest (st_kernel s))(ed_epoll_fd d :=
        (interest (st_kernel s) (ed_epoll_fd d))(w_fd wt := None))"
      by (rule epoll_kernel.del_interest [OF K removed(2)])
    have "first_index (\<lambda>r. reg_watcher r = w) (reg_list d) = Some i" using removed(1) by (simp add: find_eq d(4))
    then have i: "i < length (reg_list d)" "reg_watcher (reg_list d ! i) = w" by (blast dest: first_index_Some)+
    have link': "epoll_linked interest s'"
    proof (rule linked_change [OF link inv lp d(2) fr(1,2) ep, where f = "w_fd wt"])
      show "\<rho> \<in> set (reg_list d')" if "\<rho> \<in> set (reg_list d)" "reg_fd \<rho> \<noteq> w_fd wt"
        "watch_fd s (reg_watcher \<rho>) = Some (w_loop wt, reg_fd \<rho>)" for \<rho>
      proof -
        have "\<rho> \<noteq> reg_list d ! i" using that(2,3) i(2) wfd by auto
        then show ?thesis using set_swap_out_keeps [OF i(1) that(1)] removed(7) by simp
      qed
      show "ee_data (ew_epoll_event x) = u" if "watch_data s' u = Some x" for u x
        by (rule freed [OF _ _ that]) (simp_all add: s')
    qed (use fr(3) k1 keys in \<open>auto split: if_splits\<close>)
    moreover have "\<not> epoll_named interest s' w"
      by (rule epoll_not_named [OF link', of w "w_loop wt" "w_fd wt" d'])
        (use wfd keys loop_data_put [OF inv lp fr(1,2)] fr(3) k1 ep in simp_all)
    ultimately show ?thesis by simp
  qed
qed

lemma epoll_update_link:
  assumes K: "epoll_kernel K interest" and wf: "pd_wf s" and inv: "epoll_inv s" and link: "epoll_linked interest s"
    and w: "st_watchers s w = Some wt" "w_loop wt \<noteq> NULL" and can: "epoll_can_upd w ev s"
    and run: "epoll_watcher_update K w ev (s\<lparr>st_watchers := (st_watchers s)(w \<mapsto> wt\<lparr>w_events := ev\<rparr>)\<rparr>) = Some (r, s')"
  shows "epoll_linked interest s'"
proof -
  let ?wt = "wt\<lparr>w_events := ev\<rparr>" and ?s = "s\<lparr>st_watchers := (st_watchers s)(w \<mapsto> wt\<lparr>w_events := ev\<rparr>)\<rparr>"
  have nz: "w \<noteq> NULL" using pd_wf_watcher [OF wf w(1)] by (simp add: watcher_ok_def)
  obtain lp where lp: "st_loops s (w_loop wt) = Some lp" by (rule pd_wf_loop_of [OF wf w])
  obtain d where d: "l_platform_data lp \<noteq> NULL" "st_ldata s (l_platform_data lp) = Some d"
    by (rule epoll_inv_loop [OF inv lp])
  have ld: "loop_data s (w_loop wt) = Some d" by (rule loop_data_Some [OF lp d(2)])
  have own: "\<lparr>reg_fd = w_fd wt, reg_watcher = w\<rparr> \<in> set (reg_list d)" using can w(1) ld by (simp add: epoll_can_upd_def)
  have wp: "watch_data s w = Some x" if "w_platform_data wt \<noteq> NULL" "st_wdata s (w_platform_data wt) = Some x" for x
    using that w(1) by (simp add: watch_data_def watcher_pdata_def)
  have step: "epoll_linked interest s2"
    if fr: "loop_pdata s2 = loop_pdata s" "st_ldata s2 = st_ldata s" "st_watchers s2 = st_watchers ?s"
      and k: "interest (st_kernel s2) = interest (st_kernel s) \<or>
        (\<exists>en. ee_data en = w \<and> interest (st_kernel s2) = (interest (st_kernel s))
          (ed_epoll_fd d := (interest (st_kernel s) (ed_epoll_fd d))(w_fd wt \<mapsto> en)))"
      and data: "\<And>u. map_option (\<lambda>x. ee_data (ew_epoll_event x)) (watch_data s2 u) =
        map_option (\<lambda>x. ee_data (ew_epoll_event x)) (watch_data s u)" for s2
  proof -
    have keys: "watch_fd s2 v = watch_fd s v" for v
      by (rule watch_fd_put [OF w(1), of s2 ?wt]) (simp_all add: fr)
    have fr2: "st_ldata s2 = (st_ldata s)(l_platform_data lp \<mapsto> d)" using fr(2) d(2) by (simp add: fun_upd_idem)
    show ?thesis
    proof (rule linked_change [OF link inv lp d(2) fr(1) fr2 refl, where f = "w_fd wt"])
      show "entry_ok s2 (w_loop wt) d (w_fd wt) en" if "interest (st_kernel s2) (ed_epoll_fd d) (w_fd wt) = Some en" for en
        using k
      proof (elim disjE exE conjE)
        assume "interest (st_kernel s2) = interest (st_kernel s)"
        then show ?thesis using epoll_linked_entry [OF link ld] that by (simp add: entry_ok_def keys)
      next
        fix en' assume "ee_data en' = w" "interest (st_kernel s2) = (interest (st_kernel s))
          (ed_epoll_fd d := (interest (st_kernel s) (ed_epoll_fd d))(w_fd wt \<mapsto> en'))"
        then show ?thesis using that own w(1) keys [of w] by (auto simp: entry_ok_def watch_fd_def)
      qed
      show "ee_data (ew_epoll_event x) = u" if "watch_data s2 u = Some x" for u x
        using data [of u] that epoll_linked_data [OF link, of u] by (cases "watch_data s u") auto
    qed (use k keys in \<open>auto split: if_splits\<close>)
  qed
  have w': "st_watchers ?s w = Some ?wt" "w_loop ?wt \<noteq> NULL" and lp': "st_loops ?s (w_loop ?wt) = Some lp"
    and d': "st_ldata ?s (l_platform_data lp) = Some d" using w lp d by simp_all
  have pd: "watcher_pdata ?s = watcher_pdata s" using w(1) by (auto simp: watcher_pdata_def fun_eq_iff)
  have data: "map_option (\<lambda>x. ee_data (ew_epoll_event x)) (watch_data s2 u) =
      map_option (\<lambda>x. ee_data (ew_epoll_event x)) (watch_data s u)"
    if "watcher_pdata s2 = watcher_pdata s" "st_wdata s (w_platform_data wt) = Some x"
      "st_wdata s2 = (st_wdata s)(w_platform_data wt \<mapsto>
         x\<lparr>ew_epoll_event := ew_epoll_event x\<lparr>ee_events := events_to_epoll ev\<rparr>\<rparr>)" for u x s2
    using that by (cases "watcher_pdata s u") (auto simp: watch_data_def)
  from w'(1) nz w'(2) lp' d(1) d' show ?thesis
  proof (cases rule: update_cases [where K = K and ev = ev])
    case none
    then have "s' = ?s" using run by simp
    then show ?thesis by (intro step) (simp_all add: inv_simps watch_data_def pd)
  next
    case (refused x e k1)
    then have s': "s' = ?s\<lparr>st_wdata := (st_wdata s)(w_platform_data wt \<mapsto>
           x\<lparr>ew_epoll_event := ew_epoll_event x\<lparr>ee_events := events_to_epoll ev\<rparr>\<rparr>),
         st_kernel := k1, st_errno := e, st_loops := (st_loops s)(w_loop wt \<mapsto> lp\<lparr>l_system_error := e\<rparr>)\<rparr>"
      using run by simp
    have x: "st_wdata s (w_platform_data wt) = Some x" using refused(2) by simp
    show ?thesis
      by (intro step data [OF _ x])
        (use epoll_kernel.ctl_fail [OF K refused(3)] lp pd in \<open>simp_all add: s' inv_simps\<close>)
  next
    case (ok x k1 v)
    then have s': "s' = ?s\<lparr>st_wdata := (st_wdata s)(w_platform_data wt \<mapsto>
           x\<lparr>ew_epoll_event := ew_epoll_event x\<lparr>ee_events := events_to_epoll ev\<rparr>\<rparr>),
         st_kernel := k1\<rparr>"
      using run by simp
    have x: "st_wdata s (w_platform_data wt) = Some x" using ok(2) by simp
    have "ee_data (ew_epoll_event x) = w" using epoll_linked_data [OF link] wp ok(1,2) by simp
    then have "ee_data (ew_epoll_event x\<lparr>ee_events := events_to_epoll ev\<rparr>) = w" by simp
    then have "\<exists>en. ee_data en = w \<and> interest k1 = (interest (st_kernel s))
          (ed_epoll_fd d := (interest (st_kernel s) (ed_epoll_fd d))(w_fd wt \<mapsto> en))"
      using epoll_kernel.mod_ok [OF K ok(3)] by (intro exI conjI) simp_all
    then show ?thesis
      by (intro step data [OF _ x])
        (use pd in \<open>simp_all add: s' inv_simps\<close>)
  next
    case dangling
    then show ?thesis using epoll_inv_watcher [OF inv w(1)] by simp
  qed
qed

section \<open>The contract holds\<close>

sublocale epoll_kernel \<subseteq> ptr: pointer_backend "pd_platform_epoll K U" "epoll_watcher_register K"
    "epoll_watcher_unregister K" "epoll_watcher_update K" epoll_inv "epoll_linked interest"
    "epoll_named interest" "epoll_can_reg interest" epoll_can_upd for U
proof (intro pointer_backend.intro pointer_backend_axioms.intro)
  have K: "epoll_kernel K interest" by unfold_locales
  show "watcher_backend (pd_platform_epoll K U) (epoll_watcher_register K) (epoll_watcher_unregister K)
     (epoll_watcher_update K) epoll_inv"
    by (rule readiness_backend.axioms(1) [OF epoll_readiness]) simp_all
  fix s s' :: "'k epoll_state" and w r ev l fd wt
  show "st_watchers s w \<noteq> None" if n: "epoll_linked interest s" "epoll_named interest s w"
  proof -
    obtain k c f en where c: "w \<noteq> NULL" "loop_data s k = Some c" "interest (st_kernel s) (ed_epoll_fd c) f = Some en" "ee_data en = w"
      using n(2) by (auto simp: epoll_named_def)
    from epoll_linked_entry [OF n(1) c(2,3)] show ?thesis using c(1,4) by (auto simp: entry_ok_def watch_fd_def)
  qed
  show "epoll_linked interest s'" if "epoll_linked interest s" "same_link s s'"
    "\<And>v. epoll_named interest s v \<Longrightarrow> watcher_key s' v = watcher_key s v"
    using that by (rule epoll_linked_stable)
  show "epoll_named interest s' w = epoll_named interest s w" if "same_link s s'"
    using that same_link_data [OF that] by (simp add: epoll_named_def same_link_def)
  show "epoll_can_reg interest l fd ev s'" if "same_link s s'" "epoll_can_reg interest l fd ev s"
    using that(2) same_link_data [OF that(1)] that(1) by (simp add: epoll_can_reg_def same_link_def)
  assume s: "pd_wf s" "epoll_inv s" "epoll_linked interest s" "st_watchers s w = Some wt" "w_loop wt \<noteq> NULL"
  show "epoll_linked interest s' \<and> (r \<noteq> PD_OK \<longrightarrow> epoll_named interest s' w \<longrightarrow> epoll_named interest s w)"
    if "epoll_can_reg interest (w_loop wt) (w_fd wt) (w_events wt) s" "epoll_watcher_register K (w_loop wt) w s = Some (r, s')"
    using K s that by (rule epoll_register_link)
  show "epoll_linked interest s' \<and> \<not> epoll_named interest s' w" if "epoll_watcher_unregister K w s = Some (r, s')"
    using K s that by (rule epoll_unregister_link)
  show "epoll_linked interest s'" if "epoll_can_upd w ev s"
    "epoll_watcher_update K w ev (s\<lparr>st_watchers := (st_watchers s)(w \<mapsto> wt\<lparr>w_events := ev\<rparr>)\<rparr>) = Some (r, s')"
    using K s that by (rule epoll_update_link)
qed

text \<open>
  What the kernel may do by itself: descriptors become ready, and entries disappear because
  the program closed their descriptor.
\<close>

definition epoll_env :: "('k \<Rightarrow> int \<Rightarrow> int \<Rightarrow> epoll_event option) \<Rightarrow> 'k \<Rightarrow> 'k \<Rightarrow> bool" where
  "epoll_env interest k k' \<longleftrightarrow> (\<forall>ep. interest k' ep \<subseteq>\<^sub>m interest k ep)"

lemma epoll_linked_env:
  assumes "epoll_linked interest s" "epoll_env interest (st_kernel s) k"
  shows "epoll_linked interest (s\<lparr>st_kernel := k\<rparr>)"
proof (rule epoll_linkedI)
  have ld: "loop_data (s\<lparr>st_kernel := k\<rparr>) = loop_data s" and wd: "watch_data (s\<lparr>st_kernel := k\<rparr>) = watch_data s"
    by (simp_all add: loop_data_def loop_pdata_def watch_data_def watcher_pdata_def fun_eq_iff)
  show "l = l'" if "loop_data (s\<lparr>st_kernel := k\<rparr>) l = Some d" "loop_data (s\<lparr>st_kernel := k\<rparr>) l' = Some d'"
    "ed_epoll_fd d = ed_epoll_fd d'" for l l' d d'
    using that epoll_linked_inj [OF assms(1)] unfolding ld by blast
  show "ee_data (ew_epoll_event x) = w" if "watch_data (s\<lparr>st_kernel := k\<rparr>) w = Some x" for w x
    using that epoll_linked_data [OF assms(1)] unfolding wd by blast
  show "entry_ok (s\<lparr>st_kernel := k\<rparr>) l d fd en"
    if "loop_data (s\<lparr>st_kernel := k\<rparr>) l = Some d" "interest (st_kernel (s\<lparr>st_kernel := k\<rparr>)) (ed_epoll_fd d) fd = Some en" for l d fd en
  proof -
    have "interest (st_kernel s) (ed_epoll_fd d) fd = Some en"
      using that(2) assms(2) map_le_Some unfolding epoll_env_def by fastforce
    from epoll_linked_entry [OF assms(1) that(1) [unfolded ld] this] show ?thesis
      by (simp add: entry_ok_def watch_fd_def)
  qed
qed

lemma epoll_inv_kernel: "epoll_inv s \<Longrightarrow> epoll_inv (s\<lparr>st_kernel := k\<rparr>)"
  by (simp add: epoll_inv_def inv_simps)

end
