(* ===== verification/Pd_Epoll_Dispatch.thy ===== *)
theory Pd_Epoll_Dispatch
  imports Pd_Epoll_Link Pd_Epoll_Props
begin

text \<open>
  The wait of the epoll backend and the dispatch of its events. The C loop reads the events
  from an array of the loop while callbacks run; here it is shown to deliver the list the
  kernel returned, in order, and never to touch a watcher that was freed, as long as the
  callbacks keep the obligations \<open>well_behaved\<close> states.
\<close>

section \<open>Delivering a list of events\<close>

definition deliver ::
  "'k linux \<Rightarrow> 'k user_callbacks \<Rightarrow> addr \<Rightarrow> int \<Rightarrow> epoll_event \<Rightarrow> 'k epoll_state \<Rightarrow> 'k epoll_state option" where
  "deliver K U l evfd e s =
    (if ee_data e = NULL then Some (snd (syscall (sys_read K evfd) s))
     else do {
       w \<leftarrow> st_watchers s (ee_data e);
       case w_callback w of
         None \<Rightarrow> Some s
       | Some cb \<Rightarrow> run_callback K U cb l (ee_data e) (epoll_to_events (ee_events e)) (w_user_data w) s })"

fun deliver_all ::
  "'k linux \<Rightarrow> 'k user_callbacks \<Rightarrow> addr \<Rightarrow> int \<Rightarrow> epoll_event list \<Rightarrow> 'k epoll_state \<Rightarrow> 'k epoll_state option" where
  "deliver_all K U l evfd [] s = Some s"
| "deliver_all K U l evfd (e # es) s = do { s \<leftarrow> deliver K U l evfd e s; deliver_all K U l evfd es s }"

text \<open>What a round reads of the loop's data: a callback must leave it alone.\<close>

definition batch :: "'k epoll_state \<Rightarrow> addr \<Rightarrow> (epoll_event c_array \<times> int) option" where
  "batch s p = map_option (\<lambda>d. (ed_events d, ed_eventfd_fd d)) (st_ldata s p)"

definition keeps_batch :: "'k user_callbacks \<Rightarrow> addr \<Rightarrow> bool" where
  "keeps_batch U p \<longleftrightarrow> (\<forall>f l w ev ud s s'. U f l w ev ud s = Some s' \<longrightarrow> batch s' p = batch s p)"

text \<open>The two halves of the callback of a timer: reading the timerfd, and the timer's own.\<close>

definition drained :: "'k linux \<Rightarrow> int \<Rightarrow> 'k epoll_state \<Rightarrow> 'k epoll_state" where
  "drained K fd s = (if fd \<ge> 0 then snd (syscall (sys_read K fd) s) else s)"

definition fire :: "'k user_callbacks \<Rightarrow> addr \<Rightarrow> addr \<Rightarrow> addr \<Rightarrow> 'k epoll_state \<Rightarrow> 'k epoll_state option" where
  "fire U l w timer s = do {
     t \<leftarrow> st_timers s timer;
     case t_callback t of
       None \<Rightarrow> Some s
     | Some (Cb_user f) \<Rightarrow> U f l w PD_EVENT_READ (t_user_data t) s
     | Some Cb_timerfd \<Rightarrow> None }"

lemma timerfd_callback_eq:
  "timerfd_callback K U l w ev ud s =
     (if ud = NULL then Some s else do { x \<leftarrow> st_watchers s w; fire U l w ud (drained K (w_fd x) s) })"
  by (simp add: timerfd_callback_def fire_def drained_def Let_def)

lemma drained_kernel: "upd_kernel s (drained K fd s)"
  by (simp add: drained_def syscall_kernel)

lemma upd_kernel_batch: "upd_kernel s s' \<Longrightarrow> batch s' p = batch s p"
  by (simp add: batch_def upd_kernel_frame(4))

lemma fire_cases:
  assumes "fire U l w ud s = Some s'"
  obtains (none) "s' = s" | (user) t f where "st_timers s ud = Some t" "U f l w PD_EVENT_READ (t_user_data t) s = Some s'"
proof -
  obtain t where t: "st_timers s ud = Some t" using assms by (auto simp: fire_def bind_Some_iff)
  show thesis
  proof (cases "t_callback t")
    case None
    then show thesis using assms t none by (simp add: fire_def)
  next
    case (Some cb)
    then show thesis using assms t user by (cases cb) (simp_all add: fire_def)
  qed
qed

lemma fire_batch: "keeps_batch U p \<Longrightarrow> fire U l w ud s = Some s' \<Longrightarrow> batch s' p = batch s p"
  by (elim fire_cases) (auto simp: keeps_batch_def)

lemma run_callback_batch:
  assumes "keeps_batch U p" "run_callback K U cb l w ev ud s = Some s'"
  shows "batch s' p = batch s p"
proof (cases cb)
  case (Cb_user f)
  then show ?thesis using assms by (simp add: run_callback_def keeps_batch_def)
next
  case Cb_timerfd
  then have "ud = NULL \<and> s' = s \<or> (\<exists>fd. fire U l w ud (drained K fd s) = Some s')"
    using assms(2) unfolding Cb_timerfd run_callback_def timerfd_callback_eq
    by (cases "ud = NULL"; cases "st_watchers s w") auto
  then show ?thesis
    using fire_batch [OF assms(1)] upd_kernel_batch [OF drained_kernel] by (elim disjE) fastforce+
qed

lemma deliver_batch: "keeps_batch U p \<Longrightarrow> deliver K U l evfd e s = Some s' \<Longrightarrow> batch s' p = batch s p"
  by (auto simp: deliver_def bind_Some_iff upd_kernel_batch [OF syscall_kernel]
      split: if_splits option.splits dest: run_callback_batch)

lemma process_event_eq:
  assumes "batch s p = Some (a, evfd)" "arr_get a i = Some e"
  shows "epoll_process_event K U l p i s = deliver K U l evfd e s"
  using assms by (auto simp: epoll_process_event_def deliver_def batch_def Let_def)

lemma dispatch_deliver:
  assumes "keeps_batch U p" "batch s p = Some (a, evfd)" "\<And>j. j < length es \<Longrightarrow> arr_get a (i + j) = Some (es ! j)"
  shows "epoll_dispatch K U l p i (length es) s = deliver_all K U l evfd es s"
  by (rule dispatch_batch [where batch = "\<lambda>s. batch s p" and deliver = "deliver K U l evfd"
        and proc = "epoll_process_event K U l p"])
    (use assms(2,3) in \<open>auto simp: process_event_eq dest: deliver_batch [OF assms(1)]\<close>)

text \<open>What the wait does, with the dispatch as the delivery of a list.\<close>

definition stored :: "addr \<Rightarrow> epoll_event list \<Rightarrow> pd_epoll_data \<Rightarrow> 'k \<Rightarrow> 'k epoll_state \<Rightarrow> 'k epoll_state" where
  "stored p evs d k s = s\<lparr>st_kernel := k, st_ldata := (st_ldata s)
     (p \<mapsto> d\<lparr>ed_events := map Some evs @ drop (length evs) (ed_events d)\<rparr>)\<rparr>"

lemma loop_run_eq:
  assumes "st_loops s l = Some lp" "l \<noteq> NULL" "l_platform_data lp \<noteq> NULL" "st_ldata s (l_platform_data lp) = Some d"
  shows "epoll_loop_run K U l t s =
    (case sys_epoll_wait K (ed_epoll_fd d) (ed_max_events d) (if t < 0 then - 1 else t) (st_kernel s) of
       (Inl e, k) \<Rightarrow>
         if e = EINTR then Some (0, s\<lparr>st_kernel := k, st_errno := e\<rparr>)
         else Some (err_code PD_ERR_SYSTEM, s\<lparr>st_kernel := k, st_errno := e,
                st_loops := (st_loops s)(l \<mapsto> lp\<lparr>l_system_error := e\<rparr>)\<rparr>)
     | (Inr evs, k) \<Rightarrow>
         if length evs > length (ed_events d) then None
         else map_option (Pair (int (length evs)))
           (epoll_dispatch K U l (l_platform_data lp) 0 (length evs) (stored (l_platform_data lp) evs d k s)))"
proof -
  let ?t = "if t < 0 then - 1 else t"
  have run: "epoll_loop_run K U l t s = do {
     let (r, s) = syscall (sys_epoll_wait K (ed_epoll_fd d) (ed_max_events d) ?t) s;
     case r of
       None \<Rightarrow>
         if st_errno s = EINTR then Some (0, s)
         else do {
           s \<leftarrow> pd_set_system_error l (pd_get_current_system_error s) s;
           Some (err_code PD_ERR_SYSTEM, s) }
     | Some events \<Rightarrow>
         if length events > length (ed_events d) then None
         else do {
           s \<leftarrow> write_ldata (l_platform_data lp) (\<lambda>d. d\<lparr>ed_events := map Some events @ drop (length events) (ed_events d)\<rparr>) s;
           s \<leftarrow> epoll_dispatch K U l (l_platform_data lp) 0 (length events) s;
           Some (int (length events), s) } }"
    using assms by (simp add: epoll_loop_run_def Let_def)
  obtain q k where q: "sys_epoll_wait K (ed_epoll_fd d) (ed_max_events d) ?t (st_kernel s) = (q, k)" by fastforce
  show ?thesis
    unfolding run syscall_def q using assms
    by (cases q) (simp_all add: set_error_eq pd_get_current_system_error_def heap_write_def stored_def
        map_conv_bind_option comp_def Let_def)
qed

text \<open>
  C11: the wait refines the delivery of a list: its dispatch, which reads the array again
  in every round, delivers exactly the events the kernel returned, in the kernel's order, as
  long as callbacks do not overwrite the loop's array (by running the loop again from
  inside). A signal makes it return 0, any other failure is reported and recorded.
\<close>

theorem epoll_loop_run_delivers:
  assumes "st_loops s l = Some lp" "l \<noteq> NULL" "l_platform_data lp \<noteq> NULL" "st_ldata s (l_platform_data lp) = Some d"
    and "keeps_batch U (l_platform_data lp)"
  shows "epoll_loop_run K U l t s =
    (case sys_epoll_wait K (ed_epoll_fd d) (ed_max_events d) (if t < 0 then - 1 else t) (st_kernel s) of
       (Inl e, k) \<Rightarrow>
         if e = EINTR then Some (0, s\<lparr>st_kernel := k, st_errno := e\<rparr>)
         else Some (err_code PD_ERR_SYSTEM, s\<lparr>st_kernel := k, st_errno := e,
                st_loops := (st_loops s)(l \<mapsto> lp\<lparr>l_system_error := e\<rparr>)\<rparr>)
     | (Inr evs, k) \<Rightarrow>
         if length evs > length (ed_events d) then None
         else map_option (Pair (int (length evs)))
           (deliver_all K U l (ed_eventfd_fd d) evs (stored (l_platform_data lp) evs d k s)))"
proof -
  have "epoll_dispatch K U l p 0 (length evs) (stored p evs d k s) =
      deliver_all K U l (ed_eventfd_fd d) evs (stored p evs d k s)" if p: "keeps_batch U p" for p evs k
  proof (rule dispatch_deliver [OF p])
    show "batch (stored p evs d k s) p =
        Some (map Some evs @ drop (length evs) (ed_events d), ed_eventfd_fd d)"
      by (simp add: batch_def stored_def)
  qed (simp add: arr_get_stored)
  from this [OF assms(5)] show ?thesis
    unfolding loop_run_eq [OF assms(1-4)] by (auto split: prod.splits sum.splits)
qed

theorem epoll_loop_run_delivers_witness:
  "\<exists>s'. epoll_loop_run ref_linux ex_quiet 1 0 ex_state = Some (1, s') \<and>
     deliver_all ref_linux ex_quiet 1 4 [\<lparr>ee_events = EPOLLIN, ee_data = 10\<rparr>]
       (stored 500 [\<lparr>ee_events = EPOLLIN, ee_data = 10\<rparr>] ex_data ex_kernel ex_state) = Some s'"
proof -
  have "keeps_batch ex_quiet (500 :: addr)" by (simp add: keeps_batch_def ex_quiet_def)
  moreover have "sys_epoll_wait ref_linux 3 (ed_max_events ex_data) 0 ex_kernel =
      (Inr [\<lparr>ee_events = EPOLLIN, ee_data = 10\<rparr>], ex_kernel)" by code_simp
  ultimately show ?thesis
    using epoll_loop_run_delivers [of ex_state 1 ex_loop ex_data ex_quiet ref_linux 0]
    by (simp add: stored_def deliver_def ex_quiet_def run_callback_def)
qed

section \<open>No access to freed memory\<close>

text \<open>
  The state between two calls of the library: the invariants of the generic layer and of the
  backend, the link between kernel and watchers, and every timerfd's watcher belongs to a
  live timer with a callback of the user.
\<close>

definition timers_wired :: "'k epoll_state \<Rightarrow> bool" where
  "timers_wired s \<longleftrightarrow> (\<forall>w x. st_watchers s w = Some x \<longrightarrow> w_callback x = Some Cb_timerfd \<longrightarrow>
     w_user_data x = NULL \<or> (\<exists>t. st_timers s (w_user_data x) = Some t \<and> t_callback t \<noteq> Some Cb_timerfd))"

lemma timers_wiredD:
  "timers_wired s \<Longrightarrow> st_watchers s w = Some x \<Longrightarrow> w_callback x = Some Cb_timerfd \<Longrightarrow> w_user_data x \<noteq> NULL \<Longrightarrow>
   \<exists>t. st_timers s (w_user_data x) = Some t \<and> t_callback t \<noteq> Some Cb_timerfd"
  unfolding timers_wired_def by (drule spec [of _ w], drule spec [of _ x]) simp

definition run_ok :: "('k \<Rightarrow> int \<Rightarrow> int \<Rightarrow> epoll_event option) \<Rightarrow> 'k epoll_state \<Rightarrow> bool" where
  "run_ok interest s \<longleftrightarrow> pd_wf s \<and> epoll_inv s \<and> epoll_linked interest s \<and> timers_wired s"

text \<open>
  The obligations of a callback: it returns, in such a state; it does not release the loop
  it is called from or run it again from inside; and the only watcher it may destroy is its
  own.
\<close>

definition kept :: "('k \<Rightarrow> int \<Rightarrow> int \<Rightarrow> epoll_event option) \<Rightarrow> addr \<Rightarrow> addr \<Rightarrow> addr \<Rightarrow> 'k epoll_state \<Rightarrow> 'k epoll_state \<Rightarrow> bool" where
  "kept interest l p w s s' \<longleftrightarrow> run_ok interest s' \<and> loop_pdata s' l = Some p \<and>
     batch s' p = batch s p \<and> dom (st_watchers s) - {w} \<subseteq> dom (st_watchers s')"

definition well_behaved :: "('k \<Rightarrow> int \<Rightarrow> int \<Rightarrow> epoll_event option) \<Rightarrow> 'k user_callbacks \<Rightarrow> addr \<Rightarrow> bool" where
  "well_behaved interest U l \<longleftrightarrow> (\<forall>f w ev ud s p. run_ok interest s \<longrightarrow> loop_pdata s l = Some p \<longrightarrow>
     (\<exists>s'. U f l w ev ud s = Some s' \<and> kept interest l p w s s'))"

lemma well_behavedD:
  assumes "well_behaved interest U l" "run_ok interest s" "loop_pdata s l = Some p"
  obtains s' where "U f l w ev ud s = Some s'" "kept interest l p w s s'"
  using assms unfolding well_behaved_def by blast

lemma run_ok_kernel:
  assumes "upd_kernel s s'" "interest (st_kernel s') = interest (st_kernel s)" "run_ok interest s"
  shows "run_ok interest s'"
proof -
  obtain k e where s': "s' = s\<lparr>st_kernel := k, st_errno := e\<rparr>" using assms(1) by (rule upd_kernelE)
  have k: "interest k = interest (st_kernel s)" using assms(2) by (simp add: s')
  have "pd_wf s'" using assms(3) pd_wf_loops_undo [of s' s] by (simp add: s' run_ok_def)
  moreover have "epoll_inv s'" using assms(3) by (simp add: s' run_ok_def epoll_inv_def inv_simps)
  moreover have "loop_data s' = loop_data s" "watch_data s' = watch_data s" "watch_fd s' = watch_fd s"
    by (simp_all add: s' loop_data_def loop_pdata_def watch_data_def watcher_pdata_def watch_fd_def fun_eq_iff)
  then have "epoll_linked interest s'"
    using assms(3) k by (simp add: run_ok_def epoll_linked_def entry_ok_def) (simp add: s')
  moreover have "timers_wired s'" using assms(3) by (simp add: s' run_ok_def timers_wired_def)
  ultimately show ?thesis by (simp add: run_ok_def)
qed

lemma run_ok_control:
  assumes "run_ok interest s" "st_loops s l = Some lp" "upd_control lp lp'"
  shows "run_ok interest (s\<lparr>st_loops := (st_loops s)(l \<mapsto> lp')\<rparr>)" "loop_pdata (s\<lparr>st_loops := (st_loops s)(l \<mapsto> lp')\<rparr>) = loop_pdata s"
proof -
  let ?s = "s\<lparr>st_loops := (st_loops s)(l \<mapsto> lp')\<rparr>"
  have pd: "l_platform_data lp' = l_platform_data lp" using assms(3) by (auto elim!: upd_controlE)
  have link: "same_link s ?s" by (rule same_link_loop [OF assms(2) pd])
  then show "loop_pdata ?s = loop_pdata s" by (simp add: same_link_def)
  have "same_pdata s ?s" using link unfolding same_link_def same_pdata_def by simp
  with assms(1) have "epoll_inv ?s" unfolding run_ok_def by (blast intro: epoll_inv_stable)
  moreover have "epoll_linked interest s" using assms(1) by (simp only: run_ok_def)
  then have "epoll_linked interest ?s" using link by (rule epoll_linked_stable) (simp add: watcher_key_def)
  ultimately show "run_ok interest ?s"
    using assms pd_wf_control [of s l lp lp'] by (simp add: run_ok_def timers_wired_def)
qed

lemma kept_kernel:
  assumes "upd_kernel s s'" "interest (st_kernel s') = interest (st_kernel s)" "run_ok interest s" "loop_pdata s l = Some p"
  shows "kept interest l p w s s'"
  using run_ok_kernel [OF assms(1-3)] assms(4) upd_kernel_frame [OF assms(1)]
  by (simp add: kept_def loop_pdata_def batch_def)

lemma kept_trans:
  "kept interest l p w s s1 \<Longrightarrow> kept interest l p w s1 s2 \<Longrightarrow> kept interest l p w s s2"
  by (auto simp: kept_def)

lemma drained_kept:
  assumes "epoll_kernel K interest" "run_ok interest s" "loop_pdata s l = Some p"
  shows "kept interest l p w s (drained K fd s)" "kept interest l p w s (snd (syscall (sys_read K fd) s))"
proof -
  have r: "interest (st_kernel (snd (syscall (sys_read K fd) s))) = interest (st_kernel s)"
    using epoll_kernel.read_interest [OF assms(1)] by (simp add: syscall_def split: prod.splits sum.splits)
  show "kept interest l p w s (snd (syscall (sys_read K fd) s))"
    by (rule kept_kernel [OF syscall_kernel r assms(2,3)])
  then show "kept interest l p w s (drained K fd s)"
    using assms(2,3) by (simp add: drained_def) (simp add: kept_def)
qed

lemma deliver_kept:
  assumes K: "epoll_kernel K interest" and U: "well_behaved interest U l"
    and s: "run_ok interest s" "loop_pdata s l = Some p"
    and live: "ee_data e = NULL \<or> st_watchers s (ee_data e) \<noteq> None"
  obtains s' where "deliver K U l evfd e s = Some s'" "kept interest l p (ee_data e) s s'"
proof (cases "ee_data e = NULL")
  case True
  then show thesis using that drained_kept(2) [OF K s] by (simp add: deliver_def)
next
  case False
  let ?w = "ee_data e"
  obtain x where x: "st_watchers s ?w = Some x" using live False by blast
  have none: "kept interest l p ?w s s" using s by (auto simp: kept_def)
  show thesis
  proof (cases "w_callback x")
    case None
    then show thesis using that none x False by (simp add: deliver_def)
  next
    case (Some cb)
    show thesis
    proof (cases cb)
      case (Cb_user f)
      obtain s' where "U f l ?w (epoll_to_events (ee_events e)) (w_user_data x) s = Some s'" "kept interest l p ?w s s'"
        by (rule well_behavedD [OF U s])
      then show thesis using that x Some Cb_user False by (simp add: deliver_def run_callback_def)
    next
      case Cb_timerfd
      let ?s = "drained K (w_fd x) s" and ?ud = "w_user_data x"
      have d: "kept interest l p ?w s ?s" by (rule drained_kept(1) [OF K s])
      have run: "deliver K U l evfd e s = (if ?ud = NULL then Some s else fire U l ?w ?ud ?s)"
        using x Some Cb_timerfd False by (simp add: deliver_def run_callback_def timerfd_callback_eq)
      show thesis
      proof (cases "?ud = NULL")
        case True
        then show thesis using that none run by simp
      next
        case ud: False
        have "timers_wired s" using s(1) by (simp add: run_ok_def)
        from timers_wiredD [OF this x _ ud] obtain t where
          t: "st_timers s ?ud = Some t" "t_callback t \<noteq> Some Cb_timerfd" using Some Cb_timerfd by auto
        then have t': "st_timers ?s ?ud = Some t" using upd_kernel_frame(3) [OF drained_kernel, of K "w_fd x" s] by simp
        show thesis
        proof (cases "t_callback t")
          case None
          then show thesis using that d run ud t' by (simp add: fire_def)
        next
          case (Some cb')
          then obtain f where f: "cb' = Cb_user f" using t(2) by (cases cb') auto
          have s2: "run_ok interest ?s" "loop_pdata ?s l = Some p" using d by (simp_all add: kept_def)
          obtain s' where "U f l ?w PD_EVENT_READ (t_user_data t) ?s = Some s'" "kept interest l p ?w ?s s'"
            by (rule well_behavedD [OF U s2])
          then show thesis using that kept_trans [OF d] run ud t' Some f by (simp add: fire_def)
        qed
      qed
    qed
  qed
qed

text \<open>A batch of events is delivered, if it names live watchers, each of them once.\<close>

definition live_batch :: "'k epoll_state \<Rightarrow> epoll_event list \<Rightarrow> bool" where
  "live_batch s es \<longleftrightarrow> distinct (filter (\<lambda>w. w \<noteq> NULL) (map ee_data es)) \<and>
     (\<forall>e\<in>set es. ee_data e = NULL \<or> st_watchers s (ee_data e) \<noteq> None)"

lemma live_batch_Cons:
  assumes "live_batch s (e # es)" "dom (st_watchers s) - {ee_data e} \<subseteq> dom (st_watchers s')"
  shows "live_batch s' es"
  unfolding live_batch_def
proof (intro conjI ballI)
  fix x assume x: "x \<in> set es"
  show "ee_data x = NULL \<or> st_watchers s' (ee_data x) \<noteq> None"
  proof (cases "ee_data x = NULL")
    case False
    then have "st_watchers s (ee_data x) \<noteq> None" using assms(1) x by (auto simp: live_batch_def)
    moreover have "ee_data x \<in> ee_data ` set es" using x by (rule imageI)
    then have "ee_data x \<noteq> ee_data e" using assms(1) False by (auto simp: live_batch_def split: if_splits)
    ultimately show ?thesis using assms(2) by blast
  qed simp
qed (use assms(1) in \<open>simp add: live_batch_def split: if_splits\<close>)

text \<open>
  A program that runs a loop: \<open>Q es s\<close> is its own invariant in the middle of a batch, when the
  events \<open>es\<close> are still to be delivered. It has to hold of a batch the kernel returned to a
  loop that was not stopped, and every delivery has to keep it, along with the obligations
  \<open>kept\<close>.
\<close>

locale epoll_program = epoll_kernel K interest
  for K :: "'k linux" and interest +
  fixes U :: "'k user_callbacks" and l :: addr and Q :: "epoll_event list \<Rightarrow> 'k epoll_state \<Rightarrow> bool"
  assumes deliver_law: "run_ok interest s \<Longrightarrow> loop_pdata s l = Some p \<Longrightarrow> live_batch s (e # es) \<Longrightarrow> Q (e # es) s \<Longrightarrow>
      \<exists>s'. deliver K U l evfd e s = Some s' \<and> kept interest l p (ee_data e) s s' \<and> Q es s'"
    and wait_law: "run_ok interest s \<Longrightarrow> st_loops s l = Some lp \<Longrightarrow> \<not> l_stop_requested lp \<Longrightarrow> Q [] s \<Longrightarrow>
      sys_epoll_wait K ep n t (st_kernel s) = (Inr evs, k) \<Longrightarrow> live_batch s evs \<Longrightarrow>
      Q evs (stored (l_platform_data lp) evs d k s)"
    and wait_fail_law: "Q [] s \<Longrightarrow> sys_epoll_wait K ep n t (st_kernel s) = (Inl err, k) \<Longrightarrow>
      Q [] (s\<lparr>st_kernel := k, st_errno := err\<rparr>)"
    and flags_law: "Q [] s \<Longrightarrow> st_loops s l = Some lp \<Longrightarrow> lp' = lp\<lparr>l_running := b\<rparr> \<or> lp' = lp\<lparr>l_system_error := err\<rparr> \<Longrightarrow>
      Q [] (s\<lparr>st_loops := (st_loops s)(l \<mapsto> lp')\<rparr>)"

text \<open>The obligations of \<open>well_behaved\<close> are such an invariant.\<close>

lemma well_behaved_program:
  assumes "epoll_kernel K interest" "well_behaved interest U l"
  shows "epoll_program K interest U l (\<lambda>_ _. True)"
proof (intro epoll_program.intro epoll_program_axioms.intro assms(1))
  fix s p e es evfd
  assume s: "run_ok interest s" "loop_pdata s l = Some p" "live_batch s (e # es)"
  then have "ee_data e = NULL \<or> st_watchers s (ee_data e) \<noteq> None" by (auto simp: live_batch_def)
  from deliver_kept [OF assms s(1,2) this, of evfd]
  show "\<exists>s'. deliver K U l evfd e s = Some s' \<and> kept interest l p (ee_data e) s s' \<and> True" by blast
qed simp_all

lemma list_all2_D: "list_all2 R xs ys \<Longrightarrow> x \<in> set xs \<Longrightarrow> \<exists>y\<in>set ys. R x y"
  by (induction rule: list_all2_induct) auto

lemma reported_live_batch:
  assumes "epoll_linked interest s" "loop_data s l = Some d" "distinct fds"
    and "list_all2 (reports (interest (st_kernel s) (ed_epoll_fd d))) es fds"
  shows "live_batch s es"
  unfolding live_batch_def
proof (intro conjI ballI)
  have entry: "ee_data e \<noteq> NULL \<Longrightarrow> watch_fd s (ee_data e) = Some (l, fd)"
    if "reports (interest (st_kernel s) (ed_epoll_fd d)) e fd" for e fd
    using that epoll_linked_entry [OF assms(1,2), of fd] unfolding reports_def entry_ok_def by (elim exE) simp
  show "ee_data e = NULL \<or> st_watchers s (ee_data e) \<noteq> None" if e: "e \<in> set es" for e
  proof -
    obtain fd where "reports (interest (st_kernel s) (ed_epoll_fd d)) e fd" using list_all2_D [OF assms(4) e] by blast
    from entry [OF this] show ?thesis by (cases "ee_data e = NULL") (auto simp: watch_fd_def)
  qed
  show "distinct (filter (\<lambda>w. w \<noteq> NULL) (map ee_data es))"
    using assms(4,3)
  proof (induction rule: list_all2_induct)
    case (Cons e es fd fds)
    have "ee_data e \<noteq> ee_data x" if x: "x \<in> set es" "ee_data e \<noteq> NULL" for x
    proof
      assume eq: "ee_data e = ee_data x"
      obtain f where f: "f \<in> set fds" "reports (interest (st_kernel s) (ed_epoll_fd d)) x f"
        using list_all2_D [OF Cons.hyps(2) x(1)] by blast
      then have "fd = f" using entry [OF Cons.hyps(1)] entry [OF f(2)] x(2) eq by simp
      then show False using f(1) Cons.prems by simp
    qed
    then show ?case using Cons by auto
  qed simp
qed

lemma stored_ok:
  assumes s: "run_ok interest s" and lp: "st_loops s l = Some lp" and d: "st_ldata s (l_platform_data lp) = Some d"
    and k: "interest k = interest (st_kernel s)" and n: "length evs \<le> length (ed_events d)"
  shows "run_ok interest (stored (l_platform_data lp) evs d k s)"
proof -
  let ?d = "d\<lparr>ed_events := map Some evs @ drop (length evs) (ed_events d)\<rparr>"
  let ?s = "s\<lparr>st_ldata := (st_ldata s)(l_platform_data lp \<mapsto> d\<lparr>ed_events := map Some evs @ drop (length evs) (ed_events d)\<rparr>)\<rparr>"
  have ok: "pd_wf s" "epoll_inv s" "epoll_linked interest s" "timers_wired s" using s by (simp_all only: run_ok_def)
  have wf: "pd_wf ?s" using ok(1) pd_wf_loops_undo [of ?s s] by simp
  obtain d' where "l_platform_data lp \<noteq> NULL" "st_ldata s (l_platform_data lp) = Some d'" "epoll_data_ok d'"
    by (rule epoll_inv_loop [OF ok(2) lp])
  then have nz: "l_platform_data lp \<noteq> NULL" and dok: "epoll_data_ok d" using d by simp_all
  have "None \<notin> set (drop (length evs) (ed_events d))"
    using dok by (auto simp: epoll_data_ok_def dest: in_set_dropD)
  then have d': "epoll_data_ok ?d" using dok n by (auto simp: epoll_data_ok_def wf_table_def)
  have own: "owned (loop_pdata s) (st_ldata s) epoll_data_ok" "owned (watcher_pdata s) (st_wdata s) (\<lambda>_. True)"
    using ok(2) by (simp_all add: epoll_inv_def)
  have inv: "epoll_inv ?s"
    using owned_write [OF own(1), of ?d "l_platform_data lp"] d' own(2) by (simp add: epoll_inv_def inv_simps)
  have "epoll_linked interest ?s"
  proof (rule linked_change [OF ok(3,2) lp d _ _ _ , where d' = ?d and f = 0])
    show "entry_ok ?s l ?d 0 en" if "interest (st_kernel ?s) (ed_epoll_fd d) 0 = Some en" for en
      using epoll_linked_entry [OF ok(3) loop_data_Some [OF lp d], of 0 en] that
      by (simp add: entry_ok_def watch_fd_def reg_list_def)
    show "ee_data (ew_epoll_event x) = w" if "watch_data ?s w = Some x" for w x
      using epoll_linked_data [OF ok(3), of w x] that by (simp add: watch_data_def watcher_pdata_def)
  qed (simp_all add: loop_pdata_def fun_eq_iff watch_fd_def reg_list_def)
  then have "run_ok interest ?s" using wf inv ok(4) by (simp add: run_ok_def timers_wired_def)
  moreover have "upd_kernel ?s (stored (l_platform_data lp) evs d k s)" by (simp add: upd_kernel_def stored_def)
  ultimately show ?thesis by (rule run_ok_kernel [rotated 2]) (simp add: stored_def k)
qed

lemma run_ok_loop:
  assumes "run_ok interest s" "st_loops s l = Some lp"
  obtains d where "l \<noteq> NULL" "l_ops lp \<noteq> None" "mutex_ready lp s" "l_platform_data lp \<noteq> NULL"
    "st_ldata s (l_platform_data lp) = Some d" "epoll_data_ok d"
proof -
  have "pd_wf s" "epoll_inv s" using assms(1) by (simp_all only: run_ok_def)
  from pd_wf_loop [OF this(1) assms(2)] epoll_inv_loop [OF this(2) assms(2)] that show thesis
    by (metis loop_ok_def)
qed

text \<open>A wait can fail for another reason than a signal.\<close>

definition wait_breaks :: "'k linux \<Rightarrow> bool" where
  "wait_breaks K \<longleftrightarrow> (\<exists>ep n t k e k'. sys_epoll_wait K ep n t k = (Inl e, k') \<and> e \<noteq> EINTR)"

context epoll_program begin

lemma dispatch_kept:
  assumes "run_ok interest s" "loop_pdata s l = Some p" "live_batch s es" "Q es s" "batch s p = Some (a, evfd)"
    and "\<And>j. j < length es \<Longrightarrow> arr_get a (i + j) = Some (es ! j)"
  shows "\<exists>s'. epoll_dispatch K U l p i (length es) s = Some s' \<and> run_ok interest s' \<and> loop_pdata s' l = Some p \<and> Q [] s'"
  using assms
proof (induction es arbitrary: s i)
  case (Cons e es)
  obtain s1 where s1: "deliver K U l evfd e s = Some s1" "kept interest l p (ee_data e) s s1" "Q es s1"
    using deliver_law [OF Cons.prems(1-4)] by blast
  then have k: "run_ok interest s1" "loop_pdata s1 l = Some p" "dom (st_watchers s) - {ee_data e} \<subseteq> dom (st_watchers s1)"
    "batch s1 p = Some (a, evfd)" using Cons.prems(5) by (simp_all add: kept_def)
  have "arr_get a (i + 1 + j) = Some (es ! j)" if "j < length es" for j using Cons.prems(6) [of "Suc j"] that by simp
  from Cons.IH [OF k(1,2) live_batch_Cons [OF Cons.prems(3) k(3)] s1(3) k(4) this]
  show ?case using process_event_eq [OF Cons.prems(5), of i e] Cons.prems(6) [of 0] s1(1) by simp
qed auto

lemma run_once_kept:
  assumes s: "run_ok interest s" "Q [] s" and lp: "st_loops s l = Some lp"
  shows "\<exists>r s'. pd_loop_run_once (pd_platform_epoll K U) l t s = Some (r, s') \<and> run_ok interest s' \<and> Q [] s' \<and>
    loop_pdata s' l = loop_pdata s l \<and> (r < 0 \<longrightarrow> wait_breaks K)"
proof (cases "l_stop_requested lp")
  case True
  obtain d where d: "l \<noteq> NULL" "l_ops lp \<noteq> None" "mutex_ready lp s" by (rule run_ok_loop [OF s(1) lp])
  then show ?thesis using True s by (simp add: run_once_eq [OF lp d(3,1,2)])
next
  case False
  obtain d where d: "l \<noteq> NULL" "l_ops lp \<noteq> None" "mutex_ready lp s" "l_platform_data lp \<noteq> NULL"
    "st_ldata s (l_platform_data lp) = Some d" "epoll_data_ok d" by (rule run_ok_loop [OF s(1) lp])
  let ?p = "l_platform_data lp" and ?t = "if t < 0 then - 1 else t :: int"
  have dok: "0 < ed_max_events d" "int (length (ed_events d)) = ed_max_events d" using d(6) by (simp_all add: epoll_data_ok_def)
  have pd: "loop_pdata s l = Some ?p" using lp by (simp add: loop_pdata_def)
  obtain q k where q: "sys_epoll_wait K (ed_epoll_fd d) (ed_max_events d) ?t (st_kernel s) = (q, k)" by fastforce
  have "\<exists>r s'. epoll_loop_run K U l t s = Some (r, s') \<and> run_ok interest s' \<and> Q [] s' \<and> loop_pdata s' l = Some ?p \<and>
      (r < 0 \<longrightarrow> wait_breaks K)"
  proof (cases q)
    case (Inl e)
    let ?s = "s\<lparr>st_kernel := k, st_errno := e\<rparr>"
    have "interest k = interest (st_kernel s)" using wait_fail q Inl by blast
    then have ok: "run_ok interest ?s" by (intro run_ok_kernel [OF _ _ s(1)]) (simp_all add: upd_kernel_def)
    have Q: "Q [] ?s" using wait_fail_law [OF s(2)] q Inl by blast
    have lp': "st_loops ?s l = Some lp" using lp by simp
    have up: "upd_control lp (lp\<lparr>l_system_error := e\<rparr>)" by (simp add: upd_control_def)
    have "e \<noteq> EINTR \<Longrightarrow> wait_breaks K" using q Inl unfolding wait_breaks_def by blast
    then show ?thesis
      using run_ok_control [OF ok lp' up] ok Q flags_law [OF Q lp', of "lp\<lparr>l_system_error := e\<rparr>" False e] pd lp
      by (cases "e = EINTR") (simp_all add: loop_run_eq [OF lp d(1,4,5)] q Inl loop_pdata_def)
  next
    case (Inr evs)
    obtain fds where w: "int (length evs) \<le> ed_max_events d" "interest k = interest (st_kernel s)" "distinct fds"
      "list_all2 (reports (interest (st_kernel s) (ed_epoll_fd d))) evs fds"
      using wait_ok [of "ed_epoll_fd d" "ed_max_events d" ?t] q Inr dok(1) by blast
    let ?s = "stored ?p evs d k s"
    have n: "length evs \<le> length (ed_events d)" using w(1) dok(2) by linarith
    have ok: "run_ok interest ?s" by (rule stored_ok [OF s(1) lp d(5) w(2) n])
    have link: "epoll_linked interest s" using s(1) by (simp only: run_ok_def)
    have live': "live_batch s evs" by (rule reported_live_batch [OF link loop_data_Some [OF lp d(5)] w(3,4)])
    then have live: "live_batch ?s evs" by (simp add: live_batch_def stored_def)
    have Q: "Q evs ?s" by (rule wait_law [OF s(1) lp False s(2) q [unfolded Inr] live'])
    have pd': "loop_pdata ?s l = Some ?p" using lp by (simp add: stored_def loop_pdata_def)
    have arr: "batch ?s ?p = Some (map Some evs @ drop (length evs) (ed_events d), ed_eventfd_fd d)"
      by (simp add: batch_def stored_def)
    from dispatch_kept [OF ok pd' live Q arr, of 0]
    show ?thesis using n by (auto simp: loop_run_eq [OF lp d(1,4,5)] q Inr arr_get_stored)
  qed
  then show ?thesis using pd False
    by (simp add: run_once_eq [OF lp d(3,1,2)])
qed

lemma rounds_kept:
  assumes "run_ok interest s" "Q [] s" "loop_pdata s l \<noteq> None"
  shows "\<exists>r. run_rounds (pd_platform_epoll K U) n l s = Some r \<and>
    (case r of Running s' \<Rightarrow> run_ok interest s' \<and> Q [] s' \<and> loop_pdata s' l \<noteq> None
     | Returned c s' \<Rightarrow> run_ok interest s' \<and> Q [] s' \<and> loop_pdata s' l \<noteq> None \<and> (if c = 0 then idle l s' else c < 0 \<and> wait_breaks K))"
  using assms
proof (induction n arbitrary: s)
  case (Suc n)
  have ended: "\<exists>s'. write_loop l (\<lambda>x. x\<lparr>l_running := False\<rparr>) s2 = Some s' \<and> run_ok interest s' \<and> Q [] s' \<and>
      loop_pdata s' l \<noteq> None \<and> (idle l s2 \<longrightarrow> idle l s')"
    if ok: "run_ok interest s2" "Q [] s2" "loop_pdata s2 l \<noteq> None" for s2
  proof -
    obtain kp where kp: "st_loops s2 l = Some kp" using ok(3) by (auto simp: loop_pdata_def)
    have "upd_control kp (kp\<lparr>l_running := False\<rparr>)" by simp
    from run_ok_control [OF ok(1) kp this] flags_law [OF ok(2) kp, of "kp\<lparr>l_running := False\<rparr>" False]
    show ?thesis using kp by (simp add: heap_write_def idle_def loop_pdata_def)
  qed
  obtain kp where kp: "st_loops s l = Some kp" using Suc.prems(3) by (auto simp: loop_pdata_def)
  show ?case
  proof (cases "\<not> l_stop_requested kp \<and> 0 < l_watcher_count kp")
    case False
    moreover from this have "idle l s" using kp by (simp add: idle_def)
    ultimately show ?thesis using ended [OF Suc.prems] kp by auto
  next
    case True
    obtain r s1 where s1: "pd_loop_run_once (pd_platform_epoll K U) l (- 1) s = Some (r, s1)" "run_ok interest s1"
      "Q [] s1" "loop_pdata s1 l \<noteq> None" "r < 0 \<longrightarrow> wait_breaks K"
      using run_once_kept [OF Suc.prems(1,2) kp] Suc.prems(3) by metis
    then show ?thesis
      using ended [OF s1(2-4)] Suc.IH [OF s1(2-4)] kp True by (cases "r < 0") auto
  qed
qed simp

lemma run_kept:
  assumes s: "run_ok interest s" "st_loops s l = Some lp"
    and Q: "Q [] (s\<lparr>st_loops := (st_loops s)(l \<mapsto> lp\<lparr>l_running := True, l_stop_requested := False\<rparr>)\<rparr>)"
  shows "\<exists>r. pd_loop_run (pd_platform_epoll K U) n l s = Some r \<and>
    (case r of Running s' \<Rightarrow> run_ok interest s' \<and> Q [] s' \<and> loop_pdata s' l \<noteq> None
     | Returned c s' \<Rightarrow> run_ok interest s' \<and> Q [] s' \<and> loop_pdata s' l \<noteq> None \<and> (if c = 0 then idle l s' else c < 0 \<and> wait_breaks K))"
proof -
  obtain d where "l \<noteq> NULL" "l_ops lp \<noteq> None" by (rule run_ok_loop [OF s])
  then have run: "pd_loop_run (pd_platform_epoll K U) n l s = run_rounds (pd_platform_epoll K U) n l
      (s\<lparr>st_loops := (st_loops s)(l \<mapsto> lp\<lparr>l_running := True, l_stop_requested := False\<rparr>)\<rparr>)"
    using s(2) by (simp add: pd_loop_run_def heap_write_def)
  have "upd_control lp (lp\<lparr>l_running := True, l_stop_requested := False\<rparr>)" by simp
  from run_ok_control [OF s this] show ?thesis
    unfolding run using Q s(2) by (intro rounds_kept) (simp_all add: loop_pdata_def)
qed

end


lemma ex_loop_data [simp]: "loop_data ex_state = [1 \<mapsto> ex_data]"
  by (simp add: loop_data_def loop_pdata_def fun_eq_iff)

lemma ex_linked [simp]: "epoll_linked rk_entry ex_state"
proof (rule epoll_linkedI)
  fix l d fd en assume d: "loop_data ex_state l = Some d" "rk_entry (st_kernel ex_state) (ed_epoll_fd d) fd = Some en"
  then have "l = 1" "d = ex_data" by (simp_all split: if_splits)
  with d(2) have "fd = 4 \<and> en = wake_event \<or> fd = 7 \<and> en = \<lparr>ee_events = EPOLLIN, ee_data = 10\<rparr>"
    by (simp add: rk_entry_def ex_kernel_def split: if_splits)
  then show "entry_ok ex_state l d fd en"
    using \<open>l = 1\<close> \<open>d = ex_data\<close> by (auto simp: entry_ok_def watch_fd_def wake_event_def)
qed (auto simp: watch_data_def watcher_pdata_def split: if_splits)

lemma ex_run_ok [simp]: "run_ok rk_entry ex_state"
  by (simp add: run_ok_def timers_wired_def)

lemma ex_quiet_behaved: "well_behaved rk_entry ex_quiet 1"
  by (auto simp: well_behaved_def kept_def ex_quiet_def)

interpretation ex_program: epoll_program ref_linux rk_entry ex_quiet 1 "\<lambda>_ _. True"
  by (rule well_behaved_program [OF ref.epoll_kernel_axioms ex_quiet_behaved])


section \<open>What the kernel may report\<close>

context epoll_kernel begin

lemma linked_reachable:
  assumes "(client_step (pd_platform_epoll K U) (epoll_can_reg interest) epoll_can_upd (epoll_env interest))\<^sup>*\<^sup>* s s'"
    and "pd_wf s" "epoll_inv s" "epoll_linked interest s"
  shows "pd_wf s' \<and> epoll_inv s' \<and> epoll_linked interest s'"
  using assms by (rule ptr.reachable_link) (simp add: epoll_inv_kernel epoll_linked_env)

end


text \<open>
  The witness: watcher 11 is started, then the program closes descriptor 7 and watcher 10 is
  not reported any more; descriptor 6 becomes ready.
\<close>

definition ex_started :: "ref_kernel epoll_state" where
  "ex_started = snd (the (pd_watcher_start (pd_platform_epoll ref_linux ex_quiet) 11 ex_state))"



lemma ex_started_step:
  "client_step (pd_platform_epoll ref_linux ex_quiet) (epoll_can_reg rk_entry) epoll_can_upd (epoll_env rk_entry)
     ex_state ex_started"
proof -
  let ?P = "pd_platform_epoll ref_linux ex_quiet"
  have "map_option fst (pd_watcher_start ?P 11 ex_state) = Some PD_OK" by code_simp
  then have "pd_watcher_start ?P 11 ex_state = Some (PD_OK, ex_started)"
    by (auto simp: ex_started_def)
  moreover have "epoll_can_reg rk_entry 1 6 PD_EVENT_READ ex_state"
    by (simp add: epoll_can_reg_def rk_entry_def ex_kernel_def)
  ultimately show ?thesis
    by (intro client_step.start [of _ 11 "ex_watcher 6 False NULL"]) simp_all
qed


section \<open>The obligation is needed\<close>

text \<open>Watchers 10 and 11 are both ready, and the callback of each destroys the other.\<close>

definition ex_destroying :: "ref_kernel user_callbacks" where
  "ex_destroying f l w ev ud s = pd_watcher_destroy (pd_platform_epoll ref_linux ex_quiet) (if w = 10 then 11 else 10) s"

definition ex_both :: "ref_kernel epoll_state" where
  "ex_both = ex_started\<lparr>st_kernel := (st_kernel ex_started)\<lparr>rk_ready := [(6, EPOLLIN), (7, EPOLLIN)]\<rparr>\<rparr>"

text \<open>
  C31: a callback that destroys another watcher of the same batch, which the library allows
  at any other time, makes the dispatch read the freed watcher: the wait is undefined,
  although the state has all invariants and each of the two destructions is defined.
\<close>

theorem epoll_dispatch_use_after_free:
  "pd_wf ex_both \<and> epoll_inv ex_both \<and> epoll_linked rk_entry ex_both \<and>
   pd_watcher_destroy (pd_platform_epoll ref_linux ex_quiet) 10 ex_both \<noteq> None \<and>
   pd_watcher_destroy (pd_platform_epoll ref_linux ex_quiet) 11 ex_both \<noteq> None \<and>
   pd_loop_run_once (pd_platform_epoll ref_linux ex_destroying) 1 0 ex_both = None"
proof -
  let ?P = "pd_platform_epoll ref_linux ex_quiet" and ?C = "epoll_can_reg rk_entry"
  have "epoll_env rk_entry (st_kernel ex_started) ((st_kernel ex_started)\<lparr>rk_ready := [(6, EPOLLIN), (7, EPOLLIN)]\<rparr>)"
    by (simp add: epoll_env_def rk_entry_def [abs_def])
  then have "client_step ?P ?C epoll_can_upd (epoll_env rk_entry) ex_started ex_both"
    unfolding ex_both_def by (rule client_step.kernel)
  with ex_started_step have "(client_step ?P ?C epoll_can_upd (epoll_env rk_entry))\<^sup>*\<^sup>* ex_state ex_both" by simp
  from ref.linked_reachable [OF this ex_pd_wf ex_epoll_inv ex_linked]
  have "pd_wf ex_both \<and> epoll_inv ex_both \<and> epoll_linked rk_entry ex_both" .
  moreover have "map_option (\<lambda>_. ()) (pd_watcher_destroy ?P 10 ex_both) = Some ()"
    "map_option (\<lambda>_. ()) (pd_watcher_destroy ?P 11 ex_both) = Some ()"
    "map_option (\<lambda>_. ()) (pd_loop_run_once (pd_platform_epoll ref_linux ex_destroying) 1 0 ex_both) = None"
    by code_simp+
  ultimately show ?thesis by auto
qed

end
