(* ===== verification/Pd_Timer_Backend.thy ===== *)
theory Pd_Timer_Backend
  imports Pd_Timer
begin

text \<open>
  The contract of a backend's timer operations, and the operations of \<^verbatim>\<open>src/timer.c\<close> on any
  backend that meets it.
\<close>

section \<open>What timer operations change\<close>

text \<open>Like \<open>lists_become\<close>, with the timers and their platform data left open.\<close>

definition lists_change ::
  "(addr \<Rightarrow> addr list \<Rightarrow> addr list) \<Rightarrow> ('ld, 'wd, 'td, 'k) pd_state \<Rightarrow> ('ld, 'wd, 'td, 'k) pd_state \<Rightarrow> bool" where
  "lists_change f s s' \<longleftrightarrow> lists_become f (s\<lparr>st_timers := st_timers s', st_tdata := st_tdata s'\<rparr>) s'"

lemma lists_change_iff:
  "lists_change f s s' \<longleftrightarrow>
     (\<forall>l. st_loops s' l = None \<longleftrightarrow> st_loops s l = None) \<and>
     (\<forall>l lp lp'. st_loops s l = Some lp \<longrightarrow> st_loops s' l = Some lp' \<longrightarrow>
        upd_list lp lp' \<and> watcher_list lp' = f l (watcher_list lp)) \<and>
     st_default_loop s' = st_default_loop s \<and> st_thread_safe s' = st_thread_safe s"
  by (simp add: lists_change_def lists_become_def)

lemma lists_become_change: "lists_become f s s' \<Longrightarrow> lists_change f s s'"
  by (simp add: lists_change_iff lists_become_def)

lemma lists_change_cong:
  assumes "lists_change f s s'" "st_loops t = st_loops s" "st_loops t' = st_loops s'"
    "st_default_loop t = st_default_loop s" "st_default_loop t' = st_default_loop s'"
    "st_thread_safe t = st_thread_safe s" "st_thread_safe t' = st_thread_safe s'"
  shows "lists_change f t t'"
  using assms by (simp add: lists_change_iff)

lemma lists_change_trans:
  assumes "lists_change f s1 s2" and "lists_change g s2 s3"
  shows "lists_change (\<lambda>l ws. g l (f l ws)) s1 s3"
proof -
  let ?r = "\<lambda>s. s\<lparr>st_timers := st_timers s3, st_tdata := st_tdata s3\<rparr>"
  have "lists_become f (?r s1) (?r s2)" "lists_become g (?r s2) (?r s3)"
    using assms by (simp_all add: lists_change_iff lists_become_def)
  from lists_become_trans [OF this] show ?thesis by (simp add: lists_change_def)
qed

lemma lists_change_refl [simp]: "lists_change (\<lambda>_ ws. ws) s s"
  by (auto simp: lists_change_iff intro: upd_list_intros)

lemma lists_change_loop:
  "lists_change f s s' \<Longrightarrow> st_loops s l \<noteq> None \<Longrightarrow> st_loops s' l \<noteq> None"
  by (simp add: lists_change_iff)

section \<open>The contract\<close>

definition new_timer :: "addr \<Rightarrow> 64 word \<Rightarrow> 64 word \<Rightarrow> pd_callback option \<Rightarrow> addr \<Rightarrow> pd_timer" where
  "new_timer l timeout interval cb ud = zero_timer\<lparr>t_loop := l, t_timeout_ms := timeout,
     t_interval_ms := interval, t_callback := cb, t_user_data := ud\<rparr>"

text \<open>\<open>upd_backend t t'\<close>: only the fields that belong to the backend differ.\<close>

definition upd_backend :: "pd_timer \<Rightarrow> pd_timer \<Rightarrow> bool" where
  "upd_backend t t' \<longleftrightarrow> t' = t\<lparr>t_watcher := t_watcher t', t_owns_watcher := t_owns_watcher t',
     t_platform_data := t_platform_data t'\<rparr>"

lemma upd_backendD:
  assumes "upd_backend t t'"
  shows "t_loop t' = t_loop t" "t_timeout_ms t' = t_timeout_ms t" "t_interval_ms t' = t_interval_ms t"
    "t_callback t' = t_callback t" "t_user_data t' = t_user_data t" "t_active t' = t_active t"
  using arg_cong [OF assms [unfolded upd_backend_def], of t_loop] arg_cong [OF assms [unfolded upd_backend_def], of t_timeout_ms]
    arg_cong [OF assms [unfolded upd_backend_def], of t_interval_ms] arg_cong [OF assms [unfolded upd_backend_def], of t_callback]
    arg_cong [OF assms [unfolded upd_backend_def], of t_user_data] arg_cong [OF assms [unfolded upd_backend_def], of t_active]
  by simp_all

text \<open>
  \<open>tinv A\<close> is the backend's invariant of timers. It holds with \<open>A = {}\<close> between two calls;
  in the middle of a destruction the timers in \<open>A\<close> have lost their watcher.
\<close>

locale timer_backend = watcher_backend P reg unreg upd binv
  for P :: "('ld, 'wd, 'td, 'k) pd_state pd_platform_ops" and reg unreg upd binv +
  fixes tcreate :: "addr \<Rightarrow> addr \<Rightarrow> ('ld, 'wd, 'td, 'k) pd_state \<Rightarrow> (pd_error \<times> ('ld, 'wd, 'td, 'k) pd_state) option"
    and tstart tstop :: "addr \<Rightarrow> ('ld, 'wd, 'td, 'k) pd_state \<Rightarrow> (pd_error \<times> ('ld, 'wd, 'td, 'k) pd_state) option"
    and tdestroy :: "addr \<Rightarrow> ('ld, 'wd, 'td, 'k) pd_state \<Rightarrow> (bool \<times> ('ld, 'wd, 'td, 'k) pd_state) option"
    and tinv :: "addr set \<Rightarrow> ('ld, 'wd, 'td, 'k) pd_state \<Rightarrow> bool"
  assumes timer_slots: "op_timer_create P = Some tcreate" "op_timer_start P = Some tstart"
      "op_timer_stop P = Some tstop" "op_timer_destroy P = Some tdestroy"
    and tinv_loop: "tinv A s \<Longrightarrow> st_timers s t = Some tm \<Longrightarrow>
      t \<noteq> NULL \<and> t_loop tm \<noteq> NULL \<and> st_loops s (t_loop tm) \<noteq> None"
    and tinv_watcher: "tinv {} s \<Longrightarrow> st_timers s t = Some tm \<Longrightarrow>
      t_watcher tm \<noteq> NULL \<and> (\<exists>wt. st_watchers s (t_watcher tm) = Some wt \<and> w_loop wt \<noteq> NULL)"
    and tinv_active: "tinv A s \<Longrightarrow> st_timers s t = Some tm \<Longrightarrow>
      tinv A (s\<lparr>st_timers := (st_timers s)(t \<mapsto> tm\<lparr>t_active := b\<rparr>)\<rparr>)"
    and tinv_alloc: "tinv A s \<Longrightarrow> upd_alloc s s' \<Longrightarrow> tinv A s'"
    and tinv_gone: "pd_wf s \<Longrightarrow> tinv {} s \<Longrightarrow> st_timers s t = Some tm \<Longrightarrow> t_owns_watcher tm \<Longrightarrow>
      st_watchers s' = (st_watchers s)(t_watcher tm := None) \<Longrightarrow> st_tdata s' = st_tdata s \<Longrightarrow>
      lists_change (\<lambda>_. remove1 (t_watcher tm)) s s' \<Longrightarrow>
      tinv {t} (s'\<lparr>st_timers := (st_timers s)(t \<mapsto> tm\<lparr>t_watcher := NULL\<rparr>)\<rparr>)"
    and tcreate_law: "pd_wf s \<Longrightarrow> binv s \<Longrightarrow> tinv {} s \<Longrightarrow> st_timers s t = None \<Longrightarrow> t \<noteq> NULL \<Longrightarrow>
      st_loops s l = Some lp \<Longrightarrow>
      \<exists>r s' tm. tcreate l t (s\<lparr>st_timers := (st_timers s)(t \<mapsto> new_timer l timeout interval (Some (Cb_user f)) ud)\<rparr>) = Some (r, s') \<and>
        pd_wf s' \<and> binv s' \<and> st_timers s' = (st_timers s)(t \<mapsto> tm) \<and>
        (if r = PD_OK
         then upd_backend (new_timer l timeout interval (Some (Cb_user f)) ud) tm \<and> tinv {} s' \<and>
           st_watchers s (t_watcher tm) = None \<and> (\<exists>y. st_watchers s' = (st_watchers s)(t_watcher tm \<mapsto> y)) \<and>
           lists_change (\<lambda>k ws. if k = l then ws @ [t_watcher tm] else ws) s s'
         else tinv {} (s'\<lparr>st_timers := st_timers s\<rparr>) \<and> st_watchers s' = st_watchers s \<and> st_tdata s' = st_tdata s \<and>
           lists_change (\<lambda>_ ws. ws) s s')"
    and tstart_law: "pd_wf s \<Longrightarrow> binv s \<Longrightarrow> tinv {} s \<Longrightarrow> st_timers s t = Some tm \<Longrightarrow>
      \<exists>r s'. tstart t s = Some (r, s') \<and> pd_wf s' \<and> binv s' \<and> tinv {} s' \<and> st_timers s' = st_timers s \<and>
        dom (st_watchers s') = dom (st_watchers s) \<and> lists_change (\<lambda>_ ws. ws) s s'"
    and tstop_law: "pd_wf s \<Longrightarrow> binv s \<Longrightarrow> tinv {} s \<Longrightarrow> st_timers s t = Some tm \<Longrightarrow>
      \<exists>r s'. tstop t s = Some (r, s') \<and> pd_wf s' \<and> binv s' \<and> tinv {} s' \<and> st_timers s' = st_timers s \<and>
        dom (st_watchers s') = dom (st_watchers s) \<and> lists_change (\<lambda>_ ws. ws) s s'"
    and tdestroy_law: "pd_wf s \<Longrightarrow> binv s \<Longrightarrow> st_timers s t = Some tm \<Longrightarrow>
      (if t_owns_watcher tm then tinv {t} s \<and> t_watcher tm = NULL else tinv {} s) \<Longrightarrow>
      \<exists>s' tm'. tdestroy t s = Some (True, s') \<and> pd_wf s' \<and> binv s' \<and> st_timers s' = (st_timers s)(t \<mapsto> tm') \<and>
        tinv {} (s'\<lparr>st_timers := (st_timers s)(t := None)\<rparr>) \<and> st_tdata s' = (st_tdata s)(t_platform_data tm := None) \<and>
        st_watchers s' = (if t_owns_watcher tm then st_watchers s else (st_watchers s)(t_watcher tm := None)) \<and>
        lists_change (\<lambda>_ ws. if t_owns_watcher tm then ws else remove1 (t_watcher tm) ws) s s'"

section \<open>The operations of \<^verbatim>\<open>src/timer.c\<close>\<close>

lemma calloc_timer_cases:
  obtains (null) s1 where "calloc_timer s = (NULL, s1)" "upd_alloc s s1"
  | (some) t s1 where "calloc_timer s = (t, s1\<lparr>st_timers := (st_timers s)(t \<mapsto> zero_timer)\<rparr>)"
      "t \<noteq> NULL" "st_timers s t = None" "upd_alloc s s1"
  by (rule heap_alloc_cases [of s st_timers "\<lambda>h s. s\<lparr>st_timers := h\<rparr>" zero_timer])
    (erule upd_alloc_frame, (assumption | erule null | erule (3) some)+)

lemma pd_wf_timers [simp]:
  "pd_wf (s\<lparr>st_timers := h\<rparr>) = pd_wf s" "pd_wf (s\<lparr>st_tdata := g\<rparr>) = pd_wf s"
  "pd_wf (s\<lparr>st_kernel := k\<rparr>) = pd_wf s" "pd_wf (s\<lparr>st_errno := e\<rparr>) = pd_wf s"
  "pd_wf (s\<lparr>st_choices := cs\<rparr>) = pd_wf s"
  by (rule pd_wf_loops_undo; simp)+

context timer_backend begin

lemma binv_timers: "binv s \<Longrightarrow> binv (s\<lparr>st_timers := h\<rparr>)"
  by (rule binv_stable, assumption) (auto simp: same_pdata_def loop_pdata_def watcher_pdata_def map_le_def)

lemma timer_slot:
  assumes "pd_wf s" "st_loops s l = Some lp"
  shows "loop_op op_timer_create P lp = Some tcreate" "loop_op op_timer_start P lp = Some tstart"
    "loop_op op_timer_stop P lp = Some tstop" "loop_op op_timer_destroy P lp = Some tdestroy"
  using pd_wf_loop [OF assms] by (auto simp: loop_ok_def loop_op_def timer_slots)

lemma timer_create_step:
  assumes wf: "pd_wf s" "binv s" "tinv {} s" and lp: "st_loops s l = Some lp"
  obtains (null) s' where "pd_timer_create P l timeout interval (Some (Cb_user f)) ud s = Some (NULL, s')"
      "pd_wf s'" "binv s'" "tinv {} s'" "st_timers s' = st_timers s" "st_watchers s' = st_watchers s"
      "st_tdata s' = st_tdata s" "lists_change (\<lambda>_ ws. ws) s s'"
  | (some) t s' tm y where "pd_timer_create P l timeout interval (Some (Cb_user f)) ud s = Some (t, s')"
      "pd_wf s'" "binv s'" "tinv {} s'" "t \<noteq> NULL" "st_timers s t = None" "st_timers s' = (st_timers s)(t \<mapsto> tm)"
      "upd_backend (new_timer l timeout interval (Some (Cb_user f)) ud) tm"
      "st_watchers s (t_watcher tm) = None" "st_watchers s' = (st_watchers s)(t_watcher tm \<mapsto> y)"
      "lists_change (\<lambda>k ws. if k = l then ws @ [t_watcher tm] else ws) s s'"
proof -
  let ?run = "pd_timer_create P l timeout interval (Some (Cb_user f)) ud s"
  have l: "l \<noteq> NULL" using pd_wf_loop [OF wf(1) lp] by (simp add: loop_ok_def)
  show thesis
  proof (cases rule: calloc_timer_cases [of s])
    case (null s1)
    then have "?run = Some (NULL, s1)" using l by (simp add: pd_timer_create_def)
    moreover have "lists_change (\<lambda>_ ws. ws) s s1"
      using lists_become_change [OF lists_become_alloc [OF null(2)]] .
    ultimately show thesis
      using pd_wf_alloc [OF wf(1) null(2)] binv_alloc [OF wf(2) null(2)] tinv_alloc [OF wf(3) null(2)]
        upd_alloc_frame [OF null(2)] by (intro that(1)) simp_all
  next
    case (some t s1)
    let ?tm = "new_timer l timeout interval (Some (Cb_user f)) ud" and ?s2 = "s1\<lparr>st_timers := (st_timers s)(t \<mapsto> new_timer l timeout interval (Some (Cb_user f)) ud)\<rparr>"
    have s1: "pd_wf s1" "binv s1" "tinv {} s1" "st_timers s1 = st_timers s" "st_loops s1 l = Some lp"
      "st_watchers s1 = st_watchers s" "st_tdata s1 = st_tdata s"
      using pd_wf_alloc [OF wf(1) some(4)] binv_alloc [OF wf(2) some(4)] tinv_alloc [OF wf(3) some(4)]
        upd_alloc_frame [OF some(4)] lp by simp_all
    have t1: "st_timers s1 t = None" using some(3) s1(4) by simp
    obtain r s' tm where tc: "tcreate l t ?s2 = Some (r, s')" "pd_wf s'" "binv s'" "st_timers s' = (st_timers s)(t \<mapsto> tm)"
      "if r = PD_OK
       then upd_backend ?tm tm \<and> tinv {} s' \<and>
         st_watchers s1 (t_watcher tm) = None \<and> (\<exists>y. st_watchers s' = (st_watchers s1)(t_watcher tm \<mapsto> y)) \<and>
         lists_change (\<lambda>k ws. if k = l then ws @ [t_watcher tm] else ws) s1 s'
       else tinv {} (s'\<lparr>st_timers := st_timers s\<rparr>) \<and> st_watchers s' = st_watchers s1 \<and> st_tdata s' = st_tdata s1 \<and>
         lists_change (\<lambda>_ ws. ws) s1 s'"
      using tcreate_law [OF s1(1-3) t1 some(2) s1(5), of timeout interval f ud] unfolding s1(4) by blast
    have run: "?run = (if r = PD_OK then Some (t, s') else Some (NULL, s'\<lparr>st_timers := (st_timers s')(t := None)\<rparr>))"
      using l some(1,2) s1(5) timer_slot(1) [OF s1(1,5)] tc(1,4)
      by (simp add: pd_timer_create_def heap_ops new_timer_def zero_timer_def)
    have change: "lists_change g s1 s' = lists_change g s s'" for g
      using upd_alloc_frame [OF some(4)] by (simp add: lists_change_iff)
    show thesis
    proof (cases "r = PD_OK")
      case True
      then show thesis using tc run some(2,3) s1(6) by (auto simp: change intro: that(2))
    next
      case False
      have "(st_timers s')(t := None) = st_timers s" using tc(4) some(3) by (simp add: fun_upd_idem)
      then have "?run = Some (NULL, s'\<lparr>st_timers := st_timers s\<rparr>)" using run False by simp
      moreover have "tinv {} (s'\<lparr>st_timers := st_timers s\<rparr>)" "st_watchers s' = st_watchers s"
        "st_tdata s' = st_tdata s" "lists_change (\<lambda>_ ws. ws) s s'"
        using tc(5) False s1(6,7) by (simp_all add: change)
      moreover have "lists_change (\<lambda>_ ws. ws) s (s'\<lparr>st_timers := st_timers s\<rparr>)"
        using calculation(5) by (rule lists_change_cong) simp_all
      ultimately show thesis
        using tc(2) binv_timers [OF tc(3)] by (intro that(1) [of "s'\<lparr>st_timers := st_timers s\<rparr>"]) simp_all
    qed
  qed
qed

lemma timer_active:
  assumes wf: "pd_wf s" "binv s" "tinv {} s" and t: "st_timers s t = Some tm"
  shows "pd_wf (s\<lparr>st_timers := (st_timers s)(t \<mapsto> tm\<lparr>t_active := b\<rparr>)\<rparr>)"
    "binv (s\<lparr>st_timers := (st_timers s)(t \<mapsto> tm\<lparr>t_active := b\<rparr>)\<rparr>)"
    "tinv {} (s\<lparr>st_timers := (st_timers s)(t \<mapsto> tm\<lparr>t_active := b\<rparr>)\<rparr>)"
  using wf binv_timers tinv_active [OF wf(3) t] by simp_all

text \<open>Start and stop: the timer is active afterwards exactly if the backend could do it.\<close>

lemma timer_start_step:
  assumes wf: "pd_wf s" "binv s" "tinv {} s" and t: "st_timers s t = Some tm" "\<not> t_active tm"
  obtains r s' s2 where "pd_timer_start P t s = Some (r, s')" "pd_wf s'" "binv s'" "tinv {} s'"
    "tstart t (s\<lparr>st_timers := (st_timers s)(t \<mapsto> tm\<lparr>t_active := True\<rparr>)\<rparr>) = Some (r, s2)"
    "s' = s2\<lparr>st_timers := (st_timers s)(t \<mapsto> tm\<lparr>t_active := (r = PD_OK)\<rparr>)\<rparr>"
    "dom (st_watchers s') = dom (st_watchers s)" "lists_change (\<lambda>_ ws. ws) s s'"
proof -
  let ?s1 = "s\<lparr>st_timers := (st_timers s)(t \<mapsto> tm\<lparr>t_active := True\<rparr>)\<rparr>"
  obtain lp where nz: "t \<noteq> NULL" "t_loop tm \<noteq> NULL" and lp: "st_loops s (t_loop tm) = Some lp"
    using tinv_loop [OF wf(3) t(1)] by blast
  have s1: "pd_wf ?s1" "binv ?s1" "tinv {} ?s1" using timer_active [OF wf t(1)] by simp_all
  obtain r s2 where s2: "tstart t ?s1 = Some (r, s2)" "pd_wf s2" "binv s2" "tinv {} s2" "st_timers s2 = st_timers ?s1"
    "dom (st_watchers s2) = dom (st_watchers s)" "lists_change (\<lambda>_ ws. ws) ?s1 s2"
    using tstart_law [OF s1, of t "tm\<lparr>t_active := True\<rparr>"] by auto
  let ?s' = "s2\<lparr>st_timers := (st_timers s)(t \<mapsto> tm\<lparr>t_active := (r = PD_OK)\<rparr>)\<rparr>"
  have s2t: "st_timers s2 t = Some (tm\<lparr>t_active := True\<rparr>)" using s2(5) by simp
  have same: "s2\<lparr>st_timers := (st_timers s)(t \<mapsto> tm\<lparr>t_active := True\<rparr>)\<rparr> = s2" using s2(5) by simp
  have "pd_timer_start P t s = Some (r, ?s')"
    using nz t lp timer_slot(2) [OF wf(1) lp] s2(1,5) same
    by (cases "r = PD_OK") (simp_all add: pd_timer_start_def heap_write_def)
  moreover have "pd_wf ?s'" "binv ?s'" "tinv {} ?s'"
    using timer_active [OF s2(2-4) s2t, of "r = PD_OK"] s2(5) by simp_all
  moreover have "lists_change (\<lambda>_ ws. ws) s ?s'" using s2(7) by (rule lists_change_cong) simp_all
  ultimately show thesis using s2(1,6) by (intro that) simp_all
qed

lemma timer_stop_step:
  assumes wf: "pd_wf s" "binv s" "tinv {} s" and t: "st_timers s t = Some tm" "t_active tm"
  obtains r s' s2 where "pd_timer_stop P t s = Some (r, s')" "pd_wf s'" "binv s'" "tinv {} s'"
    "tstop t (s\<lparr>st_timers := (st_timers s)(t \<mapsto> tm\<lparr>t_active := False\<rparr>)\<rparr>) = Some (r, s2)"
    "s' = s2\<lparr>st_timers := (st_timers s)(t \<mapsto> tm\<lparr>t_active := (r \<noteq> PD_OK)\<rparr>)\<rparr>"
    "dom (st_watchers s') = dom (st_watchers s)" "lists_change (\<lambda>_ ws. ws) s s'"
proof -
  let ?s1 = "s\<lparr>st_timers := (st_timers s)(t \<mapsto> tm\<lparr>t_active := False\<rparr>)\<rparr>"
  obtain lp where nz: "t \<noteq> NULL" "t_loop tm \<noteq> NULL" and lp: "st_loops s (t_loop tm) = Some lp"
    using tinv_loop [OF wf(3) t(1)] by blast
  have s1: "pd_wf ?s1" "binv ?s1" "tinv {} ?s1" using timer_active [OF wf t(1)] by simp_all
  obtain r s2 where s2: "tstop t ?s1 = Some (r, s2)" "pd_wf s2" "binv s2" "tinv {} s2" "st_timers s2 = st_timers ?s1"
    "dom (st_watchers s2) = dom (st_watchers s)" "lists_change (\<lambda>_ ws. ws) ?s1 s2"
    using tstop_law [OF s1, of t "tm\<lparr>t_active := False\<rparr>"] by auto
  let ?s' = "s2\<lparr>st_timers := (st_timers s)(t \<mapsto> tm\<lparr>t_active := (r \<noteq> PD_OK)\<rparr>)\<rparr>"
  have s2t: "st_timers s2 t = Some (tm\<lparr>t_active := False\<rparr>)" using s2(5) by simp
  have same: "s2\<lparr>st_timers := (st_timers s)(t \<mapsto> tm\<lparr>t_active := False\<rparr>)\<rparr> = s2" using s2(5) by simp
  have "pd_timer_stop P t s = Some (r, ?s')"
    using nz t lp timer_slot(3) [OF wf(1) lp] s2(1,5) same
    by (cases "r = PD_OK") (simp_all add: pd_timer_stop_def heap_write_def)
  moreover have "pd_wf ?s'" "binv ?s'" "tinv {} ?s'"
    using timer_active [OF s2(2-4) s2t, of "r \<noteq> PD_OK"] s2(5) by simp_all
  moreover have "lists_change (\<lambda>_ ws. ws) s ?s'" using s2(7) by (rule lists_change_cong) simp_all
  ultimately show thesis using s2(1,6) by (intro that) simp_all
qed

text \<open>
  Destroy stops the timer, destroys the watcher it owns, and has the backend release its
  data, in this order, whatever the backend answers; nothing of the timer is left.
\<close>

lemma timer_stop_if:
  assumes wf: "pd_wf s" "binv s" "tinv {} s" and t: "st_timers s t = Some tm"
  obtains s1 tm1 where "(if t_active tm then do { (_, s) \<leftarrow> pd_timer_stop P t s; Some s } else Some s) = Some s1"
    "pd_wf s1" "binv s1" "tinv {} s1" "st_timers s1 = (st_timers s)(t \<mapsto> tm1)" "\<exists>b. tm1 = tm\<lparr>t_active := b\<rparr>"
    "dom (st_watchers s1) = dom (st_watchers s)" "lists_change (\<lambda>_ ws. ws) s s1"
proof (cases "t_active tm")
  case False
  moreover have "tm\<lparr>t_active := t_active tm\<rparr> = tm" by simp
  then have "\<exists>b. tm = tm\<lparr>t_active := b\<rparr>" by metis
  ultimately show thesis using wf t by (intro that [of s tm]) (simp_all add: fun_upd_idem)
next
  case True
  obtain r s' s2 where "pd_timer_stop P t s = Some (r, s')" "pd_wf s'" "binv s'" "tinv {} s'"
    "s' = s2\<lparr>st_timers := (st_timers s)(t \<mapsto> tm\<lparr>t_active := (r \<noteq> PD_OK)\<rparr>)\<rparr>"
    "dom (st_watchers s') = dom (st_watchers s)" "lists_change (\<lambda>_ ws. ws) s s'"
    by (rule timer_stop_step [OF wf t True])
  then show thesis using True by (intro that [of s' "tm\<lparr>t_active := (r \<noteq> PD_OK)\<rparr>"]) auto
qed

lemma timer_destroy_step:
  assumes wf: "pd_wf s" "binv s" "tinv {} s" and t: "st_timers s t = Some tm"
  obtains s' where "pd_timer_destroy P t s = Some (PD_OK, s')" "pd_wf s'" "binv s'" "tinv {} s'"
    "st_timers s' = (st_timers s)(t := None)" "dom (st_watchers s') = dom (st_watchers s) - {t_watcher tm}"
    "lists_change (\<lambda>_. remove1 (t_watcher tm)) s s'" "t_platform_data tm = NULL \<or> st_tdata s' (t_platform_data tm) = None"
proof -
  have nz: "t \<noteq> NULL" "t_loop tm \<noteq> NULL" using tinv_loop [OF wf(3) t] by simp_all
  obtain s1 tm1 where s1: "(if t_active tm then do { (_, s) \<leftarrow> pd_timer_stop P t s; Some s } else Some s) = Some s1"
    "pd_wf s1" "binv s1" "tinv {} s1" "st_timers s1 = (st_timers s)(t \<mapsto> tm1)" "\<exists>b. tm1 = tm\<lparr>t_active := b\<rparr>"
    "dom (st_watchers s1) = dom (st_watchers s)" "lists_change (\<lambda>_ ws. ws) s s1"
    by (rule timer_stop_if [OF wf t])
  have t1: "st_timers s1 t = Some tm1" using s1(5) by simp
  have tm1: "t_watcher tm1 = t_watcher tm" "t_owns_watcher tm1 = t_owns_watcher tm" "t_loop tm1 = t_loop tm"
    "t_platform_data tm1 = t_platform_data tm" using s1(6) by auto
  obtain wt where w: "t_watcher tm \<noteq> NULL" "st_watchers s1 (t_watcher tm) = Some wt" "w_loop wt \<noteq> NULL"
    using tinv_watcher [OF s1(4) t1] tm1 by auto
  obtain s2 tm2 where s2: "(if t_watcher tm1 \<noteq> NULL \<and> t_owns_watcher tm1
       then do { s \<leftarrow> pd_watcher_destroy P (t_watcher tm1) s1; write_timer t (\<lambda>t. t\<lparr>t_watcher := NULL\<rparr>) s }
       else Some s1) = Some s2" "pd_wf s2" "binv s2" "st_timers s2 = (st_timers s)(t \<mapsto> tm2)"
    "tm2 = (if t_owns_watcher tm then tm1\<lparr>t_watcher := NULL\<rparr> else tm1)"
    "if t_owns_watcher tm then tinv {t} s2 else tinv {} s2"
    "dom (st_watchers s2) = (if t_owns_watcher tm then dom (st_watchers s) - {t_watcher tm} else dom (st_watchers s))"
    "lists_change (\<lambda>_ ws. if t_owns_watcher tm then remove1 (t_watcher tm) ws else ws) s s2"
  proof (cases "t_owns_watcher tm")
    case False
    then show thesis using s1 by (intro that [of s1 tm1]) (simp_all add: tm1)
  next
    case True
    obtain s3 where s3: "pd_watcher_destroy P (t_watcher tm) s1 = Some s3" "pd_wf s3" "binv s3"
      "st_watchers s3 = (st_watchers s1)(t_watcher tm := None)" "lists_become (\<lambda>k. remove1 (t_watcher tm)) s1 s3"
      by (rule destroy_step [OF s1(2,3) w(2,3)])
    have fr: "st_timers s3 = st_timers s1" "st_tdata s3 = st_tdata s1" using s3(5) by (simp_all add: lists_become_def)
    let ?s2 = "s3\<lparr>st_timers := (st_timers s1)(t \<mapsto> tm1\<lparr>t_watcher := NULL\<rparr>)\<rparr>"
    have change: "lists_change (\<lambda>k. remove1 (t_watcher tm)) s1 s3" using s3(5) by (rule lists_become_change)
    have "tinv {t} ?s2"
      by (rule tinv_gone [OF s1(2,4) t1]) (use True s3(4) change fr(2) in \<open>simp_all add: tm1\<close>)
    moreover have "lists_change (\<lambda>_. remove1 (t_watcher tm)) s ?s2"
      using lists_change_trans [OF s1(8) change] by (rule lists_change_cong) simp_all
    moreover have "dom (st_watchers s3) = dom (st_watchers s1) - {t_watcher tm}" using s3(4) by auto
    ultimately show thesis
      using True s3 binv_timers [OF s3(3)] fr t1 w(1) s1(5,7)
      by (intro that [of ?s2 "tm1\<lparr>t_watcher := NULL\<rparr>"]) (simp_all add: tm1 heap_write_def)
  qed
  have t2: "st_timers s2 t = Some tm2" using s2(4) by simp
  have tm2: "t_owns_watcher tm2 = t_owns_watcher tm" "t_loop tm2 = t_loop tm" "t_platform_data tm2 = t_platform_data tm"
    "t_watcher tm2 = (if t_owns_watcher tm then NULL else t_watcher tm)" using s2(5) by (simp_all add: tm1)
  obtain s3 tm3 where s3: "tdestroy t s2 = Some (True, s3)" "pd_wf s3" "binv s3" "st_timers s3 = (st_timers s2)(t \<mapsto> tm3)"
    "tinv {} (s3\<lparr>st_timers := (st_timers s2)(t := None)\<rparr>)" "st_tdata s3 = (st_tdata s2)(t_platform_data tm := None)"
    "st_watchers s3 = (if t_owns_watcher tm then st_watchers s2 else (st_watchers s2)(t_watcher tm2 := None))"
    "lists_change (\<lambda>_ ws. if t_owns_watcher tm then ws else remove1 (t_watcher tm2) ws) s2 s3"
    using tdestroy_law [OF s2(2,3) t2] s2(6) tm2 by (auto split: if_splits)
  obtain lp where lp: "st_loops s2 (t_loop tm) = Some lp"
    using s2(8) tinv_loop [OF wf(3) t] by (auto dest: lists_change_loop)
  let ?s' = "s3\<lparr>st_timers := (st_timers s)(t := None)\<rparr>"
  have upd: "(st_timers s3)(t := None) = (st_timers s)(t := None)" "(st_timers s2)(t := None) = (st_timers s)(t := None)"
    using s3(4) s2(4) by simp_all
  have "pd_timer_destroy P t s = Some (PD_OK, ?s')"
    using nz t s1(1) t1 s2(1) t2 tm2(2) lp timer_slot(4) [OF s2(2) lp] s3(1,4) upd(1)
    by (simp add: pd_timer_destroy_def heap_free_def)
  moreover have "lists_change (\<lambda>_. remove1 (t_watcher tm)) s s3"
    using lists_change_trans [OF s2(8) s3(8)] by (cases "t_owns_watcher tm") (simp_all add: tm2(4))
  then have "lists_change (\<lambda>_. remove1 (t_watcher tm)) s ?s'" by (rule lists_change_cong) simp_all
  moreover have "dom (st_watchers s3) = dom (st_watchers s) - {t_watcher tm}"
    using s2(7) s3(7) tm2(4) by (auto split: if_splits)
  ultimately show thesis
    using s3(2,5,6) binv_timers [OF s3(3)] upd by (intro that [of ?s']) simp_all
qed

end

end
