(* ===== verification/Pd_Epoll_Timer.thy ===== *)
theory Pd_Epoll_Timer
  imports Pd_Timer_Backend Pd_Epoll_Props
begin

text \<open>
  Timers on timerfds: the epoll backend meets the contract of \<open>Pd_Timer_Backend\<close>. Every
  timer has a timerfd and an internal watcher of it, and every watcher with the internal
  callback belongs to a live timer.
\<close>

section \<open>The invariant of timers\<close>

definition timer_key :: "pd_watcher \<Rightarrow> addr \<times> int \<times> pd_callback option \<times> addr" where
  "timer_key x = (w_loop x, w_fd x, w_callback x, w_user_data x)"

definition watcher_keys :: "'k epoll_state \<Rightarrow> addr \<Rightarrow> (addr \<times> int \<times> pd_callback option \<times> addr) option" where
  "watcher_keys s w = map_option timer_key (st_watchers s w)"

definition epoll_timer_ok :: "addr set \<Rightarrow> 'k epoll_state \<Rightarrow> addr \<Rightarrow> pd_timer \<Rightarrow> bool" where
  "epoll_timer_ok A s t tm \<longleftrightarrow> t \<noteq> NULL \<and> t_loop tm \<noteq> NULL \<and> st_loops s (t_loop tm) \<noteq> None \<and>
     t_owns_watcher tm \<and> (\<exists>f. t_callback tm = Some (Cb_user f)) \<and> t_platform_data tm \<noteq> NULL \<and>
     (\<exists>fd. st_tdata s (t_platform_data tm) = Some fd \<and> 0 \<le> fd \<and>
        (if t \<in> A then t_watcher tm = NULL
         else t_watcher tm \<noteq> NULL \<and> watcher_keys s (t_watcher tm) = Some (t_loop tm, fd, Some Cb_timerfd, t)))"

definition timer_pdata :: "'k epoll_state \<Rightarrow> addr \<Rightarrow> addr option" where
  "timer_pdata s t = map_option t_platform_data (st_timers s t)"

definition epoll_tinv :: "addr set \<Rightarrow> 'k epoll_state \<Rightarrow> bool" where
  "epoll_tinv A s \<longleftrightarrow> (\<forall>t tm. st_timers s t = Some tm \<longrightarrow> epoll_timer_ok A s t tm) \<and>
     (\<forall>t t' p. timer_pdata s t = Some p \<longrightarrow> timer_pdata s t' = Some p \<longrightarrow> t = t') \<and>
     (\<forall>w l fd t. watcher_keys s w = Some (l, fd, Some Cb_timerfd, t) \<longrightarrow>
        (\<exists>tm. st_timers s t = Some tm \<and> t_watcher tm = w \<and> t \<notin> A))"

lemma epoll_tinvI:
  assumes "\<And>t tm. st_timers s t = Some tm \<Longrightarrow> epoll_timer_ok A s t tm"
    and "\<And>t t' p. timer_pdata s t = Some p \<Longrightarrow> timer_pdata s t' = Some p \<Longrightarrow> t = t'"
    and "\<And>w l fd t. watcher_keys s w = Some (l, fd, Some Cb_timerfd, t) \<Longrightarrow>
      \<exists>tm. st_timers s t = Some tm \<and> t_watcher tm = w \<and> t \<notin> A"
  shows "epoll_tinv A s"
  using assms unfolding epoll_tinv_def by blast

lemma epoll_tinv_facts:
  assumes "epoll_tinv A s"
  shows epoll_tinv_timer: "st_timers s t = Some tm \<Longrightarrow> epoll_timer_ok A s t tm"
    and epoll_tinv_inj: "timer_pdata s t = Some p \<Longrightarrow> timer_pdata s t' = Some p \<Longrightarrow> t = t'"
    and epoll_tinv_wired: "watcher_keys s w = Some (l, fd, Some Cb_timerfd, t) \<Longrightarrow>
      \<exists>tm. st_timers s t = Some tm \<and> t_watcher tm = w \<and> t \<notin> A"
  using assms unfolding epoll_tinv_def by blast+

lemma watcher_keys_simps [simp]:
  "watcher_keys (s\<lparr>st_timers := h1\<rparr>) = watcher_keys s" "watcher_keys (s\<lparr>st_tdata := h2\<rparr>) = watcher_keys s"
  "watcher_keys (s\<lparr>st_kernel := k\<rparr>) = watcher_keys s" "watcher_keys (s\<lparr>st_errno := e\<rparr>) = watcher_keys s"
  "watcher_keys (s\<lparr>st_choices := cs\<rparr>) = watcher_keys s" "watcher_keys (s\<lparr>st_loops := h3\<rparr>) = watcher_keys s"
  by (simp_all add: watcher_keys_def fun_eq_iff)

lemma epoll_timer_ok_upd:
  assumes "epoll_timer_ok A s t tm" "st_loops s' (t_loop tm) \<noteq> None" "st_tdata s' (t_platform_data tm) = st_tdata s (t_platform_data tm)"
    and "t \<in> A \<longleftrightarrow> t \<in> A'" "t \<notin> A \<longrightarrow> watcher_keys s' (t_watcher tm) = watcher_keys s (t_watcher tm)"
  shows "epoll_timer_ok A' s' t (tm\<lparr>t_active := b\<rparr>)" "epoll_timer_ok A' s' t tm"
  using assms unfolding epoll_timer_ok_def by auto

text \<open>It depends on the timers, their descriptors, the keys of the watchers, and which loops live.\<close>

lemma epoll_tinv_cong:
  assumes "epoll_tinv A s" and t: "st_timers s' = st_timers s" "st_tdata s' = st_tdata s"
    and w: "watcher_keys s' = watcher_keys s" and l: "\<And>l. st_loops s l \<noteq> None \<Longrightarrow> st_loops s' l \<noteq> None"
  shows "epoll_tinv A s'"
proof -
  have "epoll_timer_ok A s' t tm" if "epoll_timer_ok A s t tm" for t tm
    using that l [of "t_loop tm"] unfolding epoll_timer_ok_def t w by blast
  then show ?thesis using assms(1) by (simp add: epoll_tinv_def timer_pdata_def t w)
qed

lemma watcher_keys_cong: "st_watchers s' = st_watchers s \<Longrightarrow> watcher_keys s' = watcher_keys s"
  by (simp add: watcher_keys_def fun_eq_iff)

lemma watcher_keys_put:
  "st_watchers s' = (st_watchers s)(w \<mapsto> y) \<Longrightarrow> watcher_keys s' = (watcher_keys s)(w \<mapsto> timer_key y)"
  by (auto simp: watcher_keys_def fun_eq_iff)

lemma upd_status_key: "upd_status x y \<Longrightarrow> timer_key y = timer_key x"
  by (auto simp: timer_key_def elim!: upd_statusE)

lemma watcher_keys_status:
  assumes "only_watcher upd_status w s s'"
  shows "watcher_keys s' = watcher_keys s"
proof -
  obtain x y where "st_watchers s w = Some x" "upd_status x y" "st_watchers s' = (st_watchers s)(w \<mapsto> y)"
    using assms by (elim only_watcherE)
  then show ?thesis
    using watcher_keys_put [of s' s w y] upd_status_key [of x y] by (simp add: watcher_keys_def fun_eq_iff)
qed

lemma epoll_tinv_step:
  assumes "epoll_tinv A s" "only_watcher upd_status w s s'"
  shows "epoll_tinv A s'"
proof (rule epoll_tinv_cong [OF assms(1)])
  show "st_loops s' l \<noteq> None" if "st_loops s l \<noteq> None" for l
    using lists_change_loop [OF lists_become_change [OF lists_become_only_watcher [OF assms(2)]] that] .
  show "watcher_keys s' = watcher_keys s" by (rule watcher_keys_status [OF assms(2)])
qed (use assms(2) in \<open>simp_all add: only_watcher_def\<close>)

lemma epoll_inv_cong:
  assumes "epoll_inv s" "st_loops s' = st_loops s" "st_watchers s' = st_watchers s" "st_ldata s' = st_ldata s" "st_wdata s' = st_wdata s"
  shows "epoll_inv s'"
proof -
  have "loop_pdata s' = loop_pdata s" "watcher_pdata s' = watcher_pdata s"
    using assms(2,3) by (simp_all add: loop_pdata_def watcher_pdata_def fun_eq_iff)
  then show ?thesis using assms by (simp add: epoll_inv_def)
qed

text \<open>Recording a system error in a loop.\<close>

lemma set_error_step:
  assumes "pd_wf s" "epoll_inv s" "st_loops s l = Some lp" "l \<noteq> NULL"
  obtains s' where "pd_set_system_error l e s = Some s'" "pd_wf s'" "epoll_inv s'"
    "s' = s\<lparr>st_loops := (st_loops s)(l \<mapsto> lp\<lparr>l_system_error := e\<rparr>)\<rparr>" "lists_change (\<lambda>_ ws. ws) s s'"
proof -
  let ?s = "s\<lparr>st_loops := (st_loops s)(l \<mapsto> lp\<lparr>l_system_error := e\<rparr>)\<rparr>"
  have up: "upd_control lp (lp\<lparr>l_system_error := e\<rparr>)" by (simp add: upd_control_def)
  have "epoll_inv ?s" using assms(2) epl.binv_control [OF assms(2,3) up] by simp
  moreover have "lists_change (\<lambda>_ ws. ws) s ?s"
    using assms(3) by (auto simp: lists_change_iff intro: upd_list_intros)
  ultimately show thesis using that set_error_eq [OF assms(3,4)] pd_wf_control [OF assms(1,3) up] by simp
qed

section \<open>Create\<close>

text \<open>A new timer with its watcher.\<close>

lemma epoll_tinv_new:
  assumes inv: "epoll_tinv {} s" and t: "st_timers s t = None" "t \<noteq> NULL"
    and tm: "t_loop tm \<noteq> NULL" "st_loops s (t_loop tm) \<noteq> None" "t_owns_watcher tm" "t_callback tm = Some (Cb_user f)"
    and p: "t_platform_data tm \<noteq> NULL" "st_tdata s (t_platform_data tm) = None" "0 \<le> fd"
    and w: "t_watcher tm \<noteq> NULL" "st_watchers s (t_watcher tm) = None"
    and s': "st_timers s' = (st_timers s)(t \<mapsto> tm)" "st_tdata s' = (st_tdata s)(t_platform_data tm \<mapsto> fd)"
      "watcher_keys s' = (watcher_keys s)(t_watcher tm \<mapsto> (t_loop tm, fd, Some Cb_timerfd, t))"
    and l: "\<And>l. st_loops s l \<noteq> None \<Longrightarrow> st_loops s' l \<noteq> None"
  shows "epoll_tinv {} s'"
proof (rule epoll_tinvI)
  have old: "t_platform_data tm' \<noteq> t_platform_data tm" "t_watcher tm' \<noteq> t_watcher tm"
    if "st_timers s t' = Some tm'" for t' tm'
    using epoll_tinv_timer [OF inv that] p(2) w(2) by (auto simp: epoll_timer_ok_def watcher_keys_def)
  show "epoll_timer_ok {} s' t' tm'" if "st_timers s' t' = Some tm'" for t' tm'
  proof (cases "t' = t")
    case True
    then have "tm' = tm" using that s'(1) by simp
    then show ?thesis using True t(2) tm p w l [OF tm(2)] by (simp add: epoll_timer_ok_def s')
  next
    case False
    then have t': "st_timers s t' = Some tm'" using that s'(1) by simp
    then show ?thesis
      using epoll_tinv_timer [OF inv t'] old [OF t'] l [of "t_loop tm'"] unfolding epoll_timer_ok_def s' by auto
  qed
  show "t1 = t2" if "timer_pdata s' t1 = Some q" "timer_pdata s' t2 = Some q" for t1 t2 q
    using that old(1) [of t1] old(1) [of t2] epoll_tinv_inj [OF inv, of t1 q t2]
    by (auto simp: timer_pdata_def s'(1) split: if_splits)
  show "\<exists>tm'. st_timers s' t' = Some tm' \<and> t_watcher tm' = w' \<and> t' \<notin> {}"
    if k: "watcher_keys s' w' = Some (l', fd', Some Cb_timerfd, t')" for w' l' fd' t'
  proof (cases "w' = t_watcher tm")
    case True
    then show ?thesis using k by (simp add: s')
  next
    case False
    then have "watcher_keys s w' = Some (l', fd', Some Cb_timerfd, t')" using k by (simp add: s'(3))
    from epoll_tinv_wired [OF inv this] t(1) show ?thesis by (auto simp: s'(1))
  qed
qed

text \<open>
  The outcomes of the creation for a timer \<open>t\<close> that was just allocated. \<open>with_fd\<close> is the state
  in which the internal watcher is created.
\<close>

definition with_fd :: "'k epoll_state \<Rightarrow> addr \<Rightarrow> pd_timer \<Rightarrow> 'k \<Rightarrow> alloc_choice list \<Rightarrow> int \<Rightarrow> addr \<Rightarrow> nat \<Rightarrow> 'k epoll_state" where
  "with_fd s t tm k cs e p fd = s\<lparr>st_kernel := k, st_choices := cs, st_errno := e, st_tdata := (st_tdata s)(p \<mapsto> int fd),
     st_timers := (st_timers s)(t \<mapsto> tm\<lparr>t_platform_data := p\<rparr>)\<rparr>"

lemma with_fd_frame [simp]:
  "st_loops (with_fd s t tm k cs e p fd) = st_loops s" "st_watchers (with_fd s t tm k cs e p fd) = st_watchers s"
  "st_ldata (with_fd s t tm k cs e p fd) = st_ldata s" "st_wdata (with_fd s t tm k cs e p fd) = st_wdata s"
  "st_default_loop (with_fd s t tm k cs e p fd) = st_default_loop s" "st_thread_safe (with_fd s t tm k cs e p fd) = st_thread_safe s"
  "st_kernel (with_fd s t tm k cs e p fd) = k"
  "st_timers (with_fd s t tm k cs e p fd) = (st_timers s)(t \<mapsto> tm\<lparr>t_platform_data := p\<rparr>)"
  "st_tdata (with_fd s t tm k cs e p fd) = (st_tdata s)(p \<mapsto> int fd)"
  by (simp_all add: with_fd_def)

lemma with_fd_ok: "pd_wf s \<Longrightarrow> pd_wf (with_fd s t tm k cs e p fd)" "epoll_inv s \<Longrightarrow> epoll_inv (with_fd s t tm k cs e p fd)"
  using epoll_inv_cong [of s "with_fd s t tm k cs e p fd"] by (simp_all add: with_fd_def)

lemma timer_create_cases:
  assumes t: "st_timers s t = None" "t \<noteq> NULL" and lp: "st_loops s l = Some lp" "l \<noteq> NULL"
  obtains (no_fd) e k where "sys_timerfd_create K (st_kernel s) = (Inl e, k)"
      "epoll_timer_create K l t (s\<lparr>st_timers := (st_timers s)(t \<mapsto> tm)\<rparr>) = Some (PD_ERR_SYSTEM,
         s\<lparr>st_timers := (st_timers s)(t \<mapsto> tm), st_kernel := k, st_errno := e,
           st_loops := (st_loops s)(l \<mapsto> lp\<lparr>l_system_error := e\<rparr>)\<rparr>)"
  | (no_data) fd k cs e where "sys_timerfd_create K (st_kernel s) = (Inr fd, k)"
      "epoll_timer_create K l t (s\<lparr>st_timers := (st_timers s)(t \<mapsto> tm)\<rparr>) = Some (PD_ERR_NO_MEMORY,
         s\<lparr>st_timers := (st_timers s)(t \<mapsto> tm), st_kernel := close_fd K (int fd) k, st_choices := cs, st_errno := e\<rparr>)"
  | (watcher) fd k cs e p where "sys_timerfd_create K (st_kernel s) = (Inr fd, k)" "p \<noteq> NULL" "st_tdata s p = None"
      "epoll_timer_create K l t (s\<lparr>st_timers := (st_timers s)(t \<mapsto> tm)\<rparr>) = do {
         (watcher, s) \<leftarrow> pd_watcher_create (epoll_watcher_ops K) l (int fd) PD_EVENT_READ (Some Cb_timerfd) t (with_fd s t tm k cs e p fd);
         s \<leftarrow> write_timer t (\<lambda>t. t\<lparr>t_watcher := watcher\<rparr>) s;
         if watcher = NULL
         then
           let (_, s) = syscall (sys_close K (int fd)) s in do {
             s \<leftarrow> free_tdata p s;
             s \<leftarrow> write_timer t (\<lambda>t. t\<lparr>t_platform_data := NULL\<rparr>) s;
             Some (PD_ERR_SYSTEM, s) }
         else do {
           s \<leftarrow> write_timer t (\<lambda>t. t\<lparr>t_owns_watcher := True\<rparr>) s;
           (_, s) \<leftarrow> pd_watcher_stop (epoll_watcher_ops K) watcher s;
           Some (PD_OK, s) } }"
proof -
  let ?s0 = "s\<lparr>st_timers := (st_timers s)(t \<mapsto> tm)\<rparr>"
  show thesis
  proof (cases rule: syscall_cases [of "sys_timerfd_create K" ?s0])
    case (fail e k)
    then show thesis
      using lp t(2) by (intro no_fd [of e k]) (simp_all add: epoll_timer_create_def pd_get_current_system_error_def set_error_eq)
  next
    case (ok fd k)
    let ?s1 = "?s0\<lparr>st_kernel := k\<rparr>"
    have k: "sys_timerfd_create K (st_kernel s) = (Inr fd, k)" using ok(2) by simp
    show thesis
    proof (cases rule: calloc_tdata_cases [of 0 ?s1])
      case (null s2)
      then obtain cs e where s2: "s2 = ?s1\<lparr>st_choices := cs, st_errno := e\<rparr>" by (elim upd_allocE)
      obtain en where c: "snd (syscall (sys_close K (int fd)) s2) = s2\<lparr>st_kernel := close_fd K (int fd) k, st_errno := en\<rparr>"
        using syscall_snd [of "sys_close K (int fd)" s2] by (auto simp: close_fd_def s2)
      then show thesis
        using lp t(2) null(1) by (intro no_data [OF k, of en cs]) (simp add: epoll_timer_create_def ok(1), simp add: s2)
    next
      case (some p s2)
      then obtain cs e where s2: "s2 = ?s1\<lparr>st_choices := cs, st_errno := e\<rparr>" by (elim upd_allocE)
      have "st_tdata s p = None" using some(3) by simp
      from k some(2) this show thesis
        by (rule watcher [of fd k p cs e])
          (use lp t(2) some(1,2) in \<open>simp add: epoll_timer_create_def ok(1) heap_write_def s2 Let_def with_fd_def\<close>)
    qed
  qed
qed

lemma epoll_create_timer_law:
  assumes wf: "pd_wf s" "epoll_inv s" "epoll_tinv {} s" and t: "st_timers s t = None" "t \<noteq> NULL"
    and lp: "st_loops s l = Some lp" and tm0: "tm0 = new_timer l timeout interval (Some (Cb_user f)) ud"
  shows "\<exists>r s' tm. epoll_timer_create K l t (s\<lparr>st_timers := (st_timers s)(t \<mapsto> tm0)\<rparr>) = Some (r, s') \<and>
    pd_wf s' \<and> epoll_inv s' \<and> st_timers s' = (st_timers s)(t \<mapsto> tm) \<and>
    (if r = PD_OK
     then upd_backend tm0 tm \<and> epoll_tinv {} s' \<and> st_watchers s (t_watcher tm) = None \<and>
       (\<exists>y. st_watchers s' = (st_watchers s)(t_watcher tm \<mapsto> y)) \<and>
       lists_change (\<lambda>k ws. if k = l then ws @ [t_watcher tm] else ws) s s'
     else epoll_tinv {} (s'\<lparr>st_timers := st_timers s\<rparr>) \<and> st_watchers s' = st_watchers s \<and> st_tdata s' = st_tdata s \<and>
       lists_change (\<lambda>_ ws. ws) s s')"
    (is "\<exists>r s' tm. ?run = Some (r, s') \<and> ?ok r s' tm")
proof -
  have l: "l \<noteq> NULL" using pd_wf_loop [OF wf(1) lp] by (simp add: loop_ok_def)
  have fails: "\<exists>r s' tm. ?run = Some (r, s') \<and> ?ok r s' tm"
    if run: "?run = Some (r, s')" "r \<noteq> PD_OK" and s': "pd_wf s'" "epoll_inv s'" "st_timers s' = (st_timers s)(t \<mapsto> tm)"
      "st_watchers s' = st_watchers s" "st_tdata s' = st_tdata s" "lists_change (\<lambda>_ ws. ws) s s'" for r s' tm
  proof -
    have "epoll_tinv {} (s'\<lparr>st_timers := st_timers s\<rparr>)"
      by (rule epoll_tinv_cong [OF wf(3)])
        (use s' watcher_keys_cong [of "s'\<lparr>st_timers := st_timers s\<rparr>" s] lists_change_loop [OF s'(6)] in simp_all)
    then show ?thesis using run s' by (intro exI [of _ r] exI [of _ s'] exI [of _ tm]) simp
  qed
  from t lp l show ?thesis
  proof (cases rule: timer_create_cases [where K = K and tm = tm0])
    case (no_fd e k)
    let ?s1 = "s\<lparr>st_timers := (st_timers s)(t \<mapsto> tm0), st_kernel := k, st_errno := e\<rparr>"
    have s1: "pd_wf ?s1" "epoll_inv ?s1" "st_loops ?s1 l = Some lp"
      using wf(1) pd_wf_loops_undo [of ?s1 s] epoll_inv_cong [OF wf(2), of ?s1] lp by simp_all
    obtain s' where s': "pd_wf s'" "epoll_inv s'"
      "s' = ?s1\<lparr>st_loops := (st_loops ?s1)(l \<mapsto> lp\<lparr>l_system_error := e\<rparr>)\<rparr>" "lists_change (\<lambda>_ ws. ws) ?s1 s'"
      by (rule set_error_step [OF s1 l])
    have "lists_change (\<lambda>_ ws. ws) s s'" using s'(4) by (rule lists_change_cong) simp_all
    then show ?thesis using no_fd(2) s'(1,2) by (intro fails [of PD_ERR_SYSTEM s' tm0]) (simp_all add: s'(3))
  next
    case (no_data fd k cs e)
    let ?s' = "s\<lparr>st_timers := (st_timers s)(t \<mapsto> tm0), st_kernel := close_fd K (int fd) k, st_choices := cs, st_errno := e\<rparr>"
    have "pd_wf ?s'" "epoll_inv ?s'" using wf(1) epoll_inv_cong [OF wf(2), of ?s'] by simp_all
    moreover have "lists_change (\<lambda>_ ws. ws) s ?s'" by (rule lists_change_cong [of _ s s]) simp_all
    ultimately show ?thesis using no_data(2) by (intro fails [of PD_ERR_NO_MEMORY ?s' tm0]) simp_all
  next
    case (watcher fd k cs e p)
    let ?s3 = "with_fd s t tm0 k cs e p fd" and ?tm1 = "tm0\<lparr>t_platform_data := p\<rparr>"
    have s3: "pd_wf ?s3" "epoll_inv ?s3" "st_loops ?s3 l = Some lp" using with_fd_ok(1) [OF wf(1)] with_fd_ok(2) [OF wf(2)] lp by simp_all
    show ?thesis
    proof (cases rule: epoll.create_step [OF s3, where fd = "int fd" and ev = PD_EVENT_READ and cb = "Some Cb_timerfd" and ud = t and K = K])
      case (1 s4)
      have fr: "st_timers s4 = (st_timers s)(t \<mapsto> ?tm1)" "st_tdata s4 = (st_tdata s)(p \<mapsto> int fd)"
        using 1(5) by (simp_all add: lists_become_def)
      let ?s5 = "s4\<lparr>st_timers := (st_timers s)(t \<mapsto> ?tm1\<lparr>t_watcher := NULL\<rparr>)\<rparr>"
      obtain q k' e' where c: "syscall (sys_close K (int fd)) ?s5 = (q, ?s5\<lparr>st_kernel := k', st_errno := e'\<rparr>)"
        by (metis syscall_upd_kernel upd_kernelE surj_pair)
      let ?tm = "tm0\<lparr>t_watcher := NULL, t_platform_data := NULL\<rparr>"
      let ?s' = "s4\<lparr>st_kernel := k', st_errno := e', st_tdata := st_tdata s, st_timers := (st_timers s)(t \<mapsto> ?tm)\<rparr>"
      have td: "((st_tdata s)(p \<mapsto> int fd))(p := None) = st_tdata s" using watcher(3) by (simp add: fun_upd_idem)
      have "?run = Some (PD_ERR_SYSTEM, ?s')"
        using watcher(2) 1(1) c fr td unfolding watcher(4) by (simp add: heap_ops Let_def)
      moreover have "lists_change (\<lambda>_ ws. ws) s ?s'"
        using lists_become_change [OF 1(5)] by (rule lists_change_cong) simp_all
      moreover have "pd_wf ?s'" "epoll_inv ?s'"
        using 1(2,3) epoll_inv_cong [of s4 ?s'] by simp_all
      ultimately show ?thesis using 1(4) by (intro fails [of PD_ERR_SYSTEM ?s' ?tm]) simp_all
    next
      case (2 w s4 y)
      have fr: "st_timers s4 = (st_timers s)(t \<mapsto> ?tm1)" "st_tdata s4 = (st_tdata s)(p \<mapsto> int fd)"
        using 2(8) by (simp_all add: lists_become_def)
      have w: "st_watchers s w = None" using 2(5) by simp
      let ?tm = "?tm1\<lparr>t_watcher := w, t_owns_watcher := True\<rparr>"
      let ?s5 = "s4\<lparr>st_timers := (st_timers s)(t \<mapsto> ?tm)\<rparr>"
      have yl: "st_watchers ?s5 w = Some y" "w_loop y \<noteq> NULL" "pd_wf ?s5" "epoll_inv ?s5"
        using 2(2,3,6) upd_pdata_loop [OF 2(7)] l epoll_inv_cong [OF 2(3), of ?s5] by simp_all
      obtain r s6 z where s6: "pd_watcher_stop (epoll_watcher_ops K) w ?s5 = Some (r, s6)"
        "only_watcher upd_status w ?s5 s6" "pd_wf s6" "epoll_inv s6"
        by (rule epoll.stop_step [OF yl(3,4,1,2)])
      have "?run = Some (PD_OK, s6)" using 2(1,4) fr s6(1) unfolding watcher(4) by (simp add: heap_write_def)
      moreover have "st_timers s6 = (st_timers s)(t \<mapsto> ?tm)" "st_tdata s6 = (st_tdata s)(p \<mapsto> int fd)"
        using s6(2) fr by (simp_all add: only_watcher_def)
      moreover obtain z where z: "st_watchers s6 = (st_watchers s)(w \<mapsto> z)" "timer_key z = timer_key y"
        using s6(2) yl(1) 2(6) upd_status_key by (elim only_watcherE) auto
      have change: "lists_change (\<lambda>k ws. if k = l then ws @ [w] else ws) s s6"
        using lists_change_trans [OF lists_become_change [OF 2(8)], of "\<lambda>_ ws. ws" s6]
          lists_change_cong [OF lists_become_change [OF lists_become_only_watcher [OF s6(2)]], of s4 s6]
        by (auto intro: lists_change_cong)
      moreover have "epoll_tinv {} s6"
      proof (rule epoll_tinv_new [OF wf(3) t])
        show "watcher_keys s6 = (watcher_keys s)(t_watcher ?tm \<mapsto> (t_loop ?tm, int fd, Some Cb_timerfd, t))"
          using watcher_keys_put [OF z(1)] z(2) 2(7) by (auto simp: timer_key_def tm0 new_timer_def elim!: upd_pdataE)
      qed (use l lp watcher(2,3) 2(4) w calculation lists_change_loop [OF change] in \<open>simp_all add: tm0 new_timer_def\<close>)
      ultimately show ?thesis
        using s6(3,4) w z(1) by (intro exI [of _ PD_OK] exI [of _ s6] exI [of _ ?tm]) (simp add: upd_backend_def cong: if_cong, blast)
    qed
  qed
qed

section \<open>Start and stop\<close>

lemma epoll_timer_facts:
  assumes "epoll_tinv {} s" "st_timers s t = Some tm"
  obtains fd lp x where "t \<noteq> NULL" "t_loop tm \<noteq> NULL" "st_loops s (t_loop tm) = Some lp"
    "t_platform_data tm \<noteq> NULL" "st_tdata s (t_platform_data tm) = Some fd" "0 \<le> fd" "t_owns_watcher tm"
    "t_watcher tm \<noteq> NULL" "st_watchers s (t_watcher tm) = Some x" "w_loop x = t_loop tm" "w_fd x = fd"
    "w_callback x = Some Cb_timerfd" "w_user_data x = t"
proof -
  obtain fd where fd: "st_tdata s (t_platform_data tm) = Some fd" "0 \<le> fd"
    "watcher_keys s (t_watcher tm) = Some (t_loop tm, fd, Some Cb_timerfd, t)"
    using epoll_tinv_timer [OF assms] by (auto simp: epoll_timer_ok_def)
  then obtain x where "st_watchers s (t_watcher tm) = Some x" "timer_key x = (t_loop tm, fd, Some Cb_timerfd, t)"
    by (auto simp: watcher_keys_def)
  then show thesis using that fd epoll_tinv_timer [OF assms] by (auto simp: epoll_timer_ok_def timer_key_def)
qed

text \<open>
  Arming and disarming: the timerfd is set first; if that fails nothing else is done and the
  error is recorded, otherwise the outcome is that of the internal watcher.
\<close>

definition set_timer ::
  "'k linux \<Rightarrow> (addr \<Rightarrow> 'k epoll_state \<Rightarrow> (pd_error \<times> 'k epoll_state) option) \<Rightarrow> pd_timer \<Rightarrow> int \<Rightarrow> itimerspec \<Rightarrow>
   'k epoll_state \<Rightarrow> (pd_error \<times> 'k epoll_state) option" where
  "set_timer K f tm fd its s = (let (r, s) = syscall (sys_timerfd_settime K fd its) s in
     if r = None
     then do {
       s \<leftarrow> pd_set_system_error (t_loop tm) (pd_get_current_system_error s) s;
       Some (PD_ERR_SYSTEM, s) }
     else f (t_watcher tm) s)"

lemma start_eq:
  assumes "epoll_tinv {} s" "st_timers s t = Some tm" "st_tdata s (t_platform_data tm) = Some fd"
  shows "epoll_timer_start K t s =
    set_timer K (pd_watcher_start (epoll_watcher_ops K)) tm fd (timer_spec (t_timeout_ms tm) (t_interval_ms tm)) s"
  by (rule epoll_timer_facts [OF assms(1,2)]) (use assms(2,3) in \<open>simp add: epoll_timer_start_def set_timer_def split: prod.split\<close>)

lemma timer_stop_eq:
  assumes "epoll_tinv {} s" "st_timers s t = Some tm" "st_tdata s (t_platform_data tm) = Some fd"
  shows "epoll_timer_stop K t s = set_timer K (pd_watcher_stop (epoll_watcher_ops K)) tm fd zero_itimerspec s"
  by (rule epoll_timer_facts [OF assms(1,2)]) (use assms(2,3) in \<open>simp add: epoll_timer_stop_def set_timer_def split: prod.split\<close>)

lemma set_timer_step:
  assumes wf: "pd_wf s" "epoll_inv s" "epoll_tinv {} s" and t: "st_timers s t = Some tm"
    and f: "\<And>k. \<exists>r s'. f (t_watcher tm) (s\<lparr>st_kernel := k\<rparr>) = Some (r, s') \<and> pd_wf s' \<and> epoll_inv s' \<and>
      only_watcher upd_status (t_watcher tm) (s\<lparr>st_kernel := k\<rparr>) s'"
  shows "\<exists>r s'. set_timer K f tm fd its s = Some (r, s') \<and> pd_wf s' \<and> epoll_inv s' \<and> epoll_tinv {} s' \<and>
    st_timers s' = st_timers s \<and> dom (st_watchers s') = dom (st_watchers s) \<and> lists_change (\<lambda>_ ws. ws) s s'"
proof -
  obtain lp where lp: "t_loop tm \<noteq> NULL" "st_loops s (t_loop tm) = Some lp" by (rule epoll_timer_facts [OF wf(3) t])
  show ?thesis
  proof (cases rule: syscall_cases [of "sys_timerfd_settime K fd its" s])
    case (fail e k)
    let ?s1 = "s\<lparr>st_kernel := k, st_errno := e\<rparr>"
    have s1: "pd_wf ?s1" "epoll_inv ?s1" "st_loops ?s1 (t_loop tm) = Some lp"
      using wf(1) epoll_inv_cong [OF wf(2), of ?s1] lp by simp_all
    obtain s' where s': "pd_set_system_error (t_loop tm) e ?s1 = Some s'" "pd_wf s'" "epoll_inv s'"
      "s' = ?s1\<lparr>st_loops := (st_loops ?s1)(t_loop tm \<mapsto> lp\<lparr>l_system_error := e\<rparr>)\<rparr>" "lists_change (\<lambda>_ ws. ws) ?s1 s'"
      by (rule set_error_step [OF s1 lp(1)])
    have change: "lists_change (\<lambda>_ ws. ws) s s'" using s'(5) by (rule lists_change_cong) simp_all
    have "epoll_tinv {} s'"
      by (rule epoll_tinv_cong [OF wf(3)])
        (use watcher_keys_cong [of s' s] lists_change_loop [OF change] in \<open>simp_all add: s'(4)\<close>)
    moreover have "set_timer K f tm fd its s = Some (PD_ERR_SYSTEM, s')"
      using s'(1) by (simp add: set_timer_def fail(1) pd_get_current_system_error_def)
    ultimately show ?thesis using s'(2,3) change by (intro exI [of _ PD_ERR_SYSTEM] exI [of _ s']) (simp add: s'(4))
  next
    case (ok v k)
    obtain r s' where s': "f (t_watcher tm) (s\<lparr>st_kernel := k\<rparr>) = Some (r, s')" "pd_wf s'" "epoll_inv s'"
      "only_watcher upd_status (t_watcher tm) (s\<lparr>st_kernel := k\<rparr>) s'" using f by blast
    have "epoll_tinv {} (s\<lparr>st_kernel := k\<rparr>)"
      by (rule epoll_tinv_cong [OF wf(3)]) (use watcher_keys_cong [of "s\<lparr>st_kernel := k\<rparr>" s] in simp_all)
    then have "epoll_tinv {} s'" using s'(4) by (rule epoll_tinv_step)
    moreover have "lists_change (\<lambda>_ ws. ws) s s'"
      using lists_become_change [OF lists_become_only_watcher [OF s'(4)]] by (rule lists_change_cong) simp_all
    moreover have "dom (st_watchers s') = dom (st_watchers s)" using s'(4) by (elim only_watcherE) auto
    moreover have "set_timer K f tm fd its s = Some (r, s')" using s'(1) by (simp add: set_timer_def ok(1))
    ultimately show ?thesis using s' by (auto simp: only_watcher_def)
  qed
qed

lemma epoll_start_timer_law:
  assumes wf: "pd_wf s" "epoll_inv s" "epoll_tinv {} s" and t: "st_timers s t = Some tm"
  shows "\<exists>r s'. epoll_timer_start K t s = Some (r, s') \<and> pd_wf s' \<and> epoll_inv s' \<and> epoll_tinv {} s' \<and>
    st_timers s' = st_timers s \<and> dom (st_watchers s') = dom (st_watchers s) \<and> lists_change (\<lambda>_ ws. ws) s s'"
proof -
  obtain fd x where x: "t_loop tm \<noteq> NULL" "st_tdata s (t_platform_data tm) = Some fd" "st_watchers s (t_watcher tm) = Some x"
    "w_loop x = t_loop tm" by (rule epoll_timer_facts [OF wf(3) t])
  show ?thesis unfolding start_eq [OF wf(3) t x(2)]
  proof (rule set_timer_step [OF wf t])
    fix k
    have s1: "pd_wf (s\<lparr>st_kernel := k\<rparr>)" "epoll_inv (s\<lparr>st_kernel := k\<rparr>)"
      "st_watchers (s\<lparr>st_kernel := k\<rparr>) (t_watcher tm) = Some x" "w_loop x \<noteq> NULL"
      using wf(1) epoll_inv_cong [OF wf(2), of "s\<lparr>st_kernel := k\<rparr>"] x by simp_all
    show "\<exists>r s'. pd_watcher_start (epoll_watcher_ops K) (t_watcher tm) (s\<lparr>st_kernel := k\<rparr>) = Some (r, s') \<and> pd_wf s' \<and>
      epoll_inv s' \<and> only_watcher upd_status (t_watcher tm) (s\<lparr>st_kernel := k\<rparr>) s'"
      by (rule epoll.start_step [OF s1, where K = K]) blast
  qed
qed

lemma epoll_stop_timer_law:
  assumes wf: "pd_wf s" "epoll_inv s" "epoll_tinv {} s" and t: "st_timers s t = Some tm"
  shows "\<exists>r s'. epoll_timer_stop K t s = Some (r, s') \<and> pd_wf s' \<and> epoll_inv s' \<and> epoll_tinv {} s' \<and>
    st_timers s' = st_timers s \<and> dom (st_watchers s') = dom (st_watchers s) \<and> lists_change (\<lambda>_ ws. ws) s s'"
proof -
  obtain fd x where x: "t_loop tm \<noteq> NULL" "st_tdata s (t_platform_data tm) = Some fd" "st_watchers s (t_watcher tm) = Some x"
    "w_loop x = t_loop tm" by (rule epoll_timer_facts [OF wf(3) t])
  show ?thesis unfolding timer_stop_eq [OF wf(3) t x(2)]
  proof (rule set_timer_step [OF wf t])
    fix k
    have s1: "pd_wf (s\<lparr>st_kernel := k\<rparr>)" "epoll_inv (s\<lparr>st_kernel := k\<rparr>)"
      "st_watchers (s\<lparr>st_kernel := k\<rparr>) (t_watcher tm) = Some x" "w_loop x \<noteq> NULL"
      using wf(1) epoll_inv_cong [OF wf(2), of "s\<lparr>st_kernel := k\<rparr>"] x by simp_all
    show "\<exists>r s'. pd_watcher_stop (epoll_watcher_ops K) (t_watcher tm) (s\<lparr>st_kernel := k\<rparr>) = Some (r, s') \<and> pd_wf s' \<and>
      epoll_inv s' \<and> only_watcher upd_status (t_watcher tm) (s\<lparr>st_kernel := k\<rparr>) s'"
      by (rule epoll.stop_step [OF s1, where K = K]) blast
  qed
qed

section \<open>Destroy\<close>

lemma epoll_tinv_gone:
  assumes inv: "epoll_tinv {} s" and t: "st_timers s t = Some tm"
    and s': "st_watchers s' = (st_watchers s)(t_watcher tm := None)" "st_tdata s' = st_tdata s"
      "lists_change (\<lambda>_. remove1 (t_watcher tm)) s s'"
  shows "epoll_tinv {t} (s'\<lparr>st_timers := (st_timers s)(t \<mapsto> tm\<lparr>t_watcher := NULL\<rparr>)\<rparr>)" (is "epoll_tinv _ ?s")
proof (rule epoll_tinvI)
  have keys: "watcher_keys s' = (watcher_keys s)(t_watcher tm := None)"
    using s'(1) by (simp add: watcher_keys_def fun_eq_iff)
  have l: "st_loops s k \<noteq> None \<Longrightarrow> st_loops ?s k \<noteq> None" for k using lists_change_loop [OF s'(3)] by simp
  show "epoll_timer_ok {t} ?s t' tm'" if "st_timers ?s t' = Some tm'" for t' tm'
  proof (cases "t' = t")
    case True
    then have "tm' = tm\<lparr>t_watcher := NULL\<rparr>" using that by simp
    then show ?thesis using True epoll_tinv_timer [OF inv t] l [of "t_loop tm"] s'(2) by (auto simp: epoll_timer_ok_def)
  next
    case False
    then have t': "st_timers s t' = Some tm'" using that by simp
    from epoll_tinv_timer [OF inv t'] epoll_tinv_timer [OF inv t] have "t_watcher tm' \<noteq> t_watcher tm"
      using False by (auto simp: epoll_timer_ok_def)
    then show ?thesis
      using epoll_tinv_timer [OF inv t'] l [of "t_loop tm'"] False
      by (elim epoll_timer_ok_upd(2)) (use epoll_tinv_timer [OF inv t'] in \<open>simp_all add: epoll_timer_ok_def keys s'(2)\<close>)
  qed
  have "timer_pdata ?s = timer_pdata s" using t by (simp add: timer_pdata_def fun_eq_iff)
  then show "t1 = t2" if "timer_pdata ?s t1 = Some q" "timer_pdata ?s t2 = Some q" for t1 t2 q
    using that epoll_tinv_inj [OF inv] by simp
  show "\<exists>tm'. st_timers ?s t' = Some tm' \<and> t_watcher tm' = w' \<and> t' \<notin> {t}"
    if k: "watcher_keys ?s w' = Some (l', fd', Some Cb_timerfd, t')" for w' l' fd' t'
  proof -
    have w': "w' \<noteq> t_watcher tm" "watcher_keys s w' = Some (l', fd', Some Cb_timerfd, t')"
      using k by (auto simp: keys split: if_splits)
    from epoll_tinv_wired [OF inv this(2)] obtain tm' where "st_timers s t' = Some tm'" "t_watcher tm' = w'" by blast
    moreover from this have "t' \<noteq> t" using w'(1) t by auto
    ultimately show ?thesis by simp
  qed
qed

lemma epoll_destroy_timer_law:
  assumes wf: "pd_wf s" "epoll_inv s" and t: "st_timers s t = Some tm"
    and inv: "if t_owns_watcher tm then epoll_tinv {t} s \<and> t_watcher tm = NULL else epoll_tinv {} s"
  shows "\<exists>s' tm'. epoll_timer_destroy K t s = Some (True, s') \<and> pd_wf s' \<and> epoll_inv s' \<and>
    st_timers s' = (st_timers s)(t \<mapsto> tm') \<and> epoll_tinv {} (s'\<lparr>st_timers := (st_timers s)(t := None)\<rparr>) \<and>
    st_tdata s' = (st_tdata s)(t_platform_data tm := None) \<and>
    st_watchers s' = (if t_owns_watcher tm then st_watchers s else (st_watchers s)(t_watcher tm := None)) \<and>
    lists_change (\<lambda>_ ws. if t_owns_watcher tm then ws else remove1 (t_watcher tm) ws) s s'"
proof -
  have owns: "t_owns_watcher tm" using inv epoll_tinv_timer [of _ s t tm] t by (auto simp: epoll_timer_ok_def split: if_splits)
  then have inv: "epoll_tinv {t} s" using inv by simp
  obtain fd where fd: "t \<noteq> NULL" "t_platform_data tm \<noteq> NULL" "st_tdata s (t_platform_data tm) = Some fd" "0 \<le> fd"
    using epoll_tinv_timer [OF inv t] by (auto simp: epoll_timer_ok_def)
  obtain q k e where c: "syscall (sys_close K fd) s = (q, s\<lparr>st_kernel := k, st_errno := e\<rparr>)"
    by (metis syscall_upd_kernel upd_kernelE surj_pair)
  let ?tm = "tm\<lparr>t_platform_data := NULL\<rparr>"
  let ?s' = "s\<lparr>st_kernel := k, st_errno := e, st_tdata := (st_tdata s)(t_platform_data tm := None),
    st_timers := (st_timers s)(t \<mapsto> ?tm)\<rparr>"
  have "epoll_timer_destroy K t s = Some (True, ?s')"
    using t fd c by (simp add: epoll_timer_destroy_def heap_ops)
  moreover have "pd_wf ?s'" "epoll_inv ?s'" using wf(1) epoll_inv_cong [OF wf(2), of ?s'] by simp_all
  moreover have "lists_change (\<lambda>_ ws. ws) s ?s'" by (rule lists_change_cong [of _ s s]) simp_all
  moreover have "epoll_tinv {} (?s'\<lparr>st_timers := (st_timers s)(t := None)\<rparr>)" (is "epoll_tinv {} ?s")
  proof (rule epoll_tinvI)
    show "epoll_timer_ok {} ?s t' tm'" if "st_timers ?s t' = Some tm'" for t' tm'
    proof -
      have t': "st_timers s t' = Some tm'" "t' \<noteq> t" using that by (auto split: if_splits)
      then have "t_platform_data tm' \<noteq> t_platform_data tm"
        using epoll_tinv_inj [OF inv, of t' "t_platform_data tm" t] t by (auto simp: timer_pdata_def)
      then show ?thesis
        using epoll_tinv_timer [OF inv t'(1)] t'(2)
        by (elim epoll_timer_ok_upd(2)) (use epoll_tinv_timer [OF inv t'(1)] in \<open>simp_all add: epoll_timer_ok_def\<close>)
    qed
    show "t1 = t2" if "timer_pdata ?s t1 = Some q" "timer_pdata ?s t2 = Some q" for t1 t2 q
      using that epoll_tinv_inj [OF inv, of t1 q t2] by (auto simp: timer_pdata_def split: if_splits)
    show "\<exists>tm'. st_timers ?s t' = Some tm' \<and> t_watcher tm' = w' \<and> t' \<notin> {}"
      if k: "watcher_keys ?s w' = Some (l', fd', Some Cb_timerfd, t')" for w' l' fd' t'
      using epoll_tinv_wired [OF inv, of w' l' fd' t'] k by auto
  qed
  ultimately show ?thesis using owns by (intro exI [of _ ?s'] exI [of _ ?tm]) simp
qed

section \<open>The contract holds\<close>

interpretation ept: timer_backend "pd_platform_epoll K U" "epoll_watcher_register K" "epoll_watcher_unregister K"
    "epoll_watcher_update K" epoll_inv "epoll_timer_create K" "epoll_timer_start K" "epoll_timer_stop K"
    "epoll_timer_destroy K" epoll_tinv for K U
proof (intro timer_backend.intro timer_backend_axioms.intro)
  show "watcher_backend (pd_platform_epoll K U) (epoll_watcher_register K) (epoll_watcher_unregister K)
     (epoll_watcher_update K) epoll_inv"
    by (rule readiness_backend.axioms(1) [OF epoll_readiness]) simp_all
  fix A and s s' :: "'a epoll_state" and t tm b
  show "t \<noteq> NULL \<and> t_loop tm \<noteq> NULL \<and> st_loops s (t_loop tm) \<noteq> None"
    if "epoll_tinv A s" "st_timers s t = Some tm"
    using epoll_tinv_timer [OF that] by (simp add: epoll_timer_ok_def)
  show "t_watcher tm \<noteq> NULL \<and> (\<exists>wt. st_watchers s (t_watcher tm) = Some wt \<and> w_loop wt \<noteq> NULL)"
    if "epoll_tinv {} s" "st_timers s t = Some tm"
    by (rule epoll_timer_facts [OF that]) auto
  show "epoll_tinv A (s\<lparr>st_timers := (st_timers s)(t \<mapsto> tm\<lparr>t_active := b\<rparr>)\<rparr>)"
    if inv: "epoll_tinv A s" "st_timers s t = Some tm"
  proof (rule epoll_tinvI)
    let ?s = "s\<lparr>st_timers := (st_timers s)(t \<mapsto> tm\<lparr>t_active := b\<rparr>)\<rparr>"
    show "epoll_timer_ok A ?s t' tm'" if t': "st_timers ?s t' = Some tm'" for t' tm'
    proof (cases "t' = t")
      case True
      then have "tm' = tm\<lparr>t_active := b\<rparr>" using t' by simp
      then show ?thesis
        using True epoll_tinv_timer [OF inv] epoll_timer_ok_upd(1) [of A s t tm ?s A b]
        by (simp add: epoll_timer_ok_def)
    next
      case False
      then have "epoll_timer_ok A s t' tm'" using t' epoll_tinv_timer [OF inv(1)] by simp
      then show ?thesis by (rule epoll_timer_ok_upd(2)) (use \<open>epoll_timer_ok A s t' tm'\<close> in \<open>simp_all add: epoll_timer_ok_def\<close>)
    qed
    have "timer_pdata ?s = timer_pdata s" using inv(2) by (simp add: timer_pdata_def fun_eq_iff)
    then show "t1 = t2" if "timer_pdata ?s t1 = Some q" "timer_pdata ?s t2 = Some q" for t1 t2 q
      using that epoll_tinv_inj [OF inv(1)] by simp
    show "\<exists>tm'. st_timers ?s t' = Some tm' \<and> t_watcher tm' = w' \<and> t' \<notin> A"
      if k: "watcher_keys ?s w' = Some (l', fd', Some Cb_timerfd, t')" for w' l' fd' t'
      using epoll_tinv_wired [OF inv(1), of w' l' fd' t'] k inv(2) by auto
  qed
  show "epoll_tinv A s'" if "epoll_tinv A s" "upd_alloc s s'"
    by (rule epoll_tinv_cong [OF that(1)]) (use upd_alloc_frame [OF that(2)] watcher_keys_cong [of s' s] in simp_all)
  show "epoll_tinv {t} (s'\<lparr>st_timers := (st_timers s)(t \<mapsto> tm\<lparr>t_watcher := NULL\<rparr>)\<rparr>)"
    if "epoll_tinv {} s" "st_timers s t = Some tm" "st_watchers s' = (st_watchers s)(t_watcher tm := None)"
      "st_tdata s' = st_tdata s" "lists_change (\<lambda>_. remove1 (t_watcher tm)) s s'"
    using that by (rule epoll_tinv_gone)
qed (rule epoll_table epoll_create_timer_law epoll_start_timer_law epoll_stop_timer_law epoll_destroy_timer_law; (assumption | rule refl))+

section \<open>Properties\<close>

text \<open>
  C32: the time a timer is armed with is exact: the timeout and the interval in milliseconds,
  with nanoseconds below one second as \<^verbatim>\<open>timerfd_settime\<close> requires; a timeout of 0 fires
  after one nanosecond, so that starting a timer never disarms it; the interval is 0 exactly
  for a one-shot timer.
\<close>

theorem timer_spec_exact:
  "unat (tv_nsec (it_value (timer_spec timeout interval))) < 1000000000 \<and>
   unat (tv_nsec (it_interval (timer_spec timeout interval))) < 1000000000 \<and>
   unat (tv_sec (it_value (timer_spec timeout interval))) * 1000000000 + unat (tv_nsec (it_value (timer_spec timeout interval))) =
     (if timeout = 0 then 1 else unat timeout * 1000000) \<and>
   unat (tv_sec (it_interval (timer_spec timeout interval))) * 1000000000 + unat (tv_nsec (it_interval (timer_spec timeout interval))) =
     unat interval * 1000000 \<and>
   (it_interval (timer_spec timeout interval) = it_interval zero_itimerspec \<longleftrightarrow> interval = 0)"
proof -
  have div: "unat (x div 1000) = unat x div 1000" for x :: "64 word" by (simp add: unat_div)
  have nsec: "unat ((x mod 1000) * 1000000) = (unat x mod 1000) * 1000000" for x :: "64 word"
  proof -
    have "unat (x mod 1000) = unat x mod 1000" by (simp add: unat_mod)
    moreover have "(unat x mod 1000) * 1000000 < 2 ^ 64" by (rule less_trans [of _ "1000 * 1000000"]) simp_all
    ultimately show ?thesis by (subst unat_mult_lem [THEN iffD1]) simp_all
  qed
  have exact: "unat (x div 1000) * 1000000000 + unat ((x mod 1000) * 1000000) = unat x * 1000000" for x :: "64 word"
    unfolding div nsec using div_mult_mod_eq [of "unat x" 1000] by linarith
  have small: "unat ((x mod 1000) * 1000000) < 1000000000" for x :: "64 word"
    unfolding nsec using mod_less_divisor [of 1000 "unat x"] by linarith
  have zero: "x div 1000 = 0 \<and> (x mod 1000) * 1000000 = 0 \<Longrightarrow> x = 0" for x :: "64 word"
    using exact [of x] by (auto simp: unat_eq_zero [symmetric])
  show ?thesis
    using exact small zero [of interval] by (auto simp: timer_spec_def zero_itimerspec_def word_gt_0)
qed

text \<open>
  C33: creating a timer is all or nothing: it returns null and leaves no timer, watcher, list
  entry or platform data behind, or a new timer with the times, callback and user data asked
  for, not active, whose internal watcher is new and last in the loop's list. The
  invariants hold in both cases, whatever the kernel and the allocator answer.
\<close>

theorem epoll_timer_create_all_or_nothing:
  assumes "pd_wf s" and "epoll_inv s" and "epoll_tinv {} s" and "st_loops s l = Some lp"
  shows "\<exists>t s'. pd_timer_create (pd_platform_epoll K U) l timeout interval (Some (Cb_user f)) ud s = Some (t, s') \<and>
    pd_wf s' \<and> epoll_inv s' \<and> epoll_tinv {} s' \<and>
    (t = NULL \<and> st_timers s' = st_timers s \<and> st_watchers s' = st_watchers s \<and> st_tdata s' = st_tdata s \<and>
       lists_change (\<lambda>_ ws. ws) s s' \<or>
     t \<noteq> NULL \<and> st_timers s t = None \<and> (\<exists>tm y. st_timers s' = (st_timers s)(t \<mapsto> tm) \<and>
       upd_backend (new_timer l timeout interval (Some (Cb_user f)) ud) tm \<and> st_watchers s (t_watcher tm) = None \<and>
       st_watchers s' = (st_watchers s)(t_watcher tm \<mapsto> y) \<and>
       lists_change (\<lambda>k ws. if k = l then ws @ [t_watcher tm] else ws) s s'))"
  using assms
proof (cases rule: ept.timer_create_step [where K = K and U = U and timeout = timeout and interval = interval and f = f and ud = ud])
  case (null s')
  then show ?thesis by (intro exI [of _ NULL] exI [of _ s']) simp
next
  case (some t s' tm y)
  then show ?thesis by (intro exI [of _ t] exI [of _ s']) auto
qed

lemma ex_tinv [simp]: "epoll_tinv {} ex_state"
  by (auto simp: epoll_tinv_def timer_pdata_def watcher_keys_def timer_key_def split: if_splits)

text \<open>
  The witness: a timer of 250 milliseconds that repeats every 1500; the allocator gives 601
  to the timer, 700 to its descriptor's cell and 800 to its watcher.
\<close>

definition ex_ready :: "ref_kernel epoll_state" where
  "ex_ready = ex_state\<lparr>st_choices := [Gives 601, Gives 700, Gives 800, Gives 900, Gives 1000, Gives 1100]\<rparr>"

lemma ex_ready_ok [simp]:
  "pd_wf ex_ready" "epoll_inv ex_ready" "epoll_tinv {} ex_ready" "st_loops ex_ready = st_loops ex_state"
  using epoll_inv_cong [OF ex_epoll_inv, of ex_ready] epoll_tinv_cong [OF ex_tinv, of ex_ready]
  by (simp_all add: ex_ready_def)

definition ex_timer :: "ref_kernel epoll_state" where
  "ex_timer = snd (the (pd_timer_create (pd_platform_epoll ref_linux ex_quiet) 1 250 1500 (Some (Cb_user 5)) 42 ex_ready))"

lemma ex_timer_created:
  "map_option fst (pd_timer_create (pd_platform_epoll ref_linux ex_quiet) 1 250 1500 (Some (Cb_user 5)) 42 ex_ready) = Some 601"
  by code_simp

lemma ex_timer_ok:
  obtains tm where "pd_wf ex_timer" "epoll_inv ex_timer" "epoll_tinv {} ex_timer" "st_timers ex_timer 601 = Some tm"
    "\<not> t_active tm" "t_timeout_ms tm = 250" "t_interval_ms tm = 1500" "st_tdata ex_timer (t_platform_data tm) = Some 8"
proof (rule ept.timer_create_step [of ex_ready 1 ex_loop ref_linux ex_quiet 250 1500 5 42])
  fix t s' tm y assume run: "pd_timer_create (pd_platform_epoll ref_linux ex_quiet) 1 250 1500 (Some (Cb_user 5)) 42 ex_ready = Some (t, s')"
    and s': "pd_wf s'" "epoll_inv s'" "epoll_tinv {} s'" "st_timers s' = (st_timers ex_ready)(t \<mapsto> tm)"
      "upd_backend (new_timer 1 250 1500 (Some (Cb_user 5)) 42) tm"
  then have s: "s' = ex_timer" "t = 601" using ex_timer_created by (auto simp: ex_timer_def)
  have tm: "st_timers ex_timer 601 = Some tm" using s'(4) by (simp add: s)
  have "Option.bind (st_timers ex_timer 601) (\<lambda>tm. st_tdata ex_timer (t_platform_data tm)) = Some 8" by code_simp
  then show thesis
    using that [OF s'(1-3) [unfolded s] tm] upd_backendD [OF s'(5)] tm by (simp add: new_timer_def zero_timer_def)
qed (use ex_timer_created in auto)

theorem epoll_timer_create_all_or_nothing_witness:
  "\<exists>s' tm. pd_timer_create (pd_platform_epoll ref_linux ex_quiet) 1 250 1500 (Some (Cb_user 5)) 42 ex_ready = Some (601, s') \<and>
     pd_wf s' \<and> epoll_tinv {} s' \<and> st_timers s' 601 = Some tm \<and> t_timeout_ms tm = 250"
  using ex_timer_created epoll_timer_create_all_or_nothing [of ex_ready 1 ex_loop ref_linux ex_quiet 250 1500 5 42]
  by (auto simp: new_timer_def dest: upd_backendD)

text \<open>
  C34: starting a timer that is not active arms its descriptor with exactly its timeout and
  interval and then starts the internal watcher; the timer is active afterwards exactly if both
  succeeded, and then starting it again does nothing. On failure the timer is inactive, but
  when the kernel armed the descriptor before the watcher could not be registered, it
  stays armed. No other timer changes.
\<close>

theorem epoll_timer_start_arms:
  assumes "pd_wf s" and "epoll_inv s" and "epoll_tinv {} s" and "st_timers s t = Some tm" and "\<not> t_active tm"
    and "st_tdata s (t_platform_data tm) = Some fd"
  shows "\<exists>r s'. pd_timer_start (pd_platform_epoll K U) t s = Some (r, s') \<and> pd_wf s' \<and> epoll_inv s' \<and> epoll_tinv {} s' \<and>
    st_timers s' = (st_timers s)(t \<mapsto> tm\<lparr>t_active := (r = PD_OK)\<rparr>) \<and>
    (case sys_timerfd_settime K fd (timer_spec (t_timeout_ms tm) (t_interval_ms tm)) (st_kernel s) of
       (Inl e, k) \<Rightarrow> r = PD_ERR_SYSTEM \<and> st_kernel s' = k \<and> st_watchers s' = st_watchers s
     | (Inr v, k) \<Rightarrow> \<exists>s2 y. pd_watcher_start (epoll_watcher_ops K) (t_watcher tm)
         (s\<lparr>st_timers := (st_timers s)(t \<mapsto> tm\<lparr>t_active := True\<rparr>), st_kernel := k\<rparr>) = Some (r, s2) \<and>
         st_watchers s' = st_watchers s2 \<and> st_kernel s' = st_kernel s2 \<and>
         st_watchers s' (t_watcher tm) = Some y \<and> (r = PD_OK \<longrightarrow> w_active y)) \<and>
    (r = PD_OK \<longrightarrow> pd_timer_start (pd_platform_epoll K U) t s' = Some (PD_OK, s'))"
proof (rule ept.timer_start_step [OF assms(1-5), where K = K and U = U])
  fix r s' s2
  let ?tm = "tm\<lparr>t_active := True\<rparr>" and ?s1 = "s\<lparr>st_timers := (st_timers s)(t \<mapsto> tm\<lparr>t_active := True\<rparr>)\<rparr>"
  assume run: "pd_timer_start (pd_platform_epoll K U) t s = Some (r, s')" and s': "pd_wf s'" "epoll_inv s'" "epoll_tinv {} s'"
    "s' = s2\<lparr>st_timers := (st_timers s)(t \<mapsto> tm\<lparr>t_active := (r = PD_OK)\<rparr>)\<rparr>"
    and ts: "epoll_timer_start K t ?s1 = Some (r, s2)"
  have inv1: "epoll_tinv {} ?s1" by (rule ept.timer_active(3) [OF assms(1-4)])
  obtain lp x where x: "t \<noteq> NULL" "t_loop tm \<noteq> NULL" "st_loops s (t_loop tm) = Some lp" "st_watchers s (t_watcher tm) = Some x"
    "w_loop x = t_loop tm" by (rule epoll_timer_facts [OF assms(3,4)])
  have set: "set_timer K (pd_watcher_start (epoll_watcher_ops K)) ?tm fd (timer_spec (t_timeout_ms tm) (t_interval_ms tm)) ?s1 = Some (r, s2)"
    using ts start_eq [OF inv1, of t ?tm fd K] assms(6) by simp
  have kernel: "case sys_timerfd_settime K fd (timer_spec (t_timeout_ms tm) (t_interval_ms tm)) (st_kernel s) of
       (Inl e, k) \<Rightarrow> r = PD_ERR_SYSTEM \<and> st_kernel s' = k \<and> st_watchers s' = st_watchers s
     | (Inr v, k) \<Rightarrow> \<exists>s2 y. pd_watcher_start (epoll_watcher_ops K) (t_watcher tm) (?s1\<lparr>st_kernel := k\<rparr>) = Some (r, s2) \<and>
         st_watchers s' = st_watchers s2 \<and> st_kernel s' = st_kernel s2 \<and>
         st_watchers s' (t_watcher tm) = Some y \<and> (r = PD_OK \<longrightarrow> w_active y)"
  proof (cases rule: syscall_cases [of "sys_timerfd_settime K fd (timer_spec (t_timeout_ms tm) (t_interval_ms tm))" ?s1])
    case (fail e k)
    then show ?thesis
      using set x(2,3) by (auto simp: set_timer_def pd_set_system_error_def heap_write_def pd_get_current_system_error_def s'(4))
  next
    case (ok v k)
    let ?s = "?s1\<lparr>st_kernel := k\<rparr>"
    have s1: "pd_wf ?s" "epoll_inv ?s" "st_watchers ?s (t_watcher tm) = Some x" "w_loop x \<noteq> NULL"
      using assms(1) epoll_inv_cong [OF assms(2), of ?s] x by simp_all
    have start: "pd_watcher_start (epoll_watcher_ops K) (t_watcher tm) ?s = Some (r, s2)"
      using set by (simp add: set_timer_def ok(1))
    obtain y where "st_watchers s2 (t_watcher tm) = Some y" "w_active y = (w_active x \<or> r = PD_OK)"
      by (rule epoll.start_step [OF s1, where K = K]) (use start in auto)
    then show ?thesis using start ok(2) by (auto simp: s'(4))
  qed
  have "r = PD_OK \<Longrightarrow> pd_timer_start (pd_platform_epoll K U) t s' = Some (PD_OK, s')"
    using x(1,2) by (simp add: pd_timer_start_def s'(4))
  then show ?thesis using run s' kernel by (intro exI [of _ r] exI [of _ s']) simp
qed

text \<open>The witness: the timer is started; its timerfd 8 is armed and registered.\<close>

theorem epoll_timer_start_arms_witness:
  "\<exists>s'. pd_timer_start (pd_platform_epoll ref_linux ex_quiet) 601 ex_timer = Some (PD_OK, s') \<and>
    pd_timer_start (pd_platform_epoll ref_linux ex_quiet) 601 s' = Some (PD_OK, s')"
proof -
  have "map_option fst (pd_timer_start (pd_platform_epoll ref_linux ex_quiet) 601 ex_timer) = Some PD_OK" by code_simp
  moreover obtain tm where tm: "pd_wf ex_timer" "epoll_inv ex_timer" "epoll_tinv {} ex_timer" "st_timers ex_timer 601 = Some tm"
    "\<not> t_active tm" "st_tdata ex_timer (t_platform_data tm) = Some 8" by (rule ex_timer_ok)
  ultimately show ?thesis using epoll_timer_start_arms [OF tm, of ref_linux ex_quiet] by auto
qed

text \<open>
  Stopping an active timer disarms its descriptor and then stops the internal watcher;
  the timer stays active exactly if one of the two failed, and otherwise stopping it again
  does nothing. No other timer changes.
\<close>

theorem epoll_timer_stop_disarms:
  assumes "pd_wf s" and "epoll_inv s" and "epoll_tinv {} s" and "st_timers s t = Some tm" and "t_active tm"
    and "st_tdata s (t_platform_data tm) = Some fd"
  shows "\<exists>r s'. pd_timer_stop (pd_platform_epoll K U) t s = Some (r, s') \<and> pd_wf s' \<and> epoll_inv s' \<and> epoll_tinv {} s' \<and>
    st_timers s' = (st_timers s)(t \<mapsto> tm\<lparr>t_active := (r \<noteq> PD_OK)\<rparr>) \<and>
    (case sys_timerfd_settime K fd zero_itimerspec (st_kernel s) of
       (Inl e, k) \<Rightarrow> r = PD_ERR_SYSTEM \<and> st_kernel s' = k \<and> st_watchers s' = st_watchers s
     | (Inr v, k) \<Rightarrow> \<exists>s2 y. pd_watcher_stop (epoll_watcher_ops K) (t_watcher tm)
         (s\<lparr>st_timers := (st_timers s)(t \<mapsto> tm\<lparr>t_active := False\<rparr>), st_kernel := k\<rparr>) = Some (r, s2) \<and>
         st_watchers s' = st_watchers s2 \<and> st_kernel s' = st_kernel s2 \<and>
         st_watchers s' (t_watcher tm) = Some y \<and> (r = PD_OK \<longrightarrow> \<not> w_active y)) \<and>
    (r = PD_OK \<longrightarrow> pd_timer_stop (pd_platform_epoll K U) t s' = Some (PD_OK, s'))"
proof (rule ept.timer_stop_step [OF assms(1-5), where K = K and U = U])
  fix r s' s2
  let ?tm = "tm\<lparr>t_active := False\<rparr>" and ?s1 = "s\<lparr>st_timers := (st_timers s)(t \<mapsto> tm\<lparr>t_active := False\<rparr>)\<rparr>"
  assume run: "pd_timer_stop (pd_platform_epoll K U) t s = Some (r, s')" and s': "pd_wf s'" "epoll_inv s'" "epoll_tinv {} s'"
    "s' = s2\<lparr>st_timers := (st_timers s)(t \<mapsto> tm\<lparr>t_active := (r \<noteq> PD_OK)\<rparr>)\<rparr>"
    and ts: "epoll_timer_stop K t ?s1 = Some (r, s2)"
  have inv1: "epoll_tinv {} ?s1" by (rule ept.timer_active(3) [OF assms(1-4)])
  obtain lp x where x: "t \<noteq> NULL" "t_loop tm \<noteq> NULL" "st_loops s (t_loop tm) = Some lp" "st_watchers s (t_watcher tm) = Some x"
    "w_loop x = t_loop tm" by (rule epoll_timer_facts [OF assms(3,4)])
  have set: "set_timer K (pd_watcher_stop (epoll_watcher_ops K)) ?tm fd zero_itimerspec ?s1 = Some (r, s2)"
    using ts timer_stop_eq [OF inv1, of t ?tm fd K] assms(6) by simp
  have kernel: "case sys_timerfd_settime K fd zero_itimerspec (st_kernel s) of
       (Inl e, k) \<Rightarrow> r = PD_ERR_SYSTEM \<and> st_kernel s' = k \<and> st_watchers s' = st_watchers s
     | (Inr v, k) \<Rightarrow> \<exists>s2 y. pd_watcher_stop (epoll_watcher_ops K) (t_watcher tm) (?s1\<lparr>st_kernel := k\<rparr>) = Some (r, s2) \<and>
         st_watchers s' = st_watchers s2 \<and> st_kernel s' = st_kernel s2 \<and>
         st_watchers s' (t_watcher tm) = Some y \<and> (r = PD_OK \<longrightarrow> \<not> w_active y)"
  proof (cases rule: syscall_cases [of "sys_timerfd_settime K fd zero_itimerspec" ?s1])
    case (fail e k)
    then show ?thesis
      using set x(2,3) by (auto simp: set_timer_def pd_set_system_error_def heap_write_def pd_get_current_system_error_def s'(4))
  next
    case (ok v k)
    let ?s = "?s1\<lparr>st_kernel := k\<rparr>"
    have s1: "pd_wf ?s" "epoll_inv ?s" "st_watchers ?s (t_watcher tm) = Some x" "w_loop x \<noteq> NULL"
      using assms(1) epoll_inv_cong [OF assms(2), of ?s] x by simp_all
    have stop: "pd_watcher_stop (epoll_watcher_ops K) (t_watcher tm) ?s = Some (r, s2)"
      using set by (simp add: set_timer_def ok(1))
    obtain y where "st_watchers s2 (t_watcher tm) = Some y" "w_active y = (w_active x \<and> r \<noteq> PD_OK)"
      by (rule epoll.stop_step [OF s1, where K = K]) (use stop in auto)
    then show ?thesis using stop ok(2) by (auto simp: s'(4))
  qed
  have "r = PD_OK \<Longrightarrow> pd_timer_stop (pd_platform_epoll K U) t s' = Some (PD_OK, s')"
    using x(1,2) by (simp add: pd_timer_stop_def s'(4))
  then show ?thesis using run s' kernel by (intro exI [of _ r] exI [of _ s']) simp
qed

text \<open>The witness stops the timer that was started; its state is the started one.\<close>

definition ex_running :: "ref_kernel epoll_state" where
  "ex_running = snd (the (pd_timer_start (pd_platform_epoll ref_linux ex_quiet) 601 ex_timer))"

lemma ex_running_ok:
  obtains tm where "pd_wf ex_running" "epoll_inv ex_running" "epoll_tinv {} ex_running" "st_timers ex_running 601 = Some tm"
    "t_active tm" "st_tdata ex_running (t_platform_data tm) = Some 8"
proof (rule ex_timer_ok)
  fix tm assume tm: "pd_wf ex_timer" "epoll_inv ex_timer" "epoll_tinv {} ex_timer" "st_timers ex_timer 601 = Some tm" "\<not> t_active tm"
  show thesis
  proof (rule ept.timer_start_step [OF tm, where K = ref_linux and U = ex_quiet])
    fix r s' s2 assume run: "pd_timer_start (pd_platform_epoll ref_linux ex_quiet) 601 ex_timer = Some (r, s')"
      and s': "pd_wf s'" "epoll_inv s'" "epoll_tinv {} s'" "s' = s2\<lparr>st_timers := (st_timers ex_timer)(601 \<mapsto> tm\<lparr>t_active := (r = PD_OK)\<rparr>)\<rparr>"
    have "map_option fst (pd_timer_start (pd_platform_epoll ref_linux ex_quiet) 601 ex_timer) = Some PD_OK" by code_simp
    then have s: "s' = ex_running" "r = PD_OK" using run by (auto simp: ex_running_def)
    have "Option.bind (st_timers ex_running 601) (\<lambda>tm. st_tdata ex_running (t_platform_data tm)) = Some 8" by code_simp
    moreover have "st_timers ex_running 601 = Some (tm\<lparr>t_active := True\<rparr>)"
      using arg_cong [OF s'(4), of st_timers] by (simp add: s)
    ultimately show thesis using that [of "tm\<lparr>t_active := True\<rparr>"] s'(1-3) s by simp
  qed
qed

theorem epoll_timer_stop_disarms_witness:
  "\<exists>s'. pd_timer_stop (pd_platform_epoll ref_linux ex_quiet) 601 ex_running = Some (PD_OK, s') \<and>
    pd_timer_stop (pd_platform_epoll ref_linux ex_quiet) 601 s' = Some (PD_OK, s')"
proof -
  have "map_option fst (pd_timer_stop (pd_platform_epoll ref_linux ex_quiet) 601 ex_running) = Some PD_OK" by code_simp
  moreover obtain tm where tm: "pd_wf ex_running" "epoll_inv ex_running" "epoll_tinv {} ex_running" "st_timers ex_running 601 = Some tm"
    "t_active tm" "st_tdata ex_running (t_platform_data tm) = Some 8" by (rule ex_running_ok)
  ultimately show ?thesis using epoll_timer_stop_disarms [OF tm, of ref_linux ex_quiet] by auto
qed



end
