(* ===== verification/Pd_BSD.thy ===== *)
theory Pd_BSD
  imports Pd_System
begin

text \<open>
  The system calls of the BSDs and macOS that \<^verbatim>\<open>src/platform/kqueue.c\<close> makes, a parameter of
  every definition of the kqueue backend: the constants of \<^verbatim>\<open>sys/event.h\<close>, the structure
  \<^verbatim>\<open>kevent\<close>, the locale that states what kevent(2) promises about the registered filters, and
  a small kernel that keeps these promises.
\<close>

section \<open>Constants of the headers\<close>

definition EV_ADD :: "16 word" where "EV_ADD = 0x0001"
definition EV_DELETE :: "16 word" where "EV_DELETE = 0x0002"
definition EV_ENABLE :: "16 word" where "EV_ENABLE = 0x0004"
definition EV_DISABLE :: "16 word" where "EV_DISABLE = 0x0008"
definition EV_ONESHOT :: "16 word" where "EV_ONESHOT = 0x0010"
definition EV_CLEAR :: "16 word" where "EV_CLEAR = 0x0020"
definition EV_ERROR :: "16 word" where "EV_ERROR = 0x4000"
definition EV_EOF :: "16 word" where "EV_EOF = 0x8000"

lemmas ev_defs = EV_ADD_def EV_DELETE_def EV_ENABLE_def EV_DISABLE_def EV_ONESHOT_def
  EV_CLEAR_def EV_ERROR_def EV_EOF_def

definition NOTE_TRIGGER :: "32 word" where "NOTE_TRIGGER = 0x01000000"

text \<open>FreeBSD's value; macOS does not define this name.\<close>

definition NOTE_MSECONDS :: "32 word" where "NOTE_MSECONDS = 0x00000002"

datatype evfilt = EVFILT_READ | EVFILT_WRITE | EVFILT_TIMER | EVFILT_USER | EVFILT_other int

lemma ev_flags:
  "EV_ADD = push_bit 0 1" "EV_DELETE = push_bit 1 1" "EV_ENABLE = push_bit 2 1" "EV_DISABLE = push_bit 3 1"
  "EV_ONESHOT = push_bit 4 1" "EV_CLEAR = push_bit 5 1" "EV_ERROR = push_bit 14 1" "EV_EOF = push_bit 15 1"
  by (simp_all add: ev_defs push_bit_eq_mult)

lemma ev_has_flag:
  "has_flag m EV_ADD \<longleftrightarrow> bit m 0" "has_flag m EV_DELETE \<longleftrightarrow> bit m 1" "has_flag m EV_ENABLE \<longleftrightarrow> bit m 2"
  "has_flag m EV_DISABLE \<longleftrightarrow> bit m 3" "has_flag m EV_ONESHOT \<longleftrightarrow> bit m 4" "has_flag m EV_CLEAR \<longleftrightarrow> bit m 5"
  "has_flag m EV_ERROR \<longleftrightarrow> bit m 14" "has_flag m EV_EOF \<longleftrightarrow> bit m 15"
  unfolding ev_flags by (rule has_flag_exp, simp)+

lemma ev_bits:
  "bit EV_ADD n \<longleftrightarrow> n = 0" "bit EV_DELETE n \<longleftrightarrow> n = 1" "bit EV_ENABLE n \<longleftrightarrow> n = 2" "bit EV_DISABLE n \<longleftrightarrow> n = 3"
  "bit EV_ONESHOT n \<longleftrightarrow> n = 4" "bit EV_CLEAR n \<longleftrightarrow> n = 5" "bit EV_ERROR n \<longleftrightarrow> n = 14" "bit EV_EOF n \<longleftrightarrow> n = 15"
  unfolding ev_flags by (rule bit_single, simp)+

section \<open>The calls\<close>

text \<open>
  The member \<^verbatim>\<open>ident\<close> is a \<^verbatim>\<open>uintptr_t\<close>: a descriptor converted to it (\<open>uintptr_of_int\<close>), or
  an address.
\<close>

record kevent =
  ke_ident :: int
  ke_filter :: evfilt
  ke_flags :: "16 word"
  ke_fflags :: "32 word"
  ke_data :: "64 word"
  ke_udata :: addr

definition uintptr_of_int :: "int \<Rightarrow> int" where
  "uintptr_of_int x = x mod 2 ^ 64"

definition EV_SET :: "int \<Rightarrow> evfilt \<Rightarrow> 16 word \<Rightarrow> 32 word \<Rightarrow> 64 word \<Rightarrow> addr \<Rightarrow> kevent" where
  "EV_SET ident filt flags fflags data udata = \<lparr>ke_ident = ident, ke_filter = filt, ke_flags = flags,
     ke_fflags = fflags, ke_data = data, ke_udata = udata\<rparr>"

text \<open>
  \<open>bsd_kevent kq changes n timeout\<close> applies the changes and, if \<open>n\<close> is positive, waits and
  gives at most \<open>n\<close> events, the list the kernel stores into the caller's array. \<open>None\<close> is a
  null timeout.
\<close>

record 'k bsd =
  bsd_kqueue :: "'k \<Rightarrow> (int + nat) \<times> 'k"
  bsd_kevent :: "int \<Rightarrow> kevent list \<Rightarrow> int \<Rightarrow> timespec option \<Rightarrow> 'k \<Rightarrow> (int + kevent list) \<times> 'k"
  bsd_close :: "int \<Rightarrow> 'k \<Rightarrow> (int + unit) \<times> 'k"

section \<open>What the manual pages promise\<close>

text \<open>
  A filter is registered in a kqueue under an identifier and a kind. Adding one that is
  registered already modifies it and, unless it is disabled by the same change, enables it;
  deleting removes it, and fails only if there is none. A change that fails stops the call: the
  changes before it have been applied.
\<close>

type_synonym ev_key = "int \<times> evfilt"

record knote =
  kn_enabled :: bool
  kn_flags :: "16 word"
  kn_fflags :: "32 word"
  kn_data :: "64 word"
  kn_udata :: addr

definition ev_key :: "kevent \<Rightarrow> ev_key" where
  "ev_key c = (ke_ident c, ke_filter c)"

definition knote_of :: "kevent \<Rightarrow> knote" where
  "knote_of c = \<lparr>kn_enabled = (\<not> has_flag (ke_flags c) EV_DISABLE),
     kn_flags = ke_flags c AND (EV_ONESHOT OR EV_CLEAR), kn_fflags = ke_fflags c,
     kn_data = ke_data c, kn_udata = ke_udata c\<rparr>"

definition is_delete :: "kevent \<Rightarrow> bool" where
  "is_delete c \<longleftrightarrow> has_flag (ke_flags c) EV_DELETE"

definition is_add :: "kevent \<Rightarrow> bool" where
  "is_add c \<longleftrightarrow> has_flag (ke_flags c) EV_ADD \<and> \<not> has_flag (ke_flags c) EV_DELETE"

definition apply_change :: "kevent \<Rightarrow> (ev_key \<Rightarrow> knote option) \<Rightarrow> ev_key \<Rightarrow> knote option" where
  "apply_change c m = (if is_delete c then m(ev_key c := None) else m(ev_key c \<mapsto> knote_of c))"

text \<open>
  \<open>knotes k kq\<close> are the filters of the kqueue \<open>kq\<close>. A wait reports enabled filters, each at
  most once, under their identifier, kind and data; it removes those that were added with
  \<^verbatim>\<open>EV_ONESHOT\<close> and changes no other.
\<close>

definition ke_reports :: "(ev_key \<Rightarrow> knote option) \<Rightarrow> kevent \<Rightarrow> ev_key \<Rightarrow> bool" where
  "ke_reports m ev key \<longleftrightarrow> ev_key ev = key \<and> (\<exists>kn. m key = Some kn \<and> kn_enabled kn \<and> ke_udata ev = kn_udata kn)"

definition fired :: "ev_key list \<Rightarrow> (ev_key \<Rightarrow> knote option) \<Rightarrow> ev_key \<Rightarrow> knote option" where
  "fired keys m key = (case m key of None \<Rightarrow> None
     | Some kn \<Rightarrow> if key \<in> set keys \<and> has_flag (kn_flags kn) EV_ONESHOT then None else Some kn)"

locale kqueue_kernel =
  fixes K :: "'k bsd" and knotes :: "'k \<Rightarrow> int \<Rightarrow> ev_key \<Rightarrow> knote option"
  assumes change_ok: "bsd_kevent K kq cs 0 None k = (Inr evs, k') \<Longrightarrow> \<forall>c\<in>set cs. is_add c \<or> is_delete c \<Longrightarrow>
      knotes k' = (knotes k)(kq := fold apply_change cs (knotes k kq))"
    and change_fail: "bsd_kevent K kq cs 0 None k = (Inl e, k') \<Longrightarrow> \<forall>c\<in>set cs. is_add c \<or> is_delete c \<Longrightarrow> cs \<noteq> [] \<Longrightarrow>
      \<exists>n<length cs. knotes k' = (knotes k)(kq := fold apply_change (take n cs) (knotes k kq))"
    and deletes_work: "cs \<noteq> [] \<Longrightarrow> \<forall>c\<in>set cs. is_delete c \<and> knotes k kq (ev_key c) \<noteq> None \<Longrightarrow>
      distinct (map ev_key cs) \<Longrightarrow> \<exists>evs. fst (bsd_kevent K kq cs 0 None k) = Inr evs"
    and trigger: "bsd_kevent K kq [c] 0 None k = (r, k') \<Longrightarrow> ke_flags c = 0 \<Longrightarrow> ke_filter c = EVFILT_USER \<Longrightarrow>
      \<exists>x. knotes k' = (knotes k)(kq := (knotes k kq)(ev_key c := x))"
    and kwait_ok: "bsd_kevent K kq [] n t k = (Inr evs, k') \<Longrightarrow> 0 < n \<Longrightarrow> int (length evs) \<le> n \<and>
      (\<exists>keys. distinct keys \<and> list_all2 (ke_reports (knotes k kq)) evs keys \<and>
        knotes k' = (knotes k)(kq := fired keys (knotes k kq)))"
    and kwait_fail: "bsd_kevent K kq [] n t k = (Inl e, k') \<Longrightarrow> 0 < n \<Longrightarrow> knotes k' = knotes k"

text \<open>
  \<open>opened k\<close> are the open descriptors: \<^verbatim>\<open>kqueue\<close> gives a new one, \<^verbatim>\<open>close\<close> releases its
  argument, and kevent opens and closes nothing.
\<close>

locale kqueue_fds =
  fixes K :: "'k bsd" and opened :: "'k \<Rightarrow> int set"
  assumes kqueue_ok: "bsd_kqueue K k = (Inr fd, k') \<Longrightarrow> int fd \<notin> opened k \<and> opened k' = insert (int fd) (opened k)"
    and kqueue_fail: "bsd_kqueue K k = (Inl e, k') \<Longrightarrow> opened k' = opened k"
    and kevent_opened: "bsd_kevent K kq cs n t k = (r, k') \<Longrightarrow> opened k' = opened k"
    and kclose_opened: "bsd_close K f k = (r2, k') \<Longrightarrow> opened k' = opened k - {f}"

section \<open>A kernel that keeps them\<close>

text \<open>
  \<open>rb_open\<close> are the open descriptors, \<open>rb_knotes\<close> the filters keyed by kqueue, identifier and
  kind, \<open>rb_ready\<close> the keys whose condition holds, with the flags that are reported. A timer
  is ready from when it is added (its time is taken to have come by every wait), a user event
  from when it is triggered to when it is reported.
\<close>

record ref_bsd_kernel =
  rb_open :: "int list"
  rb_knotes :: "((int \<times> ev_key) \<times> knote) list"
  rb_ready :: "(ev_key \<times> 16 word) list"

definition rb_init :: ref_bsd_kernel where
  "rb_init = \<lparr>rb_open = [], rb_knotes = [], rb_ready = []\<rparr>"

definition rb_kqueue :: "ref_bsd_kernel \<Rightarrow> (int + nat) \<times> ref_bsd_kernel" where
  "rb_kqueue k = (let fd = nat (fold max (rb_open k) 2 + 1) in (Inr fd, k\<lparr>rb_open := int fd # rb_open k\<rparr>))"

definition rb_change :: "int \<Rightarrow> kevent \<Rightarrow> ref_bsd_kernel \<Rightarrow> (int + unit) \<times> ref_bsd_kernel" where
  "rb_change kq c k =
    (if is_delete c
     then (if map_of (rb_knotes k) (kq, ev_key c) = None then (Inl 2, k)
           else (Inr (), k\<lparr>rb_knotes := rk_del (kq, ev_key c) (rb_knotes k)\<rparr>))
     else if is_add c
     then (if (ke_filter c = EVFILT_READ \<or> ke_filter c = EVFILT_WRITE) \<and> ke_ident c \<notin> set (rb_open k) then (Inl 9, k)
           else (Inr (), k\<lparr>rb_knotes := rk_put (kq, ev_key c) (knote_of c) (rb_knotes k),
             rb_ready := (if ke_filter c = EVFILT_TIMER then (ev_key c, 0) # rb_ready k else rb_ready k)\<rparr>))
     else (if map_of (rb_knotes k) (kq, ev_key c) = None then (Inl 2, k)
           else (Inr (), k\<lparr>rb_ready := (if has_flag (ke_fflags c) NOTE_TRIGGER then (ev_key c, 0) # rb_ready k else rb_ready k)\<rparr>)))"

fun rb_changes :: "int \<Rightarrow> kevent list \<Rightarrow> ref_bsd_kernel \<Rightarrow> (int + unit) \<times> ref_bsd_kernel" where
  "rb_changes kq [] k = (Inr (), k)"
| "rb_changes kq (c # cs) k = (case rb_change kq c k of
     (Inl e, k1) \<Rightarrow> (Inl e, k1)
   | (Inr _, k1) \<Rightarrow> rb_changes kq cs k1)"

definition rb_event :: "int \<Rightarrow> ref_bsd_kernel \<Rightarrow> ((int \<times> ev_key) \<times> knote) \<Rightarrow> kevent option" where
  "rb_event kq k x = (case x of ((q, key), kn) \<Rightarrow>
     (case map_of (rb_ready k) key of
        None \<Rightarrow> None
      | Some fl \<Rightarrow> if q = kq \<and> kn_enabled kn \<and> map_of (rb_knotes k) (q, key) = Some kn
          then Some \<lparr>ke_ident = fst key, ke_filter = snd key, ke_flags = fl, ke_fflags = kn_fflags kn,
            ke_data = 1, ke_udata = kn_udata kn\<rparr>
          else None))"

definition rb_fire :: "int \<Rightarrow> ev_key list \<Rightarrow> ref_bsd_kernel \<Rightarrow> ref_bsd_kernel" where
  "rb_fire kq keys k = k\<lparr>
     rb_ready := filter (\<lambda>x. \<not> (fst x \<in> set keys \<and> (snd (fst x) = EVFILT_USER))) (rb_ready k),
     rb_knotes := filter (\<lambda>x. \<not> (fst (fst x) = kq \<and> snd (fst x) \<in> set keys \<and>
       (case map_of (rb_knotes k) (fst x) of None \<Rightarrow> False | Some kn \<Rightarrow> has_flag (kn_flags kn) EV_ONESHOT))) (rb_knotes k)\<rparr>"

definition rb_kevent :: "int \<Rightarrow> kevent list \<Rightarrow> int \<Rightarrow> timespec option \<Rightarrow> ref_bsd_kernel \<Rightarrow> (int + kevent list) \<times> ref_bsd_kernel" where
  "rb_kevent kq cs n t k =
    (if kq \<notin> set (rb_open k) \<and> kq \<notin> set (map (\<lambda>x. fst (fst x)) (rb_knotes k)) then (Inl 9, k)
     else case rb_changes kq cs k of
       (Inl e, k1) \<Rightarrow> (Inl e, k1)
     | (Inr _, k1) \<Rightarrow>
         if n \<le> 0 then (Inr [], k1)
         else let evs = take (nat n) (List.map_filter (rb_event kq k1) (remdups (rb_knotes k1))) in
           (Inr evs, rb_fire kq (map ev_key evs) k1))"

definition rb_close :: "int \<Rightarrow> ref_bsd_kernel \<Rightarrow> (int + unit) \<times> ref_bsd_kernel" where
  "rb_close fd k =
    (if fd \<notin> set (rb_open k) then (Inl 9, k)
     else (Inr (), k\<lparr>rb_open := removeAll fd (rb_open k),
       rb_knotes := filter (\<lambda>((q, key), _). q \<noteq> fd \<and>
         \<not> (fst key = fd \<and> (snd key = EVFILT_READ \<or> snd key = EVFILT_WRITE))) (rb_knotes k),
       rb_ready := filter (\<lambda>(key, _). \<not> (fst key = fd \<and> (snd key = EVFILT_READ \<or> snd key = EVFILT_WRITE))) (rb_ready k)\<rparr>))"

definition ref_bsd :: "ref_bsd_kernel bsd" where
  "ref_bsd = \<lparr>bsd_kqueue = rb_kqueue, bsd_kevent = rb_kevent, bsd_close = rb_close\<rparr>"

definition rb_knote :: "ref_bsd_kernel \<Rightarrow> int \<Rightarrow> ev_key \<Rightarrow> knote option" where
  "rb_knote k kq key = map_of (rb_knotes k) (kq, key)"

lemma rb_change_applied:
  "rb_change kq c k = (Inr u, k') \<Longrightarrow> is_add c \<or> is_delete c \<Longrightarrow>
   rb_knote k' = (rb_knote k)(kq := apply_change c (rb_knote k kq))"
  by (auto simp: rb_change_def rb_knote_def apply_change_def fun_eq_iff map_of_rk_put map_of_rk_del split: if_splits)

lemma rb_changes_ok:
  assumes "rb_changes kq cs k = (Inr v, k')" "\<forall>c\<in>set cs. is_add c \<or> is_delete c"
  shows "rb_knote k' = (rb_knote k)(kq := fold apply_change cs (rb_knote k kq))"
  using assms
proof (induction cs arbitrary: k)
  case (Cons c cs)
  obtain r k1 where k1: "rb_change kq c k = (r, k1)" by fastforce
  with Cons.prems obtain u where r: "r = Inr u" "rb_changes kq cs k1 = (Inr v, k')" by (cases r) auto
  have "rb_knote k1 = (rb_knote k)(kq := apply_change c (rb_knote k kq))"
    using k1 Cons.prems(2) unfolding r(1) by (simp add: rb_change_applied)
  moreover have "rb_knote k' = (rb_knote k1)(kq := fold apply_change cs (rb_knote k1 kq))"
    by (rule Cons.IH [OF r(2)]) (use Cons.prems(2) in simp)
  ultimately show ?case by (simp only: fold_simps fun_upd_same fun_upd_upd)
qed (simp add: fun_eq_iff)

lemma rb_changes_fail:
  assumes "rb_changes kq cs k = (Inl e, k')" "\<forall>c\<in>set cs. is_add c \<or> is_delete c"
  shows "\<exists>n<length cs. rb_knote k' = (rb_knote k)(kq := fold apply_change (take n cs) (rb_knote k kq))"
  using assms
proof (induction cs arbitrary: k)
  case (Cons c cs)
  obtain r k1 where k1: "rb_change kq c k = (r, k1)" by fastforce
  show ?case
  proof (cases r)
    case (Inl e1)
    with k1 Cons.prems have "k1 = k'" "k1 = k" by (auto simp: rb_change_def split: if_splits)
    then show ?thesis by (intro exI [of _ 0]) (simp add: fun_eq_iff)
  next
    case (Inr u)
    with k1 Cons.prems have r: "rb_changes kq cs k1 = (Inl e, k')" by simp
    have s: "rb_knote k1 = (rb_knote k)(kq := apply_change c (rb_knote k kq))"
      using k1 Cons.prems(2) unfolding Inr by (simp add: rb_change_applied)
    obtain n where n: "n < length cs" and "rb_knote k' = (rb_knote k1)(kq := fold apply_change (take n cs) (rb_knote k1 kq))"
      using Cons.IH [OF r] Cons.prems(2) list.set_intros(2) by metis
    then have "rb_knote k' = (rb_knote k)(kq := fold apply_change (take (Suc n) (c # cs)) (rb_knote k kq))"
      by (simp only: s take_Suc_Cons fold_simps fun_upd_same fun_upd_upd)
    then show ?thesis using n by (intro exI [of _ "Suc n"]) simp
  qed
qed simp

lemma rb_deletes_work:
  assumes "\<forall>c\<in>set cs. is_delete c \<and> rb_knote k kq (ev_key c) \<noteq> None" "distinct (map ev_key cs)"
  shows "\<exists>k'. rb_changes kq cs k = (Inr (), k')"
  using assms
proof (induction cs arbitrary: k)
  case (Cons c cs)
  let ?k = "k\<lparr>rb_knotes := rk_del (kq, ev_key c) (rb_knotes k)\<rparr>"
  have c: "rb_change kq c k = (Inr (), ?k)" using Cons.prems(1) by (auto simp: rb_change_def rb_knote_def)
  have "\<forall>c'\<in>set cs. is_delete c' \<and> rb_knote ?k kq (ev_key c') \<noteq> None"
    using Cons.prems by (auto simp: rb_knote_def map_of_rk_del) (metis image_eqI)
  from Cons.IH [OF this] Cons.prems(2) show ?case by (simp add: c)
qed simp

lemma rb_events:
  assumes "distinct xs"
  shows "distinct (map ev_key (List.map_filter (rb_event kq k) xs)) \<and>
    list_all2 (ke_reports (rb_knote k kq)) (List.map_filter (rb_event kq k) xs)
      (map ev_key (List.map_filter (rb_event kq k) xs)) \<and>
    (\<forall>key\<in>ev_key ` set (List.map_filter (rb_event kq k) xs). \<exists>kn. ((kq, key), kn) \<in> set xs \<and> rb_knote k kq key = Some kn)"
  using assms
proof (induction xs)
  case (Cons x xs)
  obtain q key kn where x: "x = ((q, key), kn)" by (cases x) auto
  show ?case
  proof (cases "rb_event kq k x")
    case None
    with Cons show ?thesis by (auto simp: map_filter_simps)
  next
    case (Some ev)
    then have ev: "q = kq" "kn_enabled kn" "rb_knote k kq key = Some kn" "ev_key ev = key" "ke_udata ev = kn_udata kn"
      by (auto simp: x rb_event_def rb_knote_def ev_key_def split: if_splits option.splits)
    have "key \<notin> ev_key ` set (List.map_filter (rb_event kq k) xs)" using Cons x ev by auto
    with Cons x ev Some show ?thesis by (auto simp: map_filter_simps ke_reports_def)
  qed
qed (simp add: map_filter_simps)

lemma map_of_filter_keys:
  "map_of (filter (\<lambda>x. P (fst x)) xs) key = (if P key then map_of xs key else None)"
  by (induction xs) auto

lemma rb_fire_fired: "rb_knote (rb_fire kq keys k) = (rb_knote k)(kq := fired keys (rb_knote k kq))"
proof (intro ext)
  fix q key
  show "rb_knote (rb_fire kq keys k) q key = ((rb_knote k)(kq := fired keys (rb_knote k kq))) q key"
    using map_of_filter_keys [of "\<lambda>x. \<not> (fst x = kq \<and> snd x \<in> set keys \<and>
       (case map_of (rb_knotes k) x of None \<Rightarrow> False | Some kn \<Rightarrow> has_flag (kn_flags kn) EV_ONESHOT))" "rb_knotes k" "(q, key)"]
    by (simp add: rb_knote_def rb_fire_def fired_def split: option.split)
qed

interpretation rb: kqueue_kernel ref_bsd rb_knote
proof
  fix kq n :: int and cs :: "kevent list" and c k evs k' e t r
  show "bsd_kevent ref_bsd kq cs 0 None k = (Inr evs, k') \<Longrightarrow> \<forall>c\<in>set cs. is_add c \<or> is_delete c \<Longrightarrow>
      rb_knote k' = (rb_knote k)(kq := fold apply_change cs (rb_knote k kq))"
    by (auto simp: ref_bsd_def rb_kevent_def rb_changes_ok split: if_splits prod.splits sum.splits)
  show "\<exists>n<length cs. rb_knote k' = (rb_knote k)(kq := fold apply_change (take n cs) (rb_knote k kq))"
    if f: "bsd_kevent ref_bsd kq cs 0 None k = (Inl e, k')" and cs: "\<forall>c\<in>set cs. is_add c \<or> is_delete c" and ne: "cs \<noteq> []"
  proof (cases "kq \<notin> set (rb_open k) \<and> kq \<notin> set (map (\<lambda>x. fst (fst x)) (rb_knotes k))")
    case True
    with f ne show ?thesis by (intro exI [of _ 0]) (simp add: ref_bsd_def rb_kevent_def fun_eq_iff)
  next
    case False
    with f have "rb_changes kq cs k = (Inl e, k')"
      by (auto simp: ref_bsd_def rb_kevent_def split: if_splits prod.splits sum.splits)
    from rb_changes_fail [OF this cs] show ?thesis .
  qed
  show "\<exists>evs. fst (bsd_kevent ref_bsd kq cs 0 None k) = Inr evs"
    if ne: "cs \<noteq> []" and cs: "\<forall>c\<in>set cs. is_delete c \<and> rb_knote k kq (ev_key c) \<noteq> None" and di: "distinct (map ev_key cs)"
  proof -
    obtain k' where k': "rb_changes kq cs k = (Inr (), k')" using rb_deletes_work [OF cs di] by blast
    have "rb_knote k kq (ev_key (hd cs)) \<noteq> None" using cs ne by simp
    then have "kq \<in> set (map (\<lambda>x. fst (fst x)) (rb_knotes k))"
      by (force simp: rb_knote_def dest: map_of_SomeD)
    then show ?thesis using k' by (auto simp: ref_bsd_def rb_kevent_def)
  qed
  show "\<exists>x. rb_knote k' = (rb_knote k)(kq := (rb_knote k kq)(ev_key c := x))"
    if "bsd_kevent ref_bsd kq [c] 0 None k = (r, k')" "ke_flags c = 0"
  proof (intro exI)
    have "\<not> is_add c" "\<not> is_delete c" using that(2) by (simp_all add: is_add_def is_delete_def has_flag_def)
    then show "rb_knote k' = (rb_knote k)(kq := (rb_knote k kq)(ev_key c := rb_knote k kq (ev_key c)))"
      using that by (auto simp: ref_bsd_def rb_kevent_def rb_change_def rb_knote_def fun_eq_iff split: if_splits)
  qed
  show "bsd_kevent ref_bsd kq [] n t k = (Inl e, k') \<Longrightarrow> rb_knote k' = rb_knote k"
    by (auto simp: ref_bsd_def rb_kevent_def Let_def split: if_splits)
  assume w: "bsd_kevent ref_bsd kq [] n t k = (Inr evs, k')" and n: "0 < n"
  let ?all = "List.map_filter (rb_event kq k) (remdups (rb_knotes k))"
  have evs: "evs = take (nat n) ?all" and k': "k' = rb_fire kq (map ev_key evs) k"
    using w n by (auto simp: ref_bsd_def rb_kevent_def Let_def split: if_splits)
  have "distinct (map ev_key evs)" "list_all2 (ke_reports (rb_knote k kq)) evs (map ev_key evs)"
    using rb_events [of "remdups (rb_knotes k)" kq k]
    by (simp_all add: evs take_map [symmetric] list_all2_takeI)
  then show "int (length evs) \<le> n \<and> (\<exists>keys. distinct keys \<and> list_all2 (ke_reports (rb_knote k kq)) evs keys \<and>
        rb_knote k' = (rb_knote k)(kq := fired keys (rb_knote k kq)))"
    using n by (intro conjI exI [of _ "map ev_key evs"]) (simp_all add: k' rb_fire_fired evs)
qed

lemma rb_change_open: "rb_open (snd (rb_change kq c k)) = rb_open k"
  by (simp add: rb_change_def)

lemma rb_changes_open: "rb_open (snd (rb_changes kq cs k)) = rb_open k"
proof (induction cs arbitrary: k)
  case (Cons c cs)
  then show ?case
    using rb_change_open [of kq c k] by (cases "rb_change kq c k"; cases "fst (rb_change kq c k)") auto
qed simp

interpretation rb_fd: kqueue_fds ref_bsd "\<lambda>k. set (rb_open k)"
proof
  fix k k' fd e kq cs n t r r2 and f :: int
  show "bsd_kqueue ref_bsd k = (Inr fd, k') \<Longrightarrow> int fd \<notin> set (rb_open k) \<and> set (rb_open k') = insert (int fd) (set (rb_open k))"
    using fold_max_less(1) [of "int fd" "rb_open k" 2] fold_max_less(2) [of 2 "rb_open k"]
    by (auto simp: ref_bsd_def rb_kqueue_def Let_def)
  show "bsd_kqueue ref_bsd k = (Inl e, k') \<Longrightarrow> set (rb_open k') = set (rb_open k)"
    by (simp add: ref_bsd_def rb_kqueue_def Let_def)
  show "bsd_kevent ref_bsd kq cs n t k = (r, k') \<Longrightarrow> set (rb_open k') = set (rb_open k)"
    using rb_changes_open [of kq cs k]
    by (auto simp: ref_bsd_def rb_kevent_def rb_fire_def Let_def split: if_splits prod.splits sum.splits)
  show "bsd_close ref_bsd f k = (r2, k') \<Longrightarrow> set (rb_open k') = set (rb_open k) - {f}"
    by (auto simp: ref_bsd_def rb_close_def split: if_splits)
qed

end
