(* ===== verification/Pd_Kqueue_Data.thy ===== *)
theory Pd_Kqueue_Data
  imports Pd_BSD Pd_Registrations
begin

text \<open>
  The platform data of the kqueue backend's loops, watchers and timers
  (\<^verbatim>\<open>src/platform/kqueue.c\<close>). The member \<^verbatim>\<open>ident\<close> of a registration is \<open>reg_fd\<close> here.
\<close>

type_synonym pd_kqueue_registration = pd_registration

record pd_kqueue_data = reg_table +
  kd_kqueue_fd :: int
  kd_events :: "kevent c_array"
  kd_max_events :: int
  kd_async_ident :: int

record pd_kqueue_watcher_data =
  kw_kev_read :: kevent
  kw_kev_write :: kevent

record pd_kqueue_timer_data =
  kt_registered :: bool
  kt_pending_initial :: bool

text \<open>Zeroed memory; the number 0 is no filter's.\<close>

definition zero_kevent :: kevent where
  "zero_kevent = \<lparr>ke_ident = 0, ke_filter = EVFILT_other 0, ke_flags = 0, ke_fflags = 0, ke_data = 0,
     ke_udata = NULL\<rparr>"

definition zero_kqueue_data :: pd_kqueue_data where
  "zero_kqueue_data = \<lparr>registrations = [], registration_count = 0, registration_capacity = 0,
     kd_kqueue_fd = 0, kd_events = [], kd_max_events = 0, kd_async_ident = 0\<rparr>"

definition zero_kqueue_watcher_data :: pd_kqueue_watcher_data where
  "zero_kqueue_watcher_data = \<lparr>kw_kev_read = zero_kevent, kw_kev_write = zero_kevent\<rparr>"

definition zero_kqueue_timer_data :: pd_kqueue_timer_data where
  "zero_kqueue_timer_data = \<lparr>kt_registered = False, kt_pending_initial = False\<rparr>"

end
