(* ===== verification/Pd_Kqueue.thy ===== *)
theory Pd_Kqueue
  imports Pd_Backend Pd_Kqueue_Data
begin

text \<open>
  The watcher operations of the kqueue backend (\<^verbatim>\<open>src/platform/kqueue.c\<close>): register, update
  and unregister, over a kernel \<open>K\<close>. They keep the backend's invariant \<open>kqueue_inv\<close> whatever
  the kernel and the allocator answer, which makes them a \<open>readiness_backend\<close>.
\<close>

type_synonym 'k kqueue_state =
  "(pd_kqueue_data, pd_kqueue_watcher_data, pd_kqueue_timer_data, 'k) pd_state"

section \<open>Changes of filters\<close>

text \<open>The three results of the C function: its value, \<^verbatim>\<open>*need_read\<close> and \<^verbatim>\<open>*need_write\<close>.\<close>

definition events_to_filter :: "pd_event \<Rightarrow> int \<times> bool \<times> bool" where
  "events_to_filter events = (0, has_flag events PD_EVENT_READ, has_flag events PD_EVENT_WRITE)"

text \<open>
  The \<^verbatim>\<open>EV_SET\<close> that register and update use to add the filter of a watcher, for the mask
  \<open>events\<close>.
\<close>

definition add_filter :: "int \<Rightarrow> evfilt \<Rightarrow> pd_event \<Rightarrow> addr \<Rightarrow> kevent" where
  "add_filter fd filt events watcher = EV_SET (uintptr_of_int fd) filt
     (EV_ADD OR EV_ENABLE OR (if has_flag events PD_EVENT_EDGE then EV_CLEAR else 0)) 0 0 watcher"

text \<open>\<open>if (nchanges > 0) kevent(kq, changes, nchanges, NULL, 0, NULL)\<close>.\<close>

definition change_filters :: "'k bsd \<Rightarrow> int \<Rightarrow> kevent list \<Rightarrow> 'k \<Rightarrow> (int + kevent list) \<times> 'k" where
  "change_filters K kq changes k = (if length changes > 0 then bsd_kevent K kq changes 0 None k else (Inr [], k))"

section \<open>Register, update, unregister\<close>

definition kqueue_watcher_register_handle_unused ::
  "addr \<Rightarrow> addr \<Rightarrow> 'k kqueue_state \<Rightarrow> (pd_error \<times> 'k kqueue_state) option" where
  "kqueue_watcher_register_handle_unused loop watcher s = Some (PD_ERR_NOT_IMPLEMENTED, s)"

definition kqueue_watcher_register ::
  "'k bsd \<Rightarrow> addr \<Rightarrow> addr \<Rightarrow> 'k kqueue_state \<Rightarrow> (pd_error \<times> 'k kqueue_state) option" where
  "kqueue_watcher_register K loop watcher s =
    (if loop = NULL \<or> watcher = NULL then Some (PD_ERR_INVALID_ARG, s)
     else do {
       lp \<leftarrow> st_loops s loop;
       let data = l_platform_data lp;
       if data = NULL then Some (PD_ERR_LOOP_CLOSED, s)
       else let (watcher_data, s) = calloc_wdata zero_kqueue_watcher_data s in
         if watcher_data = NULL
         then do { s \<leftarrow> pd_set_system_error loop (pd_get_current_system_error s) s; Some (PD_ERR_NO_MEMORY, s) }
         else do {
           w \<leftarrow> st_watchers s watcher;
           d \<leftarrow> st_ldata s data;
           d \<leftarrow> evict_stale_registration d (w_fd w) watcher;
           s \<leftarrow> write_ldata data (\<lambda>_. d) s;
           s \<leftarrow> (if has_flag (w_events w) PD_EVENT_READ
                then write_wdata watcher_data
                  (\<lambda>x. x\<lparr>kw_kev_read := add_filter (w_fd w) EVFILT_READ (w_events w) watcher\<rparr>) s
                else Some s);
           s \<leftarrow> (if has_flag (w_events w) PD_EVENT_WRITE
                then write_wdata watcher_data
                  (\<lambda>x. x\<lparr>kw_kev_write := add_filter (w_fd w) EVFILT_WRITE (w_events w) watcher\<rparr>) s
                else Some s);
           wd \<leftarrow> st_wdata s watcher_data;
           let changes =
             (if has_flag (w_events w) PD_EVENT_READ then [kw_kev_read wd] else []) @
             (if has_flag (w_events w) PD_EVENT_WRITE then [kw_kev_write wd] else []);
           let (result, s) = syscall (change_filters K (kd_kqueue_fd d) changes) s;
           if result = None
           then do {
             s \<leftarrow> pd_set_system_error loop (pd_get_current_system_error s) s;
             s \<leftarrow> free_wdata watcher_data s;
             Some (PD_ERR_SYSTEM, s) }
           else do {
             d \<leftarrow> st_ldata s data;
             (room, s) \<leftarrow>
               (if registration_count d \<ge> registration_capacity d
                then (let (ok, s) = alloc_array s in
                  if \<not> ok then Some (False, s)
                  else do { s \<leftarrow> write_ldata data grow_registrations s; Some (True, s) })
                else Some (True, s));
             if \<not> room
             then
               let (_, s) = syscall (change_filters K (kd_kqueue_fd d)
                              (map (\<lambda>c. c\<lparr>ke_flags := EV_DELETE\<rparr>) changes)) s in do {
                 s \<leftarrow> free_wdata watcher_data s;
                 s \<leftarrow> pd_set_system_error loop (pd_get_current_system_error s) s;
                 Some (PD_ERR_NO_MEMORY, s) }
             else do {
               d \<leftarrow> st_ldata s data;
               d \<leftarrow> store_registration d (w_fd w) watcher;
               s \<leftarrow> write_ldata data (\<lambda>_. d) s;
               s \<leftarrow> write_watcher watcher (\<lambda>x. x\<lparr>w_platform_data := watcher_data\<rparr>) s;
               Some (PD_OK, s) } } } })"

text \<open>The changes of an update, from the mask the watcher holds to the new mask.\<close>

definition update_changes :: "addr \<Rightarrow> pd_watcher \<Rightarrow> pd_event \<Rightarrow> kevent list" where
  "update_changes watcher w events =
    (if has_flag (w_events w) PD_EVENT_READ
     then (if \<not> has_flag events PD_EVENT_READ
           then [EV_SET (uintptr_of_int (w_fd w)) EVFILT_READ EV_DISABLE 0 0 watcher] else [])
     else []) @
    (if has_flag (w_events w) PD_EVENT_WRITE
     then (if \<not> has_flag events PD_EVENT_WRITE
           then [EV_SET (uintptr_of_int (w_fd w)) EVFILT_WRITE EV_DISABLE 0 0 watcher] else [])
     else []) @
    (if has_flag events PD_EVENT_READ
     then (if \<not> has_flag (w_events w) PD_EVENT_READ
           then [add_filter (w_fd w) EVFILT_READ events watcher] else [])
     else []) @
    (if has_flag events PD_EVENT_WRITE
     then (if \<not> has_flag (w_events w) PD_EVENT_WRITE
           then [add_filter (w_fd w) EVFILT_WRITE events watcher] else [])
     else [])"

definition kqueue_watcher_update ::
  "'k bsd \<Rightarrow> addr \<Rightarrow> pd_event \<Rightarrow> 'k kqueue_state \<Rightarrow> (pd_error \<times> 'k kqueue_state) option" where
  "kqueue_watcher_update K watcher events s =
    (if watcher = NULL then Some (PD_ERR_INVALID_ARG, s)
     else do {
       w \<leftarrow> st_watchers s watcher;
       if w_loop w = NULL then Some (PD_ERR_INVALID_ARG, s)
       else do {
         lp \<leftarrow> st_loops s (w_loop w);
         let data = l_platform_data lp;
         if data = NULL then Some (PD_ERR_LOOP_CLOSED, s)
         else
           let watcher_data = w_platform_data w in
           if watcher_data = NULL then Some (PD_ERR_INVALID_ARG, s)
           else do {
             d \<leftarrow> st_ldata s data;
             let (result, s) = syscall (change_filters K (kd_kqueue_fd d) (update_changes watcher w events)) s;
             if result = None
             then do {
               s \<leftarrow> pd_set_system_error (w_loop w) (pd_get_current_system_error s) s;
               Some (PD_ERR_SYSTEM, s) }
             else do {
               s \<leftarrow> (if has_flag events PD_EVENT_READ
                    then write_wdata watcher_data
                      (\<lambda>x. x\<lparr>kw_kev_read := add_filter (w_fd w) EVFILT_READ events watcher\<rparr>) s
                    else Some s);
               s \<leftarrow> (if has_flag events PD_EVENT_WRITE
                    then write_wdata watcher_data
                      (\<lambda>x. x\<lparr>kw_kev_write := add_filter (w_fd w) EVFILT_WRITE events watcher\<rparr>) s
                    else Some s);
               Some (PD_OK, s) } } } })"

text \<open>The deletions of an unregistration.\<close>

definition delete_changes :: "pd_watcher \<Rightarrow> kevent list" where
  "delete_changes w =
    (if has_flag (w_events w) PD_EVENT_READ
     then [EV_SET (uintptr_of_int (w_fd w)) EVFILT_READ EV_DELETE 0 0 NULL] else []) @
    (if has_flag (w_events w) PD_EVENT_WRITE
     then [EV_SET (uintptr_of_int (w_fd w)) EVFILT_WRITE EV_DELETE 0 0 NULL] else [])"

definition kqueue_watcher_unregister ::
  "'k bsd \<Rightarrow> addr \<Rightarrow> 'k kqueue_state \<Rightarrow> (pd_error \<times> 'k kqueue_state) option" where
  "kqueue_watcher_unregister K watcher s =
    (if watcher = NULL then Some (PD_ERR_INVALID_ARG, s)
     else do {
       w \<leftarrow> st_watchers s watcher;
       if w_loop w = NULL then Some (PD_ERR_INVALID_ARG, s)
       else do {
         lp \<leftarrow> st_loops s (w_loop w);
         let data = l_platform_data lp;
         if data = NULL then Some (PD_ERR_LOOP_CLOSED, s)
         else if w_platform_data w = NULL then Some (PD_ERR_INVALID_ARG, s)
         else do {
           d \<leftarrow> st_ldata s data;
           registration_index \<leftarrow> find_registration d watcher;
           s \<leftarrow> (case registration_index of
              None \<Rightarrow> Some s
            | Some i \<Rightarrow>
                let (_, s) = syscall (change_filters K (kd_kqueue_fd d) (delete_changes w)) s in do {
                  d \<leftarrow> st_ldata s data;
                  d \<leftarrow> drop_registration d i;
                  write_ldata data (\<lambda>_. d) s });
           s \<leftarrow> free_wdata (w_platform_data w) s;
           s \<leftarrow> write_watcher watcher (\<lambda>x. x\<lparr>w_platform_data := NULL\<rparr>) s;
           Some (PD_OK, s) } } })"

text \<open>The watcher slots of the operation table.\<close>

definition kqueue_watcher_ops :: "'k bsd \<Rightarrow> 'k kqueue_state pd_watcher_ops" where
  "kqueue_watcher_ops K = \<lparr>op_watcher_register = Some (kqueue_watcher_register K),
     op_watcher_register_handle = Some kqueue_watcher_register_handle_unused,
     op_watcher_update = Some (kqueue_watcher_update K),
     op_watcher_unregister = Some (kqueue_watcher_unregister K),
     op_watcher_drain_read = None\<rparr>"

section \<open>The invariant\<close>

definition kqueue_data_ok :: "pd_kqueue_data \<Rightarrow> bool" where
  "kqueue_data_ok d \<longleftrightarrow> wf_table d \<and> 0 < kd_max_events d \<and>
     length (kd_events d) = nat (kd_max_events d) \<and> None \<notin> set (kd_events d)"

definition kqueue_inv :: "'k kqueue_state \<Rightarrow> bool" where
  "kqueue_inv s \<longleftrightarrow> owned (loop_pdata s) (st_ldata s) kqueue_data_ok \<and>
     owned (watcher_pdata s) (st_wdata s) (\<lambda>_. True)"

lemma kqueue_inv_stable: "kqueue_inv s \<Longrightarrow> same_pdata s s' \<Longrightarrow> kqueue_inv s'"
  by (auto simp: kqueue_inv_def same_pdata_def intro: owned_less)

lemma kqueue_data_table: "upd_table d d' \<Longrightarrow> wf_table d' \<Longrightarrow> kqueue_data_ok d \<Longrightarrow> kqueue_data_ok d'"
  by (auto simp: kqueue_data_ok_def elim!: upd_tableE)

lemma kqueue_inv_loop:
  assumes "kqueue_inv s" "st_loops s l = Some lp"
  obtains d where "l_platform_data lp \<noteq> NULL" "st_ldata s (l_platform_data lp) = Some d"
    "kqueue_data_ok d" "wf_table d"
proof -
  have "owned (loop_pdata s) (st_ldata s) kqueue_data_ok" using assms(1) by (simp add: kqueue_inv_def)
  from ownedD [OF this loop_pdata_Some [OF assms(2)]] that show thesis
    by (auto simp: kqueue_data_ok_def)
qed

lemma kqueue_inv_watcher:
  assumes "kqueue_inv s" "st_watchers s w = Some wt"
  shows "w_platform_data wt = NULL \<or> st_wdata s (w_platform_data wt) \<noteq> None"
proof (cases "w_platform_data wt = NULL")
  case False
  have "owned (watcher_pdata s) (st_wdata s) (\<lambda>_. True)" using assms(1) by (simp add: kqueue_inv_def)
  from ownedD [OF this watcher_pdata_Some [OF assms(2) False]] show ?thesis by blast
qed simp

section \<open>Register\<close>

text \<open>The platform data of a watcher after register or update stored its filters.\<close>

definition set_filters :: "int \<Rightarrow> pd_event \<Rightarrow> addr \<Rightarrow> pd_kqueue_watcher_data \<Rightarrow> pd_kqueue_watcher_data" where
  "set_filters fd ev w x = x\<lparr>
     kw_kev_read := (if has_flag ev PD_EVENT_READ then add_filter fd EVFILT_READ ev w else kw_kev_read x),
     kw_kev_write := (if has_flag ev PD_EVENT_WRITE then add_filter fd EVFILT_WRITE ev w else kw_kev_write x)\<rparr>"

lemma set_filters_step:
  assumes "st_wdata s p = Some x"
  shows "Option.bind (if has_flag ev PD_EVENT_READ
      then write_wdata p (\<lambda>x. x\<lparr>kw_kev_read := add_filter fd EVFILT_READ ev w\<rparr>) s else Some s)
     (\<lambda>s. Option.bind (if has_flag ev PD_EVENT_WRITE
        then write_wdata p (\<lambda>x. x\<lparr>kw_kev_write := add_filter fd EVFILT_WRITE ev w\<rparr>) s else Some s) f) =
     f (s\<lparr>st_wdata := (st_wdata s)(p \<mapsto> set_filters fd ev w x)\<rparr>)"
  using assms by (simp add: heap_write_def set_filters_def fun_upd_idem)

definition register_changes :: "addr \<Rightarrow> pd_watcher \<Rightarrow> kevent list" where
  "register_changes w wt =
     (if has_flag (w_events wt) PD_EVENT_READ then [add_filter (w_fd wt) EVFILT_READ (w_events wt) w] else []) @
     (if has_flag (w_events wt) PD_EVENT_WRITE then [add_filter (w_fd wt) EVFILT_WRITE (w_events wt) w] else [])"

lemma register_changes_set_filters:
  "(if has_flag (w_events wt) PD_EVENT_READ then [kw_kev_read (set_filters (w_fd wt) (w_events wt) w x)] else []) @
   (if has_flag (w_events wt) PD_EVENT_WRITE then [kw_kev_write (set_filters (w_fd wt) (w_events wt) w x)] else []) =
   register_changes w wt"
  by (simp add: register_changes_def set_filters_def)

definition deletions :: "kevent list \<Rightarrow> kevent list" where
  "deletions cs = map (\<lambda>c. c\<lparr>ke_flags := EV_DELETE\<rparr>) cs"

text \<open>
  The outcomes of a registration. \<open>d1\<close> is the loop's data after the eviction, \<open>k1\<close> the kernel
  after the filters have been added.
\<close>

lemma kregister_cases:
  assumes lp: "st_loops (s :: 'k kqueue_state) l = Some lp" "l \<noteq> NULL" and w: "st_watchers s w = Some wt" "w \<noteq> NULL"
    and d: "l_platform_data lp \<noteq> NULL" "st_ldata s (l_platform_data lp) = Some d" "wf_table d"
    and d1: "evict_stale_registration d (w_fd wt) w = Some d1" "wf_table d1"
  obtains (no_data) s' e where "kqueue_watcher_register K l w s = Some (PD_ERR_NO_MEMORY, s')"
      "\<exists>cs en. s' = s\<lparr>st_choices := cs, st_errno := en, st_loops := (st_loops s)(l \<mapsto> lp\<lparr>l_system_error := e\<rparr>)\<rparr>"
  | (refused) s' e k1 where "kqueue_watcher_register K l w s = Some (PD_ERR_SYSTEM, s')"
      "change_filters K (kd_kqueue_fd d1) (register_changes w wt) (st_kernel s) = (Inl e, k1)"
      "\<exists>cs en. s' = s\<lparr>st_choices := cs, st_errno := en, st_ldata := (st_ldata s)(l_platform_data lp \<mapsto> d1),
         st_kernel := k1, st_loops := (st_loops s)(l \<mapsto> lp\<lparr>l_system_error := e\<rparr>)\<rparr>"
  | (no_room) s' e k1 r2 k2 v where "kqueue_watcher_register K l w s = Some (PD_ERR_NO_MEMORY, s')"
      "change_filters K (kd_kqueue_fd d1) (register_changes w wt) (st_kernel s) = (Inr v, k1)"
      "change_filters K (kd_kqueue_fd d1) (deletions (register_changes w wt)) k1 = (r2, k2)"
      "\<exists>cs en. s' = s\<lparr>st_choices := cs, st_errno := en, st_ldata := (st_ldata s)(l_platform_data lp \<mapsto> d1),
         st_kernel := k2, st_loops := (st_loops s)(l \<mapsto> lp\<lparr>l_system_error := e\<rparr>)\<rparr>"
  | (ok) s' k1 d2 p v where "kqueue_watcher_register K l w s = Some (PD_OK, s')"
      "change_filters K (kd_kqueue_fd d1) (register_changes w wt) (st_kernel s) = (Inr v, k1)"
      "p \<noteq> NULL" "st_wdata s p = None" "wf_table d2" "upd_table d1 d2"
      "reg_list d2 = reg_list d1 @ [\<lparr>reg_fd = w_fd wt, reg_watcher = w\<rparr>]"
      "\<exists>cs en. s' = s\<lparr>st_choices := cs, st_errno := en,
         st_wdata := (st_wdata s)(p \<mapsto> set_filters (w_fd wt) (w_events wt) w zero_kqueue_watcher_data),
         st_ldata := (st_ldata s)(l_platform_data lp \<mapsto> d2), st_kernel := k1,
         st_watchers := (st_watchers s)(w \<mapsto> wt\<lparr>w_platform_data := p\<rparr>)\<rparr>"
proof (cases rule: calloc_wdata_cases [of zero_kqueue_watcher_data s])
  case (null cs e)
  then have "kqueue_watcher_register K l w s = Some (PD_ERR_NO_MEMORY, s\<lparr>st_choices := cs, st_errno := e,
    st_loops := (st_loops s)(l \<mapsto> lp\<lparr>l_system_error := e\<rparr>)\<rparr>)"
    using lp w d by (simp add: kqueue_watcher_register_def set_error_eq pd_get_current_system_error_def Let_def)
  then show thesis by (rule no_data) blast
next
  case (some p cs e)
  let ?data = "l_platform_data lp" and ?wd = "set_filters (w_fd wt) (w_events wt) w zero_kqueue_watcher_data"
    and ?changes = "register_changes w wt" and ?kq = "kd_kqueue_fd d1"
  note set_simps = heap_write_def heap_free_def pd_get_current_system_error_def set_error_eq Let_def
    syscall_def deletions_def [symmetric]
  define rest where "rest = (\<lambda>s :: 'k kqueue_state. let (result, s) = syscall (change_filters K ?kq ?changes) s in
      if result = None
      then do { s \<leftarrow> pd_set_system_error l (pd_get_current_system_error s) s;
        s \<leftarrow> free_wdata p s; Some (PD_ERR_SYSTEM, s) }
      else do {
        d \<leftarrow> st_ldata s ?data;
        (room, s) \<leftarrow> (if registration_count d \<ge> registration_capacity d
          then (let (ok, s) = alloc_array s in
            if \<not> ok then Some (False, s)
            else do { s \<leftarrow> write_ldata ?data grow_registrations s; Some (True, s) })
          else Some (True, s));
        if \<not> room
        then let (_, s) = syscall (change_filters K (kd_kqueue_fd d) (deletions ?changes)) s in do {
          s \<leftarrow> free_wdata p s; s \<leftarrow> pd_set_system_error l (pd_get_current_system_error s) s;
          Some (PD_ERR_NO_MEMORY, s) }
        else do {
          d \<leftarrow> st_ldata s ?data; d \<leftarrow> store_registration d (w_fd wt) w;
          s \<leftarrow> write_ldata ?data (\<lambda>_. d) s;
          s \<leftarrow> write_watcher w (\<lambda>x. x\<lparr>w_platform_data := p\<rparr>) s; Some (PD_OK, s) } })"
  have "kqueue_watcher_register K l w s = rest (s\<lparr>st_choices := cs, st_errno := e,
      st_ldata := (st_ldata s)(?data \<mapsto> d1), st_wdata := (st_wdata s)(p \<mapsto> ?wd)\<rparr>)"
    using lp w d(1,2) d1(1) some
    by (simp add: kqueue_watcher_register_def set_filters_step [where x = zero_kqueue_watcher_data]
        heap_write_def [of st_ldata] deletions_def rest_def Let_def split del: if_split)
      (unfold register_changes_set_filters deletions_def, rule refl)
  also have "s\<lparr>st_choices := cs, st_errno := e, st_ldata := (st_ldata s)(?data \<mapsto> d1), st_wdata := (st_wdata s)(p \<mapsto> ?wd)\<rparr> =
      s\<lparr>st_choices := cs, st_errno := e, st_wdata := (st_wdata s)(p \<mapsto> ?wd), st_ldata := (st_ldata s)(?data \<mapsto> d1)\<rparr>"
    by (rule pd_state.equality) simp_all
  finally have run: "kqueue_watcher_register K l w s = rest (s\<lparr>st_choices := cs, st_errno := e,
      st_wdata := (st_wdata s)(p \<mapsto> ?wd), st_ldata := (st_ldata s)(?data \<mapsto> d1)\<rparr>)" .
  obtain r1 k1 where k1: "change_filters K ?kq ?changes (st_kernel s) = (r1, k1)" by fastforce
  show thesis
  proof (cases r1)
    case (Inl e1)
    have "kqueue_watcher_register K l w s = Some (PD_ERR_SYSTEM, s\<lparr>st_choices := cs, st_errno := e1,
      st_wdata := st_wdata s, st_ldata := (st_ldata s)(?data \<mapsto> d1), st_kernel := k1,
      st_loops := (st_loops s)(l \<mapsto> lp\<lparr>l_system_error := e1\<rparr>)\<rparr>)"
      using k1 lp some by (simp add: run rest_def set_simps Inl fun_upd_idem)
    then show thesis using k1 Inl by (intro refused) auto
  next
    case (Inr v)
    let ?s2 = "s\<lparr>st_choices := cs, st_errno := e, st_wdata := (st_wdata s)(p \<mapsto> ?wd),
      st_ldata := (st_ldata s)(?data \<mapsto> d1), st_kernel := k1\<rparr>"
    show thesis
    proof (cases "registration_capacity d1 \<le> registration_count d1")
      case False
      obtain d2 where d2: "store_registration d1 (w_fd wt) w = Some d2" "wf_table d2" "upd_table d1 d2"
        "reg_list d2 = reg_list d1 @ [\<lparr>reg_fd = w_fd wt, reg_watcher = w\<rparr>]"
        by (rule store_step [OF d1(2), of "w_fd wt" w]) (use False in simp)
      have "kqueue_watcher_register K l w s = Some (PD_OK, s\<lparr>st_choices := cs, st_errno := e,
         st_wdata := (st_wdata s)(p \<mapsto> ?wd), st_ldata := (st_ldata s)(?data \<mapsto> d2),
         st_kernel := k1, st_watchers := (st_watchers s)(w \<mapsto> wt\<lparr>w_platform_data := p\<rparr>)\<rparr>)"
        using k1 False w by (simp add: run rest_def set_simps Inr d2(1))
      then show thesis
        using k1 Inr some(2,3) d2 by (intro ok) blast+
    next
      case full: True
      obtain b cs2 e2 where b: "alloc_array ?s2 = (b, ?s2\<lparr>st_choices := cs2, st_errno := e2\<rparr>)"
        by (rule alloc_array_cases)
      show thesis
      proof (cases b)
        case False
        obtain r2 k2 where k2: "change_filters K ?kq (deletions ?changes) k1 = (r2, k2)" by fastforce
        let ?en = "case r2 of Inl en \<Rightarrow> en | Inr _ \<Rightarrow> e2"
        have "kqueue_watcher_register K l w s = Some (PD_ERR_NO_MEMORY, s\<lparr>st_choices := cs2, st_errno := ?en,
          st_ldata := (st_ldata s)(?data \<mapsto> d1), st_kernel := k2,
          st_loops := (st_loops s)(l \<mapsto> lp\<lparr>l_system_error := ?en\<rparr>)\<rparr>)"
          using k1 full k2 b False lp some
          by (simp add: run rest_def set_simps Inr fun_upd_idem split: sum.splits)
        then show thesis
          using k1 Inr k2 by (intro no_room) blast+
      next
        case True
        obtain d2 where d2: "store_registration (grow_registrations d1) (w_fd wt) w = Some d2" "wf_table d2"
          "upd_table (grow_registrations d1) d2"
          "reg_list d2 = reg_list d1 @ [\<lparr>reg_fd = w_fd wt, reg_watcher = w\<rparr>]"
          using grow_step [OF d1(2) full] store_step [of "grow_registrations d1" "w_fd wt" w] by metis
        have "kqueue_watcher_register K l w s = Some (PD_OK, s\<lparr>st_choices := cs2, st_errno := e2,
           st_wdata := (st_wdata s)(p \<mapsto> ?wd), st_ldata := (st_ldata s)(?data \<mapsto> d2),
           st_kernel := k1, st_watchers := (st_watchers s)(w \<mapsto> wt\<lparr>w_platform_data := p\<rparr>)\<rparr>)"
          using k1 full b True w by (simp add: run rest_def set_simps Inr d2(1))
        moreover have "upd_table d1 d2" using grow_step(3) [OF d1(2) full] d2(3) by (rule upd_table_trans)
        ultimately show thesis
          using k1 Inr some(2,3) d2(2,4) by (intro ok) blast+
      qed
    qed
  qed
qed

section \<open>Unregister and update\<close>

lemma kunregister_cases:
  assumes w: "st_watchers s w = Some wt" "w \<noteq> NULL" "w_loop wt \<noteq> NULL"
    and lp: "st_loops s (w_loop wt) = Some lp"
    and d: "l_platform_data lp \<noteq> NULL" "st_ldata s (l_platform_data lp) = Some d" "wf_table d"
    and p: "w_platform_data wt = NULL \<or> st_wdata s (w_platform_data wt) \<noteq> None"
  obtains (unregistered) "w_platform_data wt = NULL" "kqueue_watcher_unregister K w s = Some (PD_ERR_INVALID_ARG, s)"
  | (absent) "w_platform_data wt \<noteq> NULL" "find_registration d w = Some None"
      "kqueue_watcher_unregister K w s = Some (PD_OK,
         s\<lparr>st_wdata := (st_wdata s)(w_platform_data wt := None),
           st_watchers := (st_watchers s)(w \<mapsto> wt\<lparr>w_platform_data := NULL\<rparr>)\<rparr>)"
  | (removed) i r k1 d' en where "w_platform_data wt \<noteq> NULL" "find_registration d w = Some (Some i)"
      "change_filters K (kd_kqueue_fd d) (delete_changes wt) (st_kernel s) = (r, k1)"
      "drop_registration d i = Some d'" "wf_table d'" "upd_table d d'" "reg_list d' = swap_out i (reg_list d)"
      "i < length (reg_list d)"
      "kqueue_watcher_unregister K w s = Some (PD_OK,
         s\<lparr>st_kernel := k1, st_errno := en, st_ldata := (st_ldata s)(l_platform_data lp \<mapsto> d'),
           st_wdata := (st_wdata s)(w_platform_data wt := None),
           st_watchers := (st_watchers s)(w \<mapsto> wt\<lparr>w_platform_data := NULL\<rparr>)\<rparr>)"
proof (cases "w_platform_data wt = NULL")
  case True
  then show thesis
    using w lp d by (intro unregistered) (simp_all add: kqueue_watcher_unregister_def Let_def)
next
  case pd: False
  with p obtain x where x: "st_wdata s (w_platform_data wt) = Some x" by blast
  note start = kqueue_watcher_unregister_def w lp d(1,2) pd x heap_ops Let_def
  show thesis
  proof (cases "first_index (\<lambda>r. reg_watcher r = w) (reg_list d)")
    case None
    then have find: "find_registration d w = Some None" by (simp add: find_eq d(3))
    show thesis using pd find by (rule absent) (simp add: find start)
  next
    case (Some i)
    then have find: "find_registration d w = Some (Some i)" by (simp add: find_eq d(3))
    have i: "i < length (reg_list d)" using Some by (blast dest: first_index_Some)
    obtain d' where d': "drop_registration d i = Some d'" "wf_table d'" "upd_table d d'"
      "reg_list d' = swap_out i (reg_list d)" by (rule drop_step [OF d(3) i])
    obtain r k1 where k1: "change_filters K (kd_kqueue_fd d) (delete_changes wt) (st_kernel s) = (r, k1)"
      by fastforce
    have "kqueue_watcher_unregister K w s = Some (PD_OK,
         s\<lparr>st_kernel := k1, st_errno := (case r of Inl e \<Rightarrow> e | Inr _ \<Rightarrow> st_errno s),
           st_ldata := (st_ldata s)(l_platform_data lp \<mapsto> d'),
           st_wdata := (st_wdata s)(w_platform_data wt := None),
           st_watchers := (st_watchers s)(w \<mapsto> wt\<lparr>w_platform_data := NULL\<rparr>)\<rparr>)"
      using k1 by (simp add: find start syscall_def d'(1) split: sum.splits)
    with pd find k1 d' i show thesis by (rule removed)
  qed
qed

text \<open>\<open>wt\<close> is the watcher as the backend finds it; \<^verbatim>\<open>pd_watcher_update\<close> has stored \<open>ev\<close> in it.\<close>

lemma kupdate_cases:
  assumes w: "st_watchers s w = Some wt" "w \<noteq> NULL" "w_loop wt \<noteq> NULL"
    and lp: "st_loops s (w_loop wt) = Some lp"
    and d: "l_platform_data lp \<noteq> NULL" "st_ldata s (l_platform_data lp) = Some d"
    and p: "w_platform_data wt = NULL \<or> st_wdata s (w_platform_data wt) \<noteq> None"
  obtains (unregistered) "w_platform_data wt = NULL" "kqueue_watcher_update K w ev s = Some (PD_ERR_INVALID_ARG, s)"
  | (refused) e k1 where "w_platform_data wt \<noteq> NULL"
      "change_filters K (kd_kqueue_fd d) (update_changes w wt ev) (st_kernel s) = (Inl e, k1)"
      "kqueue_watcher_update K w ev s = Some (PD_ERR_SYSTEM, s\<lparr>st_kernel := k1, st_errno := e,
         st_loops := (st_loops s)(w_loop wt \<mapsto> lp\<lparr>l_system_error := e\<rparr>)\<rparr>)"
  | (ok) x k1 v where "w_platform_data wt \<noteq> NULL" "st_wdata s (w_platform_data wt) = Some x"
      "change_filters K (kd_kqueue_fd d) (update_changes w wt ev) (st_kernel s) = (Inr v, k1)"
      "kqueue_watcher_update K w ev s = Some (PD_OK, s\<lparr>st_kernel := k1,
         st_wdata := (st_wdata s)(w_platform_data wt \<mapsto> set_filters (w_fd wt) ev w x)\<rparr>)"
proof (cases "w_platform_data wt = NULL")
  case True
  then show thesis using w lp d by (intro unregistered) (simp_all add: kqueue_watcher_update_def Let_def)
next
  case pd: False
  with p obtain x where x: "st_wdata s (w_platform_data wt) = Some x" by blast
  obtain r k1 where k1: "change_filters K (kd_kqueue_fd d) (update_changes w wt ev) (st_kernel s) = (r, k1)"
    by fastforce
  note start = kqueue_watcher_update_def w lp d pd k1 pd_get_current_system_error_def set_error_eq Let_def syscall_def
  show thesis
  proof (cases r)
    case (Inl e)
    with pd k1 show thesis by (intro refused) (simp_all add: start)
  next
    case (Inr v)
    with pd x k1 show thesis by (intro ok) (simp_all add: start set_filters_step [where x = x] split del: if_split)
  qed
qed

section \<open>The invariant is kept\<close>

lemma kqueue_unregister_step:
  assumes inv: "kqueue_inv s" and wf: "pd_wf s" and w: "st_watchers s w = Some wt" "w_loop wt \<noteq> NULL"
  shows "\<exists>r s'. kqueue_watcher_unregister K w s = Some (r, s') \<and> only_watcher upd_pdata w s s' \<and> kqueue_inv s' \<and>
    st_watchers s' = (st_watchers s)(w \<mapsto> if r = PD_OK then wt\<lparr>w_platform_data := NULL\<rparr> else wt)"
proof -
  have nz: "w \<noteq> NULL" using pd_wf_watcher [OF wf w(1)] by (simp add: watcher_ok_def)
  obtain lp where lp: "st_loops s (w_loop wt) = Some lp" by (rule pd_wf_loop_of [OF wf w])
  obtain d where d: "l_platform_data lp \<noteq> NULL" "st_ldata s (l_platform_data lp) = Some d"
    "kqueue_data_ok d" "wf_table d" by (rule kqueue_inv_loop [OF inv lp])
  have own: "owned (loop_pdata s) (st_ldata s) kqueue_data_ok" "owned (watcher_pdata s) (st_wdata s) (\<lambda>_. True)"
    using inv by (simp_all add: kqueue_inv_def)
  have freed: "w_platform_data wt \<noteq> NULL \<Longrightarrow>
      owned ((watcher_pdata s)(w := None)) ((st_wdata s)(w_platform_data wt := None)) (\<lambda>_. True)"
    using freed_inv [OF own(2) w(1)] by (simp add: wdata_freed_def)
  note facts = w(1) nz w(2) lp d(1,2,4) kqueue_inv_watcher [OF inv w(1)]
  from facts show ?thesis
  proof (cases rule: kunregister_cases [where K = K])
    case unregistered
    then show ?thesis using inv w(1) by (auto intro!: only_watcherI)
  next
    case absent
    then show ?thesis
      using own(1) freed w(1) by (auto simp: kqueue_inv_def inv_simps intro!: only_watcherI)
  next
    case (removed i r k1 d' en)
    have "kqueue_data_ok d'" using removed(6,5) d(3) by (rule kqueue_data_table)
    from owned_write [OF own(1) this] removed show ?thesis
      using freed w(1) by (auto simp: kqueue_inv_def inv_simps intro!: only_watcherI)
  qed
qed

lemma kqueue_update_step:
  assumes inv: "kqueue_inv s" and wf: "pd_wf s" and w: "st_watchers s w = Some wt" "w_loop wt \<noteq> NULL"
  shows "\<exists>r s'. kqueue_watcher_update K w ev s = Some (r, s') \<and> only_watcher upd_pdata w s s' \<and> kqueue_inv s' \<and>
    st_watchers s' = st_watchers s"
proof -
  have nz: "w \<noteq> NULL" using pd_wf_watcher [OF wf w(1)] by (simp add: watcher_ok_def)
  obtain lp where lp: "st_loops s (w_loop wt) = Some lp" by (rule pd_wf_loop_of [OF wf w])
  obtain d where d: "l_platform_data lp \<noteq> NULL" "st_ldata s (l_platform_data lp) = Some d"
    by (rule kqueue_inv_loop [OF inv lp])
  have own: "owned (loop_pdata s) (st_ldata s) kqueue_data_ok" "owned (watcher_pdata s) (st_wdata s) (\<lambda>_. True)"
    using inv by (simp_all add: kqueue_inv_def)
  note facts = w(1) nz w(2) lp d kqueue_inv_watcher [OF inv w(1)]
  from facts show ?thesis
  proof (cases rule: kupdate_cases [where K = K and ev = ev])
    case unregistered
    then show ?thesis using inv w(1) by (auto intro!: only_watcherI)
  next
    case (refused e k1)
    then show ?thesis
      using own w(1) lp by (auto simp: kqueue_inv_def inv_simps intro!: only_watcherI)
  next
    case (ok x k1 v)
    then show ?thesis
      using own(1) owned_write [OF own(2)] w(1) lp
      by (auto simp: kqueue_inv_def inv_simps intro!: only_watcherI)
  qed
qed

lemma kqueue_register_step:
  assumes inv: "kqueue_inv s" and wf: "pd_wf s" and w: "st_watchers s w = Some wt" "w_loop wt \<noteq> NULL"
  shows "\<exists>r s' p. kqueue_watcher_register K (w_loop wt) w s = Some (r, s') \<and>
    only_watcher upd_pdata w s s' \<and> kqueue_inv s' \<and> p \<noteq> NULL \<and>
    st_watchers s' = (st_watchers s)(w \<mapsto> if r = PD_OK then wt\<lparr>w_platform_data := p\<rparr> else wt)"
proof -
  have nz: "w \<noteq> NULL" using pd_wf_watcher [OF wf w(1)] by (simp add: watcher_ok_def)
  obtain lp where lp: "st_loops s (w_loop wt) = Some lp" by (rule pd_wf_loop_of [OF wf w])
  obtain d where d: "l_platform_data lp \<noteq> NULL" "st_ldata s (l_platform_data lp) = Some d"
    "kqueue_data_ok d" "wf_table d" by (rule kqueue_inv_loop [OF inv lp])
  have own: "owned (loop_pdata s) (st_ldata s) kqueue_data_ok" "owned (watcher_pdata s) (st_wdata s) (\<lambda>_. True)"
    using inv by (simp_all add: kqueue_inv_def)
  obtain d1 where d1: "evict_stale_registration d (w_fd wt) w = Some d1" "wf_table d1" "upd_table d d1"
    by (rule evict_step [OF d(4), of "w_fd wt" w])
  have ok1: "kqueue_data_ok d1" using d1(3,2) d(3) by (rule kqueue_data_table)
  note facts = lp w(2,1) nz d(1,2,4) d1(1,2)
  from facts show ?thesis
  proof (cases rule: kregister_cases [where K = K])
    case (no_data s' e)
    then show ?thesis
      using own w(1) lp by (intro exI [of _ PD_ERR_NO_MEMORY] exI [of _ s'] exI [of _ 1])
        (auto simp: kqueue_inv_def inv_simps intro!: only_watcherI)
  next
    case (refused s' e k1)
    then show ?thesis
      using own(2) owned_write [OF own(1) ok1] w(1) lp
      by (intro exI [of _ PD_ERR_SYSTEM] exI [of _ s'] exI [of _ 1])
        (auto simp: kqueue_inv_def inv_simps intro!: only_watcherI)
  next
    case (no_room s' e k1 r2 k2 v)
    then show ?thesis
      using own(2) owned_write [OF own(1) ok1] w(1) lp
      by (intro exI [of _ PD_ERR_NO_MEMORY] exI [of _ s'] exI [of _ 1])
        (auto simp: kqueue_inv_def inv_simps intro!: only_watcherI)
  next
    case (ok s' k1 d2 p v)
    have "kqueue_data_ok d2" using ok(6,5) ok1 by (rule kqueue_data_table)
    from owned_write [OF own(1) this] ok show ?thesis
      using owned_new [OF own(2) ok(4,3)] w(1)
      by (intro exI [of _ PD_OK] exI [of _ s'] exI [of _ p])
        (auto simp: kqueue_inv_def inv_simps intro!: only_watcherI)
  qed
qed

section \<open>The contract is met\<close>

text \<open>For every table whose watcher slots are the backend's, and every kernel.\<close>

lemma kqueue_readiness:
  assumes slots: "op_watcher_register P = Some (kqueue_watcher_register K)"
    "op_watcher_unregister P = Some (kqueue_watcher_unregister K)"
    "op_watcher_update P = Some (kqueue_watcher_update K)"
  shows "readiness_backend P (kqueue_watcher_register K) (kqueue_watcher_unregister K) (kqueue_watcher_update K) kqueue_inv"
proof unfold_locales
  fix s s' :: "'a kqueue_state" and w wt r ev
  show "kqueue_inv s \<Longrightarrow> same_pdata s s' \<Longrightarrow> kqueue_inv s'" by (rule kqueue_inv_stable)
  assume wf: "pd_wf s" and inv: "kqueue_inv s" and w: "st_watchers s w = Some wt" and l: "w_loop wt \<noteq> NULL"
  show "\<exists>r s'. kqueue_watcher_register K (w_loop wt) w s = Some (r, s') \<and> only_watcher upd_pdata w s s' \<and> kqueue_inv s'"
    using kqueue_register_step [OF inv wf w l] by blast
  show "\<exists>r s'. kqueue_watcher_unregister K w s = Some (r, s') \<and> only_watcher upd_pdata w s s' \<and> kqueue_inv s'"
    using kqueue_unregister_step [OF inv wf w l] by blast
  show "\<exists>r s'. kqueue_watcher_update K w ev s = Some (r, s') \<and> only_watcher upd_pdata w s s' \<and> kqueue_inv s'"
    using kqueue_update_step [OF inv wf w l] by blast
  show "kqueue_watcher_register K (w_loop wt) w s = Some (PD_OK, s') \<Longrightarrow>
      \<exists>y. st_watchers s' w = Some y \<and> w_platform_data y \<noteq> NULL"
    using kqueue_register_step [OF inv wf w l, of K] by force
  show "kqueue_watcher_register K (w_loop wt) w s = Some (r, s') \<Longrightarrow> r \<noteq> PD_OK \<Longrightarrow> st_watchers s' w = st_watchers s w"
    using kqueue_register_step [OF inv wf w l, of K] w by force
  show "kqueue_watcher_unregister K w s = Some (PD_OK, s') \<Longrightarrow>
      \<exists>y. st_watchers s' w = Some y \<and> w_platform_data y = NULL"
    using kqueue_unregister_step [OF inv wf w l, of K] by force
  show "kqueue_watcher_unregister K w s = Some (r, s') \<Longrightarrow> r \<noteq> PD_OK \<Longrightarrow> st_watchers s' w = st_watchers s w"
    using kqueue_unregister_step [OF inv wf w l, of K] w by force
  show "kqueue_watcher_update K w ev s = Some (r, s') \<Longrightarrow> st_watchers s' w = st_watchers s w"
    using kqueue_update_step [OF inv wf w l, of K ev] by force
qed (simp_all add: slots)

interpretation kqueue: readiness_backend "kqueue_watcher_ops K" "kqueue_watcher_register K"
    "kqueue_watcher_unregister K" "kqueue_watcher_update K" kqueue_inv for K
  by (rule kqueue_readiness) (simp_all add: kqueue_watcher_ops_def)

end
