(* ===== verification/Pd_Kqueue_Loop.thy ===== *)
theory Pd_Kqueue_Loop
  imports Pd_Kqueue Pd_Timer
begin

text \<open>
  The loop and timer operations of the kqueue backend (\<^verbatim>\<open>src/platform/kqueue.c\<close>): creation
  and destruction of the platform data, the wait with its dispatch, the user event that wakes
  the loop, and timers on \<^verbatim>\<open>EVFILT_TIMER\<close>. \<open>U\<close> is what the user's callback functions do to
  the state; \<open>ident\<close> is the address of the static variable \<^verbatim>\<open>pd_async_ident\<close>.
\<close>

section \<open>Create and destroy\<close>

definition kqueue_loop_create ::
  "'k bsd \<Rightarrow> addr \<Rightarrow> addr \<Rightarrow> pd_loop_config \<Rightarrow> 'k kqueue_state \<Rightarrow> (pd_error \<times> 'k kqueue_state) option" where
  "kqueue_loop_create K ident loop config s =
    (let (data, s) = calloc_ldata zero_kqueue_data s in
     if data = NULL
     then do { s \<leftarrow> pd_set_system_error loop (pd_get_current_system_error s) s; Some (PD_ERR_NO_MEMORY, s) }
     else let (r, s) = syscall (bsd_kqueue K) s in do {
       s \<leftarrow> write_ldata data (\<lambda>d. d\<lparr>kd_kqueue_fd := c_fd r\<rparr>) s;
       if c_fd r < 0
       then do {
         s \<leftarrow> pd_set_system_error loop (pd_get_current_system_error s) s;
         s \<leftarrow> free_ldata data s;
         Some (PD_ERR_SYSTEM, s) }
       else do {
         s \<leftarrow> write_ldata data (\<lambda>d. d\<lparr>kd_max_events := max_events_per_wait config\<rparr>) s;
         let (ok, s) = alloc_array s;
         d \<leftarrow> st_ldata s data;
         if \<not> ok
         then let (_, s) = syscall (bsd_close K (kd_kqueue_fd d)) s in do {
           s \<leftarrow> free_ldata data s;
           Some (PD_ERR_NO_MEMORY, s) }
         else do {
           s \<leftarrow> write_ldata data
                  (\<lambda>d. d\<lparr>kd_events := replicate (nat (kd_max_events d)) (Some zero_kevent)\<rparr>) s;
           s \<leftarrow> write_ldata data (\<lambda>d. d\<lparr>kd_async_ident := int ident\<rparr>) s;
           d \<leftarrow> st_ldata s data;
           let change = EV_SET (kd_async_ident d) EVFILT_USER (EV_ADD OR EV_ENABLE OR EV_CLEAR) 0 0 NULL;
           let (r2, s) = syscall (bsd_kevent K (kd_kqueue_fd d) [change] 0 None) s;
           if r2 = None
           then do {
             s \<leftarrow> pd_set_system_error loop (pd_get_current_system_error s) s;
             let (_, s) = syscall (bsd_close K (kd_kqueue_fd d)) s;
             s \<leftarrow> free_ldata data s;
             Some (PD_ERR_SYSTEM, s) }
           else do {
             s \<leftarrow> write_loop loop (\<lambda>lp. lp\<lparr>l_platform_data := data\<rparr>) s;
             Some (PD_OK, s) } } } })"

definition kqueue_loop_destroy :: "'k bsd \<Rightarrow> addr \<Rightarrow> 'k kqueue_state \<Rightarrow> 'k kqueue_state option" where
  "kqueue_loop_destroy K loop s =
    (if loop = NULL then Some s
     else do {
       lp \<leftarrow> st_loops s loop;
       let data = l_platform_data lp;
       if data = NULL then Some s
       else do {
         d \<leftarrow> st_ldata s data;
         let s = (if kd_kqueue_fd d \<ge> 0
           then
             let change = EV_SET (kd_async_ident d) EVFILT_USER EV_DELETE 0 0 NULL;
                 s = snd (syscall (bsd_kevent K (kd_kqueue_fd d) [change] 0 None) s)
             in snd (syscall (bsd_close K (kd_kqueue_fd d)) s)
           else s);
         s \<leftarrow> free_ldata data s;
         write_loop loop (\<lambda>lp. lp\<lparr>l_platform_data := NULL\<rparr>) s } })"

section \<open>Waiting and dispatching\<close>

text \<open>A negative timeout waits for ever (a null pointer); the conversion is in C's \<^verbatim>\<open>int\<close>.\<close>

definition kqueue_timeout :: "int \<Rightarrow> timespec option" where
  "kqueue_timeout timeout_ms =
    (if timeout_ms \<ge> 0
     then Some \<lparr>tv_sec = word_of_int (timeout_ms div 1000), tv_nsec = word_of_int (timeout_ms mod 1000 * 1000000)\<rparr>
     else None)"

type_synonym 'k kqueue_callbacks =
  "nat \<Rightarrow> addr \<Rightarrow> addr \<Rightarrow> pd_event \<Rightarrow> addr \<Rightarrow> 'k kqueue_state \<Rightarrow> 'k kqueue_state option"

text \<open>This backend has no callback of its own: every function pointer is the user's.\<close>

definition kqueue_callback ::
  "'k kqueue_callbacks \<Rightarrow> pd_callback \<Rightarrow> addr \<Rightarrow> addr \<Rightarrow> pd_event \<Rightarrow> addr \<Rightarrow>
   'k kqueue_state \<Rightarrow> 'k kqueue_state option" where
  "kqueue_callback U cb loop watcher events user_data s =
    (case cb of Cb_user f \<Rightarrow> U f loop watcher events user_data s | Cb_timerfd \<Rightarrow> None)"

definition kqueue_to_events :: "kevent \<Rightarrow> pd_event" where
  "kqueue_to_events event =
    (let events = PD_EVENT_NONE;
         events = (if ke_filter event = EVFILT_READ then events OR PD_EVENT_READ else events);
         events = (if ke_filter event = EVFILT_WRITE then events OR PD_EVENT_WRITE else events);
         events = (if has_flag (ke_flags event) EV_ERROR then events OR PD_EVENT_ERROR else events);
         events = (if has_flag (ke_flags event) EV_EOF then events OR PD_EVENT_HANGUP else events)
     in events)"

definition kqueue_timer_event ::
  "'k bsd \<Rightarrow> 'k kqueue_callbacks \<Rightarrow> addr \<Rightarrow> addr \<Rightarrow> addr \<Rightarrow> 'k kqueue_state \<Rightarrow> 'k kqueue_state option" where
  "kqueue_timer_event K U loop data timer s =
    (if timer = NULL then Some s
     else do {
       t \<leftarrow> st_timers s timer;
       case t_callback t of
         None \<Rightarrow> Some s
       | Some cb \<Rightarrow> do {
           let timer_data = t_platform_data t;
           s \<leftarrow> (if timer_data = NULL then Some s
                else do {
                  td \<leftarrow> st_tdata s timer_data;
                  if kt_pending_initial td
                  then do {
                    s \<leftarrow> write_tdata timer_data (\<lambda>x. x\<lparr>kt_pending_initial := False\<rparr>) s;
                    d \<leftarrow> st_ldata s data;
                    let change = EV_SET (int timer) EVFILT_TIMER (EV_ADD OR EV_ENABLE) NOTE_MSECONDS
                                   (t_interval_ms t) timer;
                    Some (snd (syscall (bsd_kevent K (kd_kqueue_fd d) [change] 0 None) s)) }
                  else Some s });
           kqueue_callback U cb loop (t_watcher t) PD_EVENT_READ (t_user_data t) s } })"

text \<open>One round of the dispatch loop: the event is read from the loop's array again.\<close>

definition kqueue_process_event ::
  "'k bsd \<Rightarrow> 'k kqueue_callbacks \<Rightarrow> addr \<Rightarrow> addr \<Rightarrow> nat \<Rightarrow> 'k kqueue_state \<Rightarrow> 'k kqueue_state option" where
  "kqueue_process_event K U loop data i s = do {
     d \<leftarrow> st_ldata s data;
     event \<leftarrow> arr_get (kd_events d) i;
     if ke_filter event = EVFILT_USER \<and> ke_ident event = kd_async_ident d then Some s
     else if ke_filter event = EVFILT_TIMER then kqueue_timer_event K U loop data (ke_udata event) s
     else
       let watcher = ke_udata event in
       if watcher = NULL then Some s
       else do {
         w \<leftarrow> st_watchers s watcher;
         case w_callback w of
           None \<Rightarrow> Some s
         | Some cb \<Rightarrow> kqueue_callback U cb loop watcher (kqueue_to_events event) (w_user_data w) s } }"

fun kqueue_dispatch ::
  "'k bsd \<Rightarrow> 'k kqueue_callbacks \<Rightarrow> addr \<Rightarrow> addr \<Rightarrow> nat \<Rightarrow> nat \<Rightarrow> 'k kqueue_state \<Rightarrow> 'k kqueue_state option" where
  "kqueue_dispatch K U loop data i 0 s = Some s"
| "kqueue_dispatch K U loop data i (Suc n) s = do {
     s \<leftarrow> kqueue_process_event K U loop data i s;
     kqueue_dispatch K U loop data (i + 1) n s }"

text \<open>
  The kernel stores its events into the loop's array; more of them than the array holds
  would be a buffer overflow.
\<close>

definition kqueue_loop_run ::
  "'k bsd \<Rightarrow> 'k kqueue_callbacks \<Rightarrow> addr \<Rightarrow> int \<Rightarrow> 'k kqueue_state \<Rightarrow> (int \<times> 'k kqueue_state) option" where
  "kqueue_loop_run K U loop timeout_ms s =
    (if loop = NULL then Some (err_code PD_ERR_INVALID_ARG, s)
     else do {
       lp \<leftarrow> st_loops s loop;
       let data = l_platform_data lp;
       if data = NULL then Some (err_code PD_ERR_INVALID_ARG, s)
       else do {
         d \<leftarrow> st_ldata s data;
         let (r, s) = syscall (bsd_kevent K (kd_kqueue_fd d) [] (kd_max_events d) (kqueue_timeout timeout_ms)) s;
         case r of
           None \<Rightarrow>
             if st_errno s = EINTR then Some (0, s)
             else do {
               s \<leftarrow> pd_set_system_error loop (pd_get_current_system_error s) s;
               Some (err_code PD_ERR_SYSTEM, s) }
         | Some events \<Rightarrow>
             if length events > length (kd_events d) then None
             else do {
               s \<leftarrow> write_ldata data (\<lambda>d. d\<lparr>kd_events := map Some events @ drop (length events) (kd_events d)\<rparr>) s;
               s \<leftarrow> kqueue_dispatch K U loop data 0 (length events) s;
               Some (int (length events), s) } } })"

definition kqueue_loop_stop :: "addr \<Rightarrow> 'k kqueue_state \<Rightarrow> (pd_error \<times> 'k kqueue_state) option" where
  "kqueue_loop_stop loop s = Some (PD_OK, s)"

section \<open>Waking the loop\<close>

definition kqueue_async_send ::
  "'k bsd \<Rightarrow> addr \<Rightarrow> addr \<Rightarrow> 'k kqueue_state \<Rightarrow> (pd_error \<times> 'k kqueue_state) option" where
  "kqueue_async_send K loop data s =
    (if loop = NULL then Some (PD_ERR_INVALID_ARG, s)
     else do {
       lp \<leftarrow> st_loops s loop;
       let pdata = l_platform_data lp;
       if pdata = NULL then Some (PD_ERR_INVALID_ARG, s)
       else do {
         d \<leftarrow> st_ldata s pdata;
         let change = EV_SET (kd_async_ident d) EVFILT_USER 0 NOTE_TRIGGER 0 NULL;
         let (r, s) = syscall (bsd_kevent K (kd_kqueue_fd d) [change] 0 None) s;
         if r = None
         then do {
           s \<leftarrow> pd_set_system_error loop (pd_get_current_system_error s) s;
           Some (PD_ERR_SYSTEM, s) }
         else Some (PD_OK, s) } })"

section \<open>Timers\<close>

text \<open>
  The placeholder watcher is never registered: it keeps the loop's list from being empty and
  is what the callback of the timer is given.
\<close>

definition kqueue_timer_create ::
  "addr \<Rightarrow> addr \<Rightarrow> 'k kqueue_state \<Rightarrow> (pd_error \<times> 'k kqueue_state) option" where
  "kqueue_timer_create loop timer s =
    (if loop = NULL \<or> timer = NULL then Some (PD_ERR_INVALID_ARG, s)
     else let (timer_data, s) = calloc_tdata zero_kqueue_timer_data s in
       if timer_data = NULL
       then do { s \<leftarrow> pd_set_system_error loop (pd_get_current_system_error s) s; Some (PD_ERR_NO_MEMORY, s) }
       else do {
         s \<leftarrow> write_timer timer (\<lambda>t. t\<lparr>t_platform_data := timer_data\<rparr>) s;
         let (watcher, s) = calloc_watcher s;
         if watcher = NULL
         then do {
           s \<leftarrow> free_tdata timer_data s;
           s \<leftarrow> write_timer timer (\<lambda>t. t\<lparr>t_platform_data := NULL\<rparr>) s;
           Some (PD_ERR_NO_MEMORY, s) }
         else do {
           s \<leftarrow> write_watcher watcher (\<lambda>w. w\<lparr>w_fd := - 1, w_events := PD_EVENT_NONE, w_callback := None,
                  w_user_data := timer, w_loop := loop, w_active := False, w_ref_count := 1,
                  w_platform_data := NULL\<rparr>) s;
           s \<leftarrow> write_timer timer (\<lambda>t. t\<lparr>t_watcher := watcher, t_owns_watcher := False\<rparr>) s;
           (result, s) \<leftarrow> pd_loop_add_watcher loop watcher s;
           if result \<noteq> PD_OK
           then do {
             s \<leftarrow> free_watcher watcher s;
             s \<leftarrow> free_tdata timer_data s;
             s \<leftarrow> write_timer timer (\<lambda>t. t\<lparr>t_platform_data := NULL, t_watcher := NULL\<rparr>) s;
             Some (result, s) }
           else Some (PD_OK, s) } })"

text \<open>
  The change a start makes and the flag \<^verbatim>\<open>pending_initial\<close> it sets. The clamps to 1 are on
  \<^verbatim>\<open>uint64_t\<close>.
\<close>

definition timer_change :: "addr \<Rightarrow> 64 word \<Rightarrow> 64 word \<Rightarrow> bool \<times> kevent" where
  "timer_change timer timeout_ms interval_ms =
    (if interval_ms > 0 \<and> timeout_ms \<noteq> interval_ms \<and> timeout_ms \<noteq> 0
     then
       let timeout = timeout_ms; timeout = (if timeout = 0 then 1 else timeout)
       in (True, EV_SET (int timer) EVFILT_TIMER (EV_ADD OR EV_ENABLE OR EV_ONESHOT) NOTE_MSECONDS timeout timer)
     else
       let value = (if interval_ms > 0 then interval_ms else timeout_ms); value = (if value = 0 then 1 else value)
       in (False, EV_SET (int timer) EVFILT_TIMER (EV_ADD OR EV_ENABLE) NOTE_MSECONDS value timer))"

definition kqueue_timer_start ::
  "'k bsd \<Rightarrow> addr \<Rightarrow> 'k kqueue_state \<Rightarrow> (pd_error \<times> 'k kqueue_state) option" where
  "kqueue_timer_start K timer s =
    (if timer = NULL then Some (PD_ERR_INVALID_ARG, s)
     else do {
       t \<leftarrow> st_timers s timer;
       if t_loop t = NULL then Some (PD_ERR_INVALID_ARG, s)
       else do {
         lp \<leftarrow> st_loops s (t_loop t);
         let data = l_platform_data lp;
         if data = NULL then Some (PD_ERR_LOOP_CLOSED, s)
         else
           let timer_data = t_platform_data t in
           if timer_data = NULL then Some (PD_ERR_INVALID_ARG, s)
           else do {
             let (pending, change) = timer_change timer (t_timeout_ms t) (t_interval_ms t);
             s \<leftarrow> write_tdata timer_data (\<lambda>x. x\<lparr>kt_pending_initial := pending\<rparr>) s;
             d \<leftarrow> st_ldata s data;
             let (result, s) = syscall (bsd_kevent K (kd_kqueue_fd d) [change] 0 None) s;
             if result = None
             then do {
               s \<leftarrow> pd_set_system_error (t_loop t) (pd_get_current_system_error s) s;
               Some (PD_ERR_SYSTEM, s) }
             else do {
               s \<leftarrow> write_tdata timer_data (\<lambda>x. x\<lparr>kt_registered := True\<rparr>) s;
               Some (PD_OK, s) } } } })"

definition kqueue_timer_stop ::
  "'k bsd \<Rightarrow> addr \<Rightarrow> 'k kqueue_state \<Rightarrow> (pd_error \<times> 'k kqueue_state) option" where
  "kqueue_timer_stop K timer s =
    (if timer = NULL then Some (PD_ERR_INVALID_ARG, s)
     else do {
       t \<leftarrow> st_timers s timer;
       if t_loop t = NULL then Some (PD_ERR_INVALID_ARG, s)
       else do {
         lp \<leftarrow> st_loops s (t_loop t);
         let data = l_platform_data lp;
         if data = NULL then Some (PD_ERR_LOOP_CLOSED, s)
         else
           let timer_data = t_platform_data t in
           if timer_data = NULL then Some (PD_OK, s)
           else do {
             td \<leftarrow> st_tdata s timer_data;
             if \<not> kt_registered td then Some (PD_OK, s)
             else do {
               d \<leftarrow> st_ldata s data;
               let change = EV_SET (int timer) EVFILT_TIMER EV_DELETE 0 0 NULL;
               let s = snd (syscall (bsd_kevent K (kd_kqueue_fd d) [change] 0 None) s);
               s \<leftarrow> write_tdata timer_data (\<lambda>x. x\<lparr>kt_registered := False, kt_pending_initial := False\<rparr>) s;
               Some (PD_OK, s) } } } })"

definition kqueue_timer_destroy :: "addr \<Rightarrow> 'k kqueue_state \<Rightarrow> (bool \<times> 'k kqueue_state) option" where
  "kqueue_timer_destroy timer s =
    (if timer = NULL then Some (True, s)
     else do {
       t \<leftarrow> st_timers s timer;
       s \<leftarrow> (if t_platform_data t \<noteq> NULL
            then do {
              s \<leftarrow> free_tdata (t_platform_data t) s;
              write_timer timer (\<lambda>t. t\<lparr>t_platform_data := NULL\<rparr>) s }
            else Some s);
       s \<leftarrow> (if t_watcher t \<noteq> NULL
            then do {
              s \<leftarrow> (if t_loop t \<noteq> NULL
                   then do { (_, s) \<leftarrow> pd_loop_remove_watcher (t_loop t) (t_watcher t) s; Some s }
                   else Some s);
              s \<leftarrow> free_watcher (t_watcher t) s;
              write_timer timer (\<lambda>t. t\<lparr>t_watcher := NULL\<rparr>) s }
            else Some s);
       Some (True, s) })"

section \<open>The operation table\<close>

definition pd_platform_kqueue :: "'k bsd \<Rightarrow> addr \<Rightarrow> 'k kqueue_callbacks \<Rightarrow> 'k kqueue_state pd_platform_ops" where
  "pd_platform_kqueue K ident U = \<lparr>op_watcher_register = Some (kqueue_watcher_register K),
     op_watcher_register_handle = Some kqueue_watcher_register_handle_unused,
     op_watcher_update = Some (kqueue_watcher_update K),
     op_watcher_unregister = Some (kqueue_watcher_unregister K),
     op_watcher_drain_read = None,
     op_loop_create = Some (kqueue_loop_create K ident),
     op_loop_destroy = Some (kqueue_loop_destroy K),
     op_loop_run = Some (kqueue_loop_run K U),
     op_loop_stop = Some kqueue_loop_stop,
     op_async_send = Some (kqueue_async_send K),
     op_timer_create = Some kqueue_timer_create,
     op_timer_start = Some (kqueue_timer_start K),
     op_timer_stop = Some (kqueue_timer_stop K),
     op_timer_destroy = Some kqueue_timer_destroy,
     op_name = ''kqueue'',
     op_max_events = 1024\<rparr>"

lemma kqueue_table [simp]:
  "op_watcher_register (pd_platform_kqueue K ident U) = Some (kqueue_watcher_register K)"
  "op_watcher_update (pd_platform_kqueue K ident U) = Some (kqueue_watcher_update K)"
  "op_watcher_unregister (pd_platform_kqueue K ident U) = Some (kqueue_watcher_unregister K)"
  "op_loop_create (pd_platform_kqueue K ident U) = Some (kqueue_loop_create K ident)"
  "op_loop_destroy (pd_platform_kqueue K ident U) = Some (kqueue_loop_destroy K)"
  "op_loop_run (pd_platform_kqueue K ident U) = Some (kqueue_loop_run K U)"
  "op_async_send (pd_platform_kqueue K ident U) = Some (kqueue_async_send K)"
  "op_timer_create (pd_platform_kqueue K ident U) = Some kqueue_timer_create"
  "op_timer_start (pd_platform_kqueue K ident U) = Some (kqueue_timer_start K)"
  "op_timer_stop (pd_platform_kqueue K ident U) = Some (kqueue_timer_stop K)"
  "op_timer_destroy (pd_platform_kqueue K ident U) = Some kqueue_timer_destroy"
  by (simp_all add: pd_platform_kqueue_def)

section \<open>The contract of the loop operations\<close>

text \<open>The outcome of the creation, with the calls that were made.\<close>

definition new_kqueue_data :: "nat \<Rightarrow> addr \<Rightarrow> int \<Rightarrow> pd_kqueue_data" where
  "new_kqueue_data kq ident n = zero_kqueue_data\<lparr>kd_kqueue_fd := int kq, kd_max_events := n,
     kd_events := replicate (nat n) (Some zero_kevent), kd_async_ident := int ident\<rparr>"

lemma new_kqueue_data_ok: "0 < n \<Longrightarrow> kqueue_data_ok (new_kqueue_data kq ident n)"
  by (simp add: kqueue_data_ok_def new_kqueue_data_def zero_kqueue_data_def wf_table_def)

definition wake_filter :: "addr \<Rightarrow> kevent" where
  "wake_filter ident = EV_SET (int ident) EVFILT_USER (EV_ADD OR EV_ENABLE OR EV_CLEAR) 0 0 NULL"

text \<open>The kernel after a creation that failed: what had been opened is closed again.\<close>

inductive kq_create_failed :: "'k bsd \<Rightarrow> addr \<Rightarrow> 'k \<Rightarrow> 'k \<Rightarrow> bool" for K ident k where
  kq_no_data: "kq_create_failed K ident k k"
| kq_no_kqueue: "bsd_kqueue K k = (Inl x, k1) \<Longrightarrow> kq_create_failed K ident k k1"
| kq_no_events: "bsd_kqueue K k = (Inr kq, k1) \<Longrightarrow> kq_create_failed K ident k (snd (bsd_close K (int kq) k1))"
| kq_no_add: "bsd_kqueue K k = (Inr kq, k1) \<Longrightarrow>
    bsd_kevent K (int kq) [wake_filter ident] 0 None k1 = (Inl x, k2) \<Longrightarrow>
    kq_create_failed K ident k (snd (bsd_close K (int kq) k2))"

lemma kq_loop_create_cases:
  assumes lp: "st_loops s l = Some lp" "l \<noteq> NULL"
  obtains (failed) s' r e k cs en where "kqueue_loop_create K ident l cfg s = Some (r, s')" "r \<noteq> PD_OK"
      "s' = s\<lparr>st_choices := cs, st_errno := en, st_kernel := k, st_loops := (st_loops s)(l \<mapsto> lp\<lparr>l_system_error := e\<rparr>)\<rparr>"
      "kq_create_failed K ident (st_kernel s) k"
  | (ok) s' p cs en k1 k2 kq v where "kqueue_loop_create K ident l cfg s = Some (PD_OK, s')"
      "s' = s\<lparr>st_choices := cs, st_errno := en, st_kernel := k2,
         st_ldata := (st_ldata s)(p \<mapsto> new_kqueue_data kq ident (max_events_per_wait cfg)),
         st_loops := (st_loops s)(l \<mapsto> lp\<lparr>l_platform_data := p\<rparr>)\<rparr>"
      "p \<noteq> NULL" "st_ldata s p = None" "bsd_kqueue K (st_kernel s) = (Inr kq, k1)"
      "bsd_kevent K (int kq) [wake_filter ident] 0 None k1 = (Inr v, k2)"
proof (cases rule: calloc_ldata_cases [of zero_kqueue_data s])
  case (null cs e)
  then have "kqueue_loop_create K ident l cfg s = Some (PD_ERR_NO_MEMORY, s\<lparr>st_choices := cs, st_errno := e,
    st_kernel := st_kernel s, st_loops := (st_loops s)(l \<mapsto> lp\<lparr>l_system_error := e\<rparr>)\<rparr>)"
    using lp by (simp add: kqueue_loop_create_def set_error_eq pd_get_current_system_error_def)
  from failed [OF this _ refl kq_no_data] show thesis by simp
next
  case (some p cs e)
  have undo: "(st_ldata s)(p := None) = st_ldata s" using some(3) by (simp add: fun_upd_idem)
  have "(st_loops s)(l \<mapsto> lp\<lparr>l_system_error := l_system_error lp\<rparr>) = st_loops s" using lp(1) by auto
  note idem = this [simplified]
  note start = kqueue_loop_create_def some heap_write_def heap_free_def lp set_error_eq undo
    pd_get_current_system_error_def c_fd_def Let_def syscall_def wake_filter_def [symmetric]
  obtain r1 k1 where k1: "bsd_kqueue K (st_kernel s) = (r1, k1)" by fastforce
  show thesis
  proof (cases r1)
    case (Inl x)
    then have "kqueue_loop_create K ident l cfg s = Some (PD_ERR_SYSTEM, s\<lparr>st_choices := cs, st_errno := x,
      st_kernel := k1, st_loops := (st_loops s)(l \<mapsto> lp\<lparr>l_system_error := x\<rparr>)\<rparr>)"
      using k1 by (simp add: start)
    from failed [OF this _ refl kq_no_kqueue [OF k1 [unfolded Inl]]] show thesis by simp
  next
    case (Inr kq)
    note k1 = k1 [unfolded Inr]
    let ?d1 = "zero_kqueue_data\<lparr>kd_kqueue_fd := int kq, kd_max_events := max_events_per_wait cfg\<rparr>"
    let ?s1 = "s\<lparr>st_choices := cs, st_errno := e, st_kernel := k1, st_ldata := (st_ldata s)(p \<mapsto> ?d1)\<rparr>"
    obtain b cs2 e2 where b: "alloc_array ?s1 = (b, ?s1\<lparr>st_choices := cs2, st_errno := e2\<rparr>)"
      by (rule alloc_array_cases)
    show thesis
    proof (cases b)
      case False
      obtain c k4 where k4: "bsd_close K (int kq) k1 = (c, k4)" by fastforce
      have "kqueue_loop_create K ident l cfg s = Some (PD_ERR_NO_MEMORY, s\<lparr>st_choices := cs2,
        st_errno := (case c of Inl x \<Rightarrow> x | Inr _ \<Rightarrow> e2), st_kernel := snd (bsd_close K (int kq) k1),
        st_loops := (st_loops s)(l \<mapsto> lp\<lparr>l_system_error := l_system_error lp\<rparr>)\<rparr>)"
        using k1 b False k4 by (auto simp: start idem intro!: pd_state.equality split: sum.splits)
      from failed [OF this _ refl kq_no_events [OF k1]] show thesis by simp
    next
      case True
      obtain r2 k2 where k2: "bsd_kevent K (int kq) [wake_filter ident] 0 None k1 = (r2, k2)" by fastforce
      show thesis
      proof (cases r2)
        case (Inl x)
        obtain c k4 where k4: "bsd_close K (int kq) k2 = (c, k4)" by fastforce
        have "kqueue_loop_create K ident l cfg s = Some (PD_ERR_SYSTEM, s\<lparr>st_choices := cs2,
          st_errno := (case c of Inl x \<Rightarrow> x | Inr _ \<Rightarrow> x), st_kernel := snd (bsd_close K (int kq) k2),
          st_loops := (st_loops s)(l \<mapsto> lp\<lparr>l_system_error := x\<rparr>)\<rparr>)"
          using k1 b True k2 Inl k4 by (simp add: start split: sum.splits)
        from failed [OF this _ refl kq_no_add [OF k1 k2 [unfolded Inl]]] show thesis by simp
      next
        case (Inr v)
        have "kqueue_loop_create K ident l cfg s = Some (PD_OK, s\<lparr>st_choices := cs2, st_errno := e2, st_kernel := k2,
          st_ldata := (st_ldata s)(p \<mapsto> new_kqueue_data kq ident (max_events_per_wait cfg)),
          st_loops := (st_loops s)(l \<mapsto> lp\<lparr>l_platform_data := p\<rparr>)\<rparr>)"
          using k1 b True k2 Inr by (simp add: start new_kqueue_data_def)
        from ok [OF this refl some(2,3) k1 k2 [unfolded Inr]] show thesis .
      qed
    qed
  qed
qed

lemma kqueue_create_law:
  fixes s :: "'k kqueue_state"
  assumes inv: "kqueue_inv s" and l: "st_loops s l = None" "l \<noteq> NULL" and lp: "l_platform_data lp = NULL" "l_system_error lp = 0"
    and n: "0 < max_events_per_wait cfg"
  shows "\<exists>r s' e p. kqueue_loop_create K ident l cfg (s\<lparr>st_loops := (st_loops s)(l \<mapsto> lp)\<rparr>) = Some (r, s') \<and>
    st_loops s' = (st_loops s)(l \<mapsto> lp\<lparr>l_system_error := e, l_platform_data := p\<rparr>) \<and> same_objects s s' \<and>
    (if r = PD_OK then p \<noteq> NULL \<and> kqueue_inv s'
     else p = NULL \<and> st_ldata s' = st_ldata s \<and> kqueue_inv (s'\<lparr>st_loops := st_loops s\<rparr>))"
proof -
  let ?s = "s\<lparr>st_loops := (st_loops s)(l \<mapsto> lp)\<rparr>"
  have own: "owned (loop_pdata s) (st_ldata s) kqueue_data_ok" "owned (watcher_pdata s) (st_wdata s) (\<lambda>_. True)"
    using inv by (simp_all add: kqueue_inv_def)
  have lp0: "st_loops ?s l = Some lp" by simp
  from lp0 l(2) show ?thesis
  proof (cases rule: kq_loop_create_cases [where K = K and cfg = cfg and ident = ident])
    case (failed s' r e k cs en)
    have "kqueue_inv (s'\<lparr>st_loops := st_loops s\<rparr>)"
      using own by (simp add: failed(3) kqueue_inv_def inv_simps loop_pdata_upd)
    moreover have "st_loops s' = (st_loops s)(l \<mapsto> lp\<lparr>l_system_error := e, l_platform_data := NULL\<rparr>)"
      using lp(1) by (simp add: failed(3) pd_loop_same)
    ultimately show ?thesis
      using failed(1,2) by (intro exI [of _ r] exI [of _ s'] exI [of _ e] exI [of _ NULL])
        (simp add: failed(3) same_objects_def)
  next
    case (ok s' p cs en k1 k2 kq v)
    have "owned ((loop_pdata s)(l \<mapsto> p)) ((st_ldata s)(p \<mapsto> new_kqueue_data kq ident (max_events_per_wait cfg))) kqueue_data_ok"
      using ok(3,4) new_kqueue_data_ok [OF n] by (intro owned_new [OF own(1)]) simp_all
    then have "kqueue_inv s'"
      using own(2) by (simp add: ok(2) kqueue_inv_def inv_simps loop_pdata_upd fun_upd_upd)
    moreover have "st_loops s' = (st_loops s)(l \<mapsto> lp\<lparr>l_system_error := 0, l_platform_data := p\<rparr>)"
      using lp(2) by (simp add: ok(2) pd_loop_same)
    ultimately show ?thesis
      using ok(1,3) by (intro exI [of _ PD_OK] exI [of _ s'] exI [of _ 0] exI [of _ p])
        (simp add: ok(2) same_objects_def)
  qed
qed

text \<open>Destroying deletes the wake-up filter, closes the kqueue and frees the data.\<close>

definition kq_destroyed :: "'k bsd \<Rightarrow> pd_kqueue_data \<Rightarrow> 'k \<Rightarrow> 'k" where
  "kq_destroyed K d k =
    (if kd_kqueue_fd d \<ge> 0
     then snd (bsd_close K (kd_kqueue_fd d)
       (snd (bsd_kevent K (kd_kqueue_fd d) [EV_SET (kd_async_ident d) EVFILT_USER EV_DELETE 0 0 NULL] 0 None k)))
     else k)"

lemma kq_loop_destroy_eq:
  assumes lp: "st_loops s l = Some lp" "l \<noteq> NULL"
    and d: "l_platform_data lp \<noteq> NULL" "st_ldata s (l_platform_data lp) = Some d"
  obtains en where "kqueue_loop_destroy K l s = Some (s\<lparr>st_kernel := kq_destroyed K d (st_kernel s),
    st_errno := en, st_ldata := (st_ldata s)(l_platform_data lp := None),
    st_loops := (st_loops s)(l \<mapsto> lp\<lparr>l_platform_data := NULL\<rparr>)\<rparr>)"
proof (cases "kd_kqueue_fd d \<ge> 0")
  case False
  have "kqueue_loop_destroy K l s = Some (s\<lparr>st_kernel := kq_destroyed K d (st_kernel s),
    st_errno := st_errno s, st_ldata := (st_ldata s)(l_platform_data lp := None),
    st_loops := (st_loops s)(l \<mapsto> lp\<lparr>l_platform_data := NULL\<rparr>)\<rparr>)"
    using False lp d by (simp add: kqueue_loop_destroy_def kq_destroyed_def heap_ops Let_def)
  then show thesis by (rule that)
next
  case True
  let ?c = "bsd_kevent K (kd_kqueue_fd d) [EV_SET (kd_async_ident d) EVFILT_USER EV_DELETE 0 0 NULL] 0 None"
  obtain e1 where e1: "snd (syscall ?c s) = s\<lparr>st_kernel := snd (?c (st_kernel s)), st_errno := e1\<rparr>"
    using syscall_snd [of ?c s] by blast
  let ?s1 = "s\<lparr>st_kernel := snd (?c (st_kernel s)), st_errno := e1\<rparr>"
  obtain e2 where e2: "snd (syscall (bsd_close K (kd_kqueue_fd d)) ?s1) =
      ?s1\<lparr>st_kernel := snd (bsd_close K (kd_kqueue_fd d) (st_kernel ?s1)), st_errno := e2\<rparr>"
    using syscall_snd [of "bsd_close K (kd_kqueue_fd d)" ?s1] by blast
  have "kqueue_loop_destroy K l s = Some (s\<lparr>st_kernel := kq_destroyed K d (st_kernel s),
    st_errno := e2, st_ldata := (st_ldata s)(l_platform_data lp := None),
    st_loops := (st_loops s)(l \<mapsto> lp\<lparr>l_platform_data := NULL\<rparr>)\<rparr>)"
    using True lp d e2 by (simp add: kqueue_loop_destroy_def kq_destroyed_def heap_ops Let_def e1)
  then show thesis by (rule that)
qed

lemma kqueue_destroy_law:
  assumes inv: "kqueue_inv s" and lp: "st_loops s l = Some lp" and l: "l \<noteq> NULL"
  shows "\<exists>s'. kqueue_loop_destroy K l s = Some s' \<and>
    st_loops s' = (st_loops s)(l \<mapsto> lp\<lparr>l_platform_data := NULL\<rparr>) \<and>
    same_objects s s' \<and> st_ldata s' = (st_ldata s)(l_platform_data lp := None) \<and>
    kqueue_inv (s'\<lparr>st_loops := (st_loops s)(l := None)\<rparr>)"
proof -
  obtain d where d: "l_platform_data lp \<noteq> NULL" "st_ldata s (l_platform_data lp) = Some d"
    by (rule kqueue_inv_loop [OF inv lp])
  have own: "owned (loop_pdata s) (st_ldata s) kqueue_data_ok" "owned (watcher_pdata s) (st_wdata s) (\<lambda>_. True)"
    using inv by (simp_all add: kqueue_inv_def)
  have f: "owned ((loop_pdata s)(l := None)) ((st_ldata s)(l_platform_data lp := None)) kqueue_data_ok"
    by (rule owned_free [OF own(1) loop_pdata_Some [OF lp]])
  obtain en where run: "kqueue_loop_destroy K l s = Some (s\<lparr>st_kernel := kq_destroyed K d (st_kernel s),
    st_errno := en, st_ldata := (st_ldata s)(l_platform_data lp := None),
    st_loops := (st_loops s)(l \<mapsto> lp\<lparr>l_platform_data := NULL\<rparr>)\<rparr>)"
    by (rule kq_loop_destroy_eq [OF lp l d])
  show ?thesis
    using f own(2) unfolding run
    by (simp add: same_objects_def kqueue_inv_def inv_simps loop_pdata_upd)
qed

text \<open>A wake-up triggers the user event.\<close>

definition trigger :: "pd_kqueue_data \<Rightarrow> kevent" where
  "trigger d = EV_SET (kd_async_ident d) EVFILT_USER 0 NOTE_TRIGGER 0 NULL"

lemma kq_async_send_cases:
  assumes lp: "st_loops s l = Some lp" "l \<noteq> NULL"
    and d: "l_platform_data lp \<noteq> NULL" "st_ldata s (l_platform_data lp) = Some d"
  obtains (sent) k v where "bsd_kevent K (kd_kqueue_fd d) [trigger d] 0 None (st_kernel s) = (Inr v, k)"
      "kqueue_async_send K l data s = Some (PD_OK, s\<lparr>st_kernel := k\<rparr>)"
  | (refused) e k where "bsd_kevent K (kd_kqueue_fd d) [trigger d] 0 None (st_kernel s) = (Inl e, k)"
      "kqueue_async_send K l data s = Some (PD_ERR_SYSTEM,
         s\<lparr>st_kernel := k, st_errno := e, st_loops := (st_loops s)(l \<mapsto> lp\<lparr>l_system_error := e\<rparr>)\<rparr>)"
proof -
  obtain r k where k: "bsd_kevent K (kd_kqueue_fd d) [trigger d] 0 None (st_kernel s) = (r, k)" by fastforce
  show thesis
    by (cases r; use k that in \<open>simp add: kqueue_async_send_def lp d Let_def syscall_def set_error_eq
      pd_get_current_system_error_def trigger_def\<close>)
qed

lemma kqueue_send_law:
  assumes inv: "kqueue_inv s" and lp: "st_loops s l = Some lp" and l: "l \<noteq> NULL"
  shows "\<exists>r s'. kqueue_async_send K l data s = Some (r, s') \<and> only_error s s' \<and> kqueue_inv s'"
proof -
  obtain d where d: "l_platform_data lp \<noteq> NULL" "st_ldata s (l_platform_data lp) = Some d"
    by (rule kqueue_inv_loop [OF inv lp])
  from lp l d show ?thesis
    by (cases rule: kq_async_send_cases [where K = K and data = data])
      (use inv lp in \<open>auto simp: only_error_def kqueue_inv_def inv_simps\<close>)
qed

text \<open>Both contracts, for every kernel and every set of callbacks.\<close>

lemma kqueue_loop_backend:
  "loop_backend (pd_platform_kqueue K ident U) (kqueue_watcher_register K) (kqueue_watcher_unregister K)
     (kqueue_watcher_update K) kqueue_inv (kqueue_loop_create K ident) (kqueue_loop_destroy K) (kqueue_async_send K)"
proof (intro loop_backend.intro loop_backend_axioms.intro)
  show "watcher_backend (pd_platform_kqueue K ident U) (kqueue_watcher_register K) (kqueue_watcher_unregister K)
     (kqueue_watcher_update K) kqueue_inv"
    by (rule readiness_backend.axioms(1) [OF kqueue_readiness]) simp_all
qed (rule kqueue_table kqueue_create_law kqueue_destroy_law kqueue_send_law; assumption)+

interpretation kql: loop_backend "pd_platform_kqueue K ident U" "kqueue_watcher_register K"
    "kqueue_watcher_unregister K" "kqueue_watcher_update K" kqueue_inv "kqueue_loop_create K ident"
    "kqueue_loop_destroy K" "kqueue_async_send K" for K ident U
  by (rule kqueue_loop_backend)

interpretation kqs: readiness_backend "pd_platform_kqueue K ident U" "kqueue_watcher_register K"
    "kqueue_watcher_unregister K" "kqueue_watcher_update K" kqueue_inv for K ident U
  by (rule kqueue_readiness) simp_all

end
