(* ===== verification/Pd_Kqueue_Timer.thy ===== *)
theory Pd_Kqueue_Timer
  imports Pd_Timer_Backend Pd_Kqueue_Loop
begin

text \<open>
  Timers on \<^verbatim>\<open>EVFILT_TIMER\<close>: the kqueue backend meets the contract of \<open>Pd_Timer_Backend\<close>. Every
  timer has its flags and a placeholder watcher in the list of its loop.
\<close>

section \<open>The invariant of timers\<close>

definition placeholder :: "'k kqueue_state \<Rightarrow> addr \<Rightarrow> (addr \<times> addr) option" where
  "placeholder s w = (case st_watchers s w of None \<Rightarrow> None
     | Some x \<Rightarrow> if w_platform_data x = NULL then Some (w_loop x, w_user_data x) else None)"

definition kqueue_timer_ok :: "'k kqueue_state \<Rightarrow> addr \<Rightarrow> pd_timer \<Rightarrow> bool" where
  "kqueue_timer_ok s t tm \<longleftrightarrow> t \<noteq> NULL \<and> t_loop tm \<noteq> NULL \<and> st_loops s (t_loop tm) \<noteq> None \<and>
     \<not> t_owns_watcher tm \<and> (\<exists>f. t_callback tm = Some (Cb_user f)) \<and>
     t_platform_data tm \<noteq> NULL \<and> st_tdata s (t_platform_data tm) \<noteq> None \<and>
     t_watcher tm \<noteq> NULL \<and> placeholder s (t_watcher tm) = Some (t_loop tm, t)"

text \<open>No timer owns its watcher here, so there is no state in the middle of a destruction.\<close>

definition kqueue_tinv :: "addr set \<Rightarrow> 'k kqueue_state \<Rightarrow> bool" where
  "kqueue_tinv A s \<longleftrightarrow> (\<forall>t tm. st_timers s t = Some tm \<longrightarrow> kqueue_timer_ok s t tm) \<and>
     (\<forall>t t' tm tm'. st_timers s t = Some tm \<longrightarrow> st_timers s t' = Some tm' \<longrightarrow>
        t_platform_data tm = t_platform_data tm' \<longrightarrow> t = t')"

lemma kqueue_tinvI:
  assumes "\<And>t tm. st_timers s t = Some tm \<Longrightarrow> kqueue_timer_ok s t tm"
    and "\<And>t t' tm tm'. st_timers s t = Some tm \<Longrightarrow> st_timers s t' = Some tm' \<Longrightarrow>
      t_platform_data tm = t_platform_data tm' \<Longrightarrow> t = t'"
  shows "kqueue_tinv A s"
  using assms unfolding kqueue_tinv_def by blast

lemma kqueue_tinv_facts:
  assumes "kqueue_tinv A s"
  shows kqueue_tinv_timer: "st_timers s t = Some tm \<Longrightarrow> kqueue_timer_ok s t tm"
    and kqueue_tinv_inj: "st_timers s t = Some tm \<Longrightarrow> st_timers s t' = Some tm' \<Longrightarrow>
      t_platform_data tm = t_platform_data tm' \<Longrightarrow> t = t'"
  using assms unfolding kqueue_tinv_def by blast+

text \<open>It depends on the timers, which data and loops live, and the placeholders.\<close>

lemma kqueue_tinv_cong:
  assumes inv: "kqueue_tinv A s" and t: "st_timers s' = st_timers s"
    and p: "\<And>p. st_tdata s p \<noteq> None \<Longrightarrow> st_tdata s' p \<noteq> None"
    and w: "st_watchers s' = st_watchers s" and l: "\<And>l. st_loops s l \<noteq> None \<Longrightarrow> st_loops s' l \<noteq> None"
  shows "kqueue_tinv A s'"
proof -
  have "kqueue_timer_ok s' t tm" if "kqueue_timer_ok s t tm" for t tm
    using that l [of "t_loop tm"] p [of "t_platform_data tm"] unfolding kqueue_timer_ok_def placeholder_def w by blast
  then show ?thesis using inv by (simp add: kqueue_tinv_def t)
qed

lemma kqueue_inv_cong:
  assumes "kqueue_inv s" "st_loops s' = st_loops s" "st_watchers s' = st_watchers s" "st_ldata s' = st_ldata s" "st_wdata s' = st_wdata s"
  shows "kqueue_inv s'"
proof -
  have "loop_pdata s' = loop_pdata s" "watcher_pdata s' = watcher_pdata s"
    using assms(2,3) by (simp_all add: loop_pdata_def watcher_pdata_def fun_eq_iff)
  then show ?thesis using assms by (simp add: kqueue_inv_def)
qed

text \<open>Recording a system error in a loop.\<close>

lemma kq_set_error_step:
  assumes "pd_wf s" "kqueue_inv s" "st_loops s l = Some lp" "l \<noteq> NULL"
  obtains s' where "pd_set_system_error l e s = Some s'" "pd_wf s'" "kqueue_inv s'"
    "s' = s\<lparr>st_loops := (st_loops s)(l \<mapsto> lp\<lparr>l_system_error := e\<rparr>)\<rparr>" "lists_change (\<lambda>_ ws. ws) s s'"
proof -
  let ?s = "s\<lparr>st_loops := (st_loops s)(l \<mapsto> lp\<lparr>l_system_error := e\<rparr>)\<rparr>"
  have up: "upd_control lp (lp\<lparr>l_system_error := e\<rparr>)" by (simp add: upd_control_def)
  have "kqueue_inv ?s" using assms(2) kql.binv_control [OF assms(2,3) up] by simp
  moreover have "lists_change (\<lambda>_ ws. ws) s ?s"
    using assms(3) by (auto simp: lists_change_iff intro: upd_list_intros)
  ultimately show thesis using that set_error_eq [OF assms(3,4)] pd_wf_control [OF assms(1,3) up] by simp
qed

section \<open>Create\<close>

definition placeholder_watcher :: "addr \<Rightarrow> addr \<Rightarrow> pd_watcher" where
  "placeholder_watcher l t = zero_watcher\<lparr>w_fd := - 1, w_events := PD_EVENT_NONE, w_user_data := t,
     w_loop := l, w_ref_count := 1\<rparr>"

lemma kqueue_tinv_new:
  assumes inv: "kqueue_tinv {} s" and t: "st_timers s t = None" "t \<noteq> NULL"
    and tm: "t_loop tm \<noteq> NULL" "st_loops s (t_loop tm) \<noteq> None" "\<not> t_owns_watcher tm" "t_callback tm = Some (Cb_user f)"
    and p: "t_platform_data tm \<noteq> NULL" "st_tdata s (t_platform_data tm) = None"
    and w: "t_watcher tm \<noteq> NULL" "st_watchers s (t_watcher tm) = None"
    and s': "st_timers s' = (st_timers s)(t \<mapsto> tm)" "st_tdata s' = (st_tdata s)(t_platform_data tm \<mapsto> x)"
      "st_watchers s' = (st_watchers s)(t_watcher tm \<mapsto> placeholder_watcher (t_loop tm) t)"
    and l: "\<And>l. st_loops s l \<noteq> None \<Longrightarrow> st_loops s' l \<noteq> None"
  shows "kqueue_tinv {} s'"
proof (rule kqueue_tinvI)
  have old: "t_platform_data tm' \<noteq> t_platform_data tm" "t_watcher tm' \<noteq> t_watcher tm"
    if "st_timers s t' = Some tm'" for t' tm'
    using kqueue_tinv_timer [OF inv that] p(2) w(2) by (auto simp: kqueue_timer_ok_def placeholder_def)
  show "kqueue_timer_ok s' t' tm'" if "st_timers s' t' = Some tm'" for t' tm'
  proof (cases "t' = t")
    case True
    then have "tm' = tm" using that s'(1) by simp
    then show ?thesis
      using True t(2) tm p w l [OF tm(2)]
      by (simp add: kqueue_timer_ok_def placeholder_def s' placeholder_watcher_def zero_watcher_def)
  next
    case False
    then have t': "st_timers s t' = Some tm'" using that s'(1) by simp
    then show ?thesis
      using kqueue_tinv_timer [OF inv t'] old [OF t'] l [of "t_loop tm'"]
      unfolding kqueue_timer_ok_def placeholder_def s' by auto
  qed
  show "t1 = t2" if "st_timers s' t1 = Some tm1" "st_timers s' t2 = Some tm2" "t_platform_data tm1 = t_platform_data tm2"
    for t1 t2 tm1 tm2
    using that old(1) [of t1 tm1] old(1) [of t2 tm2] kqueue_tinv_inj [OF inv, of t1 tm1 t2 tm2]
    by (auto simp: s'(1) split: if_splits)
qed

text \<open>
  The end of a creation, once the memory is there: the placeholder is put into the loop's list, or
  everything is given back.
\<close>

definition put_in_list :: "addr \<Rightarrow> addr \<Rightarrow> addr \<Rightarrow> addr \<Rightarrow> 'k kqueue_state \<Rightarrow> (pd_error \<times> 'k kqueue_state) option" where
  "put_in_list l t p w s = do {
   (result, s) \<leftarrow> pd_loop_add_watcher l w s;
   if result \<noteq> PD_OK
   then do {
     s \<leftarrow> free_watcher w s;
     s \<leftarrow> free_tdata p s;
     s \<leftarrow> write_timer t (\<lambda>t. t\<lparr>t_platform_data := NULL, t_watcher := NULL\<rparr>) s;
     Some (result, s) }
   else Some (PD_OK, s) }"

lemma placeholder_allocated:
  assumes wf: "pd_wf s" "kqueue_inv s" and lp: "st_loops s l = Some lp" and w: "w \<noteq> NULL" "st_watchers s w = None"
    and s4: "s4 = s\<lparr>st_choices := cs, st_errno := e, st_tdata := td,
      st_watchers := (st_watchers s)(w \<mapsto> placeholder_watcher l t), st_timers := tms\<rparr>"
  shows "pd_wf s4" "kqueue_inv s4"
proof -
  let ?s = "s\<lparr>st_watchers := (st_watchers s)(w \<mapsto> placeholder_watcher l t)\<rparr>"
  have "w_loop (placeholder_watcher l t) = l" by (simp add: placeholder_watcher_def)
  then have wf': "pd_wf ?s" using lp by (intro pd_wf_new_watcher [OF wf(1) w(2,1)]) simp
  show "pd_wf s4" using pd_wf_loops_undo [of s4 ?s] wf' by (simp add: s4)
  have "kqueue_inv ?s"
    using wf(2) by (rule kqueue_inv_stable)
      (use w in \<open>auto simp: same_pdata_def loop_pdata_def watcher_pdata_def map_le_def placeholder_watcher_def zero_watcher_def split: if_splits\<close>)
  then show "kqueue_inv s4" using kqueue_inv_cong [of ?s s4] by (simp add: s4)
qed

lemma put_in_list_cases:
  assumes wf: "pd_wf s" "kqueue_inv s" "kqueue_tinv {} s" and t: "st_timers s t = None" "t \<noteq> NULL"
    and lp: "st_loops s l = Some lp" and p: "p \<noteq> NULL" "st_tdata s p = None" and w: "w \<noteq> NULL" "st_watchers s w = None"
    and s4: "s4 = s\<lparr>st_choices := cs, st_errno := e, st_tdata := (st_tdata s)(p \<mapsto> x),
      st_watchers := (st_watchers s)(w \<mapsto> placeholder_watcher l t), st_timers := (st_timers s)(t \<mapsto> tm)\<rparr>"
    and tm: "t_loop tm = l" "t_platform_data tm = p" "t_watcher tm = w" "\<not> t_owns_watcher tm" "t_callback tm = Some (Cb_user f)"
  obtains (added) s5 where "put_in_list l t p w s4 = Some (PD_OK, s5)" "pd_wf s5" "kqueue_inv s5" "kqueue_tinv {} s5"
      "st_timers s5 = (st_timers s)(t \<mapsto> tm)" "st_watchers s5 = (st_watchers s)(w \<mapsto> placeholder_watcher l t)"
      "lists_change (\<lambda>k ws. if k = l then ws @ [w] else ws) s s5"
  | (undone) r s' tm' where "put_in_list l t p w s4 = Some (r, s')" "r \<noteq> PD_OK" "pd_wf s'" "kqueue_inv s'"
      "st_timers s' = (st_timers s)(t \<mapsto> tm')" "st_watchers s' = st_watchers s" "st_tdata s' = st_tdata s"
      "lists_change (\<lambda>_ ws. ws) s s'"
proof -
  let ?ph = "placeholder_watcher l t"
  have l: "l \<noteq> NULL" using pd_wf_loop [OF wf(1) lp] by (simp add: loop_ok_def)
  have ph: "w_loop ?ph = l" by (simp add: placeholder_watcher_def)
  have s4': "st_watchers s4 w = Some ?ph" "st_loops s4 l = Some lp" "w \<notin> set (watcher_list lp)"
    using lp pd_wf_loop [OF wf(1) lp] w by (auto simp: s4 loop_ok_def)
  obtain r s5 where s5: "pd_loop_add_watcher l w s4 = Some (r, s5)" "pd_wf s5" "kqueue_inv s5"
    "st_watchers s5 = st_watchers s4" "r = PD_OK \<or> r = PD_ERR_NO_MEMORY"
    "lists_become (\<lambda>k ws. if k = l \<and> r = PD_OK then ws @ [w] else ws) s4 s5"
    by (rule kqueue.add_step [OF placeholder_allocated [OF wf(1,2) lp w s4] s4'(1) ph l s4'(2,3)])
  have fr: "st_timers s5 = (st_timers s)(t \<mapsto> tm)" "st_tdata s5 = (st_tdata s)(p \<mapsto> x)" "st_watchers s5 = (st_watchers s)(w \<mapsto> ?ph)"
    using s5(4,6) by (simp_all add: lists_become_def s4)
  have change: "lists_change (\<lambda>k ws. if k = l \<and> r = PD_OK then ws @ [w] else ws) s s5"
    using lists_become_change [OF s5(6)] by (rule lists_change_cong) (simp_all add: s4)
  show thesis
  proof (cases "r = PD_OK")
    case True
    have "kqueue_tinv {} s5"
      by (rule kqueue_tinv_new [OF wf(3) t, where tm = tm and x = x])
        (use l lp p w tm fr lists_change_loop [OF change] in simp_all)
    then show thesis using added s5(1-3) fr(1,3) change True by (simp add: put_in_list_def)
  next
    case False
    let ?s' = "s5\<lparr>st_watchers := st_watchers s, st_tdata := st_tdata s,
      st_timers := (st_timers s)(t \<mapsto> tm\<lparr>t_platform_data := NULL, t_watcher := NULL\<rparr>)\<rparr>"
    have undo: "(st_watchers s)(w := None) = st_watchers s" "(st_tdata s)(p := None) = st_tdata s"
      using w p by (simp_all add: fun_upd_idem)
    have un: "w \<notin> set (watcher_list k)" if k: "st_loops s5 a = Some k" for a k
    proof -
      obtain k0 where "st_loops s4 a = Some k0" "watcher_list k = watcher_list k0"
        using lists_become_back [OF s5(6) k] False by auto
      then show ?thesis using pd_wf_loop [OF wf(1), of a k0] w by (auto simp: loop_ok_def s4)
    qed
    have w5: "st_watchers s5 w = Some ?ph" using fr(3) by simp
    obtain s6 where s6: "free_watcher w s5 = Some s6" "pd_wf s6" "kqueue_inv s6" "s6 = s5\<lparr>st_watchers := (st_watchers s5)(w := None)\<rparr>"
      by (rule kqueue.free_step [OF s5(2,3) w5]) (erule un)
    have w6: "st_watchers s6 = st_watchers s" using fr(3) by (simp add: s6(4) undo)
    have "put_in_list l t p w s4 = Some (r, ?s')"
      using s5(1) False s6(1) p(1) t(2) fr undo by (simp add: put_in_list_def heap_ops s6(4))
    moreover have "pd_wf ?s'" "kqueue_inv ?s'"
      using s6(2) pd_wf_loops_undo [of ?s' s6] kqueue_inv_cong [OF s6(3), of ?s'] w6 by (simp_all add: s6(4))
    moreover have "lists_change (\<lambda>_ ws. ws) s s5" using change False by simp
    then have "lists_change (\<lambda>_ ws. ws) s ?s'" by (rule lists_change_cong) simp_all
    ultimately show thesis by (intro undone [of r ?s']) (use False in simp_all)
  qed
qed

lemma kqueue_create_timer_law:
  assumes wf: "pd_wf s" "kqueue_inv s" "kqueue_tinv {} s" and t: "st_timers s t = None" "t \<noteq> NULL"
    and lp: "st_loops s l = Some lp" and tm0: "tm0 = new_timer l timeout interval (Some (Cb_user f)) ud"
  shows "\<exists>r s' tm. kqueue_timer_create l t (s\<lparr>st_timers := (st_timers s)(t \<mapsto> tm0)\<rparr>) = Some (r, s') \<and>
    pd_wf s' \<and> kqueue_inv s' \<and> st_timers s' = (st_timers s)(t \<mapsto> tm) \<and>
    (if r = PD_OK
     then upd_backend tm0 tm \<and> kqueue_tinv {} s' \<and> st_watchers s (t_watcher tm) = None \<and>
       (\<exists>y. st_watchers s' = (st_watchers s)(t_watcher tm \<mapsto> y)) \<and>
       lists_change (\<lambda>k ws. if k = l then ws @ [t_watcher tm] else ws) s s'
     else kqueue_tinv {} (s'\<lparr>st_timers := st_timers s\<rparr>) \<and> st_watchers s' = st_watchers s \<and> st_tdata s' = st_tdata s \<and>
       lists_change (\<lambda>_ ws. ws) s s')"
    (is "\<exists>r s' tm. ?run = Some (r, s') \<and> ?ok r s' tm")
proof -
  let ?s0 = "s\<lparr>st_timers := (st_timers s)(t \<mapsto> tm0)\<rparr>"
  have l: "l \<noteq> NULL" using pd_wf_loop [OF wf(1) lp] by (simp add: loop_ok_def)
  have fails: "\<exists>r s' tm. ?run = Some (r, s') \<and> ?ok r s' tm"
    if run: "?run = Some (r, s')" "r \<noteq> PD_OK" and s': "pd_wf s'" "kqueue_inv s'" "st_timers s' = (st_timers s)(t \<mapsto> tm)"
      "st_watchers s' = st_watchers s" "st_tdata s' = st_tdata s" "lists_change (\<lambda>_ ws. ws) s s'" for r s' tm
  proof -
    have "kqueue_tinv {} (s'\<lparr>st_timers := st_timers s\<rparr>)"
      by (rule kqueue_tinv_cong [OF wf(3)]) (use s' lists_change_loop [OF s'(6)] in simp_all)
    then show ?thesis using run s' by (intro exI [of _ r] exI [of _ s'] exI [of _ tm]) simp
  qed
  show ?thesis
  proof (cases rule: calloc_tdata_cases [of zero_kqueue_timer_data ?s0])
    case (null s1)
    then obtain cs e where s1: "s1 = ?s0\<lparr>st_choices := cs, st_errno := e\<rparr>" by (elim upd_allocE)
    have ok1: "pd_wf s1" "kqueue_inv s1" "st_loops s1 l = Some lp"
      using wf(1) kqueue_inv_cong [OF wf(2), of s1] lp by (simp_all add: s1)
    obtain s' where s': "pd_set_system_error l e s1 = Some s'" "pd_wf s'" "kqueue_inv s'"
      "s' = s1\<lparr>st_loops := (st_loops s1)(l \<mapsto> lp\<lparr>l_system_error := e\<rparr>)\<rparr>" "lists_change (\<lambda>_ ws. ws) s1 s'"
      by (rule kq_set_error_step [OF ok1 l])
    have "?run = Some (PD_ERR_NO_MEMORY, s')"
      using l t(2) s'(1) null(1) by (simp add: kqueue_timer_create_def pd_get_current_system_error_def s1)
    moreover have "lists_change (\<lambda>_ ws. ws) s s'" using s'(5) by (rule lists_change_cong) (simp_all add: s1)
    ultimately show ?thesis using s'(2,3) by (intro fails [of PD_ERR_NO_MEMORY s' tm0]) (simp_all add: s'(4) s1)
  next
    case (some p s1)
    then obtain cs e where s1: "s1 = ?s0\<lparr>st_choices := cs, st_errno := e\<rparr>" by (elim upd_allocE)
    have p: "st_tdata s p = None" using some(3) by simp
    let ?tm1 = "tm0\<lparr>t_platform_data := p\<rparr>"
    let ?s2 = "s1\<lparr>st_tdata := (st_tdata s)(p \<mapsto> zero_kqueue_timer_data), st_timers := (st_timers s)(t \<mapsto> ?tm1)\<rparr>"
    have undo: "(st_tdata s)(p := None) = st_tdata s" using p by (simp add: fun_upd_idem)
    note start = kqueue_timer_create_def heap_ops Let_def l t(2) some(1,2) s1 undo
    show ?thesis
    proof (cases rule: calloc_watcher_cases [of ?s2])
      case (null s3)
      then obtain cs' e' where s3: "s3 = ?s2\<lparr>st_choices := cs', st_errno := e'\<rparr>" by (elim upd_allocE)
      let ?tm = "tm0\<lparr>t_platform_data := NULL\<rparr>"
      let ?s' = "s3\<lparr>st_tdata := st_tdata s, st_timers := (st_timers s)(t \<mapsto> ?tm)\<rparr>"
      have "?run = Some (PD_ERR_NO_MEMORY, ?s')"
        using null(1) s3 by (simp add: start)
      moreover have "pd_wf ?s'" "kqueue_inv ?s'"
        using wf(1) kqueue_inv_cong [OF wf(2), of ?s'] by (simp_all add: s3 s1)
      moreover have "lists_change (\<lambda>_ ws. ws) s ?s'" by (rule lists_change_cong [of _ s s]) (simp_all add: s3 s1)
      ultimately show ?thesis by (intro fails [of PD_ERR_NO_MEMORY ?s' ?tm]) (simp_all add: s3 s1)
    next
      case (some w s3)
      then obtain cs' e' where s3: "s3 = ?s2\<lparr>st_choices := cs', st_errno := e'\<rparr>" by (elim upd_allocE)
      have w: "st_watchers s w = None" using some(3) by (simp add: s1)
      let ?tm = "?tm1\<lparr>t_watcher := w, t_owns_watcher := False\<rparr>"
      define s4 where "s4 = s3\<lparr>st_watchers := (st_watchers s)(w \<mapsto> placeholder_watcher l t), st_timers := (st_timers s)(t \<mapsto> ?tm)\<rparr>"
      have s4: "s4 = s\<lparr>st_choices := cs', st_errno := e', st_tdata := (st_tdata s)(p \<mapsto> zero_kqueue_timer_data),
          st_watchers := (st_watchers s)(w \<mapsto> placeholder_watcher l t), st_timers := (st_timers s)(t \<mapsto> ?tm)\<rparr>"
        by (simp add: s4_def s3 s1)
      have run: "?run = put_in_list l t p w s4"
        using some(1,2) s3 by (simp add: start put_in_list_def s4_def placeholder_watcher_def zero_watcher_def)
      have tm: "t_loop ?tm = l" "t_platform_data ?tm = p" "t_watcher ?tm = w" "\<not> t_owns_watcher ?tm" "t_callback ?tm = Some (Cb_user f)"
        "upd_backend tm0 ?tm" by (simp_all add: tm0 new_timer_def upd_backend_def)
      show ?thesis
      proof (cases rule: put_in_list_cases [OF wf t lp \<open>p \<noteq> NULL\<close> p some(2) w s4 tm(1-5)])
        case (1 s5)
        then show ?thesis
          using w tm(3,6) unfolding run by (intro exI [of _ PD_OK] exI [of _ s5] exI [of _ ?tm]) (auto cong: if_cong)
      next
        case (2 r s' tm')
        then show ?thesis unfolding run [symmetric] by (intro fails [of r s' tm'])
      qed
    qed
  qed
qed

section \<open>Start and stop\<close>

lemma kqueue_timer_facts:
  assumes "kqueue_tinv A s" "st_timers s t = Some tm"
  obtains td lp x where "t \<noteq> NULL" "t_loop tm \<noteq> NULL" "st_loops s (t_loop tm) = Some lp"
    "t_platform_data tm \<noteq> NULL" "st_tdata s (t_platform_data tm) = Some td" "\<not> t_owns_watcher tm"
    "t_watcher tm \<noteq> NULL" "st_watchers s (t_watcher tm) = Some x" "w_loop x = t_loop tm" "w_user_data x = t"
    "w_platform_data x = NULL"
  using kqueue_tinv_timer [OF assms] that
  by (auto simp: kqueue_timer_ok_def placeholder_def split: option.splits if_splits)

text \<open>A change of a timer's flags, of the kernel and of the loop's error keeps the invariants.\<close>

lemma kq_flags_step:
  assumes wf: "pd_wf s" "kqueue_inv s" "kqueue_tinv {} s" and p: "st_tdata s p \<noteq> None"
  shows "pd_wf (s\<lparr>st_tdata := (st_tdata s)(p \<mapsto> x), st_kernel := k, st_errno := e\<rparr>)"
    "kqueue_inv (s\<lparr>st_tdata := (st_tdata s)(p \<mapsto> x), st_kernel := k, st_errno := e\<rparr>)"
    "kqueue_tinv {} (s\<lparr>st_tdata := (st_tdata s)(p \<mapsto> x), st_kernel := k, st_errno := e\<rparr>)"
  using wf(1) kqueue_inv_cong [OF wf(2), of "s\<lparr>st_tdata := (st_tdata s)(p \<mapsto> x), st_kernel := k, st_errno := e\<rparr>"]
    kqueue_tinv_cong [OF wf(3), of "s\<lparr>st_tdata := (st_tdata s)(p \<mapsto> x), st_kernel := k, st_errno := e\<rparr>"] p
  by (simp_all split: if_splits)

text \<open>The outcomes of a start: the flag \<^verbatim>\<open>pending_initial\<close> is set before the kernel is asked.\<close>

lemma kqueue_timer_start_cases:
  assumes t: "t \<noteq> NULL" "st_timers s t = Some tm" "t_loop tm \<noteq> NULL" "t_platform_data tm \<noteq> NULL"
      "st_tdata s (t_platform_data tm) = Some td"
    and lp: "st_loops s (t_loop tm) = Some lp" "l_platform_data lp \<noteq> NULL" "st_ldata s (l_platform_data lp) = Some d"
    and ch: "timer_change t (t_timeout_ms tm) (t_interval_ms tm) = (pending, c)"
  obtains (refused) e k where "bsd_kevent K (kd_kqueue_fd d) [c] 0 None (st_kernel s) = (Inl e, k)"
      "kqueue_timer_start K t s = Some (PD_ERR_SYSTEM, s\<lparr>
         st_tdata := (st_tdata s)(t_platform_data tm \<mapsto> td\<lparr>kt_pending_initial := pending\<rparr>),
         st_kernel := k, st_errno := e, st_loops := (st_loops s)(t_loop tm \<mapsto> lp\<lparr>l_system_error := e\<rparr>)\<rparr>)"
  | (armed) v k where "bsd_kevent K (kd_kqueue_fd d) [c] 0 None (st_kernel s) = (Inr v, k)"
      "kqueue_timer_start K t s = Some (PD_OK, s\<lparr>
         st_tdata := (st_tdata s)(t_platform_data tm \<mapsto> \<lparr>kt_registered = True, kt_pending_initial = pending\<rparr>),
         st_kernel := k\<rparr>)"
proof -
  obtain r k where k: "bsd_kevent K (kd_kqueue_fd d) [c] 0 None (st_kernel s) = (r, k)" by fastforce
  note start = kqueue_timer_start_def t lp ch k Let_def heap_write_def syscall_def pd_get_current_system_error_def set_error_eq
  show thesis
  proof (cases r)
    case (Inl e)
    then show thesis using k by (intro refused) (simp_all add: start)
  next
    case (Inr v)
    have "td\<lparr>kt_pending_initial := pending, kt_registered := True\<rparr> = \<lparr>kt_registered = True, kt_pending_initial = pending\<rparr>"
      by simp
    then show thesis using k Inr by (intro armed) (auto simp: start intro!: pd_state.equality)
  qed
qed

lemma kqueue_start_timer_law:
  assumes wf: "pd_wf s" "kqueue_inv s" "kqueue_tinv {} s" and t: "st_timers s t = Some tm"
  shows "\<exists>r s'. kqueue_timer_start K t s = Some (r, s') \<and> pd_wf s' \<and> kqueue_inv s' \<and> kqueue_tinv {} s' \<and>
    st_timers s' = st_timers s \<and> dom (st_watchers s') = dom (st_watchers s) \<and> lists_change (\<lambda>_ ws. ws) s s'"
proof -
  obtain td lp x where f: "t \<noteq> NULL" "t_loop tm \<noteq> NULL" "st_loops s (t_loop tm) = Some lp"
    "t_platform_data tm \<noteq> NULL" "st_tdata s (t_platform_data tm) = Some td"
    by (rule kqueue_timer_facts [OF wf(3) t])
  obtain d where d: "l_platform_data lp \<noteq> NULL" "st_ldata s (l_platform_data lp) = Some d"
    by (rule kqueue_inv_loop [OF wf(2) f(3)])
  obtain pending c where ch: "timer_change t (t_timeout_ms tm) (t_interval_ms tm) = (pending, c)" by fastforce
  have p: "st_tdata s (t_platform_data tm) \<noteq> None" using f(5) by simp
  note flags = kq_flags_step [OF wf p]
  from f(1) t f(2,4,5,3) d ch show ?thesis
  proof (cases rule: kqueue_timer_start_cases [where K = K])
    case (refused e k)
    let ?s1 = "s\<lparr>st_tdata := (st_tdata s)(t_platform_data tm \<mapsto> td\<lparr>kt_pending_initial := pending\<rparr>),
      st_kernel := k, st_errno := e\<rparr>"
    let ?s2 = "?s1\<lparr>st_loops := (st_loops s)(t_loop tm \<mapsto> lp\<lparr>l_system_error := e\<rparr>)\<rparr>"
    have lp1: "st_loops ?s1 (t_loop tm) = Some lp" using f(3) by simp
    obtain s2 where "pd_set_system_error (t_loop tm) e ?s1 = Some s2" and s2': "pd_wf s2" "kqueue_inv s2"
      "s2 = ?s1\<lparr>st_loops := (st_loops ?s1)(t_loop tm \<mapsto> lp\<lparr>l_system_error := e\<rparr>)\<rparr>" "lists_change (\<lambda>_ ws. ws) ?s1 s2"
      by (rule kq_set_error_step [OF flags(1,2) lp1 f(2)])
    then have s2: "pd_wf s2" "kqueue_inv s2" "s2 = ?s2" by simp_all
    have "lists_change (\<lambda>_ ws. ws) s s2" using s2'(4) by (rule lists_change_cong) simp_all
    moreover have "kqueue_tinv {} s2"
      by (rule kqueue_tinv_cong [OF flags(3)]) (use s2(3) in \<open>auto split: if_splits\<close>)
    ultimately show ?thesis
      using refused(2) s2(1,2) unfolding s2(3) by (intro exI [of _ PD_ERR_SYSTEM] exI [of _ ?s2]) simp
  next
    case (armed v k)
    let ?s1 = "s\<lparr>st_tdata := (st_tdata s)(t_platform_data tm \<mapsto> \<lparr>kt_registered = True, kt_pending_initial = pending\<rparr>),
      st_kernel := k\<rparr>"
    have s1: "?s1 = ?s1\<lparr>st_errno := st_errno s\<rparr>" by simp
    have "lists_change (\<lambda>_ ws. ws) s ?s1" by (rule lists_change_cong [of _ s s]) simp_all
    moreover have "pd_wf ?s1" "kqueue_inv ?s1" "kqueue_tinv {} ?s1"
      using flags [where k = k and e = "st_errno s"] by (metis s1)+
    ultimately show ?thesis using armed(2) by (intro exI [of _ PD_OK] exI [of _ ?s1]) simp
  qed
qed

lemma kqueue_timer_stop_cases:
  assumes t: "t \<noteq> NULL" "st_timers s t = Some tm" "t_loop tm \<noteq> NULL" "t_platform_data tm \<noteq> NULL"
      "st_tdata s (t_platform_data tm) = Some td"
    and lp: "st_loops s (t_loop tm) = Some lp" "l_platform_data lp \<noteq> NULL" "st_ldata s (l_platform_data lp) = Some d"
  obtains (idle) "\<not> kt_registered td" "kqueue_timer_stop K t s = Some (PD_OK, s)"
  | (deleted) r k en where "kt_registered td"
      "bsd_kevent K (kd_kqueue_fd d) [EV_SET (int t) EVFILT_TIMER EV_DELETE 0 0 NULL] 0 None (st_kernel s) = (r, k)"
      "kqueue_timer_stop K t s = Some (PD_OK, s\<lparr>
         st_tdata := (st_tdata s)(t_platform_data tm \<mapsto> \<lparr>kt_registered = False, kt_pending_initial = False\<rparr>),
         st_kernel := k, st_errno := en\<rparr>)"
proof (cases "kt_registered td")
  case False
  then show thesis by (intro idle) (simp_all add: kqueue_timer_stop_def t lp Let_def)
next
  case True
  let ?c = "bsd_kevent K (kd_kqueue_fd d) [EV_SET (int t) EVFILT_TIMER EV_DELETE 0 0 NULL] 0 None"
  obtain en where en: "snd (syscall ?c s) = s\<lparr>st_kernel := snd (?c (st_kernel s)), st_errno := en\<rparr>"
    using syscall_snd [of ?c s] by blast
  have flags: "td\<lparr>kt_registered := False, kt_pending_initial := False\<rparr> = \<lparr>kt_registered = False, kt_pending_initial = False\<rparr>"
    by simp
  then show thesis
    using True en by (intro deleted [of "fst (?c (st_kernel s))" "snd (?c (st_kernel s))" en])
      (auto simp: kqueue_timer_stop_def t lp Let_def heap_write_def intro!: pd_state.equality)
qed

lemma kqueue_stop_timer_law:
  assumes wf: "pd_wf s" "kqueue_inv s" "kqueue_tinv {} s" and t: "st_timers s t = Some tm"
  shows "\<exists>r s'. kqueue_timer_stop K t s = Some (r, s') \<and> pd_wf s' \<and> kqueue_inv s' \<and> kqueue_tinv {} s' \<and>
    st_timers s' = st_timers s \<and> dom (st_watchers s') = dom (st_watchers s) \<and> lists_change (\<lambda>_ ws. ws) s s'"
proof -
  obtain td lp x where f: "t \<noteq> NULL" "t_loop tm \<noteq> NULL" "st_loops s (t_loop tm) = Some lp"
    "t_platform_data tm \<noteq> NULL" "st_tdata s (t_platform_data tm) = Some td"
    by (rule kqueue_timer_facts [OF wf(3) t])
  obtain d where d: "l_platform_data lp \<noteq> NULL" "st_ldata s (l_platform_data lp) = Some d"
    by (rule kqueue_inv_loop [OF wf(2) f(3)])
  have p: "st_tdata s (t_platform_data tm) \<noteq> None" using f(5) by simp
  note flags = kq_flags_step [OF wf p]
  from f(1) t f(2,4,5,3) d show ?thesis
  proof (cases rule: kqueue_timer_stop_cases [where K = K])
    case idle
    then show ?thesis using wf by (intro exI [of _ PD_OK] exI [of _ s]) simp
  next
    case (deleted r k en)
    let ?s1 = "s\<lparr>st_tdata := (st_tdata s)(t_platform_data tm \<mapsto> \<lparr>kt_registered = False, kt_pending_initial = False\<rparr>),
      st_kernel := k, st_errno := en\<rparr>"
    have "lists_change (\<lambda>_ ws. ws) s ?s1" by (rule lists_change_cong [of _ s s]) simp_all
    then show ?thesis using deleted(3) flags by (intro exI [of _ PD_OK] exI [of _ ?s1]) simp
  qed
qed

section \<open>Destroy\<close>

lemma kqueue_destroy_timer_law:
  assumes wf: "pd_wf s" "kqueue_inv s" "kqueue_tinv {} s" and t: "st_timers s t = Some tm"
  shows "\<exists>s' tm'. kqueue_timer_destroy t s = Some (True, s') \<and> pd_wf s' \<and> kqueue_inv s' \<and>
    st_timers s' = (st_timers s)(t \<mapsto> tm') \<and> kqueue_tinv {} (s'\<lparr>st_timers := (st_timers s)(t := None)\<rparr>) \<and>
    st_tdata s' = (st_tdata s)(t_platform_data tm := None) \<and>
    st_watchers s' = (st_watchers s)(t_watcher tm := None) \<and>
    lists_change (\<lambda>_ ws. remove1 (t_watcher tm) ws) s s'"
proof -
  obtain td lp x where f: "t \<noteq> NULL" "t_loop tm \<noteq> NULL" "st_loops s (t_loop tm) = Some lp"
    "t_platform_data tm \<noteq> NULL" "st_tdata s (t_platform_data tm) = Some td" "\<not> t_owns_watcher tm"
    "t_watcher tm \<noteq> NULL" "st_watchers s (t_watcher tm) = Some x" "w_loop x = t_loop tm" "w_user_data x = t"
    by (rule kqueue_timer_facts [OF wf(3) t])
  let ?w = "t_watcher tm" and ?p = "t_platform_data tm" and ?l = "t_loop tm"
  let ?s1 = "s\<lparr>st_tdata := (st_tdata s)(?p := None), st_timers := (st_timers s)(t \<mapsto> tm\<lparr>t_platform_data := NULL\<rparr>)\<rparr>"
  have s1: "pd_wf ?s1" "kqueue_inv ?s1" "st_loops ?s1 ?l = Some lp"
    using wf(1) kqueue_inv_cong [OF wf(2), of ?s1] f(3) by simp_all
  obtain r s2 where s2: "pd_loop_remove_watcher ?l ?w ?s1 = Some (r, s2)" "pd_wf s2" "kqueue_inv s2"
    "st_watchers s2 = st_watchers ?s1" "lists_become (\<lambda>k ws. if k = ?l then remove1 ?w ws else ws) ?s1 s2"
    by (rule kqueue.remove_step [OF s1(1,2) f(7) s1(3)])
  have all: "lists_become (\<lambda>k. remove1 ?w) ?s1 s2"
  proof (rule lists_become_cong [OF s2(5)])
    fix k kp assume "st_loops ?s1 k = Some kp"
    then have "st_loops s k = Some kp" by simp
    then have "?w \<in> set (watcher_list kp) \<Longrightarrow> k = ?l" using pd_wf_listed [OF wf(1) _ _ f(8)] f(9) by metis
    then show "(if k = ?l then remove1 ?w (watcher_list kp) else watcher_list kp) = remove1 ?w (watcher_list kp)"
      by (metis remove1_idem)
  qed
  have un: "?w \<notin> set (watcher_list kp2)" if kp2: "st_loops s2 k = Some kp2" for k kp2
  proof -
    obtain kp where "st_loops ?s1 k = Some kp" "watcher_list kp2 = remove1 ?w (watcher_list kp)"
      by (rule lists_become_back [OF all kp2])
    then show ?thesis using pd_wf_loop [OF wf(1), of k kp] by (simp add: loop_ok_def)
  qed
  have w2: "st_watchers s2 ?w = Some x" using s2(4) f(8) by simp
  obtain s3 where s3: "free_watcher ?w s2 = Some s3" "pd_wf s3" "kqueue_inv s3"
    "st_watchers s3 = (st_watchers s2)(?w := None)" "s3 = s2\<lparr>st_watchers := (st_watchers s2)(?w := None)\<rparr>"
    by (rule kqueue.free_step [OF s2(2,3) w2]) (erule un)
  have fr: "st_timers s3 = (st_timers s)(t \<mapsto> tm\<lparr>t_platform_data := NULL\<rparr>)" "st_tdata s3 = (st_tdata s)(?p := None)"
    "st_watchers s3 = (st_watchers s)(?w := None)"
    using all s2(4) by (simp_all add: lists_become_def s3(5))
  let ?tm = "tm\<lparr>t_platform_data := NULL, t_watcher := NULL\<rparr>"
  let ?s' = "s3\<lparr>st_timers := (st_timers s)(t \<mapsto> ?tm)\<rparr>"
  have run: "kqueue_timer_destroy t s = Some (True, ?s')"
    using f t s2(1) s3(1) fr(1) by (simp add: kqueue_timer_destroy_def heap_free_def [of st_tdata] heap_write_def)
  have change: "lists_change (\<lambda>_ ws. remove1 ?w ws) s ?s'"
    using lists_become_change [OF all] by (rule lists_change_cong) (simp_all add: s3(5))
  have "kqueue_tinv {} (?s'\<lparr>st_timers := (st_timers s)(t := None)\<rparr>)"
  proof (rule kqueue_tinvI)
    fix t1 tm1 assume "st_timers (?s'\<lparr>st_timers := (st_timers s)(t := None)\<rparr>) t1 = Some tm1"
    then have t1: "st_timers s t1 = Some tm1" "t1 \<noteq> t" by (simp_all split: if_splits)
    have "t_platform_data tm1 \<noteq> ?p" using kqueue_tinv_inj [OF wf(3) t1(1) t] t1(2) by blast
    moreover have "t_watcher tm1 \<noteq> ?w"
      using kqueue_tinv_timer [OF wf(3) t1(1)] t1(2) f(8,10)
      by (auto simp: kqueue_timer_ok_def placeholder_def split: if_splits)
    moreover have "st_loops ?s' (t_loop tm1) \<noteq> None"
      using kqueue_tinv_timer [OF wf(3) t1(1)] lists_change_loop [OF change] by (simp add: kqueue_timer_ok_def)
    ultimately show "kqueue_timer_ok (?s'\<lparr>st_timers := (st_timers s)(t := None)\<rparr>) t1 tm1"
      using kqueue_tinv_timer [OF wf(3) t1(1)] by (simp add: kqueue_timer_ok_def placeholder_def fr)
  next
    fix t1 t2 tm1 tm2
    assume "st_timers (?s'\<lparr>st_timers := (st_timers s)(t := None)\<rparr>) t1 = Some tm1"
      "st_timers (?s'\<lparr>st_timers := (st_timers s)(t := None)\<rparr>) t2 = Some tm2"
      and eq: "t_platform_data tm1 = t_platform_data tm2"
    then have "st_timers s t1 = Some tm1" "st_timers s t2 = Some tm2" by (simp_all split: if_splits)
    from kqueue_tinv_inj [OF wf(3) this eq] show "t1 = t2" .
  qed
  moreover have "kqueue_inv ?s'" using kqueue_inv_cong [OF s3(3), of ?s'] by simp
  ultimately show ?thesis
    using run change s3(2) fr by (intro exI [of _ ?s'] exI [of _ ?tm]) simp
qed

section \<open>The contract of timers is met\<close>

lemma kqueue_tinv_laws:
  shows kqueue_tinv_loop: "kqueue_tinv A s \<Longrightarrow> st_timers s t = Some tm \<Longrightarrow>
      t \<noteq> NULL \<and> t_loop tm \<noteq> NULL \<and> st_loops s (t_loop tm) \<noteq> None"
    and kqueue_tinv_watcher: "kqueue_tinv {} s \<Longrightarrow> st_timers s t = Some tm \<Longrightarrow>
      t_watcher tm \<noteq> NULL \<and> (\<exists>wt. st_watchers s (t_watcher tm) = Some wt \<and> w_loop wt \<noteq> NULL)"
    and kqueue_tinv_owns: "kqueue_tinv A s \<Longrightarrow> st_timers s t = Some tm \<Longrightarrow> \<not> t_owns_watcher tm"
proof -
  show "kqueue_tinv A s \<Longrightarrow> st_timers s t = Some tm \<Longrightarrow> t \<noteq> NULL \<and> t_loop tm \<noteq> NULL \<and> st_loops s (t_loop tm) \<noteq> None"
    by (drule (1) kqueue_tinv_timer) (simp add: kqueue_timer_ok_def)
  show "t_watcher tm \<noteq> NULL \<and> (\<exists>wt. st_watchers s (t_watcher tm) = Some wt \<and> w_loop wt \<noteq> NULL)"
    if "kqueue_tinv {} s" "st_timers s t = Some tm"
    by (rule kqueue_timer_facts [OF that]) simp
  show "kqueue_tinv A s \<Longrightarrow> st_timers s t = Some tm \<Longrightarrow> \<not> t_owns_watcher tm"
    by (drule (1) kqueue_tinv_timer) (simp add: kqueue_timer_ok_def)
qed

lemma kqueue_tinv_active:
  assumes inv: "kqueue_tinv A s" and t: "st_timers s t = Some tm"
  shows "kqueue_tinv A (s\<lparr>st_timers := (st_timers s)(t \<mapsto> tm\<lparr>t_active := b\<rparr>)\<rparr>)"
proof (rule kqueue_tinvI)
  fix t1 tm1 assume "st_timers (s\<lparr>st_timers := (st_timers s)(t \<mapsto> tm\<lparr>t_active := b\<rparr>)\<rparr>) t1 = Some tm1"
  then show "kqueue_timer_ok (s\<lparr>st_timers := (st_timers s)(t \<mapsto> tm\<lparr>t_active := b\<rparr>)\<rparr>) t1 tm1"
    using kqueue_tinv_timer [OF inv, of t1 tm1] kqueue_tinv_timer [OF inv t]
    by (auto simp: kqueue_timer_ok_def placeholder_def split: if_splits)
next
  fix t1 t2 tm1 tm2
  assume "st_timers (s\<lparr>st_timers := (st_timers s)(t \<mapsto> tm\<lparr>t_active := b\<rparr>)\<rparr>) t1 = Some tm1"
    "st_timers (s\<lparr>st_timers := (st_timers s)(t \<mapsto> tm\<lparr>t_active := b\<rparr>)\<rparr>) t2 = Some tm2"
    "t_platform_data tm1 = t_platform_data tm2"
  then have "\<exists>x1 x2. st_timers s t1 = Some x1 \<and> st_timers s t2 = Some x2 \<and> t_platform_data x1 = t_platform_data x2"
    using t by (auto split: if_splits)
  then show "t1 = t2" using kqueue_tinv_inj [OF inv] by blast
qed

lemma kqueue_tinv_alloc: "kqueue_tinv A s \<Longrightarrow> upd_alloc s s' \<Longrightarrow> kqueue_tinv A s'"
  by (erule kqueue_tinv_cong) (simp_all add: upd_alloc_frame)

interpretation kqt: timer_backend "pd_platform_kqueue K ident U" "kqueue_watcher_register K" "kqueue_watcher_unregister K"
    "kqueue_watcher_update K" kqueue_inv kqueue_timer_create "kqueue_timer_start K" "kqueue_timer_stop K"
    kqueue_timer_destroy kqueue_tinv for K ident U
proof (intro timer_backend.intro timer_backend_axioms.intro)
  show "watcher_backend (pd_platform_kqueue K ident U) (kqueue_watcher_register K) (kqueue_watcher_unregister K)
      (kqueue_watcher_update K) kqueue_inv" by unfold_locales
next
  fix s s' :: "'a kqueue_state" and t tm
  assume "kqueue_tinv {} s" "st_timers s t = Some tm" "t_owns_watcher tm"
  then show "kqueue_tinv {t} (s'\<lparr>st_timers := (st_timers s)(t \<mapsto> tm\<lparr>t_watcher := NULL\<rparr>)\<rparr>)"
    using kqueue_tinv_owns by blast
next
  fix s :: "'a kqueue_state" and t tm
  assume wf: "pd_wf s" "kqueue_inv s" and t: "st_timers s t = Some tm"
    and inv: "if t_owns_watcher tm then kqueue_tinv {t} s \<and> t_watcher tm = NULL else kqueue_tinv {} s"
  have o: "\<not> t_owns_watcher tm" using inv kqueue_tinv_owns [OF _ t] by (auto split: if_splits)
  with inv have "kqueue_tinv {} s" by simp
  from kqueue_destroy_timer_law [OF wf this t] show "\<exists>s' tm'. kqueue_timer_destroy t s = Some (True, s') \<and> pd_wf s' \<and>
      kqueue_inv s' \<and> st_timers s' = (st_timers s)(t \<mapsto> tm') \<and> kqueue_tinv {} (s'\<lparr>st_timers := (st_timers s)(t := None)\<rparr>) \<and>
      st_tdata s' = (st_tdata s)(t_platform_data tm := None) \<and>
      st_watchers s' = (if t_owns_watcher tm then st_watchers s else (st_watchers s)(t_watcher tm := None)) \<and>
      lists_change (\<lambda>_ ws. if t_owns_watcher tm then ws else remove1 (t_watcher tm) ws) s s'"
    using o by simp
qed (rule kqueue_table kqueue_tinv_loop kqueue_tinv_watcher kqueue_tinv_active kqueue_tinv_alloc
    kqueue_create_timer_law kqueue_start_timer_law kqueue_stop_timer_law; (assumption | rule refl))+

end
