(* ===== verification/Pd_Kqueue_Props.thy ===== *)
theory Pd_Kqueue_Props
  imports Pd_Kqueue_Timer
begin

text \<open>
  The properties of the watcher and loop operations on the BSDs and macOS: which filters the
  kernel has after a registration, an update and an unregistration. The witnesses are runs on
  one example state over the kernel of \<open>Pd_BSD\<close>.
\<close>

section \<open>The example state\<close>

text \<open>
  A loop with three watchers: 10 is registered for reading descriptor 7; 11 is not registered;
  12 is stale, that is, its descriptor was closed and its number, 7 again, belongs to 10 now.
  The registration table is full, so that the next registration grows it.
\<close>

definition kx_watcher :: "int \<Rightarrow> pd_event \<Rightarrow> bool \<Rightarrow> addr \<Rightarrow> pd_watcher" where
  "kx_watcher fd ev active p = (new_watcher 1 fd ev (Some (Cb_user 0)) NULL)\<lparr>w_active := active, w_platform_data := p\<rparr>"

definition kx_data :: pd_kqueue_data where
  "kx_data = (new_kqueue_data 3 99 2)\<lparr>registrations := [Some \<lparr>reg_fd = 7, reg_watcher = 10\<rparr>],
     registration_count := 1, registration_capacity := 1\<rparr>"

definition kx_wdata :: "addr \<Rightarrow> pd_kqueue_watcher_data" where
  "kx_wdata w = set_filters 7 PD_EVENT_READ w zero_kqueue_watcher_data"

definition kx_kernel :: ref_bsd_kernel where
  "kx_kernel = \<lparr>rb_open = [3, 6, 7],
     rb_knotes = [((3, 99, EVFILT_USER), knote_of (wake_filter 99)),
       ((3, 7, EVFILT_READ), knote_of (add_filter 7 EVFILT_READ PD_EVENT_READ 10))],
     rb_ready = [((7, EVFILT_READ), 0)]\<rparr>"

definition kx_loop :: pd_loop where
  "kx_loop = (example_loop 4 [10, 11, 12])\<lparr>l_ops := Some Ops_kqueue\<rparr>"

definition kx_state :: "ref_bsd_kernel kqueue_state" where
  "kx_state = (init_state kx_kernel True [Gives 601, Gives 700, Gives 800, Gives 900])\<lparr>
     st_loops := [1 \<mapsto> kx_loop],
     st_watchers := [10 \<mapsto> kx_watcher 7 PD_EVENT_READ True 600, 11 \<mapsto> kx_watcher 6 (PD_EVENT_READ OR PD_EVENT_WRITE) False NULL,
       12 \<mapsto> kx_watcher 7 PD_EVENT_READ True 602],
     st_ldata := [500 \<mapsto> kx_data], st_wdata := [600 \<mapsto> kx_wdata 10, 602 \<mapsto> kx_wdata 12]\<rparr>"

lemma kx_state_simps [simp]:
  "st_loops kx_state = [1 \<mapsto> kx_loop]"
  "st_watchers kx_state = [10 \<mapsto> kx_watcher 7 PD_EVENT_READ True 600,
     11 \<mapsto> kx_watcher 6 (PD_EVENT_READ OR PD_EVENT_WRITE) False NULL, 12 \<mapsto> kx_watcher 7 PD_EVENT_READ True 602]"
  "st_ldata kx_state = [500 \<mapsto> kx_data]" "st_wdata kx_state = [600 \<mapsto> kx_wdata 10, 602 \<mapsto> kx_wdata 12]"
  "st_timers kx_state = (\<lambda>_. None)" "st_tdata kx_state = (\<lambda>_. None)"
  "st_kernel kx_state = kx_kernel" "st_thread_safe kx_state" "st_default_loop kx_state = NULL"
  by (simp_all add: kx_state_def init_state_def)

lemma kx_loop_simps [simp]:
  "l_platform_data kx_loop = 500" "l_ops kx_loop = Some Ops_kqueue" "watcher_list kx_loop = [10, 11, 12]"
  "l_ref_count kx_loop = 1" "\<not> l_stop_requested kx_loop" "l_watcher_count kx_loop = 3"
  "mutex_ready kx_loop s" "wf_array kx_loop" "l_system_error kx_loop = 0"
proof -
  have "watcher_list kx_loop = watcher_list (example_loop 4 [10, 11, 12])" "wf_array kx_loop = wf_array (example_loop 4 [10, 11, 12])"
    by (simp_all add: kx_loop_def watcher_list_def wf_array_def)
  then show "watcher_list kx_loop = [10, 11, 12]" "wf_array kx_loop" by simp_all
qed (simp_all add: kx_loop_def mutex_ready_def uses_mutex_def example_loop_def zero_loop_def)

lemma kx_watcher_simps [simp]:
  "w_fd (kx_watcher fd ev a p) = fd" "w_loop (kx_watcher fd ev a p) = 1" "w_active (kx_watcher fd ev a p) = a"
  "w_platform_data (kx_watcher fd ev a p) = p" "w_events (kx_watcher fd ev a p) = ev"
  "w_callback (kx_watcher fd ev a p) = Some (Cb_user 0)" "w_user_data (kx_watcher fd ev a p) = NULL"
  by (simp_all add: kx_watcher_def)

lemma kx_data_simps [simp]:
  "reg_list kx_data = [\<lparr>reg_fd = 7, reg_watcher = 10\<rparr>]" "unique_table kx_data" "wf_table kx_data"
  "owner kx_data = [7 \<mapsto> 10]" "kd_kqueue_fd kx_data = 3" "kd_async_ident kx_data = 99"
  "kqueue_data_ok kx_data" "length (kd_events kx_data) = 2"
  by (simp_all add: kx_data_def reg_list_def arr_list_def unique_table_def wf_table_def owner_def
      kqueue_data_ok_def new_kqueue_data_def)

lemma kx_pd_wf [simp]: "pd_wf kx_state"
  by (auto simp: pd_wf_def loop_ok_def watcher_ok_def split: if_splits)

lemma kx_kqueue_inv [simp]: "kqueue_inv kx_state"
  by (auto simp: kqueue_inv_def owned_def loop_pdata_def watcher_pdata_def split: if_splits)

lemma kx_status_ok [simp]: "status_ok kx_state"
  by (auto simp: status_ok_def split: if_splits)

definition kx_quiet :: "'k kqueue_callbacks" where
  "kx_quiet f l w ev ud s = Some s"

section \<open>The filters of a watcher\<close>

text \<open>The two filters that can be a watcher's, and the entry that names it.\<close>

definition wants :: "pd_event \<Rightarrow> evfilt \<Rightarrow> bool" where
  "wants ev filt \<longleftrightarrow> filt = EVFILT_READ \<and> has_flag ev PD_EVENT_READ \<or> filt = EVFILT_WRITE \<and> has_flag ev PD_EVENT_WRITE"

definition filter_entry :: "pd_event \<Rightarrow> addr \<Rightarrow> knote" where
  "filter_entry ev w = \<lparr>kn_enabled = True, kn_flags = (if has_flag ev PD_EVENT_EDGE then EV_CLEAR else 0),
     kn_fflags = 0, kn_data = 0, kn_udata = w\<rparr>"

definition with_filters :: "int \<Rightarrow> pd_event \<Rightarrow> addr \<Rightarrow> (ev_key \<Rightarrow> knote option) \<Rightarrow> ev_key \<Rightarrow> knote option" where
  "with_filters fd ev w m key = (if fst key = uintptr_of_int fd \<and> wants ev (snd key) then Some (filter_entry ev w) else m key)"

definition without_filters :: "int \<Rightarrow> pd_event \<Rightarrow> (ev_key \<Rightarrow> knote option) \<Rightarrow> ev_key \<Rightarrow> knote option" where
  "without_filters fd ev m key = (if fst key = uintptr_of_int fd \<and> wants ev (snd key) then None else m key)"

lemma add_filter_simps [simp]:
  "ev_key (add_filter fd filt ev w) = (uintptr_of_int fd, filt)" "is_add (add_filter fd filt ev w)"
  "\<not> is_delete (add_filter fd filt ev w)" "knote_of (add_filter fd filt ev w) = filter_entry ev w"
proof -
  have m: "(EV_ADD OR EV_ENABLE OR EV_CLEAR) AND (EV_ONESHOT OR EV_CLEAR) = EV_CLEAR"
    "(EV_ADD OR EV_ENABLE OR 0) AND (EV_ONESHOT OR EV_CLEAR) = 0"
    by (rule bit_eqI, auto simp: bit_simps ev_bits)+
  show "knote_of (add_filter fd filt ev w) = filter_entry ev w"
    using m by (auto simp: knote_of_def add_filter_def EV_SET_def filter_entry_def ev_has_flag bit_simps ev_bits)
qed (auto simp: ev_key_def is_add_def is_delete_def add_filter_def EV_SET_def ev_has_flag bit_simps ev_bits)

lemma delete_simps [simp]:
  "is_delete (c\<lparr>ke_flags := EV_DELETE\<rparr>)" "is_delete (EV_SET i filt EV_DELETE ff da u)"
  "ev_key (c\<lparr>ke_flags := x\<rparr>) = ev_key c" "ev_key (EV_SET i filt fl ff da u) = (i, filt)"
  by (simp_all add: is_delete_def ev_has_flag ev_bits EV_SET_def ev_key_def)

lemma register_changes_apply:
  "fold apply_change (register_changes w wt) m = with_filters (w_fd wt) (w_events wt) w m"
  by (auto simp: fun_eq_iff register_changes_def with_filters_def wants_def apply_change_def)

lemma deletions_apply:
  "fold apply_change (deletions (register_changes w wt)) m = without_filters (w_fd wt) (w_events wt) m"
  by (auto simp: fun_eq_iff deletions_def register_changes_def without_filters_def wants_def apply_change_def)

lemma delete_changes_apply:
  "fold apply_change (delete_changes wt) m = without_filters (w_fd wt) (w_events wt) m"
  by (auto simp: fun_eq_iff delete_changes_def without_filters_def wants_def apply_change_def)

text \<open>Whatever the kernel answers, a call touches the keys of its changes only.\<close>

definition same_elsewhere :: "int \<Rightarrow> pd_event \<Rightarrow> (ev_key \<Rightarrow> knote option) \<Rightarrow> (ev_key \<Rightarrow> knote option) \<Rightarrow> bool" where
  "same_elsewhere fd ev m m' \<longleftrightarrow> (\<forall>key. fst key = uintptr_of_int fd \<and> wants ev (snd key) \<or> m' key = m key)"

lemma fold_apply_elsewhere:
  "\<forall>c\<in>set cs. ev_key c \<noteq> key \<Longrightarrow> fold apply_change cs m key = m key"
  by (induction cs arbitrary: m) (auto simp: apply_change_def)

lemma same_elsewhere_trans: "same_elsewhere fd ev a b \<Longrightarrow> same_elsewhere fd ev b c \<Longrightarrow> same_elsewhere fd ev a c"
  unfolding same_elsewhere_def by metis

lemma change_keys:
  "c \<in> set (register_changes w wt) \<Longrightarrow> fst (ev_key c) = uintptr_of_int (w_fd wt) \<and> wants (w_events wt) (snd (ev_key c))"
  "c \<in> set (deletions (register_changes w wt)) \<Longrightarrow> fst (ev_key c) = uintptr_of_int (w_fd wt) \<and> wants (w_events wt) (snd (ev_key c))"
  "c \<in> set (delete_changes wt) \<Longrightarrow> fst (ev_key c) = uintptr_of_int (w_fd wt) \<and> wants (w_events wt) (snd (ev_key c))"
  by (auto simp: register_changes_def deletions_def delete_changes_def wants_def split: if_splits)

lemma change_kinds:
  "\<forall>c\<in>set (register_changes w wt). is_add c \<or> is_delete c"
  "\<forall>c\<in>set (deletions (register_changes w wt)). is_add c \<or> is_delete c"
  "\<forall>c\<in>set (delete_changes wt). is_add c \<or> is_delete c"
  by (auto simp: register_changes_def deletions_def delete_changes_def)

context kqueue_kernel begin

lemma filters_ok:
  assumes "change_filters K kq cs k = (Inr v, k')" "\<forall>c\<in>set cs. is_add c \<or> is_delete c"
  shows "knotes k' = (knotes k)(kq := fold apply_change cs (knotes k kq))"
  using assms change_ok [of kq cs k v k'] by (auto simp: change_filters_def fun_eq_iff split: if_splits)

lemma filters_changed:
  assumes run: "change_filters K kq cs k = (r, k')" and cs: "\<forall>c\<in>set cs. is_add c \<or> is_delete c"
    and keys: "\<And>c. c \<in> set cs \<Longrightarrow> fst (ev_key c) = uintptr_of_int fd \<and> wants ev (snd (ev_key c))"
  shows "\<exists>m. knotes k' = (knotes k)(kq := m) \<and> same_elsewhere fd ev (knotes k kq) m"
proof -
  have same: "same_elsewhere fd ev (knotes k kq) (fold apply_change (take n cs) (knotes k kq))" for n
    unfolding same_elsewhere_def
  proof (intro allI)
    fix key
    show "fst key = uintptr_of_int fd \<and> wants ev (snd key) \<or>
        fold apply_change (take n cs) (knotes k kq) key = knotes k kq key"
      using fold_apply_elsewhere [of "take n cs" key "knotes k kq"] keys in_set_takeD [of _ n cs] by blast
  qed
  show ?thesis
  proof (cases r)
    case (Inr v)
    then show ?thesis using filters_ok [OF run [unfolded Inr] cs] same [of "length cs"] by auto
  next
    case (Inl e)
    then have "bsd_kevent K kq cs 0 None k = (Inl e, k')" "cs \<noteq> []"
      using run by (auto simp: change_filters_def split: if_splits)
    from change_fail [OF this(1) cs this(2)] same show ?thesis by blast
  qed
qed

lemma watcher_filters_changed:
  "change_filters K kq (register_changes w wt) k = (r, k') \<Longrightarrow>
   \<exists>m. knotes k' = (knotes k)(kq := m) \<and> same_elsewhere (w_fd wt) (w_events wt) (knotes k kq) m"
  "change_filters K kq (deletions (register_changes w wt)) k = (r, k') \<Longrightarrow>
   \<exists>m. knotes k' = (knotes k)(kq := m) \<and> same_elsewhere (w_fd wt) (w_events wt) (knotes k kq) m"
  "change_filters K kq (delete_changes wt) k = (r, k') \<Longrightarrow>
   \<exists>m. knotes k' = (knotes k)(kq := m) \<and> same_elsewhere (w_fd wt) (w_events wt) (knotes k kq) m"
  by (rule filters_changed, assumption, rule change_kinds, erule change_keys)+

lemma two_filter_changes:
  assumes "change_filters K kq (register_changes w wt) k = (r1, k1)"
    and "change_filters K kq (deletions (register_changes w wt)) k1 = (r2, k2)"
  shows "\<exists>m. knotes k2 = (knotes k)(kq := m) \<and> same_elsewhere (w_fd wt) (w_events wt) (knotes k kq) m"
proof -
  obtain m1 where m1: "knotes k1 = (knotes k)(kq := m1)" "same_elsewhere (w_fd wt) (w_events wt) (knotes k kq) m1"
    using watcher_filters_changed(1) [OF assms(1)] by auto
  obtain m2 where m2: "knotes k2 = (knotes k1)(kq := m2)" "same_elsewhere (w_fd wt) (w_events wt) (knotes k1 kq) m2"
    using watcher_filters_changed(2) [OF assms(2)] by auto
  have "knotes k2 = (knotes k)(kq := m2)" by (simp only: m1(1) m2(1) fun_upd_upd)
  then show ?thesis using same_elsewhere_trans [OF m1(2)] m2(2) m1(1) by auto
qed

text \<open>The deletions of filters that are all there remove them all.\<close>

lemma present_filters_deleted:
  assumes del: "change_filters K kq (delete_changes wt) k = (r, k')"
    and present: "\<forall>filt. wants (w_events wt) filt \<longrightarrow> knotes k kq (uintptr_of_int (w_fd wt), filt) \<noteq> None"
  shows "knotes k' = (knotes k)(kq := without_filters (w_fd wt) (w_events wt) (knotes k kq))"
proof -
  have "\<exists>v. change_filters K kq (delete_changes wt) k = (Inr v, k')"
  proof (cases "delete_changes wt = []")
    case True
    then show ?thesis using del by (auto simp: change_filters_def)
  next
    case False
    have "\<forall>c\<in>set (delete_changes wt). is_delete c \<and> knotes k kq (ev_key c) \<noteq> None"
      using present by (auto simp: delete_changes_def wants_def)
    moreover have "distinct (map ev_key (delete_changes wt))" by (simp add: delete_changes_def)
    ultimately have "\<exists>v. fst (change_filters K kq (delete_changes wt) k) = Inr v"
      using deletes_work [OF False] False by (simp add: change_filters_def)
    then show ?thesis using del by auto
  qed
  then show ?thesis using filters_ok [OF _ change_kinds(3)] by (metis delete_changes_apply)
qed

end

text \<open>
  C19: a successful registration leaves the kernel with exactly the filters the watcher asks
  for, enabled, edge-triggered if asked for and naming the watcher, and the table with the
  watcher as the owner of its descriptor; a failed one touches no filter but these two and
  leaves no record of the watcher.
\<close>

theorem kqueue_register_filters:
  assumes K: "kqueue_kernel K knotes" and "pd_wf s" and "kqueue_inv s"
    and w: "st_watchers s w = Some wt" "w_loop wt \<noteq> NULL"
    and lp: "st_loops s (w_loop wt) = Some lp" and d: "st_ldata s (l_platform_data lp) = Some d"
    and u: "unique_table d" and new: "w \<notin> ran (owner d)"
  shows "\<exists>r s' d'. kqueue_watcher_register K (w_loop wt) w s = Some (r, s') \<and>
    st_ldata s' (l_platform_data lp) = Some d' \<and> unique_table d' \<and>
    (if r = PD_OK
     then knotes (st_kernel s') = (knotes (st_kernel s))(kd_kqueue_fd d :=
         with_filters (w_fd wt) (w_events wt) w (knotes (st_kernel s) (kd_kqueue_fd d))) \<and>
       owner d' = (owner d)(w_fd wt \<mapsto> w)
     else (\<exists>m. knotes (st_kernel s') = (knotes (st_kernel s))(kd_kqueue_fd d := m) \<and>
         same_elsewhere (w_fd wt) (w_events wt) (knotes (st_kernel s) (kd_kqueue_fd d)) m) \<and>
       w \<notin> ran (owner d') \<and> (owner d' = owner d \<or> owner d' = (owner d)(w_fd wt := None)))"
    (is "\<exists>r s' d'. ?run = Some (r, s') \<and> ?ok r s' d'")
proof -
  have nz: "w \<noteq> NULL" using pd_wf_watcher [OF assms(2) w(1)] by (simp add: watcher_ok_def)
  have dd: "l_platform_data lp \<noteq> NULL" "wf_table d"
    using kqueue_inv_loop [OF assms(3) lp] d by auto
  have own: "owner d (w_fd wt) \<noteq> Some w" using new by (auto simp: ran_def)
  obtain d1 where d1: "evict_stale_registration d (w_fd wt) w = Some d1" "wf_table d1" "upd_table d d1" "unique_table d1"
    "owner d1 = (if owner d (w_fd wt) = None \<or> owner d (w_fd wt) = Some w then owner d else (owner d)(w_fd wt := None))"
    by (rule evict_owner [OF dd(2) u])
  have kq: "kd_kqueue_fd d1 = kd_kqueue_fd d" using d1(3) by (auto elim!: upd_tableE)
  have fd1: "owner d1 (w_fd wt) = None" using d1(5) own by (auto split: if_splits)
  have w1: "w \<notin> ran (owner d1)" using new d1(5) by (auto simp: ran_def split: if_splits)
  have o1: "owner d1 = owner d \<or> owner d1 = (owner d)(w_fd wt := None)" using d1(5) by simp
  have elsewhere0: "\<exists>m'. m = m(k := m') \<and> same_elsewhere fd ev (m k) m'" for m :: "int \<Rightarrow> ev_key \<Rightarrow> knote option" and k fd ev
    by (intro exI [of _ "m k"]) (simp add: same_elsewhere_def)
  note laws = kqueue_kernel.watcher_filters_changed [OF K] kqueue_kernel.filters_ok [OF K]
  note facts = lp w(2,1) nz dd(1) d dd(2) d1(1,2)
  from facts show ?thesis
  proof (cases rule: kregister_cases [where K = K])
    case (no_data s' e)
    then show ?thesis
      using d u new elsewhere0 [of "knotes (st_kernel s)"]
      by (intro exI [of _ PD_ERR_NO_MEMORY] exI [of _ s'] exI [of _ d]) auto
  next
    case (refused s' e k1)
    have "\<exists>m. knotes k1 = (knotes (st_kernel s))(kd_kqueue_fd d := m) \<and>
        same_elsewhere (w_fd wt) (w_events wt) (knotes (st_kernel s) (kd_kqueue_fd d)) m"
      using laws(1) [OF refused(2)] kq by simp
    then show ?thesis
      using refused(1,3) d1(4) w1 o1 by (intro exI [of _ PD_ERR_SYSTEM] exI [of _ s'] exI [of _ d1]) auto
  next
    case (no_room s' e k1 r2 k2 v)
    have "\<exists>m. knotes k2 = (knotes (st_kernel s))(kd_kqueue_fd d := m) \<and>
        same_elsewhere (w_fd wt) (w_events wt) (knotes (st_kernel s) (kd_kqueue_fd d)) m"
      using kqueue_kernel.two_filter_changes [OF K no_room(2,3)] kq by simp
    then show ?thesis
      using no_room(1,4) d1(4) w1 o1 by (intro exI [of _ PD_ERR_NO_MEMORY] exI [of _ s'] exI [of _ d1]) auto
  next
    case (ok s' k1 d2 p v)
    have "knotes k1 = (knotes (st_kernel s))(kd_kqueue_fd d :=
         with_filters (w_fd wt) (w_events wt) w (knotes (st_kernel s) (kd_kqueue_fd d)))"
      using laws(4) [OF ok(2) change_kinds(1)] kq by (auto simp: register_changes_apply)
    moreover have "unique_table d2" "owner d2 = (owner d1)(w_fd wt \<mapsto> w)"
      using store_owner [OF d1(4) fd1 w1 ok(7)] by simp_all
    moreover have "(owner d1)(w_fd wt \<mapsto> w) = (owner d)(w_fd wt \<mapsto> w)" using o1 by auto
    ultimately show ?thesis
      using ok(1,8) by (intro exI [of _ PD_OK] exI [of _ s'] exI [of _ d2]) auto
  qed
qed

theorem kqueue_register_filters_witness:
  "\<exists>s'. kqueue_watcher_register ref_bsd 1 11 kx_state = Some (PD_OK, s') \<and>
    rb_knote (st_kernel s') 3 (6, EVFILT_READ) = Some (filter_entry (PD_EVENT_READ OR PD_EVENT_WRITE) 11) \<and>
    rb_knote (st_kernel s') 3 (6, EVFILT_WRITE) = Some (filter_entry (PD_EVENT_READ OR PD_EVENT_WRITE) 11)"
proof -
  let ?w = "kx_watcher 6 (PD_EVENT_READ OR PD_EVENT_WRITE) False NULL"
  have ok: "map_option fst (kqueue_watcher_register ref_bsd 1 11 kx_state) = Some PD_OK" by code_simp
  have w: "st_watchers kx_state 11 = Some ?w" "w_loop ?w \<noteq> NULL" by simp_all
  have lp: "st_loops kx_state (w_loop ?w) = Some kx_loop" "st_ldata kx_state (l_platform_data kx_loop) = Some kx_data"
    "unique_table kx_data" "11 \<notin> ran (owner kx_data)" by (simp_all add: ran_def)
  have flags: "with_filters 6 (PD_EVENT_READ OR PD_EVENT_WRITE) 11 m (6, EVFILT_READ) = Some (filter_entry (PD_EVENT_READ OR PD_EVENT_WRITE) 11)"
    "with_filters 6 (PD_EVENT_READ OR PD_EVENT_WRITE) 11 m (6, EVFILT_WRITE) = Some (filter_entry (PD_EVENT_READ OR PD_EVENT_WRITE) 11)" for m
    by (auto simp: with_filters_def wants_def event_has_flag bit_simps event_bits uintptr_of_int_def)
  from kqueue_register_filters [OF rb.kqueue_kernel_axioms kx_pd_wf kx_kqueue_inv w lp] ok
  show ?thesis by (auto simp: flags)
qed

text \<open>
  C18: unregistering always succeeds for a registered watcher and frees its data. If the watcher
  owns its descriptor, its record goes and no filter changes but those it asks for, which are
  gone if the kernel had them; a stale watcher makes no system call, and the kernel and the
  table stay exactly as they were.
\<close>

theorem kqueue_unregister_filters:
  assumes K: "kqueue_kernel K knotes" and "pd_wf s" and "kqueue_inv s"
    and w: "st_watchers s w = Some wt" "w_loop wt \<noteq> NULL" "w_platform_data wt \<noteq> NULL"
    and lp: "st_loops s (w_loop wt) = Some lp" and d: "st_ldata s (l_platform_data lp) = Some d"
    and u: "unique_table d"
  shows "\<exists>s' d'. kqueue_watcher_unregister K w s = Some (PD_OK, s') \<and>
    st_ldata s' (l_platform_data lp) = Some d' \<and> unique_table d' \<and> st_wdata s' (w_platform_data wt) = None \<and>
    (if w \<in> ran (owner d)
     then (\<exists>fd. owner d fd = Some w \<and> owner d' = (owner d)(fd := None)) \<and>
       (\<exists>m. knotes (st_kernel s') = (knotes (st_kernel s))(kd_kqueue_fd d := m) \<and>
         same_elsewhere (w_fd wt) (w_events wt) (knotes (st_kernel s) (kd_kqueue_fd d)) m \<and>
         ((\<forall>filt. wants (w_events wt) filt \<longrightarrow> knotes (st_kernel s) (kd_kqueue_fd d) (uintptr_of_int (w_fd wt), filt) \<noteq> None) \<longrightarrow>
           m = without_filters (w_fd wt) (w_events wt) (knotes (st_kernel s) (kd_kqueue_fd d))))
     else st_kernel s' = st_kernel s \<and> d' = d)"
proof -
  have nz: "w \<noteq> NULL" using pd_wf_watcher [OF assms(2) w(1)] by (simp add: watcher_ok_def)
  have dd: "l_platform_data lp \<noteq> NULL" "wf_table d"
    using kqueue_inv_loop [OF assms(3) lp] d by auto
  note facts = w(1) nz w(2) lp dd(1) d dd(2) kqueue_inv_watcher [OF assms(3) w(1)]
  from facts show ?thesis
  proof (cases rule: kunregister_cases [where K = K])
    case unregistered
    then show ?thesis using w(3) by simp
  next
    case absent
    have "w \<notin> ran (owner d)"
      by (rule find_owner [OF dd(2) u, of w]) (use absent(2) in auto)
    then show ?thesis using absent(3) d u
      by (intro exI [of _ "s\<lparr>st_wdata := (st_wdata s)(w_platform_data wt := None),
           st_watchers := (st_watchers s)(w \<mapsto> wt\<lparr>w_platform_data := NULL\<rparr>)\<rparr>"] exI [of _ d]) simp
  next
    case (removed i r k1 d' en)
    obtain fd where fd: "owner d fd = Some w" "unique_table d'" "owner d' = (owner d)(fd := None)"
      by (rule find_owner [OF dd(2) u, of w]) (use removed(2,4) in auto)
    obtain m where m: "knotes k1 = (knotes (st_kernel s))(kd_kqueue_fd d := m)"
      "same_elsewhere (w_fd wt) (w_events wt) (knotes (st_kernel s) (kd_kqueue_fd d)) m"
      using kqueue_kernel.watcher_filters_changed(3) [OF K removed(3)] by blast
    have gone: "m = without_filters (w_fd wt) (w_events wt) (knotes (st_kernel s) (kd_kqueue_fd d))"
      if present: "\<forall>filt. wants (w_events wt) filt \<longrightarrow> knotes (st_kernel s) (kd_kqueue_fd d) (uintptr_of_int (w_fd wt), filt) \<noteq> None"
      using kqueue_kernel.present_filters_deleted [OF K removed(3) present] m(1) by (metis fun_upd_same)
    have "w \<in> ran (owner d)" using fd(1) by (auto simp: ran_def)
    then show ?thesis using removed(9) fd m gone
      by (intro exI [of _ "s\<lparr>st_kernel := k1, st_errno := en, st_ldata := (st_ldata s)(l_platform_data lp \<mapsto> d'),
           st_wdata := (st_wdata s)(w_platform_data wt := None),
           st_watchers := (st_watchers s)(w \<mapsto> wt\<lparr>w_platform_data := NULL\<rparr>)\<rparr>"] exI [of _ d']) auto
  qed
qed

text \<open>The witness: the owner of descriptor 7, and the stale watcher of the same number.\<close>

theorem kqueue_unregister_filters_witness:
  "(\<exists>s'. kqueue_watcher_unregister ref_bsd 10 kx_state = Some (PD_OK, s') \<and>
      rb_knote (st_kernel s') 3 (7, EVFILT_READ) = None) \<and>
   (\<exists>s'. kqueue_watcher_unregister ref_bsd 12 kx_state = Some (PD_OK, s') \<and> st_kernel s' = kx_kernel)"
proof -
  let ?w = "kx_watcher 7 PD_EVENT_READ True 600" and ?v = "kx_watcher 7 PD_EVENT_READ True 602"
  have w: "st_watchers kx_state 10 = Some ?w" "w_loop ?w \<noteq> NULL" "w_platform_data ?w \<noteq> NULL"
    and v: "st_watchers kx_state 12 = Some ?v" "w_loop ?v \<noteq> NULL" "w_platform_data ?v \<noteq> NULL"
    and lp: "st_loops kx_state (w_loop ?w) = Some kx_loop" "st_loops kx_state (w_loop ?v) = Some kx_loop"
    and d: "st_ldata kx_state (l_platform_data kx_loop) = Some kx_data" "unique_table kx_data" by simp_all
  have ran: "ran (owner kx_data) = {10}" by auto
  have wants: "wants PD_EVENT_READ filt \<longleftrightarrow> filt = EVFILT_READ" for filt
    by (auto simp: wants_def event_has_flag event_bits)
  have k: "rb_knote kx_kernel 3 (7, EVFILT_READ) \<noteq> None" "uintptr_of_int 7 = 7"
    by (simp_all add: rb_knote_def kx_kernel_def uintptr_of_int_def)
  show ?thesis
    using kqueue_unregister_filters [OF rb.kqueue_kernel_axioms kx_pd_wf kx_kqueue_inv w lp(1) d]
      kqueue_unregister_filters [OF rb.kqueue_kernel_axioms kx_pd_wf kx_kqueue_inv v lp(2) d] k
    by (auto simp: ran wants without_filters_def)
qed

section \<open>Updates\<close>

lemma update_changes_same [simp]: "w_events wt = ev \<Longrightarrow> update_changes w wt ev = []"
  by (simp add: update_changes_def)

text \<open>
  C36: \<^verbatim>\<open>pd_watcher_update\<close> stores the new mask in the watcher before it calls the backend, which
  compares the new mask with the one the watcher holds: it never finds a difference. An update
  of a registered watcher therefore reports success and leaves the kernel exactly as it was,
  for every old and every new mask.
\<close>

theorem kqueue_update_never_reaches_kernel:
  assumes wf: "pd_wf s" "kqueue_inv s" and w: "st_watchers s w = Some wt" "w_loop wt \<noteq> NULL"
  shows "\<exists>r s' y. pd_watcher_update (pd_platform_kqueue K ident U) w ev s = Some (r, s') \<and>
    st_kernel s' = st_kernel s \<and> st_watchers s' w = Some y \<and>
    (w_active wt \<and> w_platform_data wt \<noteq> NULL \<longrightarrow> r = PD_OK \<and> w_events y = ev)"
proof -
  have nz: "w \<noteq> NULL" using pd_wf_watcher [OF wf(1) w(1)] by (simp add: watcher_ok_def)
  show ?thesis
  proof (cases "w_active wt")
    case False
    then have "pd_watcher_update (pd_platform_kqueue K ident U) w ev s = Some (PD_ERR_WATCHER_STOPPED, s)"
      using nz w by (simp add: pd_watcher_update_def)
    then show ?thesis using False w(1) by auto
  next
    case True
    let ?x = "wt\<lparr>w_events := ev\<rparr>" and ?s1 = "s\<lparr>st_watchers := (st_watchers s)(w \<mapsto> wt\<lparr>w_events := ev\<rparr>)\<rparr>"
    obtain lp where lp: "st_loops s (w_loop wt) = Some lp"
        "loop_op op_watcher_update (pd_platform_kqueue K ident U) lp = Some (kqueue_watcher_update K)"
      by (rule kql.loop_after_write [OF wf(1) w])
    have run: "pd_watcher_update (pd_platform_kqueue K ident U) w ev s = kqueue_watcher_update K w ev ?s1"
      using nz w True lp by (simp add: pd_watcher_update_def heap_write_def)
    have x: "st_watchers ?s1 w = Some ?x" "w_loop ?x \<noteq> NULL" "st_loops ?s1 (w_loop ?x) = Some lp"
      using w lp(1) by simp_all
    have inv: "kqueue_inv ?s1" using kql.write_status(2) [OF wf w(1), of ?x] by simp
    obtain d where d: "l_platform_data lp \<noteq> NULL" "st_ldata ?s1 (l_platform_data lp) = Some d"
      by (rule kqueue_inv_loop [OF inv x(3)])
    note facts = x(1) nz x(2,3) d kqueue_inv_watcher [OF inv x(1)]
    from facts show ?thesis
    proof (cases rule: kupdate_cases [where K = K and ev = ev])
      case unregistered
      then show ?thesis unfolding run by simp
    next
      case (refused e k1)
      then show ?thesis by (simp add: change_filters_def)
    next
      case (ok p k1 v)
      then show ?thesis unfolding run by (simp add: change_filters_def)
    qed
  qed
qed

theorem kqueue_update_never_reaches_kernel_witness:
  "\<exists>s'. pd_watcher_update (pd_platform_kqueue ref_bsd 99 kx_quiet) 10 PD_EVENT_WRITE kx_state = Some (PD_OK, s') \<and>
    st_kernel s' = kx_kernel"
proof -
  let ?w = "kx_watcher 7 PD_EVENT_READ True 600"
  have w: "st_watchers kx_state 10 = Some ?w" "w_loop ?w \<noteq> NULL" by simp_all
  from kqueue_update_never_reaches_kernel [OF kx_pd_wf kx_kqueue_inv w, where ev = PD_EVENT_WRITE and K = ref_bsd and ident = 99 and U = kx_quiet]
  show ?thesis by auto
qed

text \<open>
  The consequence: a watcher that is registered for reading, updated to writing and then
  destroyed leaves its read filter in the kernel, because its unregistration deletes the
  filters of the mask it holds last: the next wait reports the filter and the dispatch reads
  the freed watcher.
\<close>

theorem kqueue_update_destroy_use_after_free:
  "\<exists>s1 s2. pd_watcher_update (pd_platform_kqueue ref_bsd 99 kx_quiet) 10 PD_EVENT_WRITE kx_state = Some (PD_OK, s1) \<and>
    pd_watcher_destroy (pd_platform_kqueue ref_bsd 99 kx_quiet) 10 s1 = Some s2 \<and>
    st_watchers s2 10 = None \<and> kqueue_loop_run ref_bsd kx_quiet 1 0 s2 = None"
proof -
  let ?P = "pd_platform_kqueue ref_bsd 99 kx_quiet"
  have "(case pd_watcher_update ?P 10 PD_EVENT_WRITE kx_state of None \<Rightarrow> False
    | Some (r, s1) \<Rightarrow> r = PD_OK \<and> (case pd_watcher_destroy ?P 10 s1 of None \<Rightarrow> False
      | Some s2 \<Rightarrow> st_watchers s2 10 = None \<and> Option.is_none (kqueue_loop_run ref_bsd kx_quiet 1 0 s2)))"
    by code_simp
  then show ?thesis
    by (auto split: option.splits prod.splits simp: Option.is_none_def simp del: not_None_eq not_Some_eq split_paired_All)
qed

end
