(* ===== verification/Pd_Kqueue_Dispatch.thy ===== *)
theory Pd_Kqueue_Dispatch
  imports Pd_Kqueue_Props
begin

text \<open>
  The wait of the kqueue backend and its timers: the dispatch over the loop's array delivers
  the list the kernel returned, and what starting a timer and its first event do to the
  kernel's filters.
\<close>

section \<open>Delivering a list of events\<close>

text \<open>
  The end of the first phase of a timer: its filter, which the kernel removed when it fired, is
  added again with the interval.
\<close>

definition rearm :: "'k bsd \<Rightarrow> int \<Rightarrow> addr \<Rightarrow> pd_timer \<Rightarrow> 'k kqueue_state \<Rightarrow> 'k kqueue_state option" where
  "rearm K kq timer t s =
    (if t_platform_data t = NULL then Some s
     else do {
       td \<leftarrow> st_tdata s (t_platform_data t);
       if kt_pending_initial td
       then Some (snd (syscall
           (bsd_kevent K kq [EV_SET (int timer) EVFILT_TIMER (EV_ADD OR EV_ENABLE) NOTE_MSECONDS (t_interval_ms t) timer] 0 None)
           (s\<lparr>st_tdata := (st_tdata s)(t_platform_data t \<mapsto> td\<lparr>kt_pending_initial := False\<rparr>)\<rparr>)))
       else Some s })"

definition kq_deliver ::
  "'k bsd \<Rightarrow> 'k kqueue_callbacks \<Rightarrow> addr \<Rightarrow> int \<Rightarrow> int \<Rightarrow> kevent \<Rightarrow> 'k kqueue_state \<Rightarrow> 'k kqueue_state option" where
  "kq_deliver K U l kq ident e s =
    (if ke_filter e = EVFILT_USER \<and> ke_ident e = ident \<or> ke_udata e = NULL then Some s
     else if ke_filter e = EVFILT_TIMER
     then do {
       t \<leftarrow> st_timers s (ke_udata e);
       case t_callback t of
         None \<Rightarrow> Some s
       | Some cb \<Rightarrow> do {
           s \<leftarrow> rearm K kq (ke_udata e) t s;
           kqueue_callback U cb l (t_watcher t) PD_EVENT_READ (t_user_data t) s } }
     else do {
       w \<leftarrow> st_watchers s (ke_udata e);
       case w_callback w of
         None \<Rightarrow> Some s
       | Some cb \<Rightarrow> kqueue_callback U cb l (ke_udata e) (kqueue_to_events e) (w_user_data w) s })"

fun kq_deliver_all ::
  "'k bsd \<Rightarrow> 'k kqueue_callbacks \<Rightarrow> addr \<Rightarrow> int \<Rightarrow> int \<Rightarrow> kevent list \<Rightarrow> 'k kqueue_state \<Rightarrow> 'k kqueue_state option" where
  "kq_deliver_all K U l kq ident [] s = Some s"
| "kq_deliver_all K U l kq ident (e # es) s = do {
     s \<leftarrow> kq_deliver K U l kq ident e s;
     kq_deliver_all K U l kq ident es s }"

text \<open>What a round reads of the loop's data: a callback must leave it alone.\<close>

definition kq_batch :: "'k kqueue_state \<Rightarrow> addr \<Rightarrow> (kevent c_array \<times> int \<times> int) option" where
  "kq_batch s p = map_option (\<lambda>d. (kd_events d, kd_kqueue_fd d, kd_async_ident d)) (st_ldata s p)"

definition kq_keeps_batch :: "'k kqueue_callbacks \<Rightarrow> addr \<Rightarrow> bool" where
  "kq_keeps_batch U p \<longleftrightarrow> (\<forall>f l w ev ud s s'. U f l w ev ud s = Some s' \<longrightarrow> kq_batch s' p = kq_batch s p)"

lemma rearm_batch: "rearm K kq t tm s = Some s' \<Longrightarrow> kq_batch s' p = kq_batch s p"
  by (auto simp: rearm_def kq_batch_def bind_Some_iff upd_kernel_frame [OF syscall_kernel] split: if_splits)

lemma callback_batch:
  "kq_keeps_batch U p \<Longrightarrow> kqueue_callback U cb l w ev ud s = Some s' \<Longrightarrow> kq_batch s' p = kq_batch s p"
  by (auto simp: kqueue_callback_def kq_keeps_batch_def split: pd_callback.splits)

lemma kq_deliver_batch:
  assumes keep: "kq_keeps_batch U p" and run: "kq_deliver K U l kq ident e s = Some s'"
  shows "kq_batch s' p = kq_batch s p"
  using run
  by (auto simp: kq_deliver_def bind_Some_iff split: if_splits option.splits
      dest!: rearm_batch [where p = p] callback_batch [OF keep])

lemma timer_event_rearm:
  assumes "kq_batch s p = Some (a, kq, ident)"
  shows "kqueue_timer_event K U l p t s =
    (if t = NULL then Some s
     else do {
       tm \<leftarrow> st_timers s t;
       case t_callback tm of
         None \<Rightarrow> Some s
       | Some cb \<Rightarrow> do {
           s \<leftarrow> rearm K kq t tm s;
           kqueue_callback U cb l (t_watcher tm) PD_EVENT_READ (t_user_data tm) s } })"
proof -
  obtain d where d: "st_ldata s p = Some d" "kd_kqueue_fd d = kq" using assms by (auto simp: kq_batch_def)
  show ?thesis
    by (cases "st_timers s t"; cases "t_callback (the (st_timers s t))"; cases "st_tdata s (t_platform_data (the (st_timers s t)))")
      (simp_all add: kqueue_timer_event_def rearm_def heap_write_def d Let_def)
qed

lemma kq_process_event_eq:
  assumes "kq_batch s p = Some (a, kq, ident)" "arr_get a i = Some e"
  shows "kqueue_process_event K U l p i s = kq_deliver K U l kq ident e s"
proof -
  obtain d where "st_ldata s p = Some d" "kd_events d = a" "kd_async_ident d = ident"
    using assms(1) by (auto simp: kq_batch_def)
  then show ?thesis
    using assms(2) by (simp add: kqueue_process_event_def kq_deliver_def timer_event_rearm [OF assms(1)] Let_def)
qed

lemma kq_dispatch_deliver:
  assumes "kq_keeps_batch U p" "kq_batch s p = Some (a, kq, ident)" "\<And>j. j < length es \<Longrightarrow> arr_get a (i + j) = Some (es ! j)"
  shows "kqueue_dispatch K U l p i (length es) s = kq_deliver_all K U l kq ident es s"
  by (rule dispatch_batch [where batch = "\<lambda>s. kq_batch s p" and deliver = "kq_deliver K U l kq ident"
        and proc = "kqueue_process_event K U l p"])
    (use assms(2,3) in \<open>auto simp: kq_process_event_eq dest: kq_deliver_batch [OF assms(1)]\<close>)

definition kq_stored :: "addr \<Rightarrow> kevent list \<Rightarrow> pd_kqueue_data \<Rightarrow> 'k \<Rightarrow> 'k kqueue_state \<Rightarrow> 'k kqueue_state" where
  "kq_stored p evs d k s = s\<lparr>st_kernel := k, st_ldata := (st_ldata s)
     (p \<mapsto> d\<lparr>kd_events := map Some evs @ drop (length evs) (kd_events d)\<rparr>)\<rparr>"

lemma kq_loop_run_eq:
  assumes "st_loops s l = Some lp" "l \<noteq> NULL" "l_platform_data lp \<noteq> NULL" "st_ldata s (l_platform_data lp) = Some d"
  shows "kqueue_loop_run K U l t s =
    (case bsd_kevent K (kd_kqueue_fd d) [] (kd_max_events d) (kqueue_timeout t) (st_kernel s) of
       (Inl e, k) \<Rightarrow>
         if e = EINTR then Some (0, s\<lparr>st_kernel := k, st_errno := e\<rparr>)
         else Some (err_code PD_ERR_SYSTEM, s\<lparr>st_kernel := k, st_errno := e,
                st_loops := (st_loops s)(l \<mapsto> lp\<lparr>l_system_error := e\<rparr>)\<rparr>)
     | (Inr evs, k) \<Rightarrow>
         if length evs > length (kd_events d) then None
         else map_option (Pair (int (length evs)))
           (kqueue_dispatch K U l (l_platform_data lp) 0 (length evs) (kq_stored (l_platform_data lp) evs d k s)))"
proof -
  obtain q k where q: "bsd_kevent K (kd_kqueue_fd d) [] (kd_max_events d) (kqueue_timeout t) (st_kernel s) = (q, k)"
    by fastforce
  show ?thesis
    using assms q by (cases q)
      (simp_all add: kqueue_loop_run_def syscall_def set_error_eq pd_get_current_system_error_def heap_write_def
        kq_stored_def map_conv_bind_option comp_def Let_def)
qed

text \<open>
  C12: the wait refines the delivery of a list: its dispatch, which reads the array again in
  every round, delivers exactly the events the kernel returned, in the kernel's order, each to
  the timer or watcher it names, as long as callbacks do not overwrite the loop's data (by
  running the loop again from inside). The wake-up event is delivered to nobody. A signal
  makes it return 0, any other failure is reported and recorded.
\<close>

theorem kqueue_loop_run_delivers:
  assumes "st_loops s l = Some lp" "l \<noteq> NULL" "l_platform_data lp \<noteq> NULL" "st_ldata s (l_platform_data lp) = Some d"
    and "kq_keeps_batch U (l_platform_data lp)"
  shows "kqueue_loop_run K U l t s =
    (case bsd_kevent K (kd_kqueue_fd d) [] (kd_max_events d) (kqueue_timeout t) (st_kernel s) of
       (Inl e, k) \<Rightarrow>
         if e = EINTR then Some (0, s\<lparr>st_kernel := k, st_errno := e\<rparr>)
         else Some (err_code PD_ERR_SYSTEM, s\<lparr>st_kernel := k, st_errno := e,
                st_loops := (st_loops s)(l \<mapsto> lp\<lparr>l_system_error := e\<rparr>)\<rparr>)
     | (Inr evs, k) \<Rightarrow>
         if length evs > length (kd_events d) then None
         else map_option (Pair (int (length evs)))
           (kq_deliver_all K U l (kd_kqueue_fd d) (kd_async_ident d) evs (kq_stored (l_platform_data lp) evs d k s)))"
proof -
  have "kqueue_dispatch K U l p 0 (length evs) (kq_stored p evs d k s) =
      kq_deliver_all K U l (kd_kqueue_fd d) (kd_async_ident d) evs (kq_stored p evs d k s)"
    if p: "kq_keeps_batch U p" for p evs k
  proof (rule kq_dispatch_deliver [OF p])
    show "kq_batch (kq_stored p evs d k s) p =
        Some (map Some evs @ drop (length evs) (kd_events d), kd_kqueue_fd d, kd_async_ident d)"
      by (simp add: kq_batch_def kq_stored_def)
  qed (simp add: arr_get_stored)
  from this [OF assms(5)] show ?thesis
    unfolding kq_loop_run_eq [OF assms(1-4)] by (auto split: prod.splits sum.splits)
qed

definition kx_event :: kevent where
  "kx_event = \<lparr>ke_ident = 7, ke_filter = EVFILT_READ, ke_flags = 0, ke_fflags = 0, ke_data = 1, ke_udata = 10\<rparr>"

theorem kqueue_loop_run_delivers_witness:
  "\<exists>s'. kqueue_loop_run ref_bsd kx_quiet 1 0 kx_state = Some (1, s') \<and>
     kq_deliver_all ref_bsd kx_quiet 1 3 99 [kx_event] (kq_stored 500 [kx_event] kx_data kx_kernel kx_state) = Some s'"
proof -
  have "kq_keeps_batch kx_quiet (500 :: addr)" by (simp add: kq_keeps_batch_def kx_quiet_def)
  moreover have "bsd_kevent ref_bsd 3 [] (kd_max_events kx_data) (kqueue_timeout 0) kx_kernel = (Inr [kx_event], kx_kernel)"
    by code_simp
  ultimately show ?thesis
    using kqueue_loop_run_delivers [of kx_state 1 kx_loop kx_data kx_quiet ref_bsd 0]
    by (simp add: kq_stored_def kq_deliver_def kx_quiet_def kqueue_callback_def kx_event_def)
qed

end
