(* ===== verification/Pd_Kqueue_Timer_Props.thy ===== *)
theory Pd_Kqueue_Timer_Props
  imports Pd_Kqueue_Dispatch
begin

text \<open>
  What the timers of the kqueue backend do to the kernel: the filter a start installs, its
  replacement when the first phase of a timer ends, and the timer that fires more than once.
\<close>

section \<open>The filter of a timer\<close>

text \<open>
  The filter of a timer: a start asks for the first delay, as a one-shot filter if another
  period is to follow.
\<close>

definition two_phase :: "64 word \<Rightarrow> 64 word \<Rightarrow> bool" where
  "two_phase timeout interval \<longleftrightarrow> 0 < interval \<and> timeout \<noteq> interval \<and> timeout \<noteq> 0"

definition first_delay :: "64 word \<Rightarrow> 64 word \<Rightarrow> 64 word" where
  "first_delay timeout interval =
    (if two_phase timeout interval then timeout else if 0 < interval then interval
     else if timeout = 0 then 1 else timeout)"

definition timer_entry :: "addr \<Rightarrow> 64 word \<Rightarrow> bool \<Rightarrow> knote" where
  "timer_entry t delay oneshot = \<lparr>kn_enabled = True, kn_flags = (if oneshot then EV_ONESHOT else 0),
     kn_fflags = NOTE_MSECONDS, kn_data = delay, kn_udata = t\<rparr>"

lemma timer_filter_simps [simp]:
  "is_add (EV_SET i filt (EV_ADD OR EV_ENABLE) ff da u)" "\<not> is_delete (EV_SET i filt (EV_ADD OR EV_ENABLE) ff da u)"
  "is_add (EV_SET i filt (EV_ADD OR EV_ENABLE OR EV_ONESHOT) ff da u)"
  "\<not> is_delete (EV_SET i filt (EV_ADD OR EV_ENABLE OR EV_ONESHOT) ff da u)"
  "knote_of (EV_SET i filt (EV_ADD OR EV_ENABLE) NOTE_MSECONDS da u) = timer_entry u da False"
  "knote_of (EV_SET i filt (EV_ADD OR EV_ENABLE OR EV_ONESHOT) NOTE_MSECONDS da u) = timer_entry u da True"
proof -
  have m: "(EV_ADD OR EV_ENABLE OR EV_ONESHOT) AND (EV_ONESHOT OR EV_CLEAR) = EV_ONESHOT"
    "(EV_ADD OR EV_ENABLE) AND (EV_ONESHOT OR EV_CLEAR) = 0"
    by (rule bit_eqI, auto simp: bit_simps ev_bits)+
  show "knote_of (EV_SET i filt (EV_ADD OR EV_ENABLE) NOTE_MSECONDS da u) = timer_entry u da False"
    "knote_of (EV_SET i filt (EV_ADD OR EV_ENABLE OR EV_ONESHOT) NOTE_MSECONDS da u) = timer_entry u da True"
    using m by (auto simp: knote_of_def EV_SET_def timer_entry_def ev_has_flag bit_simps ev_bits)
qed (auto simp: is_add_def is_delete_def EV_SET_def ev_has_flag bit_simps ev_bits)

lemma timer_change_facts:
  assumes "timer_change t timeout interval = (pending, c)"
  shows "pending = two_phase timeout interval" "is_add c" "\<not> is_delete c" "ev_key c = (int t, EVFILT_TIMER)"
    "knote_of c = timer_entry t (first_delay timeout interval) (two_phase timeout interval)"
  using assms
  by (auto simp: timer_change_def two_phase_def first_delay_def Let_def split: if_splits)

text \<open>
  C37: starting a stopped timer gives it one filter in the kernel: for its initial delay, and
  one-shot exactly if a different period is to follow, which the flag \<^verbatim>\<open>pending_initial\<close>
  records; a zero delay becomes a millisecond. The timer is active afterwards exactly if the
  kernel accepted the filter, and if not the kernel's filters are those of before. A timer
  without a period gets a periodic filter too.
\<close>

theorem kqueue_timer_start_arms:
  assumes K: "kqueue_kernel K knotes" and wf: "pd_wf s" "kqueue_inv s" "kqueue_tinv {} s"
    and t: "st_timers s t = Some tm" "\<not> t_active tm"
    and lp: "st_loops s (t_loop tm) = Some lp" and d: "st_ldata s (l_platform_data lp) = Some d"
  shows "\<exists>r s'. pd_timer_start (pd_platform_kqueue K ident U) t s = Some (r, s') \<and>
    pd_wf s' \<and> kqueue_inv s' \<and> kqueue_tinv {} s' \<and> st_timers s' = (st_timers s)(t \<mapsto> tm\<lparr>t_active := (r = PD_OK)\<rparr>) \<and>
    (if r = PD_OK
     then knotes (st_kernel s') = (knotes (st_kernel s))(kd_kqueue_fd d := (knotes (st_kernel s) (kd_kqueue_fd d))
         ((int t, EVFILT_TIMER) \<mapsto> timer_entry t (first_delay (t_timeout_ms tm) (t_interval_ms tm))
           (two_phase (t_timeout_ms tm) (t_interval_ms tm)))) \<and>
       st_tdata s' (t_platform_data tm) =
         Some \<lparr>kt_registered = True, kt_pending_initial = two_phase (t_timeout_ms tm) (t_interval_ms tm)\<rparr>
     else r = PD_ERR_SYSTEM \<and> knotes (st_kernel s') = knotes (st_kernel s))"
proof -
  let ?s1 = "s\<lparr>st_timers := (st_timers s)(t \<mapsto> tm\<lparr>t_active := True\<rparr>)\<rparr>" and ?tm1 = "tm\<lparr>t_active := True\<rparr>"
  obtain r s' s2 where s': "pd_timer_start (pd_platform_kqueue K ident U) t s = Some (r, s')" "pd_wf s'" "kqueue_inv s'"
    "kqueue_tinv {} s'" "kqueue_timer_start K t ?s1 = Some (r, s2)"
    "s' = s2\<lparr>st_timers := (st_timers s)(t \<mapsto> tm\<lparr>t_active := (r = PD_OK)\<rparr>)\<rparr>"
    by (rule kqt.timer_start_step [OF wf t, where K = K and ident = ident and U = U])
  obtain td where f: "t \<noteq> NULL" "t_loop tm \<noteq> NULL" "t_platform_data tm \<noteq> NULL"
    "st_tdata s (t_platform_data tm) = Some td"
    by (rule kqueue_timer_facts [OF wf(3) t(1)])
  have dd: "l_platform_data lp \<noteq> NULL" using kqueue_inv_loop [OF wf(2) lp] by blast
  obtain pending c where ch: "timer_change t (t_timeout_ms tm) (t_interval_ms tm) = (pending, c)" by fastforce
  note c = timer_change_facts [OF ch]
  have facts: "st_timers ?s1 t = Some ?tm1" "t_loop ?tm1 \<noteq> NULL" "t_platform_data ?tm1 \<noteq> NULL"
    "st_tdata ?s1 (t_platform_data ?tm1) = Some td" "st_loops ?s1 (t_loop ?tm1) = Some lp"
    "st_ldata ?s1 (l_platform_data lp) = Some d" "timer_change t (t_timeout_ms ?tm1) (t_interval_ms ?tm1) = (pending, c)"
    using f lp d ch by simp_all
  have kinds: "\<forall>x\<in>set [c]. is_add x \<or> is_delete x" using c(2) by simp
  note all = f(1) facts(1-5) dd facts(6,7)
  from all show ?thesis
  proof (cases rule: kqueue_timer_start_cases [where K = K])
    case (refused e k)
    have "knotes k = knotes (st_kernel s)"
      using kqueue_kernel.change_fail [OF K refused(1) kinds] by (auto simp: fun_eq_iff)
    moreover have "r = PD_ERR_SYSTEM" "st_kernel s2 = k" using s'(5) refused(2) by auto
    ultimately show ?thesis using s' by (intro exI [of _ PD_ERR_SYSTEM] exI [of _ s']) simp
  next
    case (armed v k)
    have "knotes k = (knotes (st_kernel s))(kd_kqueue_fd d := (knotes (st_kernel s) (kd_kqueue_fd d))
        ((int t, EVFILT_TIMER) \<mapsto> timer_entry t (first_delay (t_timeout_ms tm) (t_interval_ms tm)) pending))"
      using kqueue_kernel.change_ok [OF K armed(1) kinds] c by (simp add: apply_change_def)
    moreover have "r = PD_OK" "st_kernel s2 = k"
      "st_tdata s2 (t_platform_data tm) = Some \<lparr>kt_registered = True, kt_pending_initial = pending\<rparr>"
      using s'(5) armed(2) by auto
    ultimately show ?thesis using s' c(1) by (intro exI [of _ PD_OK] exI [of _ s']) simp
  qed
qed

text \<open>A timer 20 of the example loop, of 5 milliseconds and then one every 10.\<close>

definition kt_state :: "ref_bsd_kernel kqueue_state" where
  "kt_state = kx_state\<lparr>st_loops := [1 \<mapsto> (example_loop 4 [10, 11, 12, 21])\<lparr>l_ops := Some Ops_kqueue\<rparr>],
     st_watchers := (st_watchers kx_state)(21 \<mapsto> placeholder_watcher 1 20),
     st_timers := [20 \<mapsto> (new_timer 1 5 10 (Some (Cb_user 0)) NULL)\<lparr>t_watcher := 21, t_platform_data := 300\<rparr>],
     st_tdata := [300 \<mapsto> zero_kqueue_timer_data]\<rparr>"

lemma kt_loop_simps [simp]:
  "watcher_list (lp\<lparr>l_ops := p\<rparr>) = watcher_list lp" "wf_array (lp\<lparr>l_ops := p\<rparr>) = wf_array lp"
  "mutex_ready (lp\<lparr>l_ops := p\<rparr>) s = mutex_ready lp s"
  by (simp_all add: watcher_list_def wf_array_def mutex_ready_def uses_mutex_def)

lemma placeholder_simps [simp]:
  "w_loop (placeholder_watcher l t) = l" "w_platform_data (placeholder_watcher l t) = NULL"
  "w_user_data (placeholder_watcher l t) = t"
  by (simp_all add: placeholder_watcher_def zero_watcher_def)

lemma new_timer_simps [simp]:
  "t_loop (new_timer l to iv cb ud) = l" "t_timeout_ms (new_timer l to iv cb ud) = to"
  "t_interval_ms (new_timer l to iv cb ud) = iv" "t_callback (new_timer l to iv cb ud) = cb"
  "t_user_data (new_timer l to iv cb ud) = ud" "\<not> t_active (new_timer l to iv cb ud)"
  "\<not> t_owns_watcher (new_timer l to iv cb ud)"
  by (simp_all add: new_timer_def zero_timer_def)

lemma kt_wf [simp]: "pd_wf kt_state" "kqueue_inv kt_state" "kqueue_tinv {} kt_state"
proof -
  show "pd_wf kt_state"
    by (auto simp: kt_state_def pd_wf_def loop_ok_def watcher_ok_def split: if_splits)
  show "kqueue_inv kt_state"
    by (auto simp: kt_state_def kqueue_inv_def owned_def loop_pdata_def watcher_pdata_def example_loop_def split: if_splits)
  show "kqueue_tinv {} kt_state"
    by (auto simp: kt_state_def kqueue_tinv_def kqueue_timer_ok_def placeholder_def split: if_splits)
qed

theorem kqueue_timer_start_arms_witness:
  "\<exists>s'. pd_timer_start (pd_platform_kqueue ref_bsd 99 kx_quiet) 20 kt_state = Some (PD_OK, s') \<and>
    rb_knote (st_kernel s') 3 (20, EVFILT_TIMER) = Some (timer_entry 20 5 True)"
proof -
  let ?tm = "(new_timer 1 5 10 (Some (Cb_user 0)) NULL)\<lparr>t_watcher := 21, t_platform_data := 300\<rparr>"
    and ?lp = "(example_loop 4 [10, 11, 12, 21])\<lparr>l_ops := Some Ops_kqueue\<rparr>"
  have ok: "map_option fst (pd_timer_start (pd_platform_kqueue ref_bsd 99 kx_quiet) 20 kt_state) = Some PD_OK" by code_simp
  have tm: "t_loop ?tm = 1" "t_timeout_ms ?tm = 5" "t_interval_ms ?tm = 10" "\<not> t_active ?tm"
    by simp_all
  have t: "st_timers kt_state 20 = Some ?tm" "st_loops kt_state (t_loop ?tm) = Some ?lp"
    "st_ldata kt_state (l_platform_data ?lp) = Some kx_data"
    by (simp_all add: kt_state_def example_loop_def)
  have "two_phase 5 10" "first_delay 5 10 = 5" by (simp_all add: two_phase_def first_delay_def)
  then show ?thesis
    using kqueue_timer_start_arms [OF rb.kqueue_kernel_axioms kt_wf t(1) tm(4) t(2,3), where ident = 99 and U = kx_quiet] ok
    by (auto simp: tm)
qed

text \<open>
  C38: the first event of a timer with two phases ends the first one: before the callback
  runs, the flag is cleared and, if the kernel accepts it, the filter is a periodic one of the
  interval; every other event of a timer changes nothing before the callback. The callback is
  called once, with the timer's placeholder watcher, \<^verbatim>\<open>PD_EVENT_READ\<close> and the timer's user data.
\<close>

theorem kqueue_timer_event_rearms:
  assumes K: "kqueue_kernel K knotes" and wf: "kqueue_tinv {} s"
    and t: "st_timers s t = Some tm" "t_callback tm = Some (Cb_user f)" "st_tdata s (t_platform_data tm) = Some td"
    and d: "st_ldata s p = Some d"
  shows "\<exists>s1. kqueue_timer_event K U l p t s = U f l (t_watcher tm) PD_EVENT_READ (t_user_data tm) s1 \<and>
    (if kt_pending_initial td
     then st_tdata s1 (t_platform_data tm) = Some (td\<lparr>kt_pending_initial := False\<rparr>) \<and>
       (knotes (st_kernel s1) = (knotes (st_kernel s))(kd_kqueue_fd d := (knotes (st_kernel s) (kd_kqueue_fd d))
          ((int t, EVFILT_TIMER) \<mapsto> timer_entry t (t_interval_ms tm) False)) \<or>
        knotes (st_kernel s1) = knotes (st_kernel s) \<and> (\<exists>e. st_errno s1 = e \<and>
          fst (bsd_kevent K (kd_kqueue_fd d) [EV_SET (int t) EVFILT_TIMER (EV_ADD OR EV_ENABLE) NOTE_MSECONDS (t_interval_ms tm) t]
            0 None (st_kernel s)) = Inl e))
     else s1 = s)"
proof -
  have nz: "t \<noteq> NULL" "t_platform_data tm \<noteq> NULL"
    using kqueue_tinv_timer [OF wf t(1)] by (simp_all add: kqueue_timer_ok_def)
  show ?thesis
  proof (cases "kt_pending_initial td")
    case False
    then show ?thesis
      using nz t by (intro exI [of _ s]) (simp add: kqueue_timer_event_def kqueue_callback_def Let_def)
  next
    case True
    let ?c = "EV_SET (int t) EVFILT_TIMER (EV_ADD OR EV_ENABLE) NOTE_MSECONDS (t_interval_ms tm) t"
    let ?s1 = "s\<lparr>st_tdata := (st_tdata s)(t_platform_data tm \<mapsto> td\<lparr>kt_pending_initial := False\<rparr>)\<rparr>"
    let ?call = "bsd_kevent K (kd_kqueue_fd d) [?c] 0 None"
    have run: "kqueue_timer_event K U l p t s =
        U f l (t_watcher tm) PD_EVENT_READ (t_user_data tm) (snd (syscall ?call ?s1))"
      using nz t d True by (simp add: kqueue_timer_event_def kqueue_callback_def heap_write_def Let_def)
    have kinds: "\<forall>x\<in>set [?c]. is_add x \<or> is_delete x" by simp
    obtain r k where k: "?call (st_kernel s) = (r, k)" by fastforce
    show ?thesis
    proof (cases r)
      case (Inl e)
      have "knotes k = knotes (st_kernel s)"
        using kqueue_kernel.change_fail [OF K k [unfolded Inl] kinds] by (auto simp: fun_eq_iff)
      then show ?thesis using True k Inl run by (intro exI [of _ "snd (syscall ?call ?s1)"]) (simp add: syscall_def)
    next
      case (Inr v)
      have "knotes k = (knotes (st_kernel s))(kd_kqueue_fd d := (knotes (st_kernel s) (kd_kqueue_fd d))
          ((int t, EVFILT_TIMER) \<mapsto> timer_entry t (t_interval_ms tm) False))"
        using kqueue_kernel.change_ok [OF K k [unfolded Inr] kinds] by (simp add: apply_change_def)
      then show ?thesis using True k Inr run by (intro exI [of _ "snd (syscall ?call ?s1)"]) (simp add: syscall_def)
    qed
  qed
qed

text \<open>The witness: the timer 20 has been started and its first event is handled.\<close>

definition kt_fired :: "ref_bsd_kernel kqueue_state" where
  "kt_fired = kt_state\<lparr>st_tdata := [300 \<mapsto> \<lparr>kt_registered = True, kt_pending_initial = True\<rparr>]\<rparr>"

theorem kqueue_timer_event_rearms_witness:
  "\<exists>s1. kqueue_timer_event ref_bsd kx_quiet 1 500 20 kt_fired = Some s1 \<and>
    rb_knote (st_kernel s1) 3 (20, EVFILT_TIMER) = Some (timer_entry 20 10 False)"
proof -
  let ?tm = "(new_timer 1 5 10 (Some (Cb_user 0)) NULL)\<lparr>t_watcher := 21, t_platform_data := 300\<rparr>"
  have inv: "kqueue_tinv {} kt_fired"
    by (rule kqueue_tinv_cong [OF kt_wf(3)]) (auto simp: kt_fired_def kt_state_def split: if_splits)
  have tm: "t_callback ?tm = Some (Cb_user 0)" "t_interval_ms ?tm = 10" "t_platform_data ?tm = 300" "t_watcher ?tm = 21"
    "t_user_data ?tm = NULL"
    by simp_all
  have t: "st_timers kt_fired 20 = Some ?tm" "st_tdata kt_fired (t_platform_data ?tm) = Some \<lparr>kt_registered = True, kt_pending_initial = True\<rparr>"
    "st_ldata kt_fired 500 = Some kx_data" "st_kernel kt_fired = kx_kernel"
    by (simp_all add: kt_fired_def kt_state_def tm)
  have ok: "fst (bsd_kevent ref_bsd 3 [EV_SET 20 EVFILT_TIMER (EV_ADD OR EV_ENABLE) NOTE_MSECONDS 10 20] 0 None kx_kernel) = Inr []"
    by code_simp
  from kqueue_timer_event_rearms [OF rb.kqueue_kernel_axioms inv t(1) tm(1) t(2,3), where U = kx_quiet and l = 1] ok
  show ?thesis by (auto simp: kx_quiet_def tm t(4))
qed

text \<open>
  A consequence of the periodic filter: a timer without an interval, which is to fire once,
  fires at every wait after its delay. The callback of this run counts its calls in \<^verbatim>\<open>errno\<close>.
\<close>

definition kt_count :: "nat \<Rightarrow> addr \<Rightarrow> addr \<Rightarrow> pd_event \<Rightarrow> addr \<Rightarrow> ref_bsd_kernel kqueue_state \<Rightarrow> ref_bsd_kernel kqueue_state option" where
  "kt_count f l w ev ud s = Some (s\<lparr>st_errno := st_errno s + 1\<rparr>)"

definition kt_two_waits :: "addr \<Rightarrow> ref_bsd_kernel kqueue_state \<Rightarrow> (int \<times> int \<times> ref_bsd_kernel kqueue_state) option" where
  "kt_two_waits l s = do {
     (r1, s1) \<leftarrow> kqueue_loop_run ref_bsd kt_count l 100 s;
     (r2, s2) \<leftarrow> kqueue_loop_run ref_bsd kt_count l 100 s1;
     Some (r1, r2, s2) }"

definition kt_one_shot :: "(int \<times> int \<times> ref_bsd_kernel kqueue_state) option" where
  "kt_one_shot = do {
     (t, s1) \<leftarrow> pd_timer_create (pd_platform_kqueue ref_bsd 99 kt_count) 1 5 0 (Some (Cb_user 0)) NULL
       (kx_state\<lparr>st_kernel := kx_kernel\<lparr>rb_ready := []\<rparr>\<rparr>);
     (r, s2) \<leftarrow> pd_timer_start (pd_platform_kqueue ref_bsd 99 kt_count) t s1;
     kt_two_waits 1 s2 }"

theorem kqueue_one_shot_timer_repeats:
  "map_option (\<lambda>(r1, r2, s). (r1, r2, st_errno s)) kt_one_shot = Some (1, 1, 2)"
  by code_simp

end
