(* ===== verification/Pd_Windows.thy ===== *)
theory Pd_Windows
  imports Pd_System
begin

text \<open>
  The part of Windows that \<^verbatim>\<open>src/platform/iocp.c\<close> calls: completion ports, overlapped reads,
  events and queue timers. The calls are fields of a record, as for the other systems. The
  addresses are those of 64-bit Windows.
\<close>

section \<open>Types and constants\<close>

text \<open>A \<^verbatim>\<open>HANDLE\<close> or \<^verbatim>\<open>SOCKET\<close> as a number, with 0 for \<^verbatim>\<open>NULL\<close>.\<close>

type_synonym handle = int

definition INVALID_HANDLE_VALUE :: handle where "INVALID_HANDLE_VALUE = 2 ^ 64 - 1"

definition INFINITE :: "32 word" where "INFINITE = 0xFFFFFFFF"
definition WAIT_TIMEOUT :: "32 word" where "WAIT_TIMEOUT = 258"
definition ERROR_IO_PENDING :: "32 word" where "ERROR_IO_PENDING = 997"
definition ERROR_MORE_DATA :: "32 word" where "ERROR_MORE_DATA = 234"
definition WSA_IO_PENDING :: "32 word" where "WSA_IO_PENDING = 997"
definition ERROR_OPERATION_ABORTED :: "32 word" where "ERROR_OPERATION_ABORTED = 995"
definition STATUS_SUCCESS :: "32 word" where "STATUS_SUCCESS = 0"
definition STATUS_CANCELLED :: "32 word" where "STATUS_CANCELLED = 0xC0000120"

text \<open>
  An \<^verbatim>\<open>OVERLAPPED *\<close> of a completion packet, by what it points to: the structure inside the
  data of a watcher, a timer or a \<^verbatim>\<open>pd_iocp_sync_t\<close> cast to it, or a structure of the user.
\<close>

datatype overlapped = Ov_null | Ov_read addr | Ov_timer addr | Ov_sync addr | Ov_client addr

text \<open>A completion packet (\<^verbatim>\<open>OVERLAPPED_ENTRY\<close>); its key is a pointer or a number.\<close>

record entry =
  oe_key :: int
  oe_overlapped :: overlapped
  oe_bytes :: "32 word"

text \<open>
  What the system writes into memory when a read ends: the status in the \<^verbatim>\<open>Internal\<close> member of
  the \<^verbatim>\<open>OVERLAPPED\<close> at \<open>io_data\<close>, and the bytes at the start of its buffer. The memory is
  written before the packet is dequeued; the model writes it then.
\<close>

record io_result =
  io_data :: addr
  io_status :: "64 word"
  io_bytes :: "8 word list"

text \<open>
  The calls. A failing one has its last error. \<open>win_frame\<close> is the address a local variable of
  the running function gets, and \<open>win_fires\<close> tells whether a queue timer can call back.
\<close>

record 'k win =
  win_create_port :: "'k \<Rightarrow> (32 word + handle) \<times> 'k"
  win_associate :: "handle \<Rightarrow> handle \<Rightarrow> int \<Rightarrow> 'k \<Rightarrow> (32 word + unit) \<times> 'k"
  win_close_handle :: "handle \<Rightarrow> 'k \<Rightarrow> (32 word + unit) \<times> 'k"
  win_completions :: "handle \<Rightarrow> int \<Rightarrow> 32 word \<Rightarrow> 'k \<Rightarrow> (32 word + entry list \<times> io_result list) \<times> 'k"
  win_post :: "handle \<Rightarrow> entry \<Rightarrow> 'k \<Rightarrow> (32 word + unit) \<times> 'k"
  win_recv :: "handle \<Rightarrow> addr \<Rightarrow> 32 word \<Rightarrow> addr \<Rightarrow> 'k \<Rightarrow> (32 word + unit) \<times> 'k"
  win_read_file :: "handle \<Rightarrow> addr \<Rightarrow> 32 word \<Rightarrow> addr \<Rightarrow> 'k \<Rightarrow> (32 word + unit) \<times> 'k"
  win_cancel_io_ex :: "handle \<Rightarrow> addr \<Rightarrow> 'k \<Rightarrow> (32 word + unit) \<times> 'k"
  win_cancel_io :: "handle \<Rightarrow> 'k \<Rightarrow> (32 word + unit) \<times> 'k"
  win_create_event :: "bool \<Rightarrow> 'k \<Rightarrow> (32 word + handle) \<times> 'k"
  win_set_event :: "handle \<Rightarrow> 'k \<Rightarrow> (32 word + unit) \<times> 'k"
  win_reset_event :: "handle \<Rightarrow> 'k \<Rightarrow> (32 word + unit) \<times> 'k"
  win_wait_object :: "handle \<Rightarrow> 32 word \<Rightarrow> 'k \<Rightarrow> bool \<times> 'k"
  win_create_timer :: "addr \<Rightarrow> 32 word \<Rightarrow> 32 word \<Rightarrow> 'k \<Rightarrow> (32 word + handle) \<times> 'k"
  win_delete_timer :: "handle \<Rightarrow> handle \<Rightarrow> 'k \<Rightarrow> (32 word + unit) \<times> 'k"
  win_fires :: "addr \<Rightarrow> 'k \<Rightarrow> bool \<times> 'k"
  win_frame :: "'k \<Rightarrow> addr"

section \<open>The state around a kernel\<close>

text \<open>
  The system as a program sees it: besides the kernel, the last error and the identity of the
  thread that is running, and the local variables that other threads may reach by a pointer.
\<close>

record 'k win_env =
  we_os :: 'k
  we_last_error :: "32 word"
  we_thread :: "32 word"
  we_syncs :: "addr \<Rightarrow> handle option"

text \<open>A call: \<open>None\<close> if it failed, and then \<^verbatim>\<open>GetLastError\<close> gives the error.\<close>

definition wincall ::
  "('k \<Rightarrow> (32 word + 'a) \<times> 'k) \<Rightarrow> ('ld, 'wd, 'td, 'k win_env) pd_state \<Rightarrow>
   'a option \<times> ('ld, 'wd, 'td, 'k win_env) pd_state" where
  "wincall f s = (case f (we_os (st_kernel s)) of
     (Inl e, k) \<Rightarrow> (None, s\<lparr>st_kernel := (st_kernel s)\<lparr>we_os := k, we_last_error := e\<rparr>\<rparr>)
   | (Inr v, k) \<Rightarrow> (Some v, s\<lparr>st_kernel := (st_kernel s)\<lparr>we_os := k\<rparr>\<rparr>))"

text \<open>A handle as C holds it: null when the call that makes it failed.\<close>

definition c_handle :: "handle option \<Rightarrow> handle" where
  "c_handle r = (case r of None \<Rightarrow> 0 | Some h \<Rightarrow> h)"

definition GetLastError :: "('ld, 'wd, 'td, 'k win_env) pd_state \<Rightarrow> 32 word" where
  "GetLastError s = we_last_error (st_kernel s)"

text \<open>\<^verbatim>\<open>pd_set_system_error\<close> takes an \<^verbatim>\<open>int\<close>: the \<^verbatim>\<open>DWORD\<close> is read as a signed number.\<close>

definition set_last_error ::
  "addr \<Rightarrow> ('ld, 'wd, 'td, 'k win_env) pd_state \<Rightarrow> ('ld, 'wd, 'td, 'k win_env) pd_state option" where
  "set_last_error loop s = pd_set_system_error loop (sint (GetLastError s)) s"

section \<open>What the manuals promise\<close>

text \<open>
  A completion port is a queue: \<open>posted k h\<close> are all packets that were ever put into the port
  \<open>h\<close>, oldest first, and \<open>taken k h\<close> is how many of them have been dequeued. Posting appends a
  packet, a wait dequeues the oldest ones, and no other call dequeues any. The system appends
  packets of its own for the reads of the program and the writes of the user. An event is
  signalled by \<^verbatim>\<open>SetEvent\<close> only; a new one is not signalled, and a wait that succeeds has found
  its event signalled.
\<close>

definition io_packet :: "entry \<Rightarrow> bool" where
  "io_packet e \<longleftrightarrow> (case oe_overlapped e of Ov_read _ \<Rightarrow> True | Ov_client _ \<Rightarrow> True | _ \<Rightarrow> False)"

definition appended :: "entry list \<Rightarrow> entry list \<Rightarrow> bool" where
  "appended es es' \<longleftrightarrow> (\<exists>new. es' = es @ new \<and> (\<forall>e\<in>set new. io_packet e))"

locale completion_port =
  fixes K :: "'k win" and posted :: "'k \<Rightarrow> handle \<Rightarrow> entry list" and taken :: "'k \<Rightarrow> handle \<Rightarrow> nat"
    and signalled :: "'k \<Rightarrow> handle set"
  assumes post_ok: "win_post K h e k = (Inr u, k') \<Longrightarrow> taken k' = taken k \<and> signalled k' = signalled k \<and>
      (\<forall>h'. appended (posted k h' @ (if h' = h then [e] else [])) (posted k' h'))"
    and post_fail: "win_post K h e k = (Inl x, k') \<Longrightarrow> taken k' = taken k \<and> signalled k' = signalled k \<and>
      (\<forall>h'. appended (posted k h') (posted k' h'))"
    and completions_ok: "win_completions K h n tmo k = (Inr (es, rs), k') \<Longrightarrow> signalled k' = signalled k \<and>
      (\<forall>h'. appended (posted k h') (posted k' h')) \<and> es = take (length es) (drop (taken k h) (posted k' h)) \<and>
      taken k' = (taken k)(h := taken k h + length es)"
    and completions_fail: "win_completions K h n tmo k = (Inl x, k') \<Longrightarrow> taken k' = taken k \<and> signalled k' = signalled k \<and>
      (\<forall>h'. appended (posted k h') (posted k' h'))"
    and recv_port: "win_recv K hn buf m ov k = (r, k') \<Longrightarrow> taken k' = taken k \<and> signalled k' = signalled k \<and>
      (\<forall>h'. appended (posted k h') (posted k' h'))"
    and read_port: "win_read_file K hn buf m ov k = (r, k') \<Longrightarrow> taken k' = taken k \<and> signalled k' = signalled k \<and>
      (\<forall>h'. appended (posted k h') (posted k' h'))"
    and create_event_ok: "win_create_event K man k = (Inr ev, k') \<Longrightarrow> taken k' = taken k \<and> posted k' = posted k \<and>
      ev \<notin> signalled k' \<and> signalled k' \<subseteq> signalled k"
    and create_event_fail: "win_create_event K man k = (Inl x, k') \<Longrightarrow> taken k' = taken k \<and> posted k' = posted k \<and>
      signalled k' = signalled k"
    and set_event: "win_set_event K ev k = (r, k') \<Longrightarrow> taken k' = taken k \<and> posted k' = posted k \<and>
      signalled k' \<subseteq> insert ev (signalled k)"
    and wait_event: "win_wait_object K ev ms k = (ok, k') \<Longrightarrow> (ok \<longrightarrow> ev \<in> signalled k) \<and> taken k' = taken k \<and>
      signalled k' \<subseteq> signalled k \<and> (\<forall>h'. appended (posted k h') (posted k' h'))"
    and close_port: "win_close_handle K hn k = (r, k') \<Longrightarrow> taken k' = taken k \<and> posted k' = posted k \<and>
      signalled k' \<subseteq> signalled k"
    and delete_timer_port: "win_delete_timer K q INVALID_HANDLE_VALUE k = (r, k') \<Longrightarrow> taken k' = taken k \<and>
      posted k' = posted k \<and> signalled k' = signalled k"
    and fires_port: "win_fires K t k = (b, k') \<Longrightarrow> taken k' = taken k \<and> posted k' = posted k \<and> signalled k' = signalled k"

section \<open>A kernel that keeps them\<close>

text \<open>
  \<open>rw_posted\<close> and \<open>rw_taken\<close> are the history of the ports; \<open>rw_assoc\<close> the port and the key of a
  handle; \<open>rw_reads\<close> the reads in flight, \<open>rw_results\<close> the results not yet dequeued; \<open>rw_input\<close>
  what will arrive at a handle; \<open>rw_events\<close> whether an event stays signalled, and the signalled
  ones; \<open>rw_timers\<close> the queue timers and whether they are periodic. The local variable of a
  function is at \<open>rw_stack\<close>.
\<close>

record ref_win_kernel =
  rw_next :: handle
  rw_posted :: "(handle \<times> entry) list"
  rw_taken :: "(handle \<times> nat) list"
  rw_assoc :: "(handle \<times> (handle \<times> int)) list"
  rw_reads :: "(addr \<times> handle) list"
  rw_results :: "(addr \<times> io_result) list"
  rw_input :: "(handle \<times> (64 word \<times> 8 word list)) list"
  rw_events :: "(handle \<times> bool) list"
  rw_signalled :: "handle list"
  rw_timers :: "(handle \<times> (addr \<times> bool)) list"
  rw_stack :: addr

definition rw_init :: ref_win_kernel where
  "rw_init = \<lparr>rw_next = 4, rw_posted = [], rw_taken = [], rw_assoc = [], rw_reads = [], rw_results = [],
     rw_input = [], rw_events = [], rw_signalled = [], rw_timers = [], rw_stack = 70\<rparr>"

definition rw_queue :: "ref_win_kernel \<Rightarrow> handle \<Rightarrow> entry list" where
  "rw_queue k h = map snd (filter (\<lambda>(h', _). h' = h) (rw_posted k))"

definition rw_count :: "ref_win_kernel \<Rightarrow> handle \<Rightarrow> nat" where
  "rw_count k h = (case map_of (rw_taken k) h of None \<Rightarrow> 0 | Some n \<Rightarrow> n)"

definition rw_create_port :: "ref_win_kernel \<Rightarrow> (32 word + handle) \<times> ref_win_kernel" where
  "rw_create_port k = (Inr (rw_next k), k\<lparr>rw_next := rw_next k + 4\<rparr>)"

definition rw_associate :: "handle \<Rightarrow> handle \<Rightarrow> int \<Rightarrow> ref_win_kernel \<Rightarrow> (32 word + unit) \<times> ref_win_kernel" where
  "rw_associate hn port key k =
    (if map_of (rw_assoc k) hn \<noteq> None then (Inl 87, k)
     else (Inr (), k\<lparr>rw_assoc := rk_put hn (port, key) (rw_assoc k)\<rparr>))"

definition rw_close :: "handle \<Rightarrow> ref_win_kernel \<Rightarrow> (32 word + unit) \<times> ref_win_kernel" where
  "rw_close hn k = (Inr (), k\<lparr>rw_assoc := rk_del hn (rw_assoc k), rw_events := rk_del hn (rw_events k),
     rw_signalled := filter (\<lambda>h. h \<noteq> hn) (rw_signalled k)\<rparr>)"

text \<open>The end of a read: its packet is queued and its result kept for the wait that dequeues it.\<close>

definition rw_complete :: "handle \<Rightarrow> addr \<Rightarrow> 64 word \<Rightarrow> 8 word list \<Rightarrow> ref_win_kernel \<Rightarrow> ref_win_kernel" where
  "rw_complete hn wd status bytes k = (case map_of (rw_assoc k) hn of
     None \<Rightarrow> k
   | Some (port, key) \<Rightarrow> k\<lparr>
       rw_posted := rw_posted k @ [(port, \<lparr>oe_key = key, oe_overlapped = Ov_read wd, oe_bytes = of_nat (length bytes)\<rparr>)],
       rw_results := rk_put wd \<lparr>io_data = wd, io_status = status, io_bytes = bytes\<rparr> (rw_results k)\<rparr>)"

definition rw_read :: "handle \<Rightarrow> addr \<Rightarrow> 32 word \<Rightarrow> addr \<Rightarrow> ref_win_kernel \<Rightarrow> (32 word + unit) \<times> ref_win_kernel" where
  "rw_read hn buf n wd k =
    (if map_of (rw_assoc k) hn = None then (Inl 6, k)
     else (case map_of (rw_input k) hn of
         None \<Rightarrow> (Inl 997, k\<lparr>rw_reads := rk_put wd hn (rw_reads k)\<rparr>)
       | Some (status, bytes) \<Rightarrow> (Inr (), rw_complete hn wd status (take (unat n) bytes)
           (k\<lparr>rw_input := rk_del hn (rw_input k)\<rparr>))))"

definition rw_cancel_ex :: "handle \<Rightarrow> addr \<Rightarrow> ref_win_kernel \<Rightarrow> (32 word + unit) \<times> ref_win_kernel" where
  "rw_cancel_ex hn wd k =
    (if map_of (rw_reads k) wd = Some hn
     then (Inr (), rw_complete hn wd (ucast STATUS_CANCELLED) [] (k\<lparr>rw_reads := rk_del wd (rw_reads k)\<rparr>))
     else (Inl 1168, k))"

definition rw_cancel :: "handle \<Rightarrow> ref_win_kernel \<Rightarrow> (32 word + unit) \<times> ref_win_kernel" where
  "rw_cancel hn k = (Inr (), fold (\<lambda>wd k. snd (rw_cancel_ex hn wd k)) (map fst (rw_reads k)) k)"

definition rw_completions ::
  "handle \<Rightarrow> int \<Rightarrow> 32 word \<Rightarrow> ref_win_kernel \<Rightarrow> (32 word + entry list \<times> io_result list) \<times> ref_win_kernel" where
  "rw_completions h n t k =
    (let es = take (nat n) (drop (rw_count k h) (rw_queue k h)) in
     if es = [] then (Inl WAIT_TIMEOUT, k)
     else
       let wds = List.map_filter (\<lambda>e. case oe_overlapped e of Ov_read wd \<Rightarrow> Some wd | _ \<Rightarrow> None) es in
       (Inr (es, List.map_filter (map_of (rw_results k)) wds),
        k\<lparr>rw_taken := rk_put h (rw_count k h + length es) (rw_taken k),
          rw_results := fold rk_del wds (rw_results k)\<rparr>))"

definition rw_post :: "handle \<Rightarrow> entry \<Rightarrow> ref_win_kernel \<Rightarrow> (32 word + unit) \<times> ref_win_kernel" where
  "rw_post h e k = (Inr (), k\<lparr>rw_posted := rw_posted k @ [(h, e)]\<rparr>)"

definition rw_create_event :: "bool \<Rightarrow> ref_win_kernel \<Rightarrow> (32 word + handle) \<times> ref_win_kernel" where
  "rw_create_event manual k = (Inr (rw_next k), k\<lparr>rw_next := rw_next k + 4,
     rw_events := rk_put (rw_next k) manual (rw_events k),
     rw_signalled := filter (\<lambda>h. h \<noteq> rw_next k) (rw_signalled k)\<rparr>)"

definition rw_set_event :: "handle \<Rightarrow> ref_win_kernel \<Rightarrow> (32 word + unit) \<times> ref_win_kernel" where
  "rw_set_event ev k =
    (if map_of (rw_events k) ev = None then (Inl 6, k) else (Inr (), k\<lparr>rw_signalled := ev # rw_signalled k\<rparr>))"

definition rw_reset_event :: "handle \<Rightarrow> ref_win_kernel \<Rightarrow> (32 word + unit) \<times> ref_win_kernel" where
  "rw_reset_event ev k = (Inr (), k\<lparr>rw_signalled := filter (\<lambda>h. h \<noteq> ev) (rw_signalled k)\<rparr>)"

definition rw_wait_object :: "handle \<Rightarrow> 32 word \<Rightarrow> ref_win_kernel \<Rightarrow> bool \<times> ref_win_kernel" where
  "rw_wait_object ev ms k =
    (if List.member (rw_signalled k) ev
     then (True, if map_of (rw_events k) ev = Some True then k
       else k\<lparr>rw_signalled := filter (\<lambda>h. h \<noteq> ev) (rw_signalled k)\<rparr>)
     else (False, k))"

definition rw_create_timer :: "addr \<Rightarrow> 32 word \<Rightarrow> 32 word \<Rightarrow> ref_win_kernel \<Rightarrow> (32 word + handle) \<times> ref_win_kernel" where
  "rw_create_timer t due period k = (Inr (rw_next k), k\<lparr>rw_next := rw_next k + 4,
     rw_timers := rk_put (rw_next k) (t, period > 0) (rw_timers k)\<rparr>)"

definition rw_delete_timer :: "handle \<Rightarrow> handle \<Rightarrow> ref_win_kernel \<Rightarrow> (32 word + unit) \<times> ref_win_kernel" where
  "rw_delete_timer q ev k = (Inr (), k\<lparr>rw_timers := rk_del q (rw_timers k),
     rw_signalled := (if ev = INVALID_HANDLE_VALUE then rw_signalled k else ev # rw_signalled k)\<rparr>)"

definition rw_fires :: "addr \<Rightarrow> ref_win_kernel \<Rightarrow> bool \<times> ref_win_kernel" where
  "rw_fires t k = (list_ex (\<lambda>(_, t', _). t' = t) (rw_timers k),
     k\<lparr>rw_timers := filter (\<lambda>(_, t', periodic). t' \<noteq> t \<or> periodic) (rw_timers k)\<rparr>)"

definition ref_win :: "ref_win_kernel win" where
  "ref_win = \<lparr>win_create_port = rw_create_port, win_associate = rw_associate, win_close_handle = rw_close,
     win_completions = rw_completions, win_post = rw_post, win_recv = rw_read, win_read_file = rw_read,
     win_cancel_io_ex = rw_cancel_ex, win_cancel_io = rw_cancel, win_create_event = rw_create_event,
     win_set_event = rw_set_event, win_reset_event = rw_reset_event, win_wait_object = rw_wait_object,
     win_create_timer = rw_create_timer, win_delete_timer = rw_delete_timer, win_fires = rw_fires,
     win_frame = rw_stack\<rparr>"

lemma ref_win_simps [simp]:
  "win_completions ref_win = rw_completions" "win_post ref_win = rw_post" "win_recv ref_win = rw_read"
  "win_read_file ref_win = rw_read" "win_create_event ref_win = rw_create_event"
  "win_set_event ref_win = rw_set_event" "win_wait_object ref_win = rw_wait_object"
  "win_close_handle ref_win = rw_close" "win_delete_timer ref_win = rw_delete_timer" "win_fires ref_win = rw_fires"
  by (simp_all add: ref_win_def)

lemma appended_refl [simp]: "appended es es"
  by (simp add: appended_def)

lemma appended_trans: "appended a b \<Longrightarrow> appended b c \<Longrightarrow> appended a c"
  by (auto simp: appended_def)

lemma rw_complete_simps [simp]:
  "rw_taken (rw_complete hn wd st bs k) = rw_taken k" "rw_signalled (rw_complete hn wd st bs k) = rw_signalled k"
  by (auto simp: rw_complete_def split: option.splits)

lemma rw_complete_posted: "appended (rw_queue k h) (rw_queue (rw_complete hn wd st bs k) h)"
  by (auto simp: rw_complete_def rw_queue_def appended_def io_packet_def split: option.splits)

lemma rw_read_port:
  assumes "rw_read hn buf n wd k = (r, k')"
  shows "rw_count k' = rw_count k" "rw_signalled k' = rw_signalled k" "appended (rw_queue k h) (rw_queue k' h)"
proof -
  have q: "rw_queue (k\<lparr>rw_input := x\<rparr>) = rw_queue k" "rw_queue (k\<lparr>rw_reads := y\<rparr>) = rw_queue k" for x y
    by (simp_all add: rw_queue_def fun_eq_iff)
  show "rw_count k' = rw_count k" "rw_signalled k' = rw_signalled k"
    using assms by (auto simp: rw_read_def rw_count_def fun_eq_iff split: if_splits option.splits)
  show "appended (rw_queue k h) (rw_queue k' h)"
    using assms by (auto simp: rw_read_def q split: if_splits option.splits
        intro: rw_complete_posted [of "k\<lparr>rw_input := rk_del hn (rw_input k)\<rparr>", unfolded q])
qed

lemma rw_simps [simp]:
  "rw_count (k\<lparr>rw_posted := x\<rparr>) = rw_count k" "rw_count (k\<lparr>rw_events := y\<rparr>) = rw_count k"
  "rw_count (k\<lparr>rw_signalled := z\<rparr>) = rw_count k" "rw_count (k\<lparr>rw_next := h\<rparr>) = rw_count k"
  "rw_count (k\<lparr>rw_assoc := v\<rparr>) = rw_count k" "rw_count (k\<lparr>rw_timers := w\<rparr>) = rw_count k"
  "rw_count (k\<lparr>rw_results := u\<rparr>) = rw_count k"
  "rw_queue (k\<lparr>rw_events := y\<rparr>) = rw_queue k" "rw_queue (k\<lparr>rw_signalled := z\<rparr>) = rw_queue k"
  "rw_queue (k\<lparr>rw_next := h\<rparr>) = rw_queue k" "rw_queue (k\<lparr>rw_assoc := v\<rparr>) = rw_queue k"
  "rw_queue (k\<lparr>rw_timers := w\<rparr>) = rw_queue k" "rw_queue (k\<lparr>rw_taken := x2\<rparr>) = rw_queue k"
  "rw_queue (k\<lparr>rw_results := u\<rparr>) = rw_queue k"
  by (simp_all add: rw_count_def rw_queue_def fun_eq_iff)

lemma rw_posted_queue: "rw_queue (k\<lparr>rw_posted := rw_posted k @ [(h, e)]\<rparr>) h' = rw_queue k h' @ (if h' = h then [e] else [])"
  by (auto simp: rw_queue_def)

lemma rw_count_put: "rw_count (k\<lparr>rw_taken := rk_put h n (rw_taken k)\<rparr>) = (rw_count k)(h := n)"
  by (simp add: rw_count_def fun_eq_iff map_of_rk_put)

interpretation rw: completion_port ref_win rw_queue rw_count "\<lambda>k. set (rw_signalled k)"
proof
  fix h n tmo k es rs k'
  assume "win_completions ref_win h n tmo k = (Inr (es, rs), k')"
  then show "set (rw_signalled k') = set (rw_signalled k) \<and> (\<forall>h'. appended (rw_queue k h') (rw_queue k' h')) \<and>
      es = take (length es) (drop (rw_count k h) (rw_queue k' h)) \<and> rw_count k' = (rw_count k)(h := rw_count k h + length es)"
    by (auto simp: rw_completions_def Let_def rw_count_put min_def split: if_splits)
qed (auto simp: rw_post_def rw_posted_queue rw_completions_def rw_create_event_def rw_set_event_def rw_wait_object_def
  rw_close_def rw_delete_timer_def rw_fires_def INVALID_HANDLE_VALUE_def Let_def rw_read_port split: if_splits)

end
