(* ===== verification/Pd_Iocp_Data.thy ===== *)
theory Pd_Iocp_Data
  imports Pd_Windows
begin

text \<open>
  The platform data of the IOCP backend's loops, watchers and timers
  (\<^verbatim>\<open>src/platform/iocp.c\<close>).
\<close>

text \<open>The two numbers used as completion keys; every other key is the address of a watcher.\<close>

definition PD_IOCP_TIMER_KEY :: int where "PD_IOCP_TIMER_KEY = 0x54494D52"
definition PD_IOCP_SYNC_KEY :: int where "PD_IOCP_SYNC_KEY = 0x53594E43"

record pd_iocp_data =
  id_iocp_handle :: handle
  id_events :: "entry c_array"
  id_max_events :: int
  id_loop_thread_id :: "32 word"

text \<open>
  Of the \<^verbatim>\<open>OVERLAPPED\<close>, only the member the code reads. The buffer is a function on the indices
  below its size. A \<^verbatim>\<open>WSABUF\<close> is a pointer, here to the watcher data whose buffer it names, and
  a length.
\<close>

definition buffer_size :: "32 word" where "buffer_size = 4096"

record pd_iocp_watcher_data =
  iw_Internal :: "64 word"
  iw_wsa_buf :: addr
  iw_wsa_len :: "32 word"
  iw_buffer :: "nat \<Rightarrow> 8 word"
  iw_pending_operation :: int
  iw_events :: pd_event
  iw_stopping :: bool
  iw_bytes_available :: "32 word"

record pd_iocp_timer_data =
  it_queue_timer :: handle
  it_iocp_handle :: handle
  it_stop_event :: handle
  it_started :: bool
  it_destroyed :: bool

type_synonym 'k iocp_state =
  "(pd_iocp_data, pd_iocp_watcher_data, pd_iocp_timer_data, 'k win_env) pd_state"

text \<open>What a callback function of the user does: its number, loop, watcher, events and user data.\<close>

type_synonym 'k iocp_callbacks =
  "nat \<Rightarrow> addr \<Rightarrow> addr \<Rightarrow> pd_event \<Rightarrow> addr \<Rightarrow> 'k iocp_state \<Rightarrow> 'k iocp_state option"

text \<open>Zeroed memory.\<close>

definition zero_iocp_data :: pd_iocp_data where
  "zero_iocp_data = \<lparr>id_iocp_handle = 0, id_events = [], id_max_events = 0, id_loop_thread_id = 0\<rparr>"

definition zero_entry :: entry where
  "zero_entry = \<lparr>oe_key = 0, oe_overlapped = Ov_null, oe_bytes = 0\<rparr>"

definition zero_iocp_watcher_data :: pd_iocp_watcher_data where
  "zero_iocp_watcher_data = \<lparr>iw_Internal = 0, iw_wsa_buf = NULL, iw_wsa_len = 0, iw_buffer = (\<lambda>_. 0),
     iw_pending_operation = 0, iw_events = 0, iw_stopping = False, iw_bytes_available = 0\<rparr>"

definition zero_iocp_timer_data :: pd_iocp_timer_data where
  "zero_iocp_timer_data = \<lparr>it_queue_timer = 0, it_iocp_handle = 0, it_stop_event = 0, it_started = False,
     it_destroyed = False\<rparr>"

end
