(* ===== verification/Pd_Iocp.thy ===== *)
theory Pd_Iocp
  imports Pd_Iocp_Data Pd_Loop_List
begin

text \<open>
  The wait of the IOCP backend and its watchers (\<^verbatim>\<open>src/platform/iocp.c\<close>). A watcher has a read
  in flight whose buffer and \<^verbatim>\<open>OVERLAPPED\<close> are part of its data; completion packets arrive in
  the port, and the wait tells the user about them and starts the next read.
\<close>

section \<open>Handles and reads\<close>

definition fd_to_handle :: "int \<Rightarrow> handle" where
  "fd_to_handle fd = uint (word_of_int fd :: 32 word)"

text \<open>
  The start of a read on the watcher's buffer, as the re-arm of \<^verbatim>\<open>iocp_loop_run\<close> makes it: whether
  a completion packet will come.
\<close>

definition reissue_read ::
  "'k win \<Rightarrow> pd_watcher \<Rightarrow> addr \<Rightarrow> 'k iocp_state \<Rightarrow> (bool \<times> 'k iocp_state) option" where
  "reissue_read K w watcher_data s =
    (if w_is_handle w
     then
       let (ok, s) = wincall (win_read_file K (int (w_handle w)) watcher_data buffer_size watcher_data) s in
       if ok \<noteq> None then Some (True, s)
       else let err = GetLastError s in Some (err = ERROR_IO_PENDING \<or> err = ERROR_MORE_DATA, s)
     else do {
       x \<leftarrow> st_wdata s watcher_data;
       let (rc, s) = wincall (win_recv K (fd_to_handle (w_fd w)) (iw_wsa_buf x) (iw_wsa_len x) watcher_data) s;
       Some (rc \<noteq> None \<or> GetLastError s = WSA_IO_PENDING, s) })"

section \<open>Create and destroy\<close>

definition iocp_loop_create ::
  "'k win \<Rightarrow> addr \<Rightarrow> pd_loop_config \<Rightarrow> 'k iocp_state \<Rightarrow> (pd_error \<times> 'k iocp_state) option" where
  "iocp_loop_create K loop config s =
    (let (data, s) = calloc_ldata zero_iocp_data s in
     if data = NULL
     then do { s \<leftarrow> set_last_error loop s; Some (PD_ERR_NO_MEMORY, s) }
     else let (port, s) = wincall (win_create_port K) s in do {
       s \<leftarrow> write_ldata data (\<lambda>d. d\<lparr>id_iocp_handle := c_handle port\<rparr>) s;
       if c_handle port = 0
       then do {
         s \<leftarrow> set_last_error loop s;
         s \<leftarrow> free_ldata data s;
         Some (PD_ERR_SYSTEM, s) }
       else do {
         s \<leftarrow> write_ldata data (\<lambda>d. d\<lparr>id_max_events := max_events_per_wait config\<rparr>) s;
         let (ok, s) = alloc_array s;
         d \<leftarrow> st_ldata s data;
         if \<not> ok
         then let (_, s) = wincall (win_close_handle K (id_iocp_handle d)) s in do {
           s \<leftarrow> free_ldata data s;
           Some (PD_ERR_NO_MEMORY, s) }
         else do {
           s \<leftarrow> write_ldata data
                  (\<lambda>d. d\<lparr>id_events := replicate (nat (id_max_events d)) (Some zero_entry)\<rparr>) s;
           s \<leftarrow> write_loop loop (\<lambda>lp. lp\<lparr>l_platform_data := data\<rparr>) s;
           Some (PD_OK, s) } } })"

definition iocp_loop_destroy :: "'k win \<Rightarrow> addr \<Rightarrow> 'k iocp_state \<Rightarrow> 'k iocp_state option" where
  "iocp_loop_destroy K loop s =
    (if loop = NULL then Some s
     else do {
       lp \<leftarrow> st_loops s loop;
       let data = l_platform_data lp;
       if data = NULL then Some s
       else do {
         d \<leftarrow> st_ldata s data;
         let s = (if id_iocp_handle d \<noteq> 0 then snd (wincall (win_close_handle K (id_iocp_handle d)) s) else s);
         s \<leftarrow> free_ldata data s;
         write_loop loop (\<lambda>lp. lp\<lparr>l_platform_data := NULL\<rparr>) s } })"

section \<open>Dispatching completion packets\<close>

definition iocp_callback ::
  "'k iocp_callbacks \<Rightarrow> pd_callback \<Rightarrow> addr \<Rightarrow> addr \<Rightarrow> pd_event \<Rightarrow> addr \<Rightarrow> 'k iocp_state \<Rightarrow> 'k iocp_state option" where
  "iocp_callback U cb loop watcher events user_data s =
    (case cb of Cb_user f \<Rightarrow> U f loop watcher events user_data s | Cb_timerfd \<Rightarrow> None)"

text \<open>A drain-sync packet: the event of the thread that waits is signalled.\<close>

definition iocp_sync_packet :: "'k win \<Rightarrow> entry \<Rightarrow> 'k iocp_state \<Rightarrow> 'k iocp_state option" where
  "iocp_sync_packet K entry s =
    (case oe_overlapped entry of
       Ov_null \<Rightarrow> Some s
     | Ov_sync a \<Rightarrow> do {
         event \<leftarrow> we_syncs (st_kernel s) a;
         if event \<noteq> 0 then Some (snd (wincall (win_set_event K event) s)) else Some s }
     | _ \<Rightarrow> None)"

definition iocp_timer_packet ::
  "'k iocp_callbacks \<Rightarrow> addr \<Rightarrow> entry \<Rightarrow> 'k iocp_state \<Rightarrow> 'k iocp_state option" where
  "iocp_timer_packet U loop entry s =
    (case oe_overlapped entry of
       Ov_null \<Rightarrow> Some s
     | Ov_timer timer \<Rightarrow> do {
         t \<leftarrow> st_timers s timer;
         case t_callback t of
           None \<Rightarrow> Some s
         | Some cb \<Rightarrow>
             let td = t_platform_data t in
             if td = NULL then Some s
             else do {
               x \<leftarrow> st_tdata s td;
               if it_destroyed x then Some s
               else iocp_callback U cb loop (t_watcher t) PD_EVENT_READ (t_user_data t) s } }
     | _ \<Rightarrow> None)"

text \<open>The events of a read: data, the end of the stream, or an error.\<close>

definition completion_events :: "int \<Rightarrow> 32 word \<Rightarrow> 32 word \<Rightarrow> pd_event" where
  "completion_events pending io_error bytes =
    (if pending = 1
     then if io_error = STATUS_SUCCESS
       then if bytes > 0 then PD_EVENT_NONE OR PD_EVENT_READ else PD_EVENT_NONE OR PD_EVENT_HANGUP
       else PD_EVENT_NONE OR PD_EVENT_ERROR
     else PD_EVENT_NONE)"

text \<open>
  A read has ended. The watcher is looked at again after the callback, which may have stopped
  it, before the next read is started.
\<close>

definition iocp_rearm ::
  "'k win \<Rightarrow> addr \<Rightarrow> pd_event \<Rightarrow> 32 word \<Rightarrow> 'k iocp_state \<Rightarrow> 'k iocp_state option" where
  "iocp_rearm K watcher events bytes s = do {
     w \<leftarrow> st_watchers s watcher;
     let wd = w_platform_data w;
     if wd = NULL \<or> \<not> has_flag events PD_EVENT_READ \<or> \<not> bytes > 0 then Some s
     else do {
       x \<leftarrow> st_wdata s wd;
       if iw_stopping x then Some s
       else do {
         s \<leftarrow> write_wdata wd (\<lambda>x. x\<lparr>iw_Internal := 0, iw_pending_operation := 1\<rparr>) s;
         (issued_ok, s) \<leftarrow> reissue_read K w wd s;
         if \<not> issued_ok then write_wdata wd (\<lambda>x. x\<lparr>iw_pending_operation := 0\<rparr>) s else Some s } } }"

definition iocp_read_packet ::
  "'k win \<Rightarrow> 'k iocp_callbacks \<Rightarrow> addr \<Rightarrow> addr \<Rightarrow> pd_watcher \<Rightarrow> pd_callback \<Rightarrow> 32 word \<Rightarrow>
   'k iocp_state \<Rightarrow> 'k iocp_state option" where
  "iocp_read_packet K U loop watcher w cb bytes s = do {
     let wd = w_platform_data w;
     x \<leftarrow> st_wdata s wd;
     let io_error = ucast (iw_Internal x);
     if iw_Internal x = ucast STATUS_CANCELLED \<or> io_error = ERROR_OPERATION_ABORTED
     then write_wdata wd (\<lambda>x. x\<lparr>iw_pending_operation := 0\<rparr>) s
     else do {
       let events = completion_events (iw_pending_operation x) io_error bytes;
       s \<leftarrow> (if has_flag events PD_EVENT_READ
            then write_wdata wd (\<lambda>x. x\<lparr>iw_bytes_available := bytes\<rparr>) s else Some s);
       s \<leftarrow> write_wdata wd (\<lambda>x. x\<lparr>iw_pending_operation := 0\<rparr>) s;
       s \<leftarrow> iocp_callback U cb loop watcher events (w_user_data w) s;
       iocp_rearm K watcher events bytes s } }"

text \<open>
  A packet with a watcher as its key: the last one of a watcher that is being stopped, one of a
  write of the user, one that is too late, or the end of the watcher's read.
\<close>

definition iocp_watcher_packet ::
  "'k win \<Rightarrow> 'k iocp_callbacks \<Rightarrow> addr \<Rightarrow> addr \<Rightarrow> pd_watcher \<Rightarrow> pd_callback \<Rightarrow> entry \<Rightarrow>
   'k iocp_state \<Rightarrow> 'k iocp_state option" where
  "iocp_watcher_packet K U loop watcher w cb entry s = do {
     let wd = w_platform_data w;
     stopping \<leftarrow> (if wd = NULL then Some False else do { x \<leftarrow> st_wdata s wd; Some (iw_stopping x) });
     if stopping
     then do {
       s \<leftarrow> write_wdata wd (\<lambda>x. x\<lparr>iw_pending_operation := 0\<rparr>) s;
       s \<leftarrow> free_wdata wd s;
       write_watcher watcher (\<lambda>w. w\<lparr>w_platform_data := NULL\<rparr>) s }
     else if wd \<noteq> NULL \<and> oe_overlapped entry \<noteq> Ov_read wd
     then iocp_callback U cb loop watcher PD_EVENT_WRITE (w_user_data w) s
     else if wd = NULL then Some s
     else iocp_read_packet K U loop watcher w cb (oe_bytes entry) s }"

definition iocp_process_entry ::
  "'k win \<Rightarrow> 'k iocp_callbacks \<Rightarrow> addr \<Rightarrow> addr \<Rightarrow> nat \<Rightarrow> 'k iocp_state \<Rightarrow> 'k iocp_state option" where
  "iocp_process_entry K U loop data i s = do {
     d \<leftarrow> st_ldata s data;
     entry \<leftarrow> arr_get (id_events d) i;
     if oe_key entry = PD_IOCP_SYNC_KEY then iocp_sync_packet K entry s
     else if oe_key entry = PD_IOCP_TIMER_KEY then iocp_timer_packet U loop entry s
     else if oe_overlapped entry = Ov_null \<and> oe_key entry = 0 then Some s
     else
       let watcher = nat (oe_key entry) in
       if watcher = NULL then Some s
       else do {
         w \<leftarrow> st_watchers s watcher;
         case w_callback w of
           None \<Rightarrow> Some s
         | Some cb \<Rightarrow> iocp_watcher_packet K U loop watcher w cb entry s } }"

fun iocp_dispatch ::
  "'k win \<Rightarrow> 'k iocp_callbacks \<Rightarrow> addr \<Rightarrow> addr \<Rightarrow> nat \<Rightarrow> nat \<Rightarrow> 'k iocp_state \<Rightarrow> 'k iocp_state option" where
  "iocp_dispatch K U loop data i 0 s = Some s"
| "iocp_dispatch K U loop data i (Suc n) s = do {
     s \<leftarrow> iocp_process_entry K U loop data i s;
     iocp_dispatch K U loop data (i + 1) n s }"

section \<open>The wait\<close>

text \<open>
  The system's write of a read's result. It is undefined if the watcher's data has been freed,
  or if the bytes do not fit the buffer.
\<close>

definition store_result :: "io_result \<Rightarrow> 'k iocp_state \<Rightarrow> 'k iocp_state option" where
  "store_result r s =
    (if length (io_bytes r) > unat buffer_size then None
     else write_wdata (io_data r) (\<lambda>x. x\<lparr>iw_Internal := io_status r,
       iw_buffer := (\<lambda>i. if i < length (io_bytes r) then io_bytes r ! i else iw_buffer x i)\<rparr>) s)"

fun store_results :: "io_result list \<Rightarrow> 'k iocp_state \<Rightarrow> 'k iocp_state option" where
  "store_results [] s = Some s"
| "store_results (r # rs) s = do { s \<leftarrow> store_result r s; store_results rs s }"

definition iocp_loop_run ::
  "'k win \<Rightarrow> 'k iocp_callbacks \<Rightarrow> addr \<Rightarrow> int \<Rightarrow> 'k iocp_state \<Rightarrow> (int \<times> 'k iocp_state) option" where
  "iocp_loop_run K U loop timeout_ms s =
    (if loop = NULL then Some (err_code PD_ERR_INVALID_ARG, s)
     else do {
       lp \<leftarrow> st_loops s loop;
       let data = l_platform_data lp;
       if data = NULL then Some (err_code PD_ERR_INVALID_ARG, s)
       else do {
         s \<leftarrow> write_ldata data (\<lambda>d. d\<lparr>id_loop_thread_id := we_thread (st_kernel s)\<rparr>) s;
         d \<leftarrow> st_ldata s data;
         let win_timeout = (if timeout_ms < 0 then INFINITE else word_of_int timeout_ms);
         let (r, s) = wincall (win_completions K (id_iocp_handle d) (id_max_events d) win_timeout) s;
         case r of
           None \<Rightarrow>
             if GetLastError s = WAIT_TIMEOUT then Some (0, s)
             else do { s \<leftarrow> set_last_error loop s; Some (err_code PD_ERR_SYSTEM, s) }
         | Some (entries, results) \<Rightarrow>
             if length entries > length (id_events d) then None
             else do {
               s \<leftarrow> write_ldata data (\<lambda>d. d\<lparr>id_events := map Some entries @ drop (length entries) (id_events d)\<rparr>) s;
               s \<leftarrow> store_results results s;
               s \<leftarrow> iocp_dispatch K U loop data 0 (length entries) s;
               Some (int (length entries), s) } } })"

definition iocp_loop_stop :: "'k win \<Rightarrow> addr \<Rightarrow> 'k iocp_state \<Rightarrow> (pd_error \<times> 'k iocp_state) option" where
  "iocp_loop_stop K loop s =
    (if loop = NULL then Some (PD_ERR_INVALID_ARG, s)
     else do {
       lp \<leftarrow> st_loops s loop;
       let data = l_platform_data lp;
       if data = NULL then Some (PD_ERR_INVALID_ARG, s)
       else do {
         d \<leftarrow> st_ldata s data;
         let (ok, s) = wincall (win_post K (id_iocp_handle d) \<lparr>oe_key = 0, oe_overlapped = Ov_null, oe_bytes = 0\<rparr>) s;
         if ok = None
         then do { s \<leftarrow> set_last_error loop s; Some (PD_ERR_SYSTEM, s) }
         else Some (PD_OK, s) } })"

definition iocp_async_send ::
  "'k win \<Rightarrow> addr \<Rightarrow> addr \<Rightarrow> 'k iocp_state \<Rightarrow> (pd_error \<times> 'k iocp_state) option" where
  "iocp_async_send K loop data s = iocp_loop_stop K loop s"

end
