(* ===== verification/Pd_Iocp_Watchers.thy ===== *)
theory Pd_Iocp_Watchers
  imports Pd_Iocp Pd_Timer
begin

text \<open>
  The operations of the IOCP backend on watchers and timers, and the threads they synchronise
  with: the thread of the loop, and the system's thread that calls \<^verbatim>\<open>iocp_timer_callback\<close>. A
  thread runs alone until it waits for an event; then the schedule \<open>S\<close>, a parameter, says what
  the other threads do until it goes on.
\<close>

section \<open>The other threads\<close>

text \<open>The function that the system's timer thread calls.\<close>

definition iocp_timer_callback :: "'k win \<Rightarrow> addr \<Rightarrow> 'k iocp_state \<Rightarrow> 'k iocp_state option" where
  "iocp_timer_callback K timer s =
    (if timer = NULL then Some s
     else do {
       t \<leftarrow> st_timers s timer;
       let timer_data = t_platform_data t;
       if timer_data = NULL then Some s
       else do {
         x \<leftarrow> st_tdata s timer_data;
         if it_destroyed x then Some s
         else Some (snd (wincall (win_post K (it_iocp_handle x)
           \<lparr>oe_key = PD_IOCP_TIMER_KEY, oe_overlapped = Ov_timer timer, oe_bytes = 0\<rparr>) s)) } })"

text \<open>
  A step of another thread: a wait of the loop by the thread \<open>tid\<close>, or the callback of a queue
  timer, if the system has one that fires. The thread that waits is not \<open>tid\<close>; its identity
  and last error are its own again afterwards.
\<close>

datatype thread_step = Loop_waits "32 word" addr int | Timer_fires addr

definition iocp_step ::
  "'k win \<Rightarrow> 'k iocp_callbacks \<Rightarrow> thread_step \<Rightarrow> 'k iocp_state \<Rightarrow> 'k iocp_state option" where
  "iocp_step K U st s =
    (case st of
       Loop_waits tid loop timeout \<Rightarrow>
         if tid = we_thread (st_kernel s) then Some s
         else map_option snd (iocp_loop_run K U loop timeout
                (s\<lparr>st_kernel := (st_kernel s)\<lparr>we_thread := tid\<rparr>\<rparr>))
     | Timer_fires timer \<Rightarrow>
         (case win_fires K timer (we_os (st_kernel s)) of (fires, k) \<Rightarrow>
            let s = s\<lparr>st_kernel := (st_kernel s)\<lparr>we_os := k\<rparr>\<rparr>
            in if fires then iocp_timer_callback K timer s else Some s))"

fun iocp_steps ::
  "'k win \<Rightarrow> 'k iocp_callbacks \<Rightarrow> thread_step list \<Rightarrow> 'k iocp_state \<Rightarrow> 'k iocp_state option" where
  "iocp_steps K U [] s = Some s"
| "iocp_steps K U (st # sts) s = do {
     s' \<leftarrow> iocp_step K U st s;
     iocp_steps K U sts (s'\<lparr>st_kernel := (st_kernel s')\<lparr>we_thread := we_thread (st_kernel s),
       we_last_error := we_last_error (st_kernel s)\<rparr>\<rparr>) }"

text \<open>\<open>WaitForSingleObject\<close>: whether it returns \<^verbatim>\<open>WAIT_OBJECT_0\<close>.\<close>

type_synonym 'k schedule = "'k iocp_state \<Rightarrow> thread_step list"

definition iocp_wait ::
  "'k win \<Rightarrow> 'k iocp_callbacks \<Rightarrow> 'k schedule \<Rightarrow> handle \<Rightarrow> 32 word \<Rightarrow> 'k iocp_state \<Rightarrow>
   (bool \<times> 'k iocp_state) option" where
  "iocp_wait K U S event ms s = do {
     s \<leftarrow> iocp_steps K U (S s) s;
     let (r, k) = win_wait_object K event ms (we_os (st_kernel s));
     Some (r, s\<lparr>st_kernel := (st_kernel s)\<lparr>we_os := k\<rparr>\<rparr>) }"

section \<open>The drain barrier\<close>

text \<open>
  The local variable \<^verbatim>\<open>sync\<close> lives from here to the return; a packet that still points to it
  afterwards points to memory that is gone.
\<close>

definition iocp_drain_sync ::
  "'k win \<Rightarrow> 'k iocp_callbacks \<Rightarrow> 'k schedule \<Rightarrow> addr \<Rightarrow> 'k iocp_state \<Rightarrow> (bool \<times> 'k iocp_state) option" where
  "iocp_drain_sync K U S loop s =
    (if loop = NULL then Some (False, s)
     else do {
       lp \<leftarrow> st_loops s loop;
       let data = l_platform_data lp;
       if data = NULL then Some (False, s)
       else do {
         let (r, s) = wincall (win_create_event K False) s;
         let event = c_handle r;
         if event = 0 then Some (False, s)
         else do {
           let sync = win_frame K (we_os (st_kernel s));
           let s = s\<lparr>st_kernel := (st_kernel s)\<lparr>we_syncs := (we_syncs (st_kernel s))(sync \<mapsto> event)\<rparr>\<rparr>;
           d \<leftarrow> st_ldata s data;
           let (_, s) = wincall (win_post K (id_iocp_handle d)
             \<lparr>oe_key = PD_IOCP_SYNC_KEY, oe_overlapped = Ov_sync sync, oe_bytes = 0\<rparr>) s;
           (consumed, s) \<leftarrow> iocp_wait K U S event 5000 s;
           let (_, s) = wincall (win_close_handle K event) s;
           let s = s\<lparr>st_kernel := (st_kernel s)\<lparr>we_syncs := (we_syncs (st_kernel s))(sync := None)\<rparr>\<rparr>;
           Some (consumed, s) } } })"

section \<open>Watchers\<close>

text \<open>The members that both registrations set, and the first read of a registration.\<close>

definition iocp_watcher_register ::
  "'k win \<Rightarrow> addr \<Rightarrow> addr \<Rightarrow> 'k iocp_state \<Rightarrow> (pd_error \<times> 'k iocp_state) option" where
  "iocp_watcher_register K loop watcher s =
    (if loop = NULL \<or> watcher = NULL then Some (PD_ERR_INVALID_ARG, s)
     else do {
       lp \<leftarrow> st_loops s loop;
       let data = l_platform_data lp;
       if data = NULL then Some (PD_ERR_LOOP_CLOSED, s)
       else let (watcher_data, s) = calloc_wdata zero_iocp_watcher_data s in
         if watcher_data = NULL
         then do { s \<leftarrow> set_last_error loop s; Some (PD_ERR_NO_MEMORY, s) }
         else do {
           w \<leftarrow> st_watchers s watcher;
           s \<leftarrow> write_wdata watcher_data (\<lambda>x. x\<lparr>iw_events := w_events w, iw_wsa_buf := watcher_data,
                  iw_wsa_len := buffer_size\<rparr>) s;
           d \<leftarrow> st_ldata s data;
           let (result, s) = wincall (win_associate K (fd_to_handle (w_fd w)) (id_iocp_handle d) (int watcher)) s;
           if result = None
           then do {
             s \<leftarrow> set_last_error loop s;
             s \<leftarrow> write_watcher watcher (\<lambda>w. w\<lparr>w_platform_data := NULL\<rparr>) s;
             s \<leftarrow> free_wdata watcher_data s;
             Some (PD_ERR_SYSTEM, s) }
           else do {
             s \<leftarrow> write_watcher watcher (\<lambda>w. w\<lparr>w_platform_data := watcher_data\<rparr>) s;
             if has_flag (w_events w) PD_EVENT_READ
             then do {
               s \<leftarrow> write_wdata watcher_data (\<lambda>x. x\<lparr>iw_Internal := 0\<rparr>) s;
               x \<leftarrow> st_wdata s watcher_data;
               let (rc, s) = wincall (win_recv K (fd_to_handle (w_fd w)) (iw_wsa_buf x) (iw_wsa_len x) watcher_data) s;
               if rc = None \<and> GetLastError s \<noteq> WSA_IO_PENDING
               then do {
                 s \<leftarrow> set_last_error loop s;
                 s \<leftarrow> free_wdata watcher_data s;
                 Some (PD_ERR_SYSTEM, s) }
               else do {
                 s \<leftarrow> write_wdata watcher_data (\<lambda>x. x\<lparr>iw_pending_operation := 1\<rparr>) s;
                 Some (PD_OK, s) } }
             else Some (PD_OK, s) } } })"

definition iocp_watcher_register_handle ::
  "'k win \<Rightarrow> addr \<Rightarrow> addr \<Rightarrow> 'k iocp_state \<Rightarrow> (pd_error \<times> 'k iocp_state) option" where
  "iocp_watcher_register_handle K loop watcher s =
    (if loop = NULL \<or> watcher = NULL then Some (PD_ERR_INVALID_ARG, s)
     else do {
       w \<leftarrow> st_watchers s watcher;
       if w_handle w = 0 then Some (PD_ERR_INVALID_ARG, s)
       else do {
         lp \<leftarrow> st_loops s loop;
         let data = l_platform_data lp;
         if data = NULL then Some (PD_ERR_LOOP_CLOSED, s)
         else if int (w_handle w) = INVALID_HANDLE_VALUE then Some (PD_ERR_INVALID_ARG, s)
         else let (watcher_data, s) = calloc_wdata zero_iocp_watcher_data s in
           if watcher_data = NULL
           then do { s \<leftarrow> set_last_error loop s; Some (PD_ERR_NO_MEMORY, s) }
           else do {
             s \<leftarrow> write_wdata watcher_data (\<lambda>x. x\<lparr>iw_events := w_events w, iw_wsa_buf := watcher_data,
                    iw_wsa_len := buffer_size\<rparr>) s;
             d \<leftarrow> st_ldata s data;
             let (result, s) = wincall (win_associate K (int (w_handle w)) (id_iocp_handle d) (int watcher)) s;
             if result = None
             then do {
               s \<leftarrow> set_last_error loop s;
               s \<leftarrow> free_wdata watcher_data s;
               Some (PD_ERR_SYSTEM, s) }
             else if has_flag (w_events w) PD_EVENT_READ
             then do {
               s \<leftarrow> write_wdata watcher_data (\<lambda>x. x\<lparr>iw_Internal := 0\<rparr>) s;
               let (ok, s) = wincall (win_read_file K (int (w_handle w)) watcher_data buffer_size watcher_data) s;
               if ok = None \<and> GetLastError s \<noteq> ERROR_IO_PENDING \<and> GetLastError s \<noteq> ERROR_MORE_DATA
               then do {
                 s \<leftarrow> set_last_error loop s;
                 s \<leftarrow> free_wdata watcher_data s;
                 Some (PD_ERR_SYSTEM, s) }
               else do {
                 s \<leftarrow> write_wdata watcher_data (\<lambda>x. x\<lparr>iw_pending_operation := 1\<rparr>) s;
                 s \<leftarrow> write_watcher watcher (\<lambda>w. w\<lparr>w_platform_data := watcher_data\<rparr>) s;
                 Some (PD_OK, s) } }
             else do {
               s \<leftarrow> write_watcher watcher (\<lambda>w. w\<lparr>w_platform_data := watcher_data\<rparr>) s;
               Some (PD_OK, s) } } } })"

text \<open>Whether the watcher has a handle of its own; otherwise its descriptor is a socket.\<close>

definition has_handle :: "pd_watcher \<Rightarrow> bool" where
  "has_handle w \<longleftrightarrow> w_is_handle w \<and> w_handle w \<noteq> 0 \<and> int (w_handle w) \<noteq> INVALID_HANDLE_VALUE"

definition cancel_read ::
  "'k win \<Rightarrow> pd_watcher \<Rightarrow> addr \<Rightarrow> 'k iocp_state \<Rightarrow> 'k iocp_state" where
  "cancel_read K w watcher_data s =
    (let cancel_handle =
       (if has_handle w then int (w_handle w) else if w_fd w \<ge> 0 then fd_to_handle (w_fd w) else 0)
     in if cancel_handle \<noteq> 0 \<and> cancel_handle \<noteq> INVALID_HANDLE_VALUE
       then if w_is_handle w then snd (wincall (win_cancel_io_ex K cancel_handle watcher_data) s)
         else snd (wincall (win_cancel_io K cancel_handle) s)
       else s)"

definition iocp_watcher_update ::
  "'k win \<Rightarrow> addr \<Rightarrow> pd_event \<Rightarrow> 'k iocp_state \<Rightarrow> (pd_error \<times> 'k iocp_state) option" where
  "iocp_watcher_update K watcher events s =
    (if watcher = NULL then Some (PD_ERR_INVALID_ARG, s)
     else do {
       w \<leftarrow> st_watchers s watcher;
       if w_loop w = NULL then Some (PD_ERR_INVALID_ARG, s)
       else
         let watcher_data = w_platform_data w in
         if watcher_data = NULL then Some (PD_ERR_INVALID_ARG, s)
         else do {
           x \<leftarrow> st_wdata s watcher_data;
           let s = (if iw_pending_operation x = 1 \<and> \<not> has_flag events PD_EVENT_READ
             then cancel_read K w watcher_data s else s);
           s \<leftarrow> write_wdata watcher_data (\<lambda>x. x\<lparr>iw_events := events\<rparr>) s;
           s \<leftarrow> write_watcher watcher (\<lambda>w. w\<lparr>w_events := events\<rparr>) s;
           x \<leftarrow> st_wdata s watcher_data;
           if has_flag events PD_EVENT_READ \<and> iw_pending_operation x = 0
           then do {
             s \<leftarrow> write_wdata watcher_data (\<lambda>x. x\<lparr>iw_Internal := 0, iw_pending_operation := 1\<rparr>) s;
             if has_handle w
             then
               let (ok, s) = wincall (win_read_file K (int (w_handle w)) watcher_data buffer_size watcher_data) s in
               if ok = None \<and> GetLastError s \<noteq> ERROR_IO_PENDING \<and> GetLastError s \<noteq> ERROR_MORE_DATA
               then do { s \<leftarrow> set_last_error (w_loop w) s; Some (PD_ERR_SYSTEM, s) }
               else Some (PD_OK, s)
             else
               let (rc, s) = wincall (win_recv K (fd_to_handle (w_fd w)) (iw_wsa_buf x) (iw_wsa_len x) watcher_data) s in
               if rc = None \<and> GetLastError s \<noteq> WSA_IO_PENDING
               then do { s \<leftarrow> set_last_error (w_loop w) s; Some (PD_ERR_SYSTEM, s) }
               else Some (PD_OK, s) }
           else Some (PD_OK, s) } })"

text \<open>The handle whose read an unregistration cancels, or null.\<close>

definition unregister_handle :: "pd_watcher \<Rightarrow> handle" where
  "unregister_handle w =
    (if has_handle w then int (w_handle w)
     else if w_fd w \<ge> 0
     then let handle = fd_to_handle (w_fd w) in if handle = INVALID_HANDLE_VALUE then 0 else handle
     else 0)"

definition iocp_watcher_unregister ::
  "'k win \<Rightarrow> 'k iocp_callbacks \<Rightarrow> 'k schedule \<Rightarrow> addr \<Rightarrow> 'k iocp_state \<Rightarrow> (pd_error \<times> 'k iocp_state) option" where
  "iocp_watcher_unregister K U S watcher s =
    (if watcher = NULL then Some (PD_ERR_INVALID_ARG, s)
     else do {
       w \<leftarrow> st_watchers s watcher;
       if w_loop w = NULL then Some (PD_ERR_INVALID_ARG, s)
       else
         let watcher_data = w_platform_data w in
         if watcher_data = NULL then Some (PD_ERR_INVALID_ARG, s)
         else do {
           x \<leftarrow> st_wdata s watcher_data;
           if iw_stopping x then Some (PD_OK, s)
           else
             let handle = unregister_handle w
             in if iw_pending_operation x = 0
               then do {
                 s \<leftarrow> free_wdata watcher_data s;
                 s \<leftarrow> write_watcher watcher (\<lambda>w. w\<lparr>w_platform_data := NULL\<rparr>) s;
                 Some (PD_OK, s) }
               else do {
                 s \<leftarrow> write_wdata watcher_data (\<lambda>x. x\<lparr>iw_stopping := True\<rparr>) s;
                 let s = (if handle \<noteq> 0 then snd (wincall (win_cancel_io_ex K handle watcher_data) s) else s);
                 lp \<leftarrow> st_loops s (w_loop w);
                 let data = l_platform_data lp;
                 if data = NULL then Some (PD_OK, s)
                 else do {
                   d \<leftarrow> st_ldata s data;
                   if id_loop_thread_id d \<noteq> 0 \<and> we_thread (st_kernel s) \<noteq> id_loop_thread_id d
                   then do { (_, s) \<leftarrow> iocp_drain_sync K U S (w_loop w) s; Some (PD_OK, s) }
                   else Some (PD_OK, s) } } } })"

text \<open>
  The bytes that are copied to the buffer \<open>buf\<close> of the caller. What is left is moved to the
  start of the watcher's buffer.
\<close>

definition iocp_watcher_drain_read ::
  "addr \<Rightarrow> addr \<Rightarrow> nat \<Rightarrow> 'k iocp_state \<Rightarrow> (8 word list \<times> 'k iocp_state) option" where
  "iocp_watcher_drain_read watcher buf len s =
    (if watcher = NULL then Some ([], s)
     else do {
       w \<leftarrow> st_watchers s watcher;
       let wd = w_platform_data w;
       if wd = NULL \<or> buf = NULL \<or> len = 0 then Some ([], s)
       else do {
         x \<leftarrow> st_wdata s wd;
         let available = unat (iw_bytes_available x);
         if available = 0 then Some ([], s)
         else if available > unat buffer_size then None
         else
           let to_copy = min available len;
               bytes = map (iw_buffer x) [0..<to_copy]
           in do {
             s \<leftarrow> (if available > to_copy
                  then write_wdata wd (\<lambda>x. x\<lparr>iw_buffer := (\<lambda>i. if i < available - to_copy
                    then iw_buffer x (to_copy + i) else iw_buffer x i)\<rparr>) s
                  else Some s);
             s \<leftarrow> write_wdata wd (\<lambda>x. x\<lparr>iw_bytes_available := iw_bytes_available x - of_nat to_copy\<rparr>) s;
             Some (bytes, s) } } })"

end
