(* ===== verification/Pd_Iocp_Timer.thy ===== *)
theory Pd_Iocp_Timer
  imports Pd_Iocp_Watchers
begin

text \<open>
  The timers of the IOCP backend (\<^verbatim>\<open>src/platform/iocp.c\<close>), on the queue timers of the system,
  and the backend's operation tables, the one of other platforms included.
\<close>

section \<open>Timers\<close>

definition iocp_timer_create ::
  "'k win \<Rightarrow> addr \<Rightarrow> addr \<Rightarrow> 'k iocp_state \<Rightarrow> (pd_error \<times> 'k iocp_state) option" where
  "iocp_timer_create K loop timer s =
    (if loop = NULL \<or> timer = NULL then Some (PD_ERR_INVALID_ARG, s)
     else do {
       lp \<leftarrow> st_loops s loop;
       let data = l_platform_data lp;
       if data = NULL then Some (PD_ERR_LOOP_CLOSED, s)
       else let (timer_data, s) = calloc_tdata zero_iocp_timer_data s in
         if timer_data = NULL
         then do { s \<leftarrow> set_last_error loop s; Some (PD_ERR_NO_MEMORY, s) }
         else do {
           d \<leftarrow> st_ldata s data;
           let (event, s) = wincall (win_create_event K True) s;
           s \<leftarrow> write_tdata timer_data (\<lambda>x. x\<lparr>it_iocp_handle := id_iocp_handle d, it_queue_timer := 0,
                  it_started := False, it_stop_event := c_handle event\<rparr>) s;
           if c_handle event = 0
           then do {
             s \<leftarrow> set_last_error loop s;
             s \<leftarrow> free_tdata timer_data s;
             Some (PD_ERR_SYSTEM, s) }
           else do {
             s \<leftarrow> write_timer timer (\<lambda>t. t\<lparr>t_platform_data := timer_data\<rparr>) s;
             let (watcher, s) = calloc_watcher s;
             if watcher = NULL
             then do {
               x \<leftarrow> st_tdata s timer_data;
               let (_, s) = wincall (win_close_handle K (it_stop_event x)) s;
               s \<leftarrow> free_tdata timer_data s;
               s \<leftarrow> write_timer timer (\<lambda>t. t\<lparr>t_platform_data := NULL\<rparr>) s;
               s \<leftarrow> set_last_error loop s;
               Some (PD_ERR_NO_MEMORY, s) }
             else do {
               s \<leftarrow> write_watcher watcher (\<lambda>w. w\<lparr>w_fd := - 1, w_events := PD_EVENT_NONE, w_callback := None,
                      w_user_data := timer, w_loop := loop, w_active := False, w_ref_count := 1,
                      w_platform_data := NULL\<rparr>) s;
               s \<leftarrow> write_timer timer (\<lambda>t. t\<lparr>t_watcher := watcher, t_owns_watcher := False\<rparr>) s;
               (result, s) \<leftarrow> pd_loop_add_watcher loop watcher s;
               if result \<noteq> PD_OK
               then do {
                 s \<leftarrow> free_watcher watcher s;
                 x \<leftarrow> st_tdata s timer_data;
                 let (_, s) = wincall (win_close_handle K (it_stop_event x)) s;
                 s \<leftarrow> free_tdata timer_data s;
                 s \<leftarrow> write_timer timer (\<lambda>t. t\<lparr>t_platform_data := NULL, t_watcher := NULL\<rparr>) s;
                 Some (result, s) }
               else Some (PD_OK, s) } } } })"

text \<open>The times are cut to 32 bits.\<close>

definition iocp_timer_start ::
  "'k win \<Rightarrow> addr \<Rightarrow> 'k iocp_state \<Rightarrow> (pd_error \<times> 'k iocp_state) option" where
  "iocp_timer_start K timer s =
    (if timer = NULL then Some (PD_ERR_INVALID_ARG, s)
     else do {
       t \<leftarrow> st_timers s timer;
       if t_loop t = NULL then Some (PD_ERR_INVALID_ARG, s)
       else
         let timer_data = t_platform_data t in
         if timer_data = NULL then Some (PD_ERR_INVALID_ARG, s)
         else do {
           _ \<leftarrow> st_tdata s timer_data;
           let due_time = ucast (t_timeout_ms t);
           let period = ucast (t_interval_ms t);
           let (success, s) = wincall (win_create_timer K timer due_time period) s;
           case success of
             None \<Rightarrow> do { s \<leftarrow> set_last_error (t_loop t) s; Some (PD_ERR_SYSTEM, s) }
           | Some queue_timer \<Rightarrow> do {
               s \<leftarrow> write_tdata timer_data (\<lambda>x. x\<lparr>it_queue_timer := queue_timer\<rparr>) s;
               s \<leftarrow> write_tdata timer_data (\<lambda>x. x\<lparr>it_started := True\<rparr>) s;
               Some (PD_OK, s) } } })"

definition iocp_timer_stop ::
  "'k win \<Rightarrow> 'k iocp_callbacks \<Rightarrow> 'k schedule \<Rightarrow> addr \<Rightarrow> 'k iocp_state \<Rightarrow> (pd_error \<times> 'k iocp_state) option" where
  "iocp_timer_stop K U S timer s =
    (if timer = NULL then Some (PD_ERR_INVALID_ARG, s)
     else do {
       t \<leftarrow> st_timers s timer;
       if t_loop t = NULL then Some (PD_ERR_INVALID_ARG, s)
       else
         let timer_data = t_platform_data t in
         if timer_data = NULL then Some (PD_OK, s)
         else do {
           x \<leftarrow> st_tdata s timer_data;
           if \<not> it_started x then Some (PD_OK, s)
           else do {
             let (_, s) = wincall (win_reset_event K (it_stop_event x)) s;
             let (success, s) = wincall (win_delete_timer K (it_queue_timer x) (it_stop_event x)) s;
             if success = None \<and> GetLastError s \<noteq> ERROR_IO_PENDING
             then do { s \<leftarrow> set_last_error (t_loop t) s; Some (PD_ERR_SYSTEM, s) }
             else do {
               (_, s) \<leftarrow> iocp_wait K U S (it_stop_event x) 5000 s;
               s \<leftarrow> write_tdata timer_data (\<lambda>x. x\<lparr>it_queue_timer := 0, it_started := False\<rparr>) s;
               Some (PD_OK, s) } } } })"

text \<open>
  The first part of a destruction: the data is marked, the queue timer is deleted, which waits for
  its callback to end, and the event is closed.
\<close>

definition iocp_timer_tear_down ::
  "'k win \<Rightarrow> addr \<Rightarrow> 'k iocp_state \<Rightarrow> 'k iocp_state option" where
  "iocp_timer_tear_down K timer_data s = do {
     s \<leftarrow> write_tdata timer_data (\<lambda>x. x\<lparr>it_destroyed := True\<rparr>) s;
     x \<leftarrow> st_tdata s timer_data;
     s \<leftarrow> (if it_started x \<and> it_queue_timer x \<noteq> 0
          then let (_, s) = wincall (win_delete_timer K (it_queue_timer x) INVALID_HANDLE_VALUE) s
            in write_tdata timer_data (\<lambda>x. x\<lparr>it_queue_timer := 0, it_started := False\<rparr>) s
          else Some s);
     if it_stop_event x \<noteq> 0
     then let (_, s) = wincall (win_close_handle K (it_stop_event x)) s
       in write_tdata timer_data (\<lambda>x. x\<lparr>it_stop_event := 0\<rparr>) s
     else Some s }"

text \<open>
  The last part. The timer is read again after the drain, during which other threads have run.
\<close>

definition iocp_timer_release :: "addr \<Rightarrow> bool \<Rightarrow> 'k iocp_state \<Rightarrow> 'k iocp_state option" where
  "iocp_timer_release timer drained s = do {
     t \<leftarrow> st_timers s timer;
     s \<leftarrow> (if drained \<and> t_platform_data t \<noteq> NULL
          then do {
            s \<leftarrow> free_tdata (t_platform_data t) s;
            write_timer timer (\<lambda>t. t\<lparr>t_platform_data := NULL\<rparr>) s }
          else Some s);
     if t_watcher t \<noteq> NULL
     then do {
       s \<leftarrow> (if t_loop t \<noteq> NULL
            then do { (_, s) \<leftarrow> pd_loop_remove_watcher (t_loop t) (t_watcher t) s; Some s }
            else Some s);
       s \<leftarrow> free_watcher (t_watcher t) s;
       write_timer timer (\<lambda>t. t\<lparr>t_watcher := NULL\<rparr>) s }
     else Some s }"

text \<open>The C result is 1 when the structure may be freed.\<close>

definition iocp_timer_destroy ::
  "'k win \<Rightarrow> 'k iocp_callbacks \<Rightarrow> 'k schedule \<Rightarrow> addr \<Rightarrow> 'k iocp_state \<Rightarrow> (bool \<times> 'k iocp_state) option" where
  "iocp_timer_destroy K U S timer s =
    (if timer = NULL then Some (True, s)
     else do {
       t \<leftarrow> st_timers s timer;
       s \<leftarrow> (if t_platform_data t = NULL then Some s else iocp_timer_tear_down K (t_platform_data t) s);
       (drained, s) \<leftarrow> (if t_loop t \<noteq> NULL \<and> t_watcher t \<noteq> NULL
         then iocp_drain_sync K U S (t_loop t) s else Some (False, s));
       s \<leftarrow> iocp_timer_release timer drained s;
       Some (drained, s) })"

section \<open>The operation tables\<close>

definition pd_platform_iocp ::
  "'k win \<Rightarrow> 'k iocp_callbacks \<Rightarrow> 'k schedule \<Rightarrow> 'k iocp_state pd_platform_ops" where
  "pd_platform_iocp K U S = \<lparr>op_watcher_register = Some (iocp_watcher_register K),
     op_watcher_register_handle = Some (iocp_watcher_register_handle K),
     op_watcher_update = Some (iocp_watcher_update K),
     op_watcher_unregister = Some (iocp_watcher_unregister K U S),
     op_watcher_drain_read = Some iocp_watcher_drain_read,
     op_loop_create = Some (iocp_loop_create K),
     op_loop_destroy = Some (iocp_loop_destroy K),
     op_loop_run = Some (iocp_loop_run K U),
     op_loop_stop = Some (iocp_loop_stop K),
     op_async_send = Some (iocp_async_send K),
     op_timer_create = Some (iocp_timer_create K),
     op_timer_start = Some (iocp_timer_start K),
     op_timer_stop = Some (iocp_timer_stop K U S),
     op_timer_destroy = Some (iocp_timer_destroy K U S),
     op_name = ''iocp'',
     op_max_events = 1024\<rparr>"

text \<open>The table under the same name that other platforms are built with.\<close>

definition pd_platform_iocp_stub :: "'s pd_platform_ops" where
  "pd_platform_iocp_stub = \<lparr>op_watcher_register = None, op_watcher_register_handle = None,
     op_watcher_update = None, op_watcher_unregister = None, op_watcher_drain_read = None,
     op_loop_create = None, op_loop_destroy = None, op_loop_run = None, op_loop_stop = None,
     op_async_send = None, op_timer_create = None, op_timer_start = None, op_timer_stop = None,
     op_timer_destroy = None, op_name = ''iocp'', op_max_events = 0\<rparr>"

lemma iocp_table [simp]:
  "op_watcher_register (pd_platform_iocp K U S) = Some (iocp_watcher_register K)"
  "op_watcher_register_handle (pd_platform_iocp K U S) = Some (iocp_watcher_register_handle K)"
  "op_watcher_update (pd_platform_iocp K U S) = Some (iocp_watcher_update K)"
  "op_watcher_unregister (pd_platform_iocp K U S) = Some (iocp_watcher_unregister K U S)"
  "op_watcher_drain_read (pd_platform_iocp K U S) = Some iocp_watcher_drain_read"
  "op_loop_create (pd_platform_iocp K U S) = Some (iocp_loop_create K)"
  "op_loop_destroy (pd_platform_iocp K U S) = Some (iocp_loop_destroy K)"
  "op_loop_run (pd_platform_iocp K U S) = Some (iocp_loop_run K U)"
  "op_async_send (pd_platform_iocp K U S) = Some (iocp_async_send K)"
  "op_timer_create (pd_platform_iocp K U S) = Some (iocp_timer_create K)"
  "op_timer_start (pd_platform_iocp K U S) = Some (iocp_timer_start K)"
  "op_timer_stop (pd_platform_iocp K U S) = Some (iocp_timer_stop K U S)"
  "op_timer_destroy (pd_platform_iocp K U S) = Some (iocp_timer_destroy K U S)"
  by (simp_all add: pd_platform_iocp_def)

end
