(* ===== verification/Pd_Iocp_Props.thy ===== *)
theory Pd_Iocp_Props
  imports Pd_Iocp_Timer Pd_Backend
begin

text \<open>
  What the watchers of the IOCP backend do: reading the bytes a completed read has left,
  registering, and stopping while a read is in flight.
\<close>

section \<open>Calls\<close>

lemma wincall_cases:
  obtains (fail) e k where "wincall f s = (None, s\<lparr>st_kernel := (st_kernel s)\<lparr>we_os := k, we_last_error := e\<rparr>\<rparr>)"
      "f (we_os (st_kernel s)) = (Inl e, k)"
  | (ok) v k where "wincall f s = (Some v, s\<lparr>st_kernel := (st_kernel s)\<lparr>we_os := k\<rparr>\<rparr>)" "f (we_os (st_kernel s)) = (Inr v, k)"
proof (cases "f (we_os (st_kernel s))")
  case (Pair q k)
  then show thesis using that by (cases q) (simp_all add: wincall_def)
qed

lemma wincall_env: "\<exists>env. snd (wincall f s) = s\<lparr>st_kernel := env\<rparr> \<and> we_syncs env = we_syncs (st_kernel s) \<and>
    we_thread env = we_thread (st_kernel s) \<and> we_os env = snd (f (we_os (st_kernel s)))"
  by (rule wincall_cases [of f s]) auto

section \<open>An example\<close>

text \<open>
  A loop 1 with a port 4 and two watchers: 10, of the socket 40, has a read in flight; 11, of
  the socket 44, is stopped. The thread 2 runs the loop, the thread 1 is running.
\<close>

definition ix_watcher :: "int \<Rightarrow> bool \<Rightarrow> addr \<Rightarrow> pd_watcher" where
  "ix_watcher fd active p = zero_watcher\<lparr>w_fd := fd, w_events := PD_EVENT_READ, w_callback := Some (Cb_user 0),
     w_loop := 1, w_active := active, w_ref_count := 1, w_platform_data := p\<rparr>"

definition ix_wdata :: pd_iocp_watcher_data where
  "ix_wdata = zero_iocp_watcher_data\<lparr>iw_wsa_buf := 600, iw_wsa_len := buffer_size, iw_pending_operation := 1,
     iw_events := PD_EVENT_READ\<rparr>"

definition ix_data :: pd_iocp_data where
  "ix_data = \<lparr>id_iocp_handle = 4, id_events = replicate 2 (Some zero_entry), id_max_events = 2, id_loop_thread_id = 2\<rparr>"

definition ix_kernel :: ref_win_kernel where
  "ix_kernel = rw_init\<lparr>rw_next := 100, rw_assoc := [(40, (4, 10))], rw_reads := [(600, 40)]\<rparr>"

definition ix_loop :: pd_loop where
  "ix_loop = (example_loop 4 [10, 11])\<lparr>l_ops := Some Ops_iocp\<rparr>"

definition ix_state :: "ref_win_kernel iocp_state" where
  "ix_state = (init_state \<lparr>we_os = ix_kernel, we_last_error = 0, we_thread = 1, we_syncs = (\<lambda>_. None)\<rparr>
      True [Gives 601, Gives 700, Gives 800, Gives 900])\<lparr>
     st_loops := [1 \<mapsto> ix_loop], st_watchers := [10 \<mapsto> ix_watcher 40 True 600, 11 \<mapsto> ix_watcher 44 False NULL],
     st_ldata := [500 \<mapsto> ix_data], st_wdata := [600 \<mapsto> ix_wdata]\<rparr>"

lemma ix_state_simps [simp]:
  "st_loops ix_state = [1 \<mapsto> ix_loop]"
  "st_watchers ix_state = [10 \<mapsto> ix_watcher 40 True 600, 11 \<mapsto> ix_watcher 44 False NULL]"
  "st_ldata ix_state = [500 \<mapsto> ix_data]" "st_wdata ix_state = [600 \<mapsto> ix_wdata]"
  "st_timers ix_state = (\<lambda>_. None)" "st_tdata ix_state = (\<lambda>_. None)"
  "we_os (st_kernel ix_state) = ix_kernel" "we_thread (st_kernel ix_state) = 1"
  "we_syncs (st_kernel ix_state) = (\<lambda>_. None)"
  by (simp_all add: ix_state_def init_state_def)

lemma ix_loop_simps [simp]: "l_platform_data ix_loop = 500" "l_ops ix_loop = Some Ops_iocp"
  by (simp_all add: ix_loop_def example_loop_def)

lemma ix_watcher_simps [simp]:
  "w_loop (ix_watcher fd a p) = 1" "w_platform_data (ix_watcher fd a p) = p" "w_fd (ix_watcher fd a p) = fd"
  "w_events (ix_watcher fd a p) = PD_EVENT_READ" "\<not> w_is_handle (ix_watcher fd a p)"
  "w_callback (ix_watcher fd a p) = Some (Cb_user 0)" "w_active (ix_watcher fd a p) = a"
  by (simp_all add: ix_watcher_def zero_watcher_def)

lemma ix_data_simps [simp]:
  "id_iocp_handle ix_data = 4" "id_loop_thread_id ix_data = 2" "id_max_events ix_data = 2"
  "iw_pending_operation ix_wdata = 1" "\<not> iw_stopping ix_wdata" "iw_bytes_available ix_wdata = 0"
  by (simp_all add: ix_data_def ix_wdata_def zero_iocp_watcher_data_def)

section \<open>Reading the bytes of a completed read\<close>

text \<open>The bytes a watcher has not given to the user yet.\<close>

definition unread :: "pd_iocp_watcher_data \<Rightarrow> 8 word list" where
  "unread x = map (iw_buffer x) [0..<unat (iw_bytes_available x)]"

lemma length_unread [simp]: "length (unread x) = unat (iw_bytes_available x)"
  by (simp add: unread_def)









section \<open>Registering a socket\<close>




end
