(* ===== verification/Pd_Iocp_Dispatch.thy ===== *)
theory Pd_Iocp_Dispatch
  imports Pd_Iocp_Props
begin

text \<open>
  The wait of the IOCP backend: what a completion packet means, as one table, and the delivery
  of the packets a wait has dequeued.
\<close>

section \<open>What a packet means\<close>

text \<open>
  The decisions of the dispatch loop in one place. A packet is for nobody, signals the event of a
  thread that drains, calls back with events (a timer's, or the end of a write of the user), is
  the last one of a watcher that is being stopped, or ends a read, which was cancelled or not.
\<close>

datatype packet =
    For_nobody
  | Signals handle
  | Calls pd_callback addr pd_event addr
  | Last_of addr addr
  | Cancelled addr
  | Ends_read addr addr pd_callback pd_event "32 word" addr

definition cancelled :: "pd_iocp_watcher_data \<Rightarrow> bool" where
  "cancelled x \<longleftrightarrow> iw_Internal x = ucast STATUS_CANCELLED \<or> (ucast (iw_Internal x) :: 32 word) = ERROR_OPERATION_ABORTED"

definition sync_packet :: "overlapped \<Rightarrow> 'k iocp_state \<Rightarrow> packet option" where
  "sync_packet ov s = (case ov of
     Ov_null \<Rightarrow> Some For_nobody
   | Ov_sync a \<Rightarrow> map_option (\<lambda>event. if event = 0 then For_nobody else Signals event) (we_syncs (st_kernel s) a)
   | _ \<Rightarrow> None)"

definition timer_packet :: "overlapped \<Rightarrow> 'k iocp_state \<Rightarrow> packet option" where
  "timer_packet ov s = (case ov of
     Ov_null \<Rightarrow> Some For_nobody
   | Ov_timer timer \<Rightarrow> do {
       t \<leftarrow> st_timers s timer;
       case t_callback t of
         None \<Rightarrow> Some For_nobody
       | Some cb \<Rightarrow>
           if t_platform_data t = NULL then Some For_nobody
           else map_option (\<lambda>x. if it_destroyed x then For_nobody else Calls cb (t_watcher t) PD_EVENT_READ (t_user_data t))
             (st_tdata s (t_platform_data t)) }
   | _ \<Rightarrow> None)"

definition watcher_packet :: "addr \<Rightarrow> overlapped \<Rightarrow> 32 word \<Rightarrow> 'k iocp_state \<Rightarrow> packet option" where
  "watcher_packet watcher ov bytes s = do {
     w \<leftarrow> st_watchers s watcher;
     case w_callback w of
       None \<Rightarrow> Some For_nobody
     | Some cb \<Rightarrow>
         let wd = w_platform_data w in
         if wd = NULL then Some For_nobody
         else map_option (\<lambda>x.
             if iw_stopping x then Last_of watcher wd
             else if ov \<noteq> Ov_read wd then Calls cb watcher PD_EVENT_WRITE (w_user_data w)
             else if cancelled x then Cancelled wd
             else Ends_read watcher wd cb
               (completion_events (iw_pending_operation x) (ucast (iw_Internal x)) bytes) bytes (w_user_data w))
           (st_wdata s wd) }"

definition packet_of :: "entry \<Rightarrow> 'k iocp_state \<Rightarrow> packet option" where
  "packet_of e s =
    (if oe_key e = PD_IOCP_SYNC_KEY then sync_packet (oe_overlapped e) s
     else if oe_key e = PD_IOCP_TIMER_KEY then timer_packet (oe_overlapped e) s
     else if nat (oe_key e) = 0 then Some For_nobody
     else watcher_packet (nat (oe_key e)) (oe_overlapped e) (oe_bytes e) s)"

definition act :: "'k win \<Rightarrow> 'k iocp_callbacks \<Rightarrow> addr \<Rightarrow> packet \<Rightarrow> 'k iocp_state \<Rightarrow> 'k iocp_state option" where
  "act K U l p s = (case p of
     For_nobody \<Rightarrow> Some s
   | Signals event \<Rightarrow> Some (snd (wincall (win_set_event K event) s))
   | Calls cb w ev ud \<Rightarrow> iocp_callback U cb l w ev ud s
   | Last_of w wd \<Rightarrow> do {
       s \<leftarrow> free_wdata wd s;
       write_watcher w (\<lambda>w. w\<lparr>w_platform_data := NULL\<rparr>) s }
   | Cancelled wd \<Rightarrow> write_wdata wd (\<lambda>x. x\<lparr>iw_pending_operation := 0\<rparr>) s
   | Ends_read w wd cb ev bytes ud \<Rightarrow> do {
       s \<leftarrow> write_wdata wd (\<lambda>x. x\<lparr>
              iw_bytes_available := (if has_flag ev PD_EVENT_READ then bytes else iw_bytes_available x),
              iw_pending_operation := 0\<rparr>) s;
       s \<leftarrow> iocp_callback U cb l w ev ud s;
       iocp_rearm K w ev bytes s })"

definition iocp_deliver :: "'k win \<Rightarrow> 'k iocp_callbacks \<Rightarrow> addr \<Rightarrow> entry \<Rightarrow> 'k iocp_state \<Rightarrow> 'k iocp_state option" where
  "iocp_deliver K U l e s = do { p \<leftarrow> packet_of e s; act K U l p s }"

fun iocp_deliver_all ::
  "'k win \<Rightarrow> 'k iocp_callbacks \<Rightarrow> addr \<Rightarrow> entry list \<Rightarrow> 'k iocp_state \<Rightarrow> 'k iocp_state option" where
  "iocp_deliver_all K U l [] s = Some s"
| "iocp_deliver_all K U l (e # es) s = do { s \<leftarrow> iocp_deliver K U l e s; iocp_deliver_all K U l es s }"

lemma free_wdata_written:
  "st_wdata s wd = Some x \<Longrightarrow> wd \<noteq> NULL \<Longrightarrow> free_wdata wd (s\<lparr>st_wdata := (st_wdata s)(wd \<mapsto> y)\<rparr>) = free_wdata wd s"
  by (simp add: heap_free_def)

lemma unread_bytes_same: "d\<lparr>iw_bytes_available := iw_bytes_available d, iw_pending_operation := n\<rparr> = d\<lparr>iw_pending_operation := n\<rparr>"
  by (cases d) simp

lemma read_packet_eq:
  assumes d: "st_wdata s (w_platform_data x) = Some d"
  shows "iocp_read_packet K U l w x cb bytes s =
    act K U l (if cancelled d then Cancelled (w_platform_data x)
      else Ends_read w (w_platform_data x) cb (completion_events (iw_pending_operation d) (ucast (iw_Internal d)) bytes)
        bytes (w_user_data x)) s"
proof (cases "cancelled d")
  case True
  then show ?thesis using d by (simp add: iocp_read_packet_def act_def cancelled_def Let_def)
next
  case False
  let ?ev = "completion_events (iw_pending_operation d) (ucast (iw_Internal d)) bytes"
  show ?thesis
  proof (cases "has_flag ?ev PD_EVENT_READ")
    case True
    then show ?thesis
      using d \<open>\<not> cancelled d\<close> unfolding cancelled_def by (simp add: iocp_read_packet_def act_def heap_write_def cancelled_def Let_def)
  next
    case no: False
    then show ?thesis
      using d \<open>\<not> cancelled d\<close> unfolding cancelled_def
      by (simp add: iocp_read_packet_def act_def heap_write_def unread_bytes_same cancelled_def Let_def)
  qed
qed

lemma watcher_packet_eq:
  assumes "st_watchers s w = Some x" "w_callback x = Some cb"
  shows "iocp_watcher_packet K U l w x cb e s =
    do { p \<leftarrow> watcher_packet w (oe_overlapped e) (oe_bytes e) s; act K U l p s }"
proof (cases "w_platform_data x = NULL")
  case True
  then show ?thesis using assms by (simp add: iocp_watcher_packet_def watcher_packet_def act_def)
next
  case nz: False
  show ?thesis
  proof (cases "st_wdata s (w_platform_data x)")
    case None
    then show ?thesis using assms nz by (simp add: iocp_watcher_packet_def watcher_packet_def)
  next
    case (Some d)
    note free = free_wdata_written [OF Some nz]
    consider "iw_stopping d" | "\<not> iw_stopping d" "oe_overlapped e \<noteq> Ov_read (w_platform_data x)"
      | "\<not> iw_stopping d" "oe_overlapped e = Ov_read (w_platform_data x)" by blast
    then show ?thesis
    proof cases
      case 1
      then show ?thesis
        using assms nz Some by (simp add: iocp_watcher_packet_def watcher_packet_def act_def heap_write_def free Let_def)
    next
      case 2
      then show ?thesis
        using assms nz Some by (simp add: iocp_watcher_packet_def watcher_packet_def act_def Let_def)
    next
      case 3
      then show ?thesis
        using assms nz Some by (simp add: iocp_watcher_packet_def watcher_packet_def read_packet_eq [OF Some] Let_def)
    qed
  qed
qed

lemma sync_packet_eq: "iocp_sync_packet K e s = do { p \<leftarrow> sync_packet (oe_overlapped e) s; act K U l p s }"
proof (cases "oe_overlapped e")
  case (Ov_sync a)
  then show ?thesis by (cases "we_syncs (st_kernel s) a") (simp_all add: iocp_sync_packet_def sync_packet_def act_def)
qed (simp_all add: iocp_sync_packet_def sync_packet_def act_def)

lemma timer_packet_eq: "iocp_timer_packet U l e s = do { p \<leftarrow> timer_packet (oe_overlapped e) s; act K U l p s }"
proof (cases "oe_overlapped e")
  case (Ov_timer t)
  show ?thesis
  proof (cases "st_timers s t")
    case (Some tm)
    then show ?thesis
      using Ov_timer
      by (cases "t_callback tm"; cases "st_tdata s (t_platform_data tm)")
        (simp_all add: iocp_timer_packet_def timer_packet_def act_def Let_def)
  qed (simp add: Ov_timer iocp_timer_packet_def timer_packet_def)
qed (simp_all add: iocp_timer_packet_def timer_packet_def act_def)

lemma iocp_process_entry_eq:
  assumes "map_option id_events (st_ldata s p) = Some a" "arr_get a i = Some e"
  shows "iocp_process_entry K U l p i s = iocp_deliver K U l e s"
proof -
  obtain d where d: "st_ldata s p = Some d" "id_events d = a" using assms(1) by auto
  let ?w = "nat (oe_key e)"
  have watcher: "do { w \<leftarrow> st_watchers s ?w;
      case w_callback w of None \<Rightarrow> Some s | Some cb \<Rightarrow> iocp_watcher_packet K U l ?w w cb e s } =
    do { p \<leftarrow> watcher_packet ?w (oe_overlapped e) (oe_bytes e) s; act K U l p s }"
  proof (cases "st_watchers s ?w")
    case (Some w)
    then show ?thesis
      by (cases "w_callback w") (simp_all add: watcher_packet_eq, simp add: watcher_packet_def act_def)
  qed (simp add: watcher_packet_def)
  have none: "act K U l For_nobody s = Some s" by (simp add: act_def)
  show ?thesis
    using d assms(2) none
    by (simp add: iocp_process_entry_def iocp_deliver_def packet_of_def sync_packet_eq [of K e s U l] timer_packet_eq [of U l e s K]
        watcher Let_def)
qed

section \<open>Delivering the packets of a wait\<close>

text \<open>What the loop reads of its own data in each round, which callbacks must leave alone.\<close>

definition iocp_batch :: "addr \<Rightarrow> 'k iocp_state \<Rightarrow> entry c_array option" where
  "iocp_batch p s = map_option id_events (st_ldata s p)"

definition iocp_keeps_batch :: "'k iocp_callbacks \<Rightarrow> addr \<Rightarrow> bool" where
  "iocp_keeps_batch U p \<longleftrightarrow> (\<forall>f l w ev ud s s'. U f l w ev ud s = Some s' \<longrightarrow> iocp_batch p s' = iocp_batch p s)"

lemma wincall_ldata [simp]: "st_ldata (snd (wincall f s)) = st_ldata s"
  by (cases rule: wincall_cases [of f s]) simp_all

lemma write_ldata_frame [simp]:
  "write_wdata p f s = Some s' \<Longrightarrow> st_ldata s' = st_ldata s" "write_watcher w g s = Some s' \<Longrightarrow> st_ldata s' = st_ldata s"
  "free_wdata p s = Some s' \<Longrightarrow> st_ldata s' = st_ldata s"
  by (auto simp: heap_write_def heap_free_def bind_Some_iff split: if_splits)

text \<open>Starting a read is one call, of one of two functions.\<close>

lemma reissue_call:
  assumes "reissue_read K w wd s = Some (ok, s')"
  obtains h buf n where "s' = snd (wincall (win_read_file K h buf n wd) s)"
  | h buf n where "s' = snd (wincall (win_recv K h buf n wd) s)"
proof (cases "w_is_handle w")
  case True
  then have "s' = snd (wincall (win_read_file K (int (w_handle w)) wd buffer_size wd) s)"
    using assms by (auto simp: reissue_read_def Let_def split: prod.splits if_splits)
  then show thesis by (rule that(1))
next
  case False
  then obtain x where d: "st_wdata s wd = Some x" using assms by (auto simp: reissue_read_def bind_Some_iff)
  let ?f = "win_recv K (fd_to_handle (w_fd w)) (iw_wsa_buf x) (iw_wsa_len x) wd"
  have "s' = snd (wincall ?f s)"
    using assms False d by (cases "wincall ?f s") (simp add: reissue_read_def)
  then show thesis by (rule that(2))
qed

text \<open>Whatever the writes to watcher data and the starts of reads keep, a re-arm keeps.\<close>

lemma iocp_rearm_rel:
  assumes run: "iocp_rearm K w ev bytes s = Some s'"
    and R: "\<And>s. R s s" "\<And>s s' s''. R s s' \<Longrightarrow> R s' s'' \<Longrightarrow> R s s''" "\<And>s h. R s (s\<lparr>st_wdata := h\<rparr>)"
    and reads: "\<And>s h buf n wd. R s (snd (wincall (win_read_file K h buf n wd) s))"
      "\<And>s h buf n wd. R s (snd (wincall (win_recv K h buf n wd) s))"
  shows "R s s'"
proof -
  obtain x where x: "st_watchers s w = Some x" using run by (auto simp: iocp_rearm_def bind_Some_iff)
  let ?wd = "w_platform_data x"
  show ?thesis
  proof (cases "s' = s")
    case False
    then have c: "?wd \<noteq> NULL" "has_flag ev PD_EVENT_READ" "bytes > 0"
      using run x by (auto simp: iocp_rearm_def Let_def split: if_split_asm)
    then obtain d where d: "st_wdata s ?wd = Some d" "\<not> iw_stopping d"
      using run x False by (cases "st_wdata s ?wd") (auto simp: iocp_rearm_def Let_def split: if_split_asm)
    obtain s1 ok s2 where s: "write_wdata ?wd (\<lambda>x. x\<lparr>iw_Internal := 0, iw_pending_operation := 1\<rparr>) s = Some s1"
      "reissue_read K x ?wd s1 = Some (ok, s2)"
      "(if \<not> ok then write_wdata ?wd (\<lambda>x. x\<lparr>iw_pending_operation := 0\<rparr>) s2 else Some s2) = Some s'"
      using run x c d by (simp add: iocp_rearm_def bind_Some_iff Let_def) blast
    have write_w: "R a b" if "write_wdata p f a = Some b" for p f a b
      using that R(3) by (auto simp: heap_write_def bind_Some_iff)
    have "R s1 s2" by (rule reissue_call [OF s(2)]) (simp_all add: reads)
    moreover have "R s2 s'" using s(3) write_w R(1) by (cases ok) auto
    ultimately show ?thesis using R(2) write_w [OF s(1)] by blast
  qed (simp add: R(1))
qed

lemma rearm_ldata: "iocp_rearm K w ev bytes s = Some s' \<Longrightarrow> st_ldata s' = st_ldata s"
  by (erule iocp_rearm_rel [where R = "\<lambda>s s'. st_ldata s' = st_ldata s"]) simp_all

lemma iocp_callback_batch:
  "iocp_keeps_batch U p \<Longrightarrow> iocp_callback U cb l w ev ud s = Some s' \<Longrightarrow> iocp_batch p s' = iocp_batch p s"
  by (auto simp: iocp_callback_def iocp_keeps_batch_def split: pd_callback.splits)

lemma act_batch:
  assumes "iocp_keeps_batch U p" "act K U l pk s = Some s'"
  shows "iocp_batch p s' = iocp_batch p s"
proof (cases pk)
  case (Ends_read w wd cb ev bytes ud)
  then obtain s1 s2 where s: "write_wdata wd (\<lambda>x. x\<lparr>
              iw_bytes_available := (if has_flag ev PD_EVENT_READ then bytes else iw_bytes_available x),
              iw_pending_operation := 0\<rparr>) s = Some s1"
    "iocp_callback U cb l w ev ud s1 = Some s2" "iocp_rearm K w ev bytes s2 = Some s'"
    using assms(2) by (auto simp: act_def bind_Some_iff)
  have "st_ldata s1 = st_ldata s" by (rule write_ldata_frame(1) [OF s(1)])
  then show ?thesis
    using iocp_callback_batch [OF assms(1) s(2)] rearm_ldata [OF s(3)] by (simp add: iocp_batch_def)
qed (use assms in \<open>auto simp: act_def iocp_batch_def bind_Some_iff
  dest: write_ldata_frame iocp_callback_batch [OF assms(1), unfolded iocp_batch_def]\<close>)

lemma deliver_batch_iocp:
  "iocp_keeps_batch U p \<Longrightarrow> iocp_deliver K U l e s = Some s' \<Longrightarrow> iocp_batch p s' = iocp_batch p s"
  by (auto simp: iocp_deliver_def bind_Some_iff dest: act_batch)

lemma iocp_dispatch_deliver:
  assumes "iocp_keeps_batch U p" "iocp_batch p s = Some a" "\<And>j. j < length es \<Longrightarrow> arr_get a (i + j) = Some (es ! j)"
  shows "iocp_dispatch K U l p i (length es) s = iocp_deliver_all K U l es s"
  by (rule dispatch_batch [where batch = "iocp_batch p" and b = "Some a" and a = a and deliver = "iocp_deliver K U l"
        and proc = "iocp_process_entry K U l p"])
    (use assms(2,3) deliver_batch_iocp [OF assms(1)] in \<open>simp_all add: iocp_process_entry_eq [unfolded iocp_batch_def [symmetric]]\<close>)

text \<open>
  The state in which the packets \<open>es\<close> are delivered: the running thread is known as the loop's,
  and the packets are in the loop's array.
\<close>

definition iocp_stored :: "addr \<Rightarrow> entry list \<Rightarrow> pd_iocp_data \<Rightarrow> 'k iocp_state \<Rightarrow> 'k iocp_state" where
  "iocp_stored p es d s = s\<lparr>st_ldata := (st_ldata s)(p \<mapsto> d\<lparr>id_loop_thread_id := we_thread (st_kernel s),
     id_events := map Some es @ drop (length es) (id_events d)\<rparr>)\<rparr>"

lemma store_results_ldata: "store_results rs s = Some s' \<Longrightarrow> st_ldata s' = st_ldata s"
proof (induction rs arbitrary: s)
  case (Cons r rs)
  then obtain s1 where "store_result r s = Some s1" "store_results rs s1 = Some s'" by (auto simp: bind_Some_iff)
  moreover from this(1) have "st_ldata s1 = st_ldata s" by (auto simp: store_result_def split: if_splits)
  ultimately show ?case using Cons.IH by simp
qed simp

lemma run_dispatch_deliver:
  assumes "iocp_keeps_batch U p" "length es \<le> length (id_events d)" "store_results rs (iocp_stored p es d s) = Some s'"
  shows "iocp_dispatch K U l p 0 (length es) s' = iocp_deliver_all K U l es s'"
  using store_results_ldata [OF assms(3)] assms(2)
  by (intro iocp_dispatch_deliver [OF assms(1)]) (auto simp: iocp_batch_def iocp_stored_def intro: arr_get_stored)

lemma iocp_loop_run_ok:
  assumes s: "st_loops s l = Some lp" "l \<noteq> NULL" "l_platform_data lp \<noteq> NULL" "st_ldata s (l_platform_data lp) = Some d"
    and keep: "iocp_keeps_batch U (l_platform_data lp)"
    and q: "win_completions K (id_iocp_handle d) (id_max_events d) (if t < 0 then INFINITE else word_of_int t)
      (we_os (st_kernel s)) = (Inr (es, rs), k)"
  shows "iocp_loop_run K U l t s = (if length es > length (id_events d) then None
     else do {
       s' \<leftarrow> store_results rs (iocp_stored (l_platform_data lp) es d (s\<lparr>st_kernel := (st_kernel s)\<lparr>we_os := k\<rparr>\<rparr>));
       s'' \<leftarrow> iocp_deliver_all K U l es s';
       Some (int (length es), s'') })"
proof -
  let ?p = "l_platform_data lp"
  let ?st = "iocp_stored ?p es d (s\<lparr>st_kernel := (st_kernel s)\<lparr>we_os := k\<rparr>\<rparr>)"
  have "iocp_loop_run K U l t s = (if length es > length (id_events d) then None
      else do { s' \<leftarrow> store_results rs ?st; s'' \<leftarrow> iocp_dispatch K U l ?p 0 (length es) s'; Some (int (length es), s'') })"
    using s q by (simp add: iocp_loop_run_def iocp_stored_def wincall_def heap_write_def Let_def)
  then show ?thesis
    by (auto intro!: bind_option_cong run_dispatch_deliver [OF keep, where d = d] simp: not_less)
qed

text \<open>
  C13: the wait equals a delivery of the packets it dequeued: after the results of the reads are
  in memory, each packet, in the order of the port, has the one effect that \<open>packet_of\<close> gives it
  in the state it is met in, as long as callbacks do not overwrite the loop's data by waiting
  themselves. A timeout returns 0, any other failure is reported and recorded.
\<close>

theorem iocp_loop_run_delivers:
  assumes "st_loops s l = Some lp" "l \<noteq> NULL" "l_platform_data lp \<noteq> NULL" "st_ldata s (l_platform_data lp) = Some d"
    and "iocp_keeps_batch U (l_platform_data lp)"
  shows "iocp_loop_run K U l t s =
    (case win_completions K (id_iocp_handle d) (id_max_events d) (if t < 0 then INFINITE else word_of_int t) (we_os (st_kernel s)) of
       (Inl e, k) \<Rightarrow>
         let s' = s\<lparr>st_kernel := (st_kernel s)\<lparr>we_os := k, we_last_error := e\<rparr>,
               st_ldata := (st_ldata s)(l_platform_data lp \<mapsto> d\<lparr>id_loop_thread_id := we_thread (st_kernel s)\<rparr>)\<rparr>
         in if e = WAIT_TIMEOUT then Some (0, s')
           else Some (err_code PD_ERR_SYSTEM, s'\<lparr>st_loops := (st_loops s)(l \<mapsto> lp\<lparr>l_system_error := sint e\<rparr>)\<rparr>)
     | (Inr (es, rs), k) \<Rightarrow>
         if length es > length (id_events d) then None
         else do {
           s' \<leftarrow> store_results rs (iocp_stored (l_platform_data lp) es d (s\<lparr>st_kernel := (st_kernel s)\<lparr>we_os := k\<rparr>\<rparr>));
           s'' \<leftarrow> iocp_deliver_all K U l es s';
           Some (int (length es), s'') })"
proof -
  let ?p = "l_platform_data lp" and ?to = "if t < 0 then INFINITE else word_of_int t"
  let ?d = "d\<lparr>id_loop_thread_id := we_thread (st_kernel s)\<rparr>"
  let ?s = "s\<lparr>st_ldata := (st_ldata s)(?p \<mapsto> ?d)\<rparr>"
  obtain q k where q: "win_completions K (id_iocp_handle d) (id_max_events d) ?to (we_os (st_kernel s)) = (q, k)" by fastforce
  show ?thesis
  proof (cases q)
    case (Inl e)
    then show ?thesis
      using assms q by (simp add: iocp_loop_run_def wincall_def heap_write_def GetLastError_def set_last_error_def set_error_eq Let_def)
  next
    case (Inr er)
    obtain es rs where er: "er = (es, rs)" by fastforce
    show ?thesis using q Inr er iocp_loop_run_ok [OF assms, of K t es rs k] by simp
  qed
qed

text \<open>
  The witness: the read of watcher 10 has received two bytes. Its callback is told, the bytes
  are unread in its buffer, and the next read is in flight.
\<close>

definition ix_quiet :: "'k iocp_callbacks" where
  "ix_quiet f l w ev ud s = Some s"

definition ix_entry :: entry where
  "ix_entry = \<lparr>oe_key = 10, oe_overlapped = Ov_read 600, oe_bytes = 2\<rparr>"

definition ix_arrived :: "ref_win_kernel iocp_state" where
  "ix_arrived = ix_state\<lparr>st_kernel := (st_kernel ix_state)\<lparr>we_os := ix_kernel\<lparr>rw_reads := [], rw_posted := [(4, ix_entry)],
     rw_results := [(600, \<lparr>io_data = 600, io_status = 0, io_bytes = [72, 105]\<rparr>)]\<rparr>\<rparr>\<rparr>"

theorem iocp_loop_run_delivers_witness:
  "\<exists>s' s''. iocp_loop_run ref_win ix_quiet 1 0 ix_arrived = Some (1, s'') \<and>
    iocp_deliver_all ref_win ix_quiet 1 [ix_entry] s' = Some s'' \<and>
    map_option unread (st_wdata s'' 600) = Some [72, 105]"
proof -
  have keep: "iocp_keeps_batch ix_quiet (l_platform_data ix_loop)" by (simp add: iocp_keeps_batch_def ix_quiet_def)
  have st: "st_loops ix_arrived 1 = Some ix_loop" "(1 :: addr) \<noteq> NULL" "l_platform_data ix_loop \<noteq> NULL"
    "st_ldata ix_arrived (l_platform_data ix_loop) = Some ix_data"
    by (simp_all add: ix_arrived_def)
  have "map_option (\<lambda>(r, s). (r, map_option unread (st_wdata s 600))) (iocp_loop_run ref_win ix_quiet 1 0 ix_arrived) =
      Some (1, Some [72, 105])" by code_simp
  then obtain s'' where run: "iocp_loop_run ref_win ix_quiet 1 0 ix_arrived = Some (1, s'')"
    "map_option unread (st_wdata s'' 600) = Some [72, 105]" by auto
  have "win_completions ref_win 4 2 0 (we_os (st_kernel ix_arrived)) =
      (Inr ([ix_entry], [\<lparr>io_data = 600, io_status = 0, io_bytes = [72, 105]\<rparr>]),
       (we_os (st_kernel ix_arrived))\<lparr>rw_taken := [(4, 1)], rw_results := []\<rparr>)"
    by code_simp
  then have "\<exists>s'. iocp_deliver_all ref_win ix_quiet 1 [ix_entry] s' = Some s''"
    using iocp_loop_run_delivers [OF st keep, where K = ref_win and t = 0] run(1)
    by (auto simp: bind_Some_iff simp del: iocp_deliver_all.simps split: if_split_asm)
  then show ?thesis using run by blast
qed

section \<open>Stopping a watcher\<close>

text \<open>
  C20: a watcher that is stopped by the thread of the loop. With no read in flight its data is
  freed at once. With a read in flight the data stays, marked, since the system still writes
  into it; stopping again changes nothing; and whichever packet of this watcher is met next
  frees the data, without calling back, and only then the watcher's pointer is cleared.
\<close>

theorem iocp_unregister_defers_free:
  assumes w: "st_watchers s w = Some x" "w \<noteq> NULL" "w_platform_data x = p" "p \<noteq> NULL" "w_loop x \<noteq> NULL" "w_callback x = Some cb"
    and d: "st_wdata s p = Some d" "\<not> iw_stopping d"
    and lp: "st_loops s (w_loop x) = Some lp" "l_platform_data lp \<noteq> NULL" "st_ldata s (l_platform_data lp) = Some ld"
    and thread: "id_loop_thread_id ld = we_thread (st_kernel s)"
  shows "\<exists>s'. iocp_watcher_unregister K U S w s = Some (PD_OK, s') \<and>
    (if iw_pending_operation d = 0
     then s' = s\<lparr>st_wdata := (st_wdata s)(p := None), st_watchers := (st_watchers s)(w \<mapsto> x\<lparr>w_platform_data := NULL\<rparr>)\<rparr>
     else st_wdata s' = (st_wdata s)(p \<mapsto> d\<lparr>iw_stopping := True\<rparr>) \<and> st_watchers s' = st_watchers s \<and>
       iocp_watcher_unregister K U S w s' = Some (PD_OK, s') \<and>
       (\<forall>l e. iocp_watcher_packet K U l w x cb e s' = Some (s'\<lparr>st_wdata := (st_wdata s)(p := None),
          st_watchers := (st_watchers s)(w \<mapsto> x\<lparr>w_platform_data := NULL\<rparr>)\<rparr>)))"
proof (cases "iw_pending_operation d = 0")
  case True
  then have "iocp_watcher_unregister K U S w s = Some (PD_OK, s\<lparr>st_wdata := (st_wdata s)(p := None),
      st_watchers := (st_watchers s)(w \<mapsto> x\<lparr>w_platform_data := NULL\<rparr>)\<rparr>)"
    using w d by (simp add: iocp_watcher_unregister_def heap_write_def heap_free_def Let_def)
  then show ?thesis using True by (intro exI) auto
next
  case False
  let ?d = "d\<lparr>iw_stopping := True\<rparr>" and ?s1 = "s\<lparr>st_wdata := (st_wdata s)(p \<mapsto> d\<lparr>iw_stopping := True\<rparr>)\<rparr>"
  have reg: "iocp_watcher_unregister K U S w s = Some (PD_OK,
      if unregister_handle x \<noteq> 0 then snd (wincall (win_cancel_io_ex K (unregister_handle x) p) ?s1) else ?s1)"
  proof (cases "unregister_handle x = 0")
    case True
    then show ?thesis using assms False by (simp add: iocp_watcher_unregister_def heap_write_def Let_def)
  next
    case handle: False
    obtain env where "snd (wincall (win_cancel_io_ex K (unregister_handle x) p) ?s1) = ?s1\<lparr>st_kernel := env\<rparr>"
      "we_thread env = we_thread (st_kernel s)"
      using wincall_env [of "win_cancel_io_ex K (unregister_handle x) p" ?s1] by auto
    then show ?thesis using assms False handle by (simp add: iocp_watcher_unregister_def heap_write_def Let_def)
  qed
  obtain env where run: "iocp_watcher_unregister K U S w s = Some (PD_OK, ?s1\<lparr>st_kernel := env\<rparr>)"
  proof (cases "unregister_handle x = 0")
    case True
    then show thesis using reg that [of "st_kernel s"] by simp
  next
    case False
    then show thesis using reg that wincall_env [of "win_cancel_io_ex K (unregister_handle x) p" ?s1] by auto
  qed
  let ?s2 = "?s1\<lparr>st_kernel := env\<rparr>"
  have "iocp_watcher_unregister K U S w ?s2 = Some (PD_OK, ?s2)"
    using w by (simp add: iocp_watcher_unregister_def Let_def)
  moreover have "iocp_watcher_packet K U l w x cb e ?s2 = Some (?s2\<lparr>st_wdata := (st_wdata s)(p := None),
      st_watchers := (st_watchers s)(w \<mapsto> x\<lparr>w_platform_data := NULL\<rparr>)\<rparr>)" for l e
    using w by (simp add: iocp_watcher_packet_def heap_write_def heap_free_def Let_def)
  ultimately show ?thesis using False run by (intro exI [of _ ?s2]) simp
qed

text \<open>The thread 2, which runs the loop, stops the watcher 10.\<close>

definition ix_on_loop :: "ref_win_kernel iocp_state" where
  "ix_on_loop = ix_state\<lparr>st_kernel := (st_kernel ix_state)\<lparr>we_thread := 2\<rparr>\<rparr>"

theorem iocp_unregister_defers_free_witness:
  "\<exists>s'. iocp_watcher_unregister ref_win ix_quiet (\<lambda>_. []) 10 ix_on_loop = Some (PD_OK, s') \<and>
    st_wdata s' = [600 \<mapsto> ix_wdata\<lparr>iw_stopping := True\<rparr>] \<and>
    iocp_watcher_packet ref_win ix_quiet 1 10 (ix_watcher 40 True 600) (Cb_user 0) ix_entry s' =
      Some (s'\<lparr>st_wdata := Map.empty, st_watchers := (st_watchers ix_state)(10 \<mapsto> ix_watcher 40 True NULL)\<rparr>)"
proof -
  have "(ix_watcher 40 True 600)\<lparr>w_platform_data := NULL\<rparr> = ix_watcher 40 True NULL"
    by (simp add: ix_watcher_def zero_watcher_def)
  moreover have "[600 \<mapsto> ix_wdata](600 := None) = Map.empty" by simp
  moreover have "st_watchers ix_on_loop 10 = Some (ix_watcher 40 True 600)" "st_wdata ix_on_loop 600 = Some ix_wdata"
    "st_loops ix_on_loop 1 = Some ix_loop" "st_ldata ix_on_loop 500 = Some ix_data"
    "id_loop_thread_id ix_data = we_thread (st_kernel ix_on_loop)"
    by (simp_all add: ix_on_loop_def)
  moreover have "st_watchers ix_on_loop = st_watchers ix_state" "st_wdata ix_on_loop = [600 \<mapsto> ix_wdata]"
    by (simp_all add: ix_on_loop_def)
  ultimately show ?thesis
    using iocp_unregister_defers_free [of ix_on_loop 10 "ix_watcher 40 True 600" 600 "Cb_user 0" ix_wdata ix_loop ix_data
        ref_win ix_quiet "\<lambda>_. []"]
    by (auto simp del: fun_upd_apply ix_state_simps(2))
qed

text \<open>
  The watcher must stay allocated until that packet has come. \<^verbatim>\<open>pd_watcher_destroy\<close> does not wait
  for it when it is called by the thread of the loop: it frees the watcher, and the next wait
  reads freed memory.
\<close>

theorem iocp_destroy_use_after_free:
  "\<exists>s'. pd_watcher_destroy (pd_platform_iocp ref_win ix_quiet (\<lambda>_. [])) 10 ix_on_loop = Some s' \<and>
     iocp_loop_run ref_win ix_quiet 1 0 s' = None"
proof -
  have "Option.bind (pd_watcher_destroy (pd_platform_iocp ref_win ix_quiet (\<lambda>_. [])) 10 ix_on_loop)
      (\<lambda>s'. Some (Option.is_none (iocp_loop_run ref_win ix_quiet 1 0 s'))) = Some True"
    by code_simp
  then show ?thesis by (auto simp: bind_Some_iff Option.is_none_def split: option.splits)
qed

end
