(* ===== verification/Pd_Iocp_Drain.thy ===== *)
theory Pd_Iocp_Drain
  imports Pd_Iocp_Dispatch
begin

text \<open>
  The drain barrier of the IOCP backend. The thread that destroys a timer posts a packet of its
  own and waits until the thread of the loop has met it; the proof follows every step of the
  other threads during that wait, for any schedule.
\<close>

section \<open>What the rest of the program leaves alone\<close>

text \<open>
  The packets a drain must keep track of: those of drains, and those of the timers \<open>T\<close> that are
  being destroyed. \<open>port_rel\<close> says that no packet was dequeued, no such packet was posted, and no
  event was signalled.
\<close>

definition watched :: "addr set \<Rightarrow> entry \<Rightarrow> bool" where
  "watched T e \<longleftrightarrow> (case oe_overlapped e of Ov_sync _ \<Rightarrow> True | Ov_timer t \<Rightarrow> t \<in> T | _ \<Rightarrow> False)"

definition port_rel ::
  "addr set \<Rightarrow> ('k \<Rightarrow> handle \<Rightarrow> entry list) \<Rightarrow> ('k \<Rightarrow> handle \<Rightarrow> nat) \<Rightarrow> ('k \<Rightarrow> handle set) \<Rightarrow> 'k \<Rightarrow> 'k \<Rightarrow> bool" where
  "port_rel T posted taken signalled k k' \<longleftrightarrow> taken k' = taken k \<and> signalled k' \<subseteq> signalled k \<and>
     (\<forall>h. \<exists>new. posted k' h = posted k h @ new \<and> (\<forall>e\<in>set new. \<not> watched T e))"

text \<open>The packets in a port, oldest first.\<close>

definition queued :: "('k \<Rightarrow> handle \<Rightarrow> entry list) \<Rightarrow> ('k \<Rightarrow> handle \<Rightarrow> nat) \<Rightarrow> 'k \<Rightarrow> handle \<Rightarrow> entry list" where
  "queued posted taken k h = drop (taken k h) (posted k h)"

text \<open>A timer with its data, which the callbacks of other watchers and timers do not touch.\<close>

definition timer_view :: "addr \<Rightarrow> 'k iocp_state \<Rightarrow> (pd_timer \<times> pd_iocp_timer_data option) option" where
  "timer_view t s = map_option (\<lambda>x. (x, st_tdata s (t_platform_data x))) (st_timers s t)"

definition calm_rel ::
  "addr set \<Rightarrow> ('k \<Rightarrow> handle \<Rightarrow> entry list) \<Rightarrow> ('k \<Rightarrow> handle \<Rightarrow> nat) \<Rightarrow> ('k \<Rightarrow> handle set) \<Rightarrow>
   'k iocp_state \<Rightarrow> 'k iocp_state \<Rightarrow> bool" where
  "calm_rel T posted taken signalled s s' \<longleftrightarrow>
     port_rel T posted taken signalled (we_os (st_kernel s)) (we_os (st_kernel s')) \<and>
     we_syncs (st_kernel s') = we_syncs (st_kernel s) \<and> (\<forall>t\<in>T. timer_view t s' = timer_view t s)"

text \<open>
  The callbacks the barrier allows: they may do anything to watchers, to other timers and to the
  loop, and post to it, but neither wait nor drain, nor touch the timers \<open>T\<close>.
\<close>

definition iocp_calm ::
  "addr set \<Rightarrow> ('k \<Rightarrow> handle \<Rightarrow> entry list) \<Rightarrow> ('k \<Rightarrow> handle \<Rightarrow> nat) \<Rightarrow> ('k \<Rightarrow> handle set) \<Rightarrow> 'k iocp_callbacks \<Rightarrow> bool" where
  "iocp_calm T posted taken signalled U \<longleftrightarrow> (\<forall>f l w ev ud s s'. U f l w ev ud s = Some s' \<longrightarrow>
     st_ldata s' = st_ldata s \<and> calm_rel T posted taken signalled s s')"

lemma queued_index:
  assumes "e \<in> set (queued posted taken k h)"
  obtains i where "taken k h \<le> i" "i < length (posted k h)" "e = posted k h ! i"
proof -
  obtain j where "j < length (queued posted taken k h)" "queued posted taken k h ! j = e"
    using assms by (auto simp: in_set_conv_nth)
  then show thesis by (intro that [of "taken k h + j"]) (simp_all add: queued_def)
qed

lemma port_rel_refl [simp]: "port_rel T posted taken signalled k k"
  by (simp add: port_rel_def)

lemma port_rel_trans:
  assumes "port_rel T posted taken signalled k k'" "port_rel T posted taken signalled k' k''"
  shows "port_rel T posted taken signalled k k''"
proof -
  have "\<exists>new. posted k'' h = posted k h @ new \<and> (\<forall>e\<in>set new. \<not> watched T e)" for h
  proof -
    obtain a where "posted k' h = posted k h @ a" "\<forall>e\<in>set a. \<not> watched T e"
      using assms(1) unfolding port_rel_def by blast
    moreover obtain b where "posted k'' h = posted k' h @ b" "\<forall>e\<in>set b. \<not> watched T e"
      using assms(2) unfolding port_rel_def by blast
    ultimately show ?thesis by (intro exI [of _ "a @ b"]) auto
  qed
  then show ?thesis using assms by (auto simp: port_rel_def)
qed

lemma calm_rel_refl [simp]: "calm_rel T posted taken signalled s s"
  by (simp add: calm_rel_def)

lemma calm_rel_trans:
  "calm_rel T posted taken signalled s s' \<Longrightarrow> calm_rel T posted taken signalled s' s'' \<Longrightarrow>
   calm_rel T posted taken signalled s s''"
  by (auto simp: calm_rel_def intro: port_rel_trans)

lemma calm_rel_heaps [simp]:
  "calm_rel T posted taken signalled s (s\<lparr>st_wdata := h\<rparr>)" "calm_rel T posted taken signalled s (s\<lparr>st_watchers := ws\<rparr>)"
  by (simp_all add: calm_rel_def timer_view_def)

lemma appended_unwatched: "appended es es' \<Longrightarrow> \<exists>new. es' = es @ new \<and> (\<forall>e\<in>set new. \<not> watched T e)"
  by (auto simp: appended_def io_packet_def watched_def split: overlapped.splits)

lemma calm_keeps_batch: "iocp_calm T posted taken signalled U \<Longrightarrow> iocp_keeps_batch U p"
  by (simp add: iocp_calm_def iocp_keeps_batch_def iocp_batch_def)

lemma wincall_timer_view [simp]: "timer_view t (snd (wincall f s)) = timer_view t s"
  by (cases rule: wincall_cases [of f s]) (simp_all add: timer_view_def)

lemma wincall_calm:
  assumes "port_rel T posted taken signalled (we_os (st_kernel s)) (snd (f (we_os (st_kernel s))))"
  shows "calm_rel T posted taken signalled s (snd (wincall f s))"
proof -
  obtain env where e: "snd (wincall f s) = s\<lparr>st_kernel := env\<rparr>" "we_syncs env = we_syncs (st_kernel s)"
    "we_os env = snd (f (we_os (st_kernel s)))"
    using wincall_env [of f s] by auto
  show ?thesis using assms e(2,3) wincall_timer_view [of _ f s] by (simp add: calm_rel_def e(1))
qed

lemma env_calm:
  "we_os env = we_os (st_kernel s) \<Longrightarrow> we_syncs env = we_syncs (st_kernel s) \<Longrightarrow>
   calm_rel T posted taken signalled s (s\<lparr>st_kernel := env\<rparr>)"
  by (simp add: calm_rel_def timer_view_def)

lemma store_results_calm: "store_results rs s = Some s' \<Longrightarrow> calm_rel T posted taken signalled s s'"
proof (induction rs arbitrary: s)
  case (Cons r rs)
  then obtain s1 where "store_result r s = Some s1" "store_results rs s1 = Some s'" by (auto simp: bind_Some_iff)
  moreover from this(1) have "calm_rel T posted taken signalled s s1"
    by (auto simp: store_result_def heap_write_def bind_Some_iff split: if_splits)
  ultimately show ?case using Cons.IH calm_rel_trans by blast
qed simp

text \<open>What a wait of the loop does, without its details.\<close>

lemma iocp_loop_run_cases:
  assumes run: "iocp_loop_run K U l t s = Some (r, s')" and keep: "\<And>p. iocp_keeps_batch U p"
  obtains (bad) "s' = s"
  | (fail) h m tmo e k lds lps where "win_completions K h m tmo (we_os (st_kernel s)) = (Inl e, k)"
      "s' = s\<lparr>st_kernel := (st_kernel s)\<lparr>we_os := k, we_last_error := e\<rparr>, st_ldata := lds, st_loops := lps\<rparr>"
  | (ok) h m tmo es rs k lds s1 where "win_completions K h m tmo (we_os (st_kernel s)) = (Inr (es, rs), k)"
      "store_results rs (s\<lparr>st_kernel := (st_kernel s)\<lparr>we_os := k\<rparr>, st_ldata := lds\<rparr>) = Some s1"
      "iocp_deliver_all K U l es s1 = Some s'"
proof (cases "l = NULL \<or> (\<exists>lp. st_loops s l = Some lp \<and> l_platform_data lp = NULL)")
  case True
  then show thesis using run by (intro bad) (auto simp: iocp_loop_run_def split: if_split_asm)
next
  case False
  then obtain lp where lp: "st_loops s l = Some lp" "l_platform_data lp \<noteq> NULL"
    using run by (auto simp: iocp_loop_run_def bind_Some_iff)
  let ?p = "l_platform_data lp" and ?to = "if t < 0 then INFINITE else word_of_int t"
  obtain d where d: "st_ldata s ?p = Some d"
    using run lp False by (cases "st_ldata s ?p") (simp_all add: iocp_loop_run_def heap_write_def)
  obtain q k where q: "win_completions K (id_iocp_handle d) (id_max_events d) ?to (we_os (st_kernel s)) = (q, k)" by fastforce
  show thesis
  proof (cases q)
    case (Inl e)
    let ?lds = "(st_ldata s)(?p \<mapsto> d\<lparr>id_loop_thread_id := we_thread (st_kernel s)\<rparr>)"
    let ?lps = "if e = WAIT_TIMEOUT then st_loops s else (st_loops s)(l \<mapsto> lp\<lparr>l_system_error := sint e\<rparr>)"
    have "s' = s\<lparr>st_kernel := (st_kernel s)\<lparr>we_os := k, we_last_error := e\<rparr>, st_ldata := ?lds, st_loops := ?lps\<rparr>"
      using run lp False d q Inl
      by (cases "e = WAIT_TIMEOUT")
        (auto simp: iocp_loop_run_def wincall_def heap_write_def GetLastError_def set_last_error_def set_error_eq Let_def)
    then show thesis by (rule fail [OF q [unfolded Inl]])
  next
    case (Inr er)
    obtain es rs where er: "er = (es, rs)" by fastforce
    let ?st = "iocp_stored ?p es d (s\<lparr>st_kernel := (st_kernel s)\<lparr>we_os := k\<rparr>\<rparr>)"
    obtain lds where st: "?st = s\<lparr>st_kernel := (st_kernel s)\<lparr>we_os := k\<rparr>, st_ldata := lds\<rparr>"
      by (simp add: iocp_stored_def)
    have run_eq: "iocp_loop_run K U l t s = (if length es > length (id_events d) then None
        else do { s' \<leftarrow> store_results rs ?st; s'' \<leftarrow> iocp_deliver_all K U l es s'; Some (int (length es), s'') })"
      using False by (intro iocp_loop_run_ok [OF lp(1) _ lp(2) d keep q [unfolded Inr er]]) simp
    obtain s1 where "store_results rs ?st = Some s1" "iocp_deliver_all K U l es s1 = Some s'"
      using run unfolding run_eq by (auto simp: bind_Some_iff split: if_split_asm)
    then show thesis using ok [OF q [unfolded Inr er]] unfolding st by blast
  qed
qed

section \<open>The invariant of a drain\<close>

text \<open>
  While a drain waits for the event \<open>ev\<close>, having found \<open>n\<close> packets in the history of the port
  \<open>h\<close>: every live drain waits for \<open>ev\<close>; of the packets still queued, those of drains are in \<open>h\<close>
  behind the first \<open>n\<close>, those of the timers \<open>T\<close> are among the first \<open>n\<close>; these timers are
  as \<open>V\<close> says, marked as destroyed; and if \<open>ev\<close> is signalled, the first \<open>n\<close> packets have been dequeued.
\<close>

definition placed :: "addr set \<Rightarrow> handle \<Rightarrow> nat \<Rightarrow> handle \<Rightarrow> nat \<Rightarrow> entry \<Rightarrow> bool" where
  "placed T h n h' i e \<longleftrightarrow> (case oe_overlapped e of
     Ov_sync _ \<Rightarrow> h' = h \<and> n \<le> i
   | Ov_timer t \<Rightarrow> t \<in> T \<longrightarrow> h' = h \<and> i < n
   | _ \<Rightarrow> True)"

definition draining ::
  "addr set \<Rightarrow> (addr \<Rightarrow> (pd_timer \<times> pd_iocp_timer_data option) option) \<Rightarrow>
   ('k \<Rightarrow> handle \<Rightarrow> entry list) \<Rightarrow> ('k \<Rightarrow> handle \<Rightarrow> nat) \<Rightarrow> ('k \<Rightarrow> handle set) \<Rightarrow>
   handle \<Rightarrow> nat \<Rightarrow> handle \<Rightarrow> 'k iocp_state \<Rightarrow> bool" where
  "draining T V posted taken signalled h n ev s \<longleftrightarrow>
     (\<forall>a e. we_syncs (st_kernel s) a = Some e \<longrightarrow> e = ev) \<and>
     (ev \<in> signalled (we_os (st_kernel s)) \<longrightarrow> n \<le> taken (we_os (st_kernel s)) h) \<and>
     (\<forall>h' i. taken (we_os (st_kernel s)) h' \<le> i \<longrightarrow> i < length (posted (we_os (st_kernel s)) h') \<longrightarrow>
        placed T h n h' i (posted (we_os (st_kernel s)) h' ! i)) \<and>
     (\<forall>t\<in>T. timer_view t s = V t \<and> (\<exists>x d. V t = Some (x, Some d) \<and> t_platform_data x \<noteq> NULL \<and> it_destroyed d))"

lemma placed_unwatched: "\<not> watched T e \<Longrightarrow> placed T h n h' i e"
  by (auto simp: placed_def watched_def split: overlapped.splits)

lemma placed_grown:
  assumes "\<forall>i. m \<le> i \<longrightarrow> i < length es \<longrightarrow> placed T h n h' i (es ! i)"
    and "\<exists>new. es' = es @ new \<and> (\<forall>e\<in>set new. \<not> watched T e)" and i: "m \<le> i" "i < length es'"
  shows "placed T h n h' i (es' ! i)"
proof -
  obtain new where new: "es' = es @ new" "\<forall>e\<in>set new. \<not> watched T e" using assms(2) by blast
  show ?thesis
  proof (cases "i < length es")
    case True
    then show ?thesis using assms(1) i(1) new(1) by (simp add: nth_append)
  next
    case False
    then have "es' ! i \<in> set new" using i(2) new(1) by (simp add: nth_append)
    then show ?thesis using new(2) by (blast intro: placed_unwatched)
  qed
qed

lemma draining_calm:
  assumes D: "draining T V posted taken signalled h n ev s" and R: "calm_rel T posted taken signalled s s'"
  shows "draining T V posted taken signalled h n ev s'"
proof -
  let ?k = "we_os (st_kernel s)" and ?k' = "we_os (st_kernel s')"
  have "placed T h n h' i (posted ?k' h' ! i)" if i: "taken ?k' h' \<le> i" "i < length (posted ?k' h')" for h' i
    using D R i by (intro placed_grown [of "taken ?k h'" "posted ?k h'"]) (auto simp: draining_def calm_rel_def port_rel_def)
  then show ?thesis using D R by (auto simp: draining_def calm_rel_def port_rel_def)
qed

lemma timer_callback_posts:
  assumes run: "iocp_timer_callback K t s = Some s'" "s' \<noteq> s"
  obtains x d where "st_timers s t = Some x" "t_platform_data x \<noteq> NULL" "st_tdata s (t_platform_data x) = Some d"
    "\<not> it_destroyed d"
    "s' = snd (wincall (win_post K (it_iocp_handle d) \<lparr>oe_key = PD_IOCP_TIMER_KEY, oe_overlapped = Ov_timer t, oe_bytes = 0\<rparr>) s)"
proof -
  have "t \<noteq> NULL" using run by (intro notI) (simp add: iocp_timer_callback_def)
  moreover from this obtain x where x: "st_timers s t = Some x"
    using run by (cases "st_timers s t") (simp_all add: iocp_timer_callback_def)
  moreover from calculation have p: "t_platform_data x \<noteq> NULL"
    using run by (intro notI) (simp add: iocp_timer_callback_def)
  moreover obtain d where d: "st_tdata s (t_platform_data x) = Some d"
    using run calculation by (cases "st_tdata s (t_platform_data x)") (simp_all add: iocp_timer_callback_def)
  moreover have "\<not> it_destroyed d" using run calculation by (intro notI) (simp add: iocp_timer_callback_def)
  ultimately show thesis using run by (intro that [OF x p d]) (simp_all add: iocp_timer_callback_def)
qed

text \<open>The calls a drain makes.\<close>

lemma drain_sync_cases:
  assumes s: "st_loops s l = Some lp" "l \<noteq> NULL" "l_platform_data lp \<noteq> NULL" "st_ldata s (l_platform_data lp) = Some d"
    and run: "iocp_drain_sync K U S l s = Some (drained, s')"
  obtains (no_event) "\<not> drained" "s' = snd (wincall (win_create_event K False) s)"
  | (waited) ev k1 s2 s3 k env where
      "win_create_event K False (we_os (st_kernel s)) = (Inr ev, k1)"
      "s2 = snd (wincall (win_post K (id_iocp_handle d)
         \<lparr>oe_key = PD_IOCP_SYNC_KEY, oe_overlapped = Ov_sync (win_frame K k1), oe_bytes = 0\<rparr>)
         (s\<lparr>st_kernel := (st_kernel s)\<lparr>we_os := k1, we_syncs := (we_syncs (st_kernel s))(win_frame K k1 \<mapsto> ev)\<rparr>\<rparr>))"
      "iocp_steps K U (S s2) s2 = Some s3" "win_wait_object K ev 5000 (we_os (st_kernel s3)) = (drained, k)"
      "s' = s3\<lparr>st_kernel := env\<rparr>" "we_os env = snd (win_close_handle K ev k)"
proof (cases rule: wincall_cases [of "win_create_event K False" s])
  case (fail e k)
  then show thesis using run s by (intro no_event) (auto simp: iocp_drain_sync_def c_handle_def)
next
  case (ok ev k1)
  show thesis
  proof (cases "ev = 0")
    case True
    then show thesis using run s ok by (intro no_event) (auto simp: iocp_drain_sync_def c_handle_def)
  next
    case False
    let ?s1 = "s\<lparr>st_kernel := (st_kernel s)\<lparr>we_os := k1, we_syncs := (we_syncs (st_kernel s))(win_frame K k1 \<mapsto> ev)\<rparr>\<rparr>"
    let ?post = "win_post K (id_iocp_handle d)
         \<lparr>oe_key = PD_IOCP_SYNC_KEY, oe_overlapped = Ov_sync (win_frame K k1), oe_bytes = 0\<rparr>"
    let ?s2 = "snd (wincall ?post ?s1)"
    obtain s3 where s3: "iocp_steps K U (S ?s2) ?s2 = Some s3"
      using run s ok False
      by (cases "iocp_steps K U (S ?s2) ?s2") (simp_all add: iocp_drain_sync_def iocp_wait_def c_handle_def Let_def split_def)
    obtain b k where w: "win_wait_object K ev 5000 (we_os (st_kernel s3)) = (b, k)" by fastforce
    let ?s4 = "s3\<lparr>st_kernel := (st_kernel s3)\<lparr>we_os := k\<rparr>\<rparr>"
    let ?s5 = "snd (wincall (win_close_handle K ev) ?s4)"
    have "drained = b" "s' = ?s5\<lparr>st_kernel := (st_kernel ?s5)\<lparr>we_syncs := (we_syncs (st_kernel ?s5))(win_frame K k1 := None)\<rparr>\<rparr>"
      using run s ok False s3 w by (simp_all add: iocp_drain_sync_def iocp_wait_def c_handle_def Let_def split_def)
    moreover obtain env where "?s5 = ?s4\<lparr>st_kernel := env\<rparr>" "we_os env = snd (win_close_handle K ev k)"
      using wincall_env [of "win_close_handle K ev" ?s4] by auto
    ultimately show thesis
      using w by (intro waited [OF ok(2) refl s3, of k "env\<lparr>we_syncs := (we_syncs env)(win_frame K k1 := None)\<rparr>"]) auto
  qed
qed

context completion_port
begin

lemma read_calm:
  "calm_rel T posted taken signalled s (snd (wincall (win_recv K h buf n wd) s))"
  "calm_rel T posted taken signalled s (snd (wincall (win_read_file K h buf n wd) s))"
proof -
  show "calm_rel T posted taken signalled s (snd (wincall (win_recv K h buf n wd) s))"
  proof (rule wincall_calm)
    show "port_rel T posted taken signalled (we_os (st_kernel s)) (snd (win_recv K h buf n wd (we_os (st_kernel s))))"
      using recv_port [of h buf n wd "we_os (st_kernel s)"] appended_unwatched
      by (cases "win_recv K h buf n wd (we_os (st_kernel s))") (fastforce simp: port_rel_def)
  qed
  show "calm_rel T posted taken signalled s (snd (wincall (win_read_file K h buf n wd) s))"
  proof (rule wincall_calm)
    show "port_rel T posted taken signalled (we_os (st_kernel s)) (snd (win_read_file K h buf n wd (we_os (st_kernel s))))"
      using read_port [of h buf n wd "we_os (st_kernel s)"] appended_unwatched
      by (cases "win_read_file K h buf n wd (we_os (st_kernel s))") (fastforce simp: port_rel_def)
  qed
qed

lemma rearm_calm: "iocp_rearm K w ev bytes s = Some s' \<Longrightarrow> calm_rel T posted taken signalled s s'"
  by (erule iocp_rearm_rel [where R = "calm_rel T posted taken signalled"])
    (simp_all add: read_calm, rule calm_rel_trans)

lemma callback_calm:
  "iocp_calm T posted taken signalled U \<Longrightarrow> iocp_callback U cb l w ev ud s = Some s' \<Longrightarrow>
   calm_rel T posted taken signalled s s'"
  by (auto simp: iocp_callback_def iocp_calm_def split: pd_callback.splits)

lemma post_adds:
  assumes "win_post K h e k = (r, k')"
  shows "taken k' = taken k" and "signalled k' = signalled k"
    and "\<exists>new. posted k' h' = posted k h' @ new \<and> (\<forall>e'\<in>set new. watched T e' \<longrightarrow> h' = h \<and> e' = e)"
proof -
  have "taken k' = taken k \<and> signalled k' = signalled k \<and>
    (\<exists>new. posted k' h' = posted k h' @ new \<and> (\<forall>e'\<in>set new. watched T e' \<longrightarrow> h' = h \<and> e' = e))"
  proof (cases r)
    case (Inl x)
    have fail: "taken k' = taken k" "signalled k' = signalled k" "appended (posted k h') (posted k' h')"
      using post_fail [OF assms [unfolded Inl]] by simp_all
    then show ?thesis using appended_unwatched [OF fail(3)] by blast
  next
    case (Inr u)
    have ok: "taken k' = taken k" "signalled k' = signalled k"
      "appended (posted k h' @ (if h' = h then [e] else [])) (posted k' h')"
      using post_ok [OF assms [unfolded Inr]] by simp_all
    obtain new where "posted k' h' = (posted k h' @ (if h' = h then [e] else [])) @ new" "\<forall>e\<in>set new. \<not> watched T e"
      using appended_unwatched [OF ok(3)] by blast
    then show ?thesis using ok(1,2) by (intro conjI exI [of _ "(if h' = h then [e] else []) @ new"]) auto
  qed
  then show "taken k' = taken k" "signalled k' = signalled k"
    "\<exists>new. posted k' h' = posted k h' @ new \<and> (\<forall>e'\<in>set new. watched T e' \<longrightarrow> h' = h \<and> e' = e)"
    by blast+
qed

lemma post_unwatched:
  assumes "\<not> watched T e"
  shows "port_rel T posted taken signalled k (snd (win_post K h e k))"
proof -
  obtain r k' where r: "win_post K h e k = (r, k')" by fastforce
  have "\<exists>new. posted k' h' = posted k h' @ new \<and> (\<forall>e\<in>set new. \<not> watched T e)" for h'
    using post_adds(3) [OF r, of h' T] assms by blast
  then show ?thesis using post_adds(1,2) [OF r] r by (simp add: port_rel_def)
qed

text \<open>Of the effects of a packet, only one signals an event.\<close>

lemma act_calm:
  assumes U: "iocp_calm T posted taken signalled U" and run: "act K U l p s = Some s'" and p: "\<And>ev. p \<noteq> Signals ev"
  shows "calm_rel T posted taken signalled s s'"
proof -
  have wr: "calm_rel T posted taken signalled a b" if "write_wdata wd f a = Some b" for wd f a b
    using that by (auto simp: heap_write_def bind_Some_iff)
  have fr: "calm_rel T posted taken signalled a b" if "free_wdata wd a = Some b" for wd a b
    using that by (auto simp: heap_free_def split: if_splits)
  have wrw: "calm_rel T posted taken signalled a b" if "write_watcher w f a = Some b" for w f a b
    using that by (auto simp: heap_write_def bind_Some_iff)
  show ?thesis
  proof (cases p)
    case (Last_of w wd)
    then obtain s1 where "free_wdata wd s = Some s1" "write_watcher w (\<lambda>w. w\<lparr>w_platform_data := NULL\<rparr>) s1 = Some s'"
      using run by (auto simp: act_def bind_Some_iff)
    then show ?thesis using calm_rel_trans [OF fr wrw] by blast
  next
    case (Ends_read w wd cb ev bytes ud)
    then obtain f s1 s2 where "write_wdata wd f s = Some s1" "iocp_callback U cb l w ev ud s1 = Some s2"
      "iocp_rearm K w ev bytes s2 = Some s'"
      using run by (auto simp: act_def bind_Some_iff)
    then show ?thesis using calm_rel_trans [OF calm_rel_trans [OF wr callback_calm [OF U]] rearm_calm] by blast
  qed (use run p wr callback_calm [OF U] in \<open>auto simp: act_def\<close>)
qed

lemma draining_deliver:
  assumes D: "draining T V posted taken signalled h n ev s" and U: "iocp_calm T posted taken signalled U"
    and run: "iocp_deliver K U l e s = Some s'"
    and e: "\<And>a. oe_overlapped e = Ov_sync a \<Longrightarrow> n \<le> taken (we_os (st_kernel s)) h"
  shows "draining T V posted taken signalled h n ev s' \<and> taken (we_os (st_kernel s')) = taken (we_os (st_kernel s))"
proof -
  obtain p where p: "packet_of e s = Some p" "act K U l p s = Some s'"
    using run by (auto simp: iocp_deliver_def bind_Some_iff)
  show ?thesis
  proof (cases "\<exists>event. p = Signals event")
    case True
    then obtain event where event: "p = Signals event" ..
    then obtain a where a: "oe_overlapped e = Ov_sync a" "we_syncs (st_kernel s) a = Some event"
      using p(1) by (auto simp: packet_of_def sync_packet_def timer_packet_def watcher_packet_def bind_Some_iff Let_def
          split: if_splits overlapped.splits option.splits)
    then have ev: "event = ev" using D by (auto simp: draining_def)
    let ?f = "win_set_event K ev"
    obtain env where env: "snd (wincall ?f s) = s\<lparr>st_kernel := env\<rparr>" "we_syncs env = we_syncs (st_kernel s)"
      "we_os env = snd (?f (we_os (st_kernel s)))"
      using wincall_env [of ?f s] by auto
    obtain r where "?f (we_os (st_kernel s)) = (r, we_os env)" using env(3) by (metis prod.collapse)
    note set = set_event [OF this]
    have s': "s' = s\<lparr>st_kernel := env\<rparr>" using p(2) event ev env(1) by (simp add: act_def)
    show ?thesis using D env(2) set e [OF a(1)] by (auto simp: s' draining_def timer_view_def)
  next
    case False
    then have "calm_rel T posted taken signalled s s'" using act_calm [OF U p(2)] by blast
    then show ?thesis using draining_calm [OF D] by (simp add: calm_rel_def port_rel_def)
  qed
qed

lemma draining_deliver_all:
  assumes "draining T V posted taken signalled h n ev s" "iocp_calm T posted taken signalled U"
    and "iocp_deliver_all K U l es s = Some s'"
    and "\<And>e a. e \<in> set es \<Longrightarrow> oe_overlapped e = Ov_sync a \<Longrightarrow> n \<le> taken (we_os (st_kernel s)) h"
  shows "draining T V posted taken signalled h n ev s'"
  using assms
proof (induction es arbitrary: s)
  case (Cons e es)
  then obtain s1 where s1: "iocp_deliver K U l e s = Some s1" "iocp_deliver_all K U l es s1 = Some s'"
    by (auto simp: bind_Some_iff)
  have "draining T V posted taken signalled h n ev s1 \<and> taken (we_os (st_kernel s1)) = taken (we_os (st_kernel s))"
    by (rule draining_deliver [OF Cons.prems(1,2) s1(1)]) (rule Cons.prems(4) [of e], simp)
  then show ?case using Cons.IH [OF _ Cons.prems(2) s1(2)] Cons.prems(4) by (metis list.set_intros(2))
qed simp

text \<open>What a wait dequeues.\<close>

lemma draining_completions:
  assumes D: "draining T V posted taken signalled h n ev s"
    and q: "win_completions K h' m tmo (we_os (st_kernel s)) = (Inr (es, rs), k)"
    and s': "we_os (st_kernel s') = k" "we_syncs (st_kernel s') = we_syncs (st_kernel s)"
      "\<And>t. timer_view t s' = timer_view t s"
  shows "draining T V posted taken signalled h n ev s'"
    and "e \<in> set es \<Longrightarrow> oe_overlapped e = Ov_sync a \<Longrightarrow> n \<le> taken k h"
proof -
  let ?k = "we_os (st_kernel s)"
  note ok = completions_ok [OF q]
  have placed: "placed T h n h2 i (posted k h2 ! i)" if i: "taken ?k h2 \<le> i" "i < length (posted k h2)" for h2 i
  proof (rule placed_grown [OF _ _ i])
    show "\<forall>i. taken ?k h2 \<le> i \<longrightarrow> i < length (posted ?k h2) \<longrightarrow> placed T h n h2 i (posted ?k h2 ! i)"
      using D by (simp add: draining_def)
    show "\<exists>new. posted k h2 = posted ?k h2 @ new \<and> (\<forall>e\<in>set new. \<not> watched T e)"
      using ok by (blast intro: appended_unwatched)
  qed
  have grow: "taken ?k h2 \<le> taken k h2" for h2 using ok by simp
  show "draining T V posted taken signalled h n ev s'"
    unfolding draining_def
  proof (intro conjI allI impI)
    show "n \<le> taken (we_os (st_kernel s')) h" if "ev \<in> signalled (we_os (st_kernel s'))"
      using that D ok s'(1) le_trans [OF _ grow] by (simp add: draining_def)
    show "placed T h n h2 i (posted (we_os (st_kernel s')) h2 ! i)"
      if "taken (we_os (st_kernel s')) h2 \<le> i" "i < length (posted (we_os (st_kernel s')) h2)" for h2 i
      using that s'(1) le_trans [OF grow] placed by simp
  qed (use D s' in \<open>auto simp: draining_def\<close>)
  assume e: "e \<in> set es" "oe_overlapped e = Ov_sync a"
  then obtain j where j: "j < length es" "e = es ! j" by (auto simp: in_set_conv_nth)
  let ?i = "taken ?k h' + j"
  define X where "X = drop (taken ?k h') (posted k h')"
  have es: "es = take (length es) X" using ok by (simp add: X_def)
  then have len: "length es \<le> length X" by (metis length_take min.cobounded1)
  then have "?i < length (posted k h')" using j(1) by (simp add: X_def)
  moreover have "es ! j = X ! j" by (subst es) (simp add: j(1))
  then have "e = posted k h' ! ?i" using j len by (simp add: X_def)
  ultimately have "placed T h n h' ?i e" using placed by simp
  then have "h' = h" "n \<le> ?i" using e(2) by (auto simp: placed_def)
  then show "n \<le> taken k h" using ok j(1) by simp
qed

lemma draining_loop_run:
  assumes D: "draining T V posted taken signalled h n ev s" and U: "iocp_calm T posted taken signalled U"
    and run: "iocp_loop_run K U l t s = Some (r, s')"
  shows "draining T V posted taken signalled h n ev s'"
proof (cases rule: iocp_loop_run_cases [OF run calm_keeps_batch [OF U], case_names bad fail ok])
  case (fail h' m tmo e k lds lps)
  have "port_rel T posted taken signalled (we_os (st_kernel s)) k"
    using completions_fail [OF fail(1)] by (simp add: port_rel_def appended_unwatched)
  then have "calm_rel T posted taken signalled s s'" by (simp add: fail(2) calm_rel_def timer_view_def)
  then show ?thesis by (rule draining_calm [OF D])
next
  case (ok h' m tmo es rs k lds s1)
  let ?s = "s\<lparr>st_kernel := (st_kernel s)\<lparr>we_os := k\<rparr>, st_ldata := lds\<rparr>"
  have s: "draining T V posted taken signalled h n ev ?s"
    by (rule draining_completions(1) [OF D ok(1)]) (simp_all add: timer_view_def)
  have R: "calm_rel T posted taken signalled ?s s1" by (rule store_results_calm [OF ok(2)])
  then have "taken (we_os (st_kernel s1)) = taken k" by (simp add: calm_rel_def port_rel_def)
  then show ?thesis
    using draining_completions(2) [OF D ok(1), of ?s]
    by (intro draining_deliver_all [OF draining_calm [OF s R] U ok(3)]) (simp_all add: timer_view_def)
qed (use D in simp)

lemma draining_step:
  assumes D: "draining T V posted taken signalled h n ev s" and U: "iocp_calm T posted taken signalled U"
    and run: "iocp_step K U st s = Some s'"
  shows "draining T V posted taken signalled h n ev s'"
proof (cases st)
  case (Loop_waits tid l t)
  show ?thesis
  proof (cases "tid = we_thread (st_kernel s)")
    case True
    then show ?thesis using run D Loop_waits by (simp add: iocp_step_def)
  next
    case False
    then obtain r where r: "iocp_loop_run K U l t (s\<lparr>st_kernel := (st_kernel s)\<lparr>we_thread := tid\<rparr>\<rparr>) = Some (r, s')"
      using run Loop_waits by (auto simp: iocp_step_def)
    show ?thesis by (rule draining_loop_run [OF draining_calm [OF D env_calm] U r]) simp_all
  qed
next
  case (Timer_fires t)
  obtain b k where b: "win_fires K t (we_os (st_kernel s)) = (b, k)" by fastforce
  let ?s = "s\<lparr>st_kernel := (st_kernel s)\<lparr>we_os := k\<rparr>\<rparr>"
  have R: "calm_rel T posted taken signalled s ?s"
    using fires_port [OF b] by (simp add: calm_rel_def port_rel_def timer_view_def)
  have D1: "draining T V posted taken signalled h n ev ?s" by (rule draining_calm [OF D R])
  let ?e = "\<lparr>oe_key = PD_IOCP_TIMER_KEY, oe_overlapped = Ov_timer t, oe_bytes = 0\<rparr>"
  consider "s' = ?s" | "iocp_timer_callback K t ?s = Some s'" "s' \<noteq> ?s"
    using run Timer_fires b by (cases b) (auto simp: iocp_step_def)
  then show ?thesis
  proof cases
    case 1
    then show ?thesis using D1 by simp
  next
    case 2
    then obtain x d where x: "st_timers ?s t = Some x" "t_platform_data x \<noteq> NULL"
        "st_tdata ?s (t_platform_data x) = Some d" "\<not> it_destroyed d"
      and s': "s' = snd (wincall (win_post K (it_iocp_handle d) ?e) ?s)"
      by (rule timer_callback_posts)
    then have "t \<notin> T" using D1 by (auto simp: draining_def timer_view_def)
    have "\<not> watched T ?e" using \<open>t \<notin> T\<close> by (simp add: watched_def)
    then have "calm_rel T posted taken signalled ?s s'" unfolding s' by (intro wincall_calm post_unwatched)
    then show ?thesis by (rule draining_calm [OF D1])
  qed
qed

lemma draining_steps:
  assumes "draining T V posted taken signalled h n ev s" and U: "iocp_calm T posted taken signalled U"
    and "iocp_steps K U sts s = Some s'"
  shows "draining T V posted taken signalled h n ev s'"
  using assms(1,3)
proof (induction sts arbitrary: s)
  case (Cons st sts)
  let ?own = "\<lambda>s'. s'\<lparr>st_kernel := (st_kernel s')\<lparr>we_thread := we_thread (st_kernel s), we_last_error := we_last_error (st_kernel s)\<rparr>\<rparr>"
  obtain s1 where s1: "iocp_step K U st s = Some s1" "iocp_steps K U sts (?own s1) = Some s'"
    using Cons.prems(2) by (auto simp: bind_Some_iff)
  have "draining T V posted taken signalled h n ev (?own s1)"
    by (rule draining_calm [OF draining_step [OF Cons.prems(1) U s1(1)] env_calm]) simp_all
  then show ?case using Cons.IH s1(2) by blast
qed simp

text \<open>When the drain has posted its packet, the invariant holds.\<close>

lemma draining_posted:
  assumes ev: "ev \<notin> signalled k"
    and queue: "\<And>h' e. e \<in> set (queued posted taken k h') \<Longrightarrow> watched T e \<Longrightarrow> h' = h \<and> (\<exists>t. oe_overlapped e = Ov_timer t)"
    and T: "\<And>t. t \<in> T \<Longrightarrow> timer_view t s = V t \<and> (\<exists>x d. V t = Some (x, Some d) \<and> t_platform_data x \<noteq> NULL \<and> it_destroyed d)"
    and e: "oe_overlapped e = Ov_sync sync"
    and s: "we_os (st_kernel s) = snd (win_post K h e k)" "we_syncs (st_kernel s) = [sync \<mapsto> ev]"
  shows "draining T V posted taken signalled h (length (posted k h)) ev s"
proof -
  obtain r k' where r: "win_post K h e k = (r, k')" by fastforce
  note k' = post_adds(1,2) [OF r]
  have "placed T h (length (posted k h)) h' i (posted k' h' ! i)" if i: "taken k h' \<le> i" "i < length (posted k' h')" for h' i
  proof -
    obtain new where new: "posted k' h' = posted k h' @ new" "\<forall>e'\<in>set new. watched T e' \<longrightarrow> h' = h \<and> e' = e"
      using post_adds(3) [OF r, of h' T] by (elim exE conjE) (rule that)
    show ?thesis
    proof (cases "watched T (posted k' h' ! i)")
      case True
      show ?thesis
      proof (cases "i < length (posted k h')")
        case old: True
        then have "posted k' h' ! i \<in> set (queued posted taken k h')"
          using i new(1) by (auto simp: queued_def in_set_conv_nth nth_append intro!: exI [of _ "i - taken k h'"])
        then have "h' = h \<and> (\<exists>t. oe_overlapped (posted k' h' ! i) = Ov_timer t)" using queue True by blast
        then show ?thesis using old by (auto simp: placed_def)
      next
        case False
        then have "posted k' h' ! i \<in> set new" using i(2) new(1) by (simp add: nth_append)
        then show ?thesis using new(2) True False e by (auto simp: placed_def)
      qed
    qed (rule placed_unwatched)
  qed
  moreover have "taken (we_os (st_kernel s)) = taken k" "signalled (we_os (st_kernel s)) = signalled k"
    "posted (we_os (st_kernel s)) = posted k'" using s(1) r k' by simp_all
  ultimately show ?thesis using ev s(2)
    by (simp add: draining_def T del: neq0_conv split: if_split_asm)
qed

text \<open>The barrier, for any timers \<open>T\<close> marked as destroyed.\<close>

lemma drain_barrier:
  assumes s: "st_loops s l = Some lp" "l \<noteq> NULL" "l_platform_data lp \<noteq> NULL" "st_ldata s (l_platform_data lp) = Some d"
    and U: "iocp_calm T posted taken signalled U" and syncs: "we_syncs (st_kernel s) = Map.empty"
    and queue: "\<And>h e. e \<in> set (queued posted taken (we_os (st_kernel s)) h) \<Longrightarrow> watched T e \<Longrightarrow>
      h = id_iocp_handle d \<and> (\<exists>t. oe_overlapped e = Ov_timer t)"
    and T: "\<And>t. t \<in> T \<Longrightarrow> \<exists>x y. timer_view t s = Some (x, Some y) \<and> t_platform_data x \<noteq> NULL \<and> it_destroyed y"
    and run: "iocp_drain_sync K U S l s = Some (drained, s')"
  shows "t \<in> T \<Longrightarrow> timer_view t s' = timer_view t s"
    and "drained \<Longrightarrow> length (posted (we_os (st_kernel s)) (id_iocp_handle d)) \<le> taken (we_os (st_kernel s')) (id_iocp_handle d)"
    and "drained \<Longrightarrow> e \<in> set (queued posted taken (we_os (st_kernel s')) h) \<Longrightarrow> oe_overlapped e = Ov_timer t \<Longrightarrow> t \<notin> T"
proof -
  let ?k = "we_os (st_kernel s)" and ?h = "id_iocp_handle d"
  let ?V = "\<lambda>t. timer_view t s"
  have "(\<forall>t\<in>T. timer_view t s' = timer_view t s) \<and>
    (drained \<longrightarrow> length (posted ?k ?h) \<le> taken (we_os (st_kernel s')) ?h \<and>
      (\<forall>h. \<forall>e\<in>set (queued posted taken (we_os (st_kernel s')) h). \<forall>t\<in>T. oe_overlapped e \<noteq> Ov_timer t))"
  proof (cases rule: drain_sync_cases [OF s run, case_names no_event waited])
    case no_event
    then show ?thesis by simp
  next
    case (waited ev k1 s2 s3 k env)
    note create = create_event_ok [OF waited(1)] and wait = wait_event [OF waited(4)]
    obtain r where close: "win_close_handle K ev k = (r, we_os env)" using waited(6) by (metis prod.collapse)
    note close = close_port [OF close]
    let ?s1 = "s\<lparr>st_kernel := (st_kernel s)\<lparr>we_os := k1, we_syncs := (we_syncs (st_kernel s))(win_frame K k1 \<mapsto> ev)\<rparr>\<rparr>"
    let ?e = "\<lparr>oe_key = PD_IOCP_SYNC_KEY, oe_overlapped = Ov_sync (win_frame K k1), oe_bytes = 0\<rparr>"
    obtain env2 where s2: "s2 = ?s1\<lparr>st_kernel := env2\<rparr>" "we_os env2 = snd (win_post K ?h ?e k1)"
      "we_syncs env2 = [win_frame K k1 \<mapsto> ev]"
      using wincall_env [of "win_post K ?h ?e" ?s1] syncs unfolding waited(2) by auto
    have "draining T ?V posted taken signalled ?h (length (posted k1 ?h)) ev s2"
    proof (rule draining_posted)
      show "ev \<notin> signalled k1" using create by simp
      show "h' = ?h \<and> (\<exists>t. oe_overlapped e = Ov_timer t)" if "e \<in> set (queued posted taken k1 h')" "watched T e" for h' e
        using queue [of e h'] that create by (simp add: queued_def)
    qed (use s2 T in \<open>auto simp: timer_view_def\<close>)
    then have D: "draining T ?V posted taken signalled ?h (length (posted ?k ?h)) ev s3"
      using draining_steps [OF _ U waited(3)] create by simp
    have R: "calm_rel T posted taken signalled s3 (s3\<lparr>st_kernel := env\<lparr>we_syncs := we_syncs (st_kernel s3)\<rparr>\<rparr>)"
      using wait close appended_unwatched by (fastforce simp: calm_rel_def port_rel_def timer_view_def)
    have D': "draining T ?V posted taken signalled ?h (length (posted ?k ?h)) ev (s3\<lparr>st_kernel := env\<lparr>we_syncs := we_syncs (st_kernel s3)\<rparr>\<rparr>)"
      by (rule draining_calm [OF D R])
    have n: "length (posted ?k ?h) \<le> taken (we_os env) ?h" if drained
      using that D wait close by (simp add: draining_def)
    have "oe_overlapped e \<noteq> Ov_timer t" if dr: "drained"
      and q: "e \<in> set (queued posted taken (we_os env) h)" and tT: "t \<in> T" for e h t
    proof
      assume t: "oe_overlapped e = Ov_timer t"
      obtain i where "taken (we_os env) h \<le> i" "i < length (posted (we_os env) h)" "e = posted (we_os env) h ! i"
        by (rule queued_index [OF q])
      then have "placed T ?h (length (posted ?k ?h)) h i e" using D' by (simp add: draining_def)
      then show False using t tT n [OF dr] \<open>taken (we_os env) h \<le> i\<close> by (auto simp: placed_def)
    qed
    moreover have "timer_view t s' = timer_view t s" if "t \<in> T" for t
      using D' that by (auto simp: draining_def waited(5) timer_view_def)
    ultimately show ?thesis using n by (simp add: waited(5))
  qed
  then show "t \<in> T \<Longrightarrow> timer_view t s' = timer_view t s"
    and "drained \<Longrightarrow> length (posted ?k ?h) \<le> taken (we_os (st_kernel s')) ?h"
    and "drained \<Longrightarrow> e \<in> set (queued posted taken (we_os (st_kernel s')) h) \<Longrightarrow> oe_overlapped e = Ov_timer t \<Longrightarrow> t \<notin> T"
    by blast+
qed

end

end
