(* ===== verification/Pd_Iocp_Barrier.thy ===== *)
theory Pd_Iocp_Barrier
  imports Pd_Iocp_Drain
begin

text \<open>
  What the drain barrier of the IOCP backend gives: when it reports success, the packets queued
  before it have been handled; so the data of a destroyed timer is freed only when no packet
  names the timer any more.
\<close>

section \<open>The barrier\<close>

text \<open>
  C7: the drain is a barrier, for every schedule of the loop's thread and of the timers' thread
  while it waits: if it returns 1, every packet that was in the loop's port when it began has
  been dequeued, and the waits that dequeued them have ended. The callbacks must not wait or
  drain themselves, and no packet of an earlier drain that timed out may still be queued.
\<close>

theorem iocp_drain_is_a_barrier:
  assumes K: "completion_port K posted taken signalled" and U: "iocp_calm {} posted taken signalled U"
    and s: "st_loops s l = Some lp" "l \<noteq> NULL" "l_platform_data lp \<noteq> NULL" "st_ldata s (l_platform_data lp) = Some d"
    and syncs: "we_syncs (st_kernel s) = Map.empty"
    and no_stale: "\<And>h e a. e \<in> set (queued posted taken (we_os (st_kernel s)) h) \<Longrightarrow> oe_overlapped e \<noteq> Ov_sync a"
    and run: "iocp_drain_sync K U S l s = Some (True, s')"
  shows "length (posted (we_os (st_kernel s)) (id_iocp_handle d)) \<le> taken (we_os (st_kernel s')) (id_iocp_handle d)"
  by (rule completion_port.drain_barrier(2) [OF K s U syncs _ _ run])
    (auto simp: watched_def dest: no_stale split: overlapped.splits)

text \<open>
  The witness: the packet of a read is in the port when thread 1 drains; thread 2 waits once,
  handles both packets, and the drain returns 1.
\<close>

definition ix_loop_waits :: "'k schedule" where
  "ix_loop_waits s = [Loop_waits 2 1 0]"

lemma ix_quiet_calm [simp]: "iocp_calm T posted taken signalled ix_quiet"
  by (simp add: iocp_calm_def ix_quiet_def)

lemma ix_arrived_simps [simp]:
  "st_loops ix_arrived = st_loops ix_state" "st_ldata ix_arrived = st_ldata ix_state"
  "we_syncs (st_kernel ix_arrived) = Map.empty" "rw_posted (we_os (st_kernel ix_arrived)) = [(4, ix_entry)]"
  by (simp_all add: ix_arrived_def)

theorem iocp_drain_is_a_barrier_witness:
  "\<exists>s'. iocp_drain_sync ref_win ix_quiet ix_loop_waits 1 ix_arrived = Some (True, s') \<and>
    rw_queue (we_os (st_kernel ix_arrived)) 4 = [ix_entry] \<and> 1 \<le> rw_count (we_os (st_kernel s')) 4"
proof -
  have "map_option fst (iocp_drain_sync ref_win ix_quiet ix_loop_waits 1 ix_arrived) = Some True" by code_simp
  then obtain s' where run: "iocp_drain_sync ref_win ix_quiet ix_loop_waits 1 ix_arrived = Some (True, s')" by auto
  have s: "st_loops ix_arrived 1 = Some ix_loop" "(1 :: addr) \<noteq> NULL" "l_platform_data ix_loop \<noteq> NULL"
    "st_ldata ix_arrived (l_platform_data ix_loop) = Some ix_data" "we_syncs (st_kernel ix_arrived) = Map.empty"
    by simp_all
  have q: "rw_queue (we_os (st_kernel ix_arrived)) h = (if h = 4 then [ix_entry] else [])" for h
    by (simp add: rw_queue_def)
  have "oe_overlapped e \<noteq> Ov_sync a" if "e \<in> set (queued rw_queue rw_count (we_os (st_kernel ix_arrived)) h)" for h e a
    using that by (auto simp: queued_def q ix_entry_def dest: in_set_dropD split: if_splits)
  from iocp_drain_is_a_barrier [OF rw.completion_port_axioms ix_quiet_calm s this run] run show ?thesis
    by (auto simp: q ix_data_def)
qed

section \<open>Destroying a timer\<close>

text \<open>The state in which the drain begins: the data is marked, the queue timer deleted, the event closed.\<close>

definition torn_down :: "pd_iocp_timer_data \<Rightarrow> pd_iocp_timer_data" where
  "torn_down x = (let x = x\<lparr>it_destroyed := True\<rparr>;
       x = (if it_started x \<and> it_queue_timer x \<noteq> 0 then x\<lparr>it_queue_timer := 0, it_started := False\<rparr> else x)
     in if it_stop_event x \<noteq> 0 then x\<lparr>it_stop_event := 0\<rparr> else x)"

lemma torn_down_destroyed [simp]: "it_destroyed (torn_down x)"
  by (simp add: torn_down_def Let_def)




context completion_port
begin

lemma tear_down:
  assumes "st_tdata s td = Some x"
  obtains env where "iocp_timer_tear_down K td s = Some (s\<lparr>st_kernel := env, st_tdata := (st_tdata s)(td \<mapsto> torn_down x)\<rparr>)"
    "we_syncs env = we_syncs (st_kernel s)" "posted (we_os env) = posted (we_os (st_kernel s))"
    "taken (we_os env) = taken (we_os (st_kernel s))"
proof -
  have close: "\<exists>env. snd (wincall (win_close_handle K h) s) = s\<lparr>st_kernel := env\<rparr> \<and> we_syncs env = we_syncs (st_kernel s) \<and>
      posted (we_os env) = posted (we_os (st_kernel s)) \<and> taken (we_os env) = taken (we_os (st_kernel s))" for h s
    using wincall_env [of "win_close_handle K h" s] close_port by (metis prod.collapse)
  have delete: "\<exists>env. snd (wincall (win_delete_timer K q INVALID_HANDLE_VALUE) s) = s\<lparr>st_kernel := env\<rparr> \<and>
      we_syncs env = we_syncs (st_kernel s) \<and> posted (we_os env) = posted (we_os (st_kernel s)) \<and>
      taken (we_os env) = taken (we_os (st_kernel s))" for q s
    using wincall_env [of "win_delete_timer K q INVALID_HANDLE_VALUE" s] delete_timer_port by (metis prod.collapse)
  let ?x1 = "x\<lparr>it_destroyed := True\<rparr>"
  let ?s1 = "s\<lparr>st_tdata := (st_tdata s)(td \<mapsto> ?x1)\<rparr>"
  let ?deletes = "it_started x \<and> it_queue_timer x \<noteq> 0"
  obtain x2 where x2: "x2 = (if ?deletes then ?x1\<lparr>it_queue_timer := 0, it_started := False\<rparr> else ?x1)" by blast
  obtain env1 where env1: "(if ?deletes
        then let (_, s) = wincall (win_delete_timer K (it_queue_timer x) INVALID_HANDLE_VALUE) ?s1
          in write_tdata td (\<lambda>x. x\<lparr>it_queue_timer := 0, it_started := False\<rparr>) s
        else Some ?s1) = Some (s\<lparr>st_kernel := env1, st_tdata := (st_tdata s)(td \<mapsto> x2)\<rparr>)"
    "we_syncs env1 = we_syncs (st_kernel s)" "posted (we_os env1) = posted (we_os (st_kernel s))"
    "taken (we_os env1) = taken (we_os (st_kernel s))"
  proof (cases ?deletes)
    case True
    then show thesis using that delete [of "it_queue_timer x" ?s1] by (auto simp: x2 split_def heap_write_def Let_def)
  next
    case False
    then show thesis using that [of "st_kernel s"] by (auto simp: x2)
  qed
  let ?s2 = "s\<lparr>st_kernel := env1, st_tdata := (st_tdata s)(td \<mapsto> x2)\<rparr>"
  have down: "torn_down x = (if it_stop_event x \<noteq> 0 then x2\<lparr>it_stop_event := 0\<rparr> else x2)"
    by (simp add: torn_down_def x2 Let_def)
  have "iocp_timer_tear_down K td s =
      (if it_stop_event x \<noteq> 0
       then let (_, s) = wincall (win_close_handle K (it_stop_event x)) ?s2
         in write_tdata td (\<lambda>x. x\<lparr>it_stop_event := 0\<rparr>) s
       else Some ?s2)"
  proof -
    have "write_tdata td (\<lambda>x. x\<lparr>it_destroyed := True\<rparr>) s = Some ?s1" using assms by (simp add: heap_write_def)
    then show ?thesis using env1(1) by (cases "it_started x"; cases "it_queue_timer x = 0") (simp_all add: iocp_timer_tear_down_def x2)
  qed
  then show thesis
    using that [of env1] that close [of "it_stop_event x" ?s2] env1(2-4)
    by (cases "it_stop_event x = 0") (auto simp: down split_def heap_write_def Let_def)
qed

end


text \<open>
  The witness: timer 20 is running and has a packet in the port. With the loop's thread waiting
  once, the timer is freed; if it does not wait in time, the timer's data stays.
\<close>

definition ix_timer :: pd_timer where
  "ix_timer = zero_timer\<lparr>t_loop := 1, t_callback := Some (Cb_user 0), t_watcher := 12, t_platform_data := 700\<rparr>"

definition ix_timer_data :: pd_iocp_timer_data where
  "ix_timer_data = \<lparr>it_queue_timer = 104, it_iocp_handle = 4, it_stop_event = 108, it_started = True, it_destroyed = False\<rparr>"

definition ix_tick :: entry where
  "ix_tick = \<lparr>oe_key = PD_IOCP_TIMER_KEY, oe_overlapped = Ov_timer 20, oe_bytes = 0\<rparr>"

definition ix_ticked :: "ref_win_kernel iocp_state" where
  "ix_ticked = ix_state\<lparr>st_kernel := (st_kernel ix_state)\<lparr>we_os := ix_kernel\<lparr>rw_posted := [(4, ix_tick)],
       rw_timers := [(104, (20, True))], rw_events := [(108, True)]\<rparr>\<rparr>,
     st_loops := [1 \<mapsto> (example_loop 4 [10, 11, 12])\<lparr>l_ops := Some Ops_iocp\<rparr>],
     st_watchers := (st_watchers ix_state)(12 \<mapsto> ix_watcher (- 1) False NULL),
     st_timers := [20 \<mapsto> ix_timer], st_tdata := [700 \<mapsto> ix_timer_data]\<rparr>"


text \<open>
  Why no packet of an earlier drain may be queued: the drain of timer 21 times out, since the
  loop does not wait in time, and its packet stays in the port with the address of a local
  variable that is gone. Timer 20 fires; then it is destroyed, its drain has its variable at the
  same address, and the loop, which takes one packet at a time, meets the old packet and signals
  the new event. Timer 20 is freed with its packet still queued, and the next wait reads it.
\<close>

definition ix_two_timers :: "ref_win_kernel iocp_state" where
  "ix_two_timers = ix_ticked\<lparr>st_kernel := (st_kernel ix_state)\<lparr>we_os := ix_kernel\<lparr>
       rw_timers := [(104, (20, True))], rw_events := [(108, True)]\<rparr>\<rparr>,
     st_loops := [1 \<mapsto> (example_loop 4 [10, 11, 12, 13])\<lparr>l_ops := Some Ops_iocp\<rparr>],
     st_ldata := [500 \<mapsto> ix_data\<lparr>id_events := [Some zero_entry], id_max_events := 1\<rparr>],
     st_watchers := (st_watchers ix_ticked)(13 \<mapsto> ix_watcher (- 1) False NULL),
     st_timers := [20 \<mapsto> ix_timer, 21 \<mapsto> ix_timer\<lparr>t_watcher := 13, t_platform_data := 701\<rparr>],
     st_tdata := [700 \<mapsto> ix_timer_data, 701 \<mapsto> zero_iocp_timer_data\<lparr>it_iocp_handle := 4\<rparr>]\<rparr>"

theorem iocp_stale_drain_use_after_free:
  "\<exists>s1 s2. pd_timer_destroy (pd_platform_iocp ref_win ix_quiet (\<lambda>_. [Timer_fires 20])) 21 ix_two_timers = Some (PD_OK, s1) \<and>
     pd_timer_destroy (pd_platform_iocp ref_win ix_quiet ix_loop_waits) 20 s1 = Some (PD_OK, s2) \<and>
     iocp_loop_run ref_win ix_quiet 1 0 s2 = None"
proof -
  have "Option.bind (pd_timer_destroy (pd_platform_iocp ref_win ix_quiet (\<lambda>_. [Timer_fires 20])) 21 ix_two_timers)
      (\<lambda>(r1, s1). Option.bind (pd_timer_destroy (pd_platform_iocp ref_win ix_quiet ix_loop_waits) 20 s1)
         (\<lambda>(r2, s2). Some (r1, r2, Option.is_none (iocp_loop_run ref_win ix_quiet 1 0 s2)))) = Some (PD_OK, PD_OK, True)"
    by code_simp
  then show ?thesis by (auto simp: bind_Some_iff Option.is_none_def split: option.splits)
qed

end
