(* ===== verification/Pd_Epoll_Effect.thy ===== *)
theory Pd_Epoll_Effect
  imports Pd_Epoll_Dispatch
begin

text \<open>
  What the watcher slots of the epoll backend do to the rest of the world: calls of
  \<^verbatim>\<open>epoll_ctl\<close>, and changes of the registrations in the data of loops. Everything else a
  program may know of the kernel and of a loop's data survives every operation of
  \<^verbatim>\<open>src/watcher.c\<close>.
\<close>

section \<open>Registration, unregistration and update\<close>

inductive ctl_call :: "'k linux \<Rightarrow> 'k \<Rightarrow> 'k \<Rightarrow> bool" for K where
  call_add: "sys_epoll_ctl K ep EPOLL_CTL_ADD fd (Some ev) k = (r, k') \<Longrightarrow> ee_data ev \<noteq> NULL \<Longrightarrow> ctl_call K k k'"
| call_mod: "sys_epoll_ctl K ep EPOLL_CTL_MOD fd (Some ev) k = (r, k') \<Longrightarrow> ee_data ev \<noteq> NULL \<Longrightarrow> ctl_call K k k'"
| call_del: "sys_epoll_ctl K ep EPOLL_CTL_DEL fd None k = (r, k') \<Longrightarrow> ctl_call K k k'"

definition ctl_effect :: "'k linux \<Rightarrow> 'k epoll_state \<Rightarrow> 'k epoll_state \<Rightarrow> bool" where
  "ctl_effect K s s' \<longleftrightarrow> (ctl_call K)\<^sup>*\<^sup>* (st_kernel s) (st_kernel s') \<and>
     (\<forall>p. rel_option upd_table (st_ldata s p) (st_ldata s' p))"

lemma rel_table_refl: "rel_option upd_table x x"
  by (cases x) simp_all

lemma ctl_effectI:
  assumes "(ctl_call K)\<^sup>*\<^sup>* (st_kernel s) (st_kernel s')" "st_ldata s' = st_ldata s"
  shows "ctl_effect K s s'"
  using assms by (simp add: ctl_effect_def rel_table_refl)

lemma ctl_effect_put:
  assumes "(ctl_call K)\<^sup>*\<^sup>* (st_kernel s) (st_kernel s')" "st_ldata s' = (st_ldata s)(p \<mapsto> d')" "st_ldata s p = Some d" "upd_table d d'"
  shows "ctl_effect K s s'"
  using assms by (simp add: ctl_effect_def rel_table_refl)

lemma register_effect:
  assumes wf: "pd_wf s" and inv: "epoll_inv s" and w: "st_watchers s w = Some wt" "w_loop wt \<noteq> NULL"
    and run: "epoll_watcher_register K (w_loop wt) w s = Some (r, s')"
  shows "ctl_effect K s s'"
proof -
  have nz: "w \<noteq> NULL" using pd_wf_watcher [OF wf w(1)] by (simp add: watcher_ok_def)
  obtain lp where lp: "st_loops s (w_loop wt) = Some lp" by (rule pd_wf_loop_of [OF wf w])
  obtain d where d: "l_platform_data lp \<noteq> NULL" "st_ldata s (l_platform_data lp) = Some d"
    "epoll_data_ok d" "wf_table d" by (rule epoll_inv_loop [OF inv lp])
  obtain d1 where d1: "evict_stale_registration d (w_fd wt) w = Some d1" "wf_table d1" "upd_table d d1"
    by (rule evict_step [OF d(4), of "w_fd wt" w])
  note facts = lp w(2,1) nz d(1,2,4) d1(1,2)
  from facts show ?thesis
  proof (cases rule: register_cases [where K = K])
    case (no_data s1 e)
    then show ?thesis using run by (auto intro!: ctl_effectI)
  next
    case (refused s1 e k1)
    have "ctl_call K (st_kernel s) k1" using refused(2) nz by (auto simp: watch_event_def intro: call_add)
    then show ?thesis using run refused(1,3) d(2) d1(3) by (auto intro!: ctl_effect_put [where d = d and d' = d1])
  next
    case (no_room s1 e k1 r2 k2 v)
    have "ctl_call K (st_kernel s) k1" "ctl_call K k1 k2" using no_room(2,3) nz by (auto simp: watch_event_def intro: call_add call_del)
    then show ?thesis using run no_room(1,4) d(2) d1(3) by (auto intro!: ctl_effect_put [where d = d and d' = d1])
  next
    case (ok s1 k1 d2 p v)
    have "ctl_call K (st_kernel s) k1" using ok(2) nz by (auto simp: watch_event_def intro: call_add)
    moreover have "upd_table d d2" using d1(3) ok(6) by (rule upd_table_trans)
    ultimately show ?thesis using run ok(1,8) d(2) by (auto intro!: ctl_effect_put [where d = d and d' = d2])
  qed
qed

lemma unregister_effect:
  assumes wf: "pd_wf s" and inv: "epoll_inv s" and w: "st_watchers s w = Some wt" "w_loop wt \<noteq> NULL"
    and run: "epoll_watcher_unregister K w s = Some (r, s')"
  shows "ctl_effect K s s'"
proof -
  have nz: "w \<noteq> NULL" using pd_wf_watcher [OF wf w(1)] by (simp add: watcher_ok_def)
  obtain lp where lp: "st_loops s (w_loop wt) = Some lp" by (rule pd_wf_loop_of [OF wf w])
  obtain d where d: "l_platform_data lp \<noteq> NULL" "st_ldata s (l_platform_data lp) = Some d"
    "epoll_data_ok d" "wf_table d" by (rule epoll_inv_loop [OF inv lp])
  note facts = w(1) nz w(2) lp d(1,2,4) epoll_inv_watcher [OF inv w(1)]
  from facts show ?thesis
  proof (cases rule: unregister_cases [where K = K])
    case absent
    then show ?thesis using run by (auto intro!: ctl_effectI)
  next
    case (refused i e k1)
    then show ?thesis using run call_del [OF refused(2)] by (auto intro!: ctl_effectI)
  next
    case (removed i q k1 d' en)
    then show ?thesis
      using run call_del [OF removed(2)] d(2) by (auto intro!: ctl_effect_put [where d = d and d' = d'])
  qed
qed

lemma update_effect:
  assumes wf: "pd_wf s" and inv: "epoll_inv s" and link: "epoll_linked interest s"
    and w: "st_watchers s w = Some wt" "w_loop wt \<noteq> NULL"
    and run: "epoll_watcher_update K w ev (s\<lparr>st_watchers := (st_watchers s)(w \<mapsto> wt\<lparr>w_events := ev\<rparr>)\<rparr>) = Some (r, s')"
  shows "ctl_effect K s s'"
proof -
  let ?wt = "wt\<lparr>w_events := ev\<rparr>" and ?s = "s\<lparr>st_watchers := (st_watchers s)(w \<mapsto> wt\<lparr>w_events := ev\<rparr>)\<rparr>"
  have nz: "w \<noteq> NULL" using pd_wf_watcher [OF wf w(1)] by (simp add: watcher_ok_def)
  obtain lp where lp: "st_loops s (w_loop wt) = Some lp" by (rule pd_wf_loop_of [OF wf w])
  obtain d where d: "l_platform_data lp \<noteq> NULL" "st_ldata s (l_platform_data lp) = Some d" by (rule epoll_inv_loop [OF inv lp])
  have ev: "ee_data (ew_epoll_event x) \<noteq> NULL" if "w_platform_data wt \<noteq> NULL" "st_wdata s (w_platform_data wt) = Some x" for x
    using epoll_linked_data [OF link, of w x] that w(1) nz by (simp add: watch_data_def watcher_pdata_def)
  have w': "st_watchers ?s w = Some ?wt" "w_loop ?wt \<noteq> NULL" and lp': "st_loops ?s (w_loop ?wt) = Some lp"
    and d': "st_ldata ?s (l_platform_data lp) = Some d" using w lp d by simp_all
  from w'(1) nz w'(2) lp' d(1) d' show ?thesis
  proof (cases rule: update_cases [where K = K and ev = ev])
    case none
    then show ?thesis using run by (auto intro!: ctl_effectI)
  next
    case (refused x e k1)
    then have "ctl_call K (st_kernel s) k1" using ev [of x] by (auto intro: call_mod)
    then show ?thesis using run refused by (auto intro!: ctl_effectI)
  next
    case (ok x k1 v)
    then have "ctl_call K (st_kernel s) k1" using ev [of x] by (auto intro: call_mod)
    then show ?thesis using run ok by (auto intro!: ctl_effectI)
  next
    case dangling
    then show ?thesis using epoll_inv_watcher [OF inv w(1)] by simp
  qed
qed

section \<open>What every operation on watchers keeps\<close>

lemma ctl_effect_batch:
  assumes "ctl_effect K s s'"
  shows "batch s' p = batch s p"
proof -
  have "rel_option upd_table (st_ldata s p) (st_ldata s' p)" using assms by (simp add: ctl_effect_def)
  then show ?thesis by (cases "st_ldata s p"; cases "st_ldata s' p") (auto simp: batch_def elim!: upd_tableE)
qed

lemma ctl_calls_keep: "(ctl_call K)\<^sup>*\<^sup>* k k' \<Longrightarrow> (\<And>k k'. ctl_call K k k' \<Longrightarrow> f k' = f k) \<Longrightarrow> f k' = f k"
  by (induction rule: rtranclp_induct) auto

text \<open>The descriptors of a loop never change, and no entry is added without a watcher.\<close>

definition no_wake_entry :: "('k \<Rightarrow> int \<Rightarrow> int \<Rightarrow> epoll_event option) \<Rightarrow> addr \<Rightarrow> int \<Rightarrow> 'k epoll_state \<Rightarrow> bool" where
  "no_wake_entry interest l fd s \<longleftrightarrow> (\<forall>d en. loop_data s l = Some d \<longrightarrow>
     interest (st_kernel s) (ed_epoll_fd d) fd = Some en \<longrightarrow> ee_data en \<noteq> NULL)"

context epoll_kernel begin

lemma ctl_call_entries:
  assumes "ctl_call K k k'" "interest k' ep fd = Some en"
  shows "interest k ep fd = Some en \<or> ee_data en \<noteq> NULL"
  using assms(1)
proof cases
  case (call_add e f ev r)
  then show ?thesis using assms(2) ctl_fail [of e _ f _ k] add_ok [of e f ev k _ k'] by (cases r) (auto split: if_splits)
next
  case (call_mod e f ev r)
  then show ?thesis using assms(2) ctl_fail [of e _ f _ k] mod_ok [of e f ev k _ k'] by (cases r) (auto split: if_splits)
next
  case (call_del e f r)
  then show ?thesis using assms(2) del_interest [of e f k r k'] by (auto split: if_splits)
qed

lemma ctl_calls_entries:
  assumes "(ctl_call K)\<^sup>*\<^sup>* k k'" "interest k' ep fd = Some en"
  shows "interest k ep fd = Some en \<or> ee_data en \<noteq> NULL"
  using assms by (induction rule: rtranclp_induct) (auto dest: ctl_call_entries)

lemma ctl_effect_loop_data:
  assumes "ctl_effect K s s'" "loop_pdata s' = loop_pdata s"
  shows "rel_option upd_table (loop_data s l) (loop_data s' l)"
  using assms by (cases "loop_pdata s l") (simp_all add: ctl_effect_def loop_data_def)

lemma ctl_effect_no_wake:
  assumes "ctl_effect K s s'" "loop_pdata s' = loop_pdata s" "no_wake_entry interest l fd s"
  shows "no_wake_entry interest l fd s'"
  unfolding no_wake_entry_def
proof (intro allI impI)
  fix d' en assume d': "loop_data s' l = Some d'" "interest (st_kernel s') (ed_epoll_fd d') fd = Some en"
  obtain d where "loop_data s l = Some d" "upd_table d d'"
    using ctl_effect_loop_data [OF assms(1,2), of l] d'(1) by (auto simp: option_rel_Some2)
  then show "ee_data en \<noteq> NULL"
    using assms(1,3) d'(2) ctl_calls_entries [of "st_kernel s" "st_kernel s'" "ed_epoll_fd d'" fd en]
    by (auto simp: ctl_effect_def no_wake_entry_def elim!: upd_tableE)
qed

text \<open>The link carries any property that the calls of \<^verbatim>\<open>epoll_ctl\<close> keep.\<close>

lemma link_with:
  assumes slots: "op_watcher_register P = Some (epoll_watcher_register K)"
      "op_watcher_unregister P = Some (epoll_watcher_unregister K)"
      "op_watcher_update P = Some (epoll_watcher_update K)"
    and same: "\<And>s s'. same_link s s' \<Longrightarrow> J s \<Longrightarrow> J s'"
    and effect: "\<And>s s'. ctl_effect K s s' \<Longrightarrow> loop_pdata s' = loop_pdata s \<Longrightarrow> J s \<Longrightarrow> J s'"
  shows "pointer_backend P (epoll_watcher_register K) (epoll_watcher_unregister K) (epoll_watcher_update K) epoll_inv
     (\<lambda>s. epoll_linked interest s \<and> J s) (epoll_named interest) (epoll_can_reg interest) epoll_can_upd"
proof -
  have wb: "watcher_backend P (epoll_watcher_register K) (epoll_watcher_unregister K) (epoll_watcher_update K) epoll_inv"
    by (rule readiness_backend.axioms(1) [OF epoll_readiness]) (fact slots)+
  have pb: "pointer_backend P (epoll_watcher_register K) (epoll_watcher_unregister K) (epoll_watcher_update K) epoll_inv
     (epoll_linked interest) (epoll_named interest) (epoll_can_reg interest) epoll_can_upd"
    using wb ptr.pointer_backend_axioms by (simp add: pointer_backend_def)
  have pdata: "loop_pdata s' = loop_pdata s" if "only_watcher upd_pdata w s s'" for w and s s' :: "'k epoll_state"
  proof
    fix l
    have "rel_option upd_error (st_loops s l) (st_loops s' l)" using that by (simp add: only_watcher_def)
    then show "loop_pdata s' l = loop_pdata s l"
      by (cases "st_loops s l"; cases "st_loops s' l") (auto simp: loop_pdata_def elim!: upd_errorE)
  qed
  show ?thesis
  proof (rule pointer_backend.strengthen_link [OF pb same])
    fix s w wt r s'
    assume s: "pd_wf s" "epoll_inv s" "epoll_linked interest s" "st_watchers s w = Some wt" "w_loop wt \<noteq> NULL" and J: "J s"
    show "J s'" if "epoll_watcher_register K (w_loop wt) w s = Some (r, s') \<or> epoll_watcher_unregister K w s = Some (r, s')"
    proof (rule effect [OF _ _ J])
      show "ctl_effect K s s'" using that register_effect [OF s(1,2,4,5)] unregister_effect [OF s(1,2,4,5)] by blast
      show "loop_pdata s' = loop_pdata s"
        using that epoll_register_step [OF s(2,1,4,5), of K] epoll_unregister_step [OF s(2,1,4,5), of K] pdata by fastforce
    qed
    fix ev assume u: "epoll_watcher_update K w ev (s\<lparr>st_watchers := (st_watchers s)(w \<mapsto> wt\<lparr>w_events := ev\<rparr>)\<rparr>) = Some (r, s')"
    show "J s'"
    proof (rule effect [OF _ _ J])
      let ?x = "wt\<lparr>w_events := ev\<rparr>" and ?s = "s\<lparr>st_watchers := (st_watchers s)(w \<mapsto> wt\<lparr>w_events := ev\<rparr>)\<rparr>"
      show "ctl_effect K s s'" by (rule update_effect [OF s u])
      have "pd_wf ?s" "epoll_inv ?s" using watcher_backend.write_status [OF wb s(1,2,4), of ?x] by simp_all
      from epoll_update_step [OF this(2,1), of w ?x K ev] u s(5) have "loop_pdata s' = loop_pdata ?s"
        by (auto dest: pdata)
      then show "loop_pdata s' = loop_pdata s" by (simp add: loop_pdata_def fun_eq_iff)
    qed
  qed
qed

end

end
