(* ===== verification/Pd_Program.thy ===== *)
theory Pd_Program
  imports Pd_Epoll_Effect Pd_Epoll_Timer
begin

text \<open>
  Whole programs on the epoll backend. A program has memory of its own, which the library
  never sees: it is kept beside the kernel, as \<open>ma_memory\<close> of a \<open>machine\<close>, and a kernel is
  lifted to machines. What the library's calls leave alone is stated for any function of the
  kernel's state, of which the program's memory is one.
\<close>

section \<open>A kernel and a program's memory\<close>

record ('k, 'm) machine =
  ma_kernel :: 'k
  ma_memory :: 'm

definition on_kernel :: "('k \<Rightarrow> 'r \<times> 'k) \<Rightarrow> ('k, 'm) machine \<Rightarrow> 'r \<times> ('k, 'm) machine" where
  "on_kernel f x = (case f (ma_kernel x) of (r, k) \<Rightarrow> (r, x\<lparr>ma_kernel := k\<rparr>))"

definition on_machine :: "'k linux \<Rightarrow> ('k, 'm) machine linux" where
  "on_machine K = \<lparr>sys_epoll_create1 = on_kernel (sys_epoll_create1 K),
     sys_epoll_ctl = \<lambda>ep op fd ev. on_kernel (sys_epoll_ctl K ep op fd ev),
     sys_epoll_wait = \<lambda>ep n t. on_kernel (sys_epoll_wait K ep n t),
     sys_eventfd = on_kernel (sys_eventfd K), sys_timerfd_create = on_kernel (sys_timerfd_create K),
     sys_timerfd_settime = \<lambda>fd its. on_kernel (sys_timerfd_settime K fd its),
     sys_read = \<lambda>fd. on_kernel (sys_read K fd), sys_write = \<lambda>fd v. on_kernel (sys_write K fd v),
     sys_close = \<lambda>fd. on_kernel (sys_close K fd)\<rparr>"

type_synonym ('k, 'm) program_state = "('k, 'm) machine epoll_state"

definition memory :: "('k, 'm) program_state \<Rightarrow> 'm" where
  "memory s = ma_memory (st_kernel s)"

definition set_memory :: "('m \<Rightarrow> 'm) \<Rightarrow> ('k, 'm) program_state \<Rightarrow> ('k, 'm) program_state" where
  "set_memory f s = s\<lparr>st_kernel := (st_kernel s)\<lparr>ma_memory := f (ma_memory (st_kernel s))\<rparr>\<rparr>"

lemma memory_set [simp]: "memory (set_memory f s) = f (memory s)"
  by (simp add: memory_def set_memory_def)

lemma set_memory_kernel: "upd_kernel s (set_memory f s)"
  by (simp add: upd_kernel_def set_memory_def)

lemma set_memory_frame [simp]:
  "st_loops (set_memory f s) = st_loops s" "st_watchers (set_memory f s) = st_watchers s"
  "st_timers (set_memory f s) = st_timers s" "st_ldata (set_memory f s) = st_ldata s"
  "st_wdata (set_memory f s) = st_wdata s" "st_tdata (set_memory f s) = st_tdata s"
  "ma_kernel (st_kernel (set_memory f s)) = ma_kernel (st_kernel s)"
  by (simp_all add: set_memory_def)

section \<open>What the calls leave alone\<close>

text \<open>No call changes \<open>mem\<close>, some function of the kernel's state.\<close>

locale linux_program = linux_kernel K interest
  for K :: "'k linux" and interest +
  fixes mem :: "'k \<Rightarrow> 'm"
  assumes calls_keep_mem:
    "mem (snd (sys_epoll_create1 K k)) = mem k" "mem (snd (sys_epoll_ctl K ep op fd ev k)) = mem k"
    "mem (snd (sys_epoll_wait K ep n t k)) = mem k" "mem (snd (sys_eventfd K k)) = mem k"
    "mem (snd (sys_timerfd_create K k)) = mem k" "mem (snd (sys_timerfd_settime K fd its k)) = mem k"
    "mem (snd (sys_read K fd k)) = mem k" "mem (snd (sys_write K fd v k)) = mem k" "mem (snd (sys_close K fd k)) = mem k"

lemma on_kernel_eq: "on_kernel f x = (r, x') \<longleftrightarrow> (\<exists>k. f (ma_kernel x) = (r, k) \<and> x' = x\<lparr>ma_kernel := k\<rparr>)"
  by (auto simp: on_kernel_def split: prod.splits)

lemma on_kernel_simps [simp]:
  "fst (on_kernel f x) = fst (f (ma_kernel x))" "ma_kernel (snd (on_kernel f x)) = snd (f (ma_kernel x))"
  "ma_memory (snd (on_kernel f x)) = ma_memory x"
  by (simp_all add: on_kernel_def split: prod.splits)

lemma on_machine_calls [simp]:
  "sys_epoll_create1 (on_machine K) = on_kernel (sys_epoll_create1 K)"
  "sys_epoll_ctl (on_machine K) ep op fd ev = on_kernel (sys_epoll_ctl K ep op fd ev)"
  "sys_epoll_wait (on_machine K) ep n t = on_kernel (sys_epoll_wait K ep n t)"
  "sys_eventfd (on_machine K) = on_kernel (sys_eventfd K)"
  "sys_timerfd_create (on_machine K) = on_kernel (sys_timerfd_create K)"
  "sys_timerfd_settime (on_machine K) fd its = on_kernel (sys_timerfd_settime K fd its)"
  "sys_read (on_machine K) fd = on_kernel (sys_read K fd)"
  "sys_write (on_machine K) fd v = on_kernel (sys_write K fd v)"
  "sys_close (on_machine K) fd = on_kernel (sys_close K fd)"
  by (simp_all add: on_machine_def)

context linux_kernel begin

lemma on_machine_program:
  "linux_program (on_machine K :: ('k, 'm) machine linux) (\<lambda>x. interest (ma_kernel x)) ma_memory"
proof unfold_locales
  fix x x' :: "('k, 'm) machine" and ep fd n t op evs k' r q
  show "\<exists>v. fst (sys_epoll_ctl (on_machine K) ep EPOLL_CTL_MOD fd (Some ev) x) = Inr v"
    if "interest (ma_kernel x) ep fd \<noteq> None" for ev
    using mod_works [OF that] by simp
  show "\<exists>v. fst (sys_epoll_ctl (on_machine K) ep EPOLL_CTL_DEL fd None x) = Inr v"
    if "interest (ma_kernel x) ep fd \<noteq> None"
    using del_works [OF that] by simp
  show "fresh_fd (\<lambda>x. interest (ma_kernel x)) x r x'" if "sys_eventfd (on_machine K) x = (r, x')"
    using that eventfd_interest by (auto simp: on_kernel_eq fresh_fd_def)
  show "fresh_fd (\<lambda>x. interest (ma_kernel x)) x r x'" if "sys_timerfd_create (on_machine K) x = (r, x')"
    using that timerfd_interest by (auto simp: on_kernel_eq fresh_fd_def)
qed (auto simp: on_kernel_eq dest: add_ok mod_ok del_ok ctl_fail wait_ok wait_fail read_interest create1_interest
    settime_interest write_interest close_interest)

end

interpretation ref_program: linux_program "on_machine ref_linux :: (ref_kernel, 'm) machine linux"
    "\<lambda>x. rk_entry (ma_kernel x)" ma_memory
  by (rule ref_kernel.on_machine_program)

end
