(* ===== verification/Pd_Epoll_Life.thy ===== *)
theory Pd_Epoll_Life
  imports Pd_Program
begin

text \<open>
  The link between the kernel and the watchers through the life of a loop and its timers: it is
  there after a loop was created in a fresh process, and the operations of timers keep it. The
  memory of the program is kept by all of them.
\<close>

section \<open>Steps that touch no watcher\<close>

definition quiet :: "('k \<Rightarrow> int \<Rightarrow> int \<Rightarrow> epoll_event option) \<Rightarrow> ('k \<Rightarrow> 'm) \<Rightarrow> 'k epoll_state \<Rightarrow> 'k epoll_state \<Rightarrow> bool" where
  "quiet interest mem s s' \<longleftrightarrow> loop_data s' = loop_data s \<and> watch_data s' = watch_data s \<and> watch_fd s' = watch_fd s \<and>
     (\<forall>ep. interest (st_kernel s') ep \<subseteq>\<^sub>m interest (st_kernel s) ep) \<and> mem (st_kernel s') = mem (st_kernel s)"

lemma quiet_refl [simp]: "quiet interest mem s s"
  by (simp add: quiet_def)

lemma quiet_mem: "quiet interest mem s s' \<Longrightarrow> mem (st_kernel s') = mem (st_kernel s)"
  by (simp add: quiet_def)

lemma quiet_trans: "quiet interest mem a b \<Longrightarrow> quiet interest mem b c \<Longrightarrow> quiet interest mem a c"
  by (auto simp: quiet_def intro: map_le_trans)

lemma quietI:
  assumes "\<And>l. loop_pdata s' l = loop_pdata s l" "st_watchers s' = st_watchers s" "st_ldata s' = st_ldata s" "st_wdata s' = st_wdata s"
    and "\<And>ep. interest (st_kernel s') ep \<subseteq>\<^sub>m interest (st_kernel s) ep" "mem (st_kernel s') = mem (st_kernel s)"
  shows "quiet interest mem s s'"
proof -
  have "loop_pdata s' = loop_pdata s" using assms(1) by (rule ext)
  then have "loop_data s' = loop_data s" using assms(3) by (rule loop_data_same)
  moreover have "watch_data s' = watch_data s" "watch_fd s' = watch_fd s"
    by (simp_all only: watch_data_def [abs_def] watcher_pdata_def [abs_def] watch_fd_def [abs_def] assms(2,4))
  ultimately show ?thesis using assms(5,6) unfolding quiet_def by blast
qed

lemma quiet_linked:
  assumes "quiet interest mem s s'" "epoll_linked interest s"
  shows "epoll_linked interest s'"
proof (rule epoll_linkedI)
  have q: "loop_data s' = loop_data s" "watch_data s' = watch_data s" "watch_fd s' = watch_fd s"
    "\<And>ep. interest (st_kernel s') ep \<subseteq>\<^sub>m interest (st_kernel s) ep" using assms(1) by (simp_all add: quiet_def)
  show "entry_ok s' l d fd en" if "loop_data s' l = Some d" "interest (st_kernel s') (ed_epoll_fd d) fd = Some en" for l d fd en
    using epoll_linked_entry [OF assms(2), of l d fd en] that map_le_Some [OF q(4)] by (simp add: q entry_ok_def)
qed (use assms in \<open>simp_all add: quiet_def epoll_linked_inj epoll_linked_data\<close>)

lemma quiet_no_wake:
  assumes "quiet interest mem s s'" "no_wake_entry interest l fd s"
  shows "no_wake_entry interest l fd s'"
  unfolding no_wake_entry_def
proof (intro allI impI)
  fix d en assume "loop_data s' l = Some d" "interest (st_kernel s') (ed_epoll_fd d) fd = Some en"
  then have "loop_data s l = Some d" "interest (st_kernel s) (ed_epoll_fd d) fd = Some en"
    using assms(1) by (auto simp: quiet_def dest: map_le_Some)
  then show "ee_data en \<noteq> NULL" using assms(2) by (auto simp: no_wake_entry_def)
qed

lemma quiet_not_named:
  assumes "quiet interest mem s s'" "\<not> epoll_named interest s w"
  shows "\<not> epoll_named interest s' w"
proof
  assume "epoll_named interest s' w"
  then obtain l d fd en where n: "w \<noteq> NULL" "loop_data s' l = Some d"
    "interest (st_kernel s') (ed_epoll_fd d) fd = Some en" "ee_data en = w" by (auto simp: epoll_named_def)
  have "loop_data s l = Some d" "interest (st_kernel s) (ed_epoll_fd d) fd = Some en"
    using assms(1) n(2) map_le_Some [of "interest (st_kernel s') (ed_epoll_fd d)" _ fd en] n(3) by (simp_all add: quiet_def)
  then have "epoll_named interest s w" using n(1,4) unfolding epoll_named_def by blast
  then show False using assms(2) by simp
qed

lemma loop_pdata_put: "st_loops s l = Some lp \<Longrightarrow> l_platform_data lp' = l_platform_data lp \<Longrightarrow>
    st_loops s' = (st_loops s)(l \<mapsto> lp') \<Longrightarrow> loop_pdata s' k = loop_pdata s k"
  by (simp add: loop_pdata_def)

section \<open>A fresh process\<close>

definition fresh_process :: "('ld, 'wd, 'td, 'k) pd_state \<Rightarrow> bool" where
  "fresh_process s \<longleftrightarrow> st_loops s = Map.empty \<and> st_watchers s = Map.empty \<and> st_timers s = Map.empty"

lemma fresh_process_ok:
  assumes "fresh_process s"
  shows "pd_wf s" "epoll_inv s" "epoll_linked interest s" "timers_wired s" "epoll_tinv {} s"
proof -
  have s: "st_loops s = Map.empty" "st_watchers s = Map.empty" "st_timers s = Map.empty" using assms by (simp_all add: fresh_process_def)
  show "pd_wf s" by (simp add: pd_wf_def s)
  show "epoll_inv s" by (simp add: epoll_inv_def owned_def loop_pdata_def watcher_pdata_def s)
  show "epoll_linked interest s" by (rule epoll_linkedI) (simp_all add: loop_data_def loop_pdata_def watch_data_def watcher_pdata_def s)
  show "timers_wired s" by (simp add: timers_wired_def s)
  show "epoll_tinv {} s" by (rule epoll_tinvI) (simp_all add: s timer_pdata_def watcher_keys_def)
qed

context linux_program begin

lemma mem_call:
  "sys_epoll_create1 K k = (r1, k') \<Longrightarrow> mem k' = mem k" "sys_epoll_ctl K ep op fd ev k = (r2, k') \<Longrightarrow> mem k' = mem k"
  "sys_epoll_wait K ep n t k = (r3, k') \<Longrightarrow> mem k' = mem k" "sys_eventfd K k = (r4, k') \<Longrightarrow> mem k' = mem k"
  "sys_timerfd_create K k = (r5, k') \<Longrightarrow> mem k' = mem k" "sys_timerfd_settime K fd its k = (r6, k') \<Longrightarrow> mem k' = mem k"
  "sys_read K fd k = (r7, k') \<Longrightarrow> mem k' = mem k" "sys_write K fd v k = (r8, k') \<Longrightarrow> mem k' = mem k"
  "sys_close K fd k = (r9, k') \<Longrightarrow> mem k' = mem k"
  using calls_keep_mem by (metis snd_conv)+

lemma ctl_call_mem: "ctl_call K k k' \<Longrightarrow> mem k' = mem k"
  by (erule ctl_call.cases) (auto dest: mem_call(2))

lemma close_fd_quiet: "interest (close_fd K fd k) ep \<subseteq>\<^sub>m interest k ep" "mem (close_fd K fd k) = mem k"
  using close_interest [of fd k "fst (sys_close K fd k)" "close_fd K fd k" ep] by (simp_all add: close_fd_def calls_keep_mem)

lemma create_failed_quiet: "create_failed K k k' \<Longrightarrow> interest k' ep \<subseteq>\<^sub>m interest k ep \<and> mem k' = mem k"
proof (induction rule: create_failed.induct)
  case (no_add e k1 v k2 x k3)
  have "interest k3 = interest k" "mem k3 = mem k"
    using create1_interest [OF no_add(1)] eventfd_interest [OF no_add(2)] ctl_fail [OF no_add(3)] mem_call no_add
    by (simp_all add: fresh_fd_def)
  then show ?case using close_fd_quiet [of "int v" k3] close_fd_quiet [of "int e" "close_fd K (int v) k3"]
    by (auto intro: map_le_trans)
next
  case (no_epoll x k1)
  then show ?case using create1_interest mem_call(1) by fastforce
next
  case (no_events e k1)
  then show ?case using create1_interest [OF no_events] mem_call(1) [OF no_events] close_fd_quiet [of "int e" k1] by auto
next
  case (no_eventfd e k1 x k2)
  then show ?case
    using create1_interest [OF no_eventfd(1)] eventfd_interest [OF no_eventfd(2)] mem_call close_fd_quiet [of "int e" k2]
    by (auto simp: fresh_fd_def)
qed simp

section \<open>Creating a loop\<close>

lemma create_interest:
  assumes "sys_epoll_create1 K k = (Inr ep, k1)" "sys_eventfd K k1 = (Inr ev, k2)"
    and "sys_epoll_ctl K (int ep) EPOLL_CTL_ADD (int ev) (Some wake_event) k2 = (Inr v, k3)"
  shows "interest k3 (int ep) fd = Some en \<Longrightarrow> ee_data en = NULL" "mem k3 = mem k"
proof -
  have "interest k2 (int ep) = Map.empty"
    using create1_interest [OF assms(1)] eventfd_interest [OF assms(2)] by (simp add: fresh_fd_def)
  then show "interest k3 (int ep) fd = Some en \<Longrightarrow> ee_data en = NULL"
    using add_ok [OF assms(3)] by (auto simp: wake_event_def split: if_splits)
  show "mem k3 = mem k" using mem_call(1) [OF assms(1)] mem_call(4) [OF assms(2)] mem_call(2) [OF assms(3)] by simp
qed

lemma loop_create_link:
  assumes s: "fresh_process s" and run: "pd_loop_create target (pd_platform_epoll K U) config s = Some (l, s')"
  shows "(l \<noteq> NULL \<longrightarrow> epoll_linked interest s') \<and> mem (st_kernel s') = mem (st_kernel s)"
proof (cases rule: create_loop_front [of target "pd_platform_epoll K U" config s])
  case (null s1)
  then show ?thesis using run by (auto elim!: upd_allocE)
next
  case (backend a s1 m)
  let ?lp = "new_loop (loop_config config) (pd_platform_detect target) m"
  let ?s2 = "s1\<lparr>st_loops := (st_loops s)(a \<mapsto> ?lp)\<rparr>"
  have none: "st_loops s k = None" "st_watchers s k = None" for k using s by (simp_all add: fresh_process_def)
  have k1: "st_kernel ?s2 = st_kernel s" "st_watchers ?s2 = st_watchers s" using backend(3) by (auto elim!: upd_allocE)
  have a: "st_loops ?s2 a = Some ?lp" by simp
  from a backend(1) show ?thesis
  proof (cases rule: loop_create_cases [where K = K and cfg = "loop_config config"])
    case (failed s3 r e k cs en)
    let ?x = "?lp\<lparr>l_system_error := e, l_watchers := []\<rparr>"
    have "mutex_ready ?x s3"
      using backend(3,5) by (auto simp: failed(3) mutex_ready_def uses_mutex_def upd_alloc_frame)
    then have "l = NULL \<and> s' = s3\<lparr>st_loops := st_loops s\<rparr>"
      using run failed(1,2) unfolding backend(6)
      by (simp add: failed(3) heap_write_def give_up [of "st_loops s", OF backend(2) _ backend(1)] mutex_ready_def uses_mutex_def)
    then show ?thesis using create_failed_quiet [OF failed(4)] k1(1) by (simp add: failed(3))
  next
    case (ok s3 p cs en k k2 k3 ep ev v)
    have s': "l = a" "s' = s3" using run ok(1) by (simp_all add: backend(6))
    have pd: "loop_pdata s3 = [a \<mapsto> p]" "watcher_pdata s3 = Map.empty"
      using none k1(2) by (simp_all add: ok(2) loop_pdata_def watcher_pdata_def fun_eq_iff)
    have ld: "loop_data s3 = [a \<mapsto> new_epoll_data ep ev (max_events_per_wait (loop_config config))]"
      by (simp add: loop_data_def pd fun_eq_iff) (simp add: ok(2))
    have k3: "st_kernel s3 = k3" by (simp add: ok(2))
    have "epoll_linked interest s3"
    proof (rule epoll_linkedI)
      show "entry_ok s3 l d fd en" if "loop_data s3 l = Some d" "interest (st_kernel s3) (ed_epoll_fd d) fd = Some en" for l d fd en
        using that create_interest(1) [OF ok(5-7)] by (auto simp: ld k3 entry_ok_def new_epoll_data_def split: if_splits)
    qed (simp_all add: ld watch_data_def pd split: if_splits)
    then show ?thesis using s' k3 create_interest(2) [OF ok(5-7)] k1(1) by simp
  qed
qed

text \<open>A process that has created its first loop.\<close>

lemma fresh_loop_create:
  assumes s: "fresh_process s"
  obtains (null) s' where "pd_loop_create target (pd_platform_epoll K U) config s = Some (NULL, s')" "fresh_process s'"
      "mem (st_kernel s') = mem (st_kernel s)"
  | (some) l s' lp where "pd_loop_create target (pd_platform_epoll K U) config s = Some (l, s')" "l \<noteq> NULL"
      "run_ok interest s'" "epoll_tinv {} s'" "st_loops s' = [l \<mapsto> lp]" "l_ref_count lp = 1" "watcher_list lp = []"
      "st_watchers s' = Map.empty" "st_timers s' = Map.empty" "mem (st_kernel s') = mem (st_kernel s)" "\<not> l_stop_requested lp"
proof -
  note ok = fresh_process_ok [OF s]
  have s0: "st_loops s = Map.empty" "st_watchers s = Map.empty" "st_timers s = Map.empty" using s by (simp_all add: fresh_process_def)
  show thesis
  proof (cases rule: epl.create_loop_step [OF ok(1,2), where K = K and U = U and target = target and config = config])
    case (1 s')
    then show thesis using loop_create_link [OF s 1(1)] s0 by (intro null [of s']) (simp_all add: fresh_process_def same_objects_def)
  next
    case (2 l s' e p m)
    let ?lp = "(new_loop (loop_config config) (pd_platform_detect target) m)\<lparr>l_system_error := e, l_platform_data := p\<rparr>"
    have m: "mem (st_kernel s') = mem (st_kernel s)" and link: "epoll_linked interest s'"
      using loop_create_link [OF s 2(1)] 2(4) by simp_all
    have o: "st_loops s' = [l \<mapsto> ?lp]" "st_watchers s' = Map.empty" "st_timers s' = Map.empty"
      using 2(7,8) s0 by (simp_all add: same_objects_def)
    have "timers_wired s'" by (simp add: timers_wired_def o)
    then have "run_ok interest s'" using 2(2,3) link by (simp add: run_ok_def)
    moreover have "epoll_tinv {} s'" by (rule epoll_tinvI) (simp_all add: o timer_pdata_def watcher_keys_def)
    ultimately show thesis using 2(1,4) o m by (intro some [of l s' ?lp]) (simp_all add: new_loop_def zero_loop_def watcher_list_def arr_list_def)
  qed
qed

section \<open>Timers\<close>

text \<open>
  The link with the program's memory, and with either of two facts about a loop: its batch of
  events, or that a descriptor has no wake-up entry.
\<close>

abbreviation "slots_of P \<equiv> op_watcher_register P = Some (epoll_watcher_register K) \<and>
  op_watcher_unregister P = Some (epoll_watcher_unregister K) \<and> op_watcher_update P = Some (epoll_watcher_update K)"

lemma same_link_no_wake: "same_link s s' \<Longrightarrow> no_wake_entry interest l fd s' = no_wake_entry interest l fd s"
  using same_link_data [of s s'] by (simp add: no_wake_entry_def same_link_def)

lemma effect_mem: "ctl_effect K s s' \<Longrightarrow> mem (st_kernel s') = mem (st_kernel s)"
  using ctl_calls_keep [of K "st_kernel s" "st_kernel s'" mem] ctl_call_mem by (auto simp: ctl_effect_def)

lemma link_no_wake:
  assumes "slots_of P"
  shows "pointer_backend P (epoll_watcher_register K) (epoll_watcher_unregister K) (epoll_watcher_update K) epoll_inv
     (\<lambda>s. epoll_linked interest s \<and> (mem (st_kernel s) = c \<and> no_wake_entry interest l fd s))
     (epoll_named interest) (epoll_can_reg interest) epoll_can_upd"
proof (rule link_with)
  show "mem (st_kernel s') = c \<and> no_wake_entry interest l fd s'"
    if "same_link s s'" "mem (st_kernel s) = c \<and> no_wake_entry interest l fd s" for s s'
    using that same_link_no_wake [OF that(1)] by (simp add: same_link_def)
  show "mem (st_kernel s') = c \<and> no_wake_entry interest l fd s'"
    if "ctl_effect K s s'" "loop_pdata s' = loop_pdata s" "mem (st_kernel s) = c \<and> no_wake_entry interest l fd s" for s s'
    using that ctl_effect_no_wake [OF that(1,2)] effect_mem by simp
qed (use assms in simp_all)

lemma link_batch:
  assumes "slots_of P"
  shows "pointer_backend P (epoll_watcher_register K) (epoll_watcher_unregister K) (epoll_watcher_update K) epoll_inv
     (\<lambda>s. epoll_linked interest s \<and> (mem (st_kernel s) = c \<and> batch s p = b))
     (epoll_named interest) (epoll_can_reg interest) epoll_can_upd"
proof (rule link_with)
  show "mem (st_kernel s') = c \<and> batch s' p = b"
    if "same_link s s'" "mem (st_kernel s) = c \<and> batch s p = b" for s s'
    using that by (simp add: same_link_def batch_def)
  show "mem (st_kernel s') = c \<and> batch s' p = b"
    if "ctl_effect K s s'" "loop_pdata s' = loop_pdata s" "mem (st_kernel s) = c \<and> batch s p = b" for s s'
    using that ctl_effect_batch [OF that(1)] effect_mem by simp
qed (use assms in simp_all)

lemma watcher_slots: "slots_of (epoll_watcher_ops K)" "slots_of (pd_platform_epoll K U)"
  by (simp_all add: epoll_watcher_ops_def)

lemma timer_watcher_link:
  assumes wf: "pd_wf s" "epoll_inv s" and l: "st_loops s l = Some lp" and can: "\<And>ep. interest (st_kernel s) ep fd = None"
    and link: "epoll_linked interest s"
    and run: "pd_watcher_create (epoll_watcher_ops K) l fd PD_EVENT_READ cb ud s = Some (w, s')"
  shows "epoll_linked interest s' \<and> mem (st_kernel s') = mem (st_kernel s) \<and> no_wake_entry interest l fd s'"
proof -
  have "epoll_can_reg interest l fd PD_EVENT_READ s" "no_wake_entry interest l fd s"
    using can by (simp_all add: epoll_can_reg_def no_wake_entry_def)
  then show ?thesis
    using pointer_backend.create_link [OF link_no_wake [OF watcher_slots(1), where c = "mem (st_kernel s)" and l = l and fd = fd] wf _ l _ run]
      link by blast
qed

lemma timer_stop_link:
  assumes wf: "pd_wf s" "epoll_inv s" and link: "epoll_linked interest s" "no_wake_entry interest l fd s"
    and w: "st_watchers s w = Some wt" "w_loop wt \<noteq> NULL"
    and run: "pd_watcher_stop (epoll_watcher_ops K) w s = Some (r, s')"
  shows "epoll_linked interest s' \<and> mem (st_kernel s') = mem (st_kernel s) \<and> no_wake_entry interest l fd s' \<and>
    (w_active wt \<longrightarrow> \<not> epoll_named interest s' w)"
  using pointer_backend.stop_link [OF link_no_wake [OF watcher_slots(1), where c = "mem (st_kernel s)" and l = l and fd = fd] wf _ w run]
    link by blast

lemma epoll_timer_create_link:
  assumes wf: "pd_wf s" "epoll_inv s" and link: "epoll_linked interest s" and t: "st_timers s t = None" "t \<noteq> NULL"
    and lp: "st_loops s l = Some lp"
    and run: "epoll_timer_create K l t (s\<lparr>st_timers := (st_timers s)(t \<mapsto> tm)\<rparr>) = Some (r, s')"
  shows "epoll_linked interest s' \<and> mem (st_kernel s') = mem (st_kernel s) \<and>
    (r = PD_OK \<longrightarrow> (\<exists>tm' fd. st_timers s' t = Some tm' \<and> st_tdata s' (t_platform_data tm') = Some fd \<and>
       \<not> epoll_named interest s' (t_watcher tm') \<and> no_wake_entry interest l fd s'))"
proof -
  have l: "l \<noteq> NULL" using pd_wf_loop [OF wf(1) lp] by (simp add: loop_ok_def)
  from t lp l show ?thesis
  proof (cases rule: timer_create_cases [where K = K and tm = tm])
    case (no_fd e k)
    then have r: "r = PD_ERR_SYSTEM" and s': "s' = s\<lparr>st_timers := (st_timers s)(t \<mapsto> tm), st_kernel := k, st_errno := e,
           st_loops := (st_loops s)(l \<mapsto> lp\<lparr>l_system_error := e\<rparr>)\<rparr>" using run by simp_all
    have k: "interest k = interest (st_kernel s)" "mem k = mem (st_kernel s)"
      using timerfd_interest [OF no_fd(1)] mem_call(5) [OF no_fd(1)] by (simp_all add: fresh_fd_def)
    have "quiet interest mem s s'" using lp k by (intro quietI) (simp_all add: s' loop_pdata_def)
    then show ?thesis using quiet_linked [OF _ link] by (simp add: r quiet_def)
  next
    case (no_data fd k cs e)
    then have r: "r = PD_ERR_NO_MEMORY" and s': "s' = s\<lparr>st_timers := (st_timers s)(t \<mapsto> tm), st_kernel := close_fd K (int fd) k,
           st_choices := cs, st_errno := e\<rparr>" using run by simp_all
    have k: "interest k = interest (st_kernel s)" "mem k = mem (st_kernel s)"
      using timerfd_interest [OF no_data(1)] mem_call(5) [OF no_data(1)] by (simp_all add: fresh_fd_def)
    have "quiet interest mem s s'"
      using close_fd_quiet [of "int fd" k] k by (intro quietI) (simp_all add: s' loop_pdata_def)
    then show ?thesis using quiet_linked [OF _ link] by (simp add: r quiet_def)
  next
    case (watcher fd k cs e p)
    let ?s3 = "with_fd s t tm k cs e p fd"
    have k: "interest k = interest (st_kernel s)" "mem k = mem (st_kernel s)" "\<And>ep. interest k ep (int fd) = None"
      using timerfd_interest [OF watcher(1)] mem_call(5) [OF watcher(1)] by (simp_all add: fresh_fd_def)
    have q3: "quiet interest mem s ?s3" using k by (intro quietI) (simp_all add: loop_pdata_def)
    have s3: "pd_wf ?s3" "epoll_inv ?s3" "st_loops ?s3 l = Some lp" using with_fd_ok(1) [OF wf(1)] with_fd_ok(2) [OF wf(2)] lp by simp_all
    note link3 = timer_watcher_link [OF s3 _ quiet_linked [OF q3 link], of "int fd", simplified, OF k(3)]
    show ?thesis
    proof (cases rule: epoll.create_step [OF s3, where fd = "int fd" and ev = PD_EVENT_READ and cb = "Some Cb_timerfd" and ud = t and K = K])
      case (1 s4)
      note l4 = link3 [OF 1(1)]
      have fr: "st_timers s4 = (st_timers s)(t \<mapsto> tm\<lparr>t_platform_data := p\<rparr>)" "st_tdata s4 = (st_tdata s)(p \<mapsto> int fd)"
        using 1(5) by (simp_all add: lists_become_def)
      let ?s5 = "s4\<lparr>st_timers := (st_timers s)(t \<mapsto> tm\<lparr>t_platform_data := p, t_watcher := NULL\<rparr>)\<rparr>"
      obtain en where c: "snd (syscall (sys_close K (int fd)) ?s5) = ?s5\<lparr>st_kernel := close_fd K (int fd) (st_kernel s4), st_errno := en\<rparr>"
        using syscall_snd [of "sys_close K (int fd)" ?s5] by (auto simp: close_fd_def)
      have s': "r \<noteq> PD_OK" "s' = s4\<lparr>st_kernel := close_fd K (int fd) (st_kernel s4), st_errno := en,
          st_tdata := (st_tdata s4)(p := None), st_timers := (st_timers s)(t \<mapsto> tm\<lparr>t_watcher := NULL, t_platform_data := NULL\<rparr>)\<rparr>"
        using run 1(1) fr watcher(2) c unfolding watcher(4) by (simp_all add: heap_ops split: prod.splits)
      have q: "quiet interest mem s4 s'"
        using close_fd_quiet [of "int fd" "st_kernel s4"] by (intro quietI) (simp_all add: loop_pdata_def s'(2))
      show ?thesis using quiet_linked [OF q] quiet_mem [OF q] l4 k(2) s'(1) by simp
    next
      case (2 w s4 y)
      note l4 = link3 [OF 2(1)]
      have fr: "st_timers s4 = (st_timers s)(t \<mapsto> tm\<lparr>t_platform_data := p\<rparr>)" "st_tdata s4 = (st_tdata s)(p \<mapsto> int fd)"
        using 2(8) by (simp_all add: lists_become_def)
      let ?tm = "tm\<lparr>t_platform_data := p, t_watcher := w, t_owns_watcher := True\<rparr>"
      let ?s5 = "s4\<lparr>st_timers := (st_timers s)(t \<mapsto> ?tm)\<rparr>"
      have q5: "quiet interest mem s4 ?s5" by (intro quietI) (simp_all add: loop_pdata_def)
      have y: "st_watchers ?s5 w = Some y" "w_loop y \<noteq> NULL" "pd_wf ?s5" "epoll_inv ?s5" "w_active y"
        using 2(2,3,6) l epoll_inv_cong [OF 2(3), of ?s5] 2(7) by (auto elim!: upd_pdataE)
      obtain q s6 z where s6: "pd_watcher_stop (epoll_watcher_ops K) w ?s5 = Some (q, s6)" "only_watcher upd_status w ?s5 s6"
        by (rule epoll.stop_step [OF y(3,4,1,2)])
      have "r = PD_OK" "s' = s6" using run 2(1,4) fr s6(1) unfolding watcher(4) by (simp_all add: heap_write_def)
      moreover have "st_timers s6 = (st_timers s)(t \<mapsto> ?tm)" "st_tdata s6 = (st_tdata s)(p \<mapsto> int fd)"
        using s6(2) fr by (simp_all add: only_watcher_def)
      moreover have "epoll_linked interest ?s5" "no_wake_entry interest l (int fd) ?s5" "mem (st_kernel ?s5) = mem k"
        using l4 quiet_linked [OF q5] quiet_no_wake [OF q5] by simp_all
      note timer_stop_link [OF y(3,4) this(1,2) y(1,2) s6(1)] this
      ultimately show ?thesis using k(2) y(5) by simp
    qed
  qed
qed

text \<open>The four operations of \<^verbatim>\<open>src/timer.c\<close>.\<close>

lemma quiet_timers: "upd_alloc s s1 \<Longrightarrow> quiet interest mem s s1"
  "quiet interest mem s (s\<lparr>st_timers := h\<rparr>)" "quiet interest mem s (s\<lparr>st_tdata := g\<rparr>)"
  by (rule quietI; auto simp: loop_pdata_def elim!: upd_allocE)+

lemma pd_timer_create_link:
  assumes wf: "pd_wf s" "epoll_inv s" and link: "epoll_linked interest s" and lp: "st_loops s l = Some lp"
    and run: "pd_timer_create (pd_platform_epoll K U) l timeout interval (Some cb) ud s = Some (t, s')"
  shows "epoll_linked interest s' \<and> mem (st_kernel s') = mem (st_kernel s) \<and>
    (t \<noteq> NULL \<longrightarrow> (\<exists>tm fd. st_timers s' t = Some tm \<and> st_tdata s' (t_platform_data tm) = Some fd \<and>
       \<not> epoll_named interest s' (t_watcher tm) \<and> no_wake_entry interest l fd s'))"
proof -
  have l: "l \<noteq> NULL" "l_ops lp \<noteq> None" using pd_wf_loop [OF wf(1) lp] by (simp_all add: loop_ok_def)
  show ?thesis
  proof (cases rule: calloc_timer_cases [of s])
    case (null s1)
    then have "t = NULL" "s' = s1" using run l by (simp_all add: pd_timer_create_def)
    then show ?thesis using quiet_linked [OF quiet_timers(1) [OF null(2)] link] quiet_mem [OF quiet_timers(1) [OF null(2)]] by simp
  next
    case (some a s1)
    let ?tm = "new_timer l timeout interval (Some cb) ud"
    have q1: "quiet interest mem s s1" by (rule quiet_timers(1) [OF some(4)])
    have s1: "pd_wf s1" "epoll_inv s1" "st_timers s1 = st_timers s" "st_loops s1 l = Some lp" "st_timers s1 a = None"
      using pd_wf_alloc [OF wf(1) some(4)] epoll.binv_alloc [OF wf(2) some(4)] upd_alloc_frame [OF some(4)] lp some(3) by simp_all
    have "(st_timers s)(a := None) = st_timers s" using some(3) by (simp add: fun_upd_idem)
    obtain r s2 where s2: "epoll_timer_create K l a (s1\<lparr>st_timers := (st_timers s1)(a \<mapsto> ?tm)\<rparr>) = Some (r, s2)"
      "if r = PD_OK then t = a \<and> s' = s2 else t = NULL \<and> free_timer a s2 = Some s'"
      using run l lp some(1,2) s1(3,4) by (auto simp: pd_timer_create_def heap_write_def new_timer_def zero_timer_def loop_op_def
          bind_Some_iff split: if_splits)
    have l2: "epoll_linked interest s2 \<and> mem (st_kernel s2) = mem (st_kernel s1) \<and>
      (r = PD_OK \<longrightarrow> (\<exists>tm' fd. st_timers s2 a = Some tm' \<and> st_tdata s2 (t_platform_data tm') = Some fd \<and>
         \<not> epoll_named interest s2 (t_watcher tm') \<and> no_wake_entry interest l fd s2))"
      by (rule epoll_timer_create_link [OF s1(1,2) quiet_linked [OF q1 link] s1(5) some(2) s1(4) s2(1)])
    show ?thesis
    proof (cases "r = PD_OK")
      case True
      then show ?thesis using l2 s2(2) quiet_mem [OF q1] by simp
    next
      case False
      then have "t = NULL" "s' = s2\<lparr>st_timers := (st_timers s2)(a := None)\<rparr>"
        using s2(2) some(2) by (auto simp: heap_free_def split: if_splits)
      then show ?thesis using l2 quiet_linked [OF quiet_timers(2)] quiet_mem [OF q1] by simp
    qed
  qed
qed

lemma set_timer_link:
  assumes link: "epoll_linked interest s" and lp: "st_loops s (t_loop tm) = Some lp" "t_loop tm \<noteq> NULL"
    and run: "set_timer K f tm fd its s = Some (r, s')"
    and f: "\<And>k r s'. interest k = interest (st_kernel s) \<Longrightarrow> f (t_watcher tm) (s\<lparr>st_kernel := k\<rparr>) = Some (r, s') \<Longrightarrow>
      epoll_linked interest (s\<lparr>st_kernel := k\<rparr>) \<Longrightarrow> epoll_linked interest s' \<and> mem (st_kernel s') = mem k"
  shows "epoll_linked interest s' \<and> mem (st_kernel s') = mem (st_kernel s)"
proof (cases rule: syscall_cases [of "sys_timerfd_settime K fd its" s])
  case (fail e k)
  have k: "interest k = interest (st_kernel s)" "mem k = mem (st_kernel s)"
    using settime_interest [OF fail(2)] mem_call(6) [OF fail(2)] by simp_all
  have "s' = s\<lparr>st_kernel := k, st_errno := e, st_loops := (st_loops s)(t_loop tm \<mapsto> lp\<lparr>l_system_error := e\<rparr>)\<rparr>"
    using run lp by (simp add: set_timer_def fail(1) pd_get_current_system_error_def set_error_eq)
  then have "quiet interest mem s s'" using lp k by (intro quietI) (simp_all add: loop_pdata_def)
  then show ?thesis using quiet_linked [OF _ link] by (simp add: quiet_mem)
next
  case (ok v k)
  have k: "interest k = interest (st_kernel s)" "mem k = mem (st_kernel s)"
    using settime_interest [OF ok(2)] mem_call(6) [OF ok(2)] by simp_all
  have q: "quiet interest mem s (s\<lparr>st_kernel := k\<rparr>)" using k by (intro quietI) (simp_all add: loop_pdata_def)
  have "f (t_watcher tm) (s\<lparr>st_kernel := k\<rparr>) = Some (r, s')" using run by (simp add: set_timer_def ok(1))
  from f [OF k(1) this quiet_linked [OF q link]] show ?thesis by (simp add: k(2))
qed

lemma timer_control_link:
  assumes wf: "pd_wf s" "epoll_inv s" and link: "epoll_linked interest s" and inv: "epoll_tinv {} s" and t: "st_timers s t = Some tm"
  shows "epoll_timer_stop K t s = Some (r, s') \<Longrightarrow> epoll_linked interest s' \<and> mem (st_kernel s') = mem (st_kernel s)"
    and "epoll_timer_start K t s = Some (r, s') \<Longrightarrow>
      (\<And>x. st_watchers s (t_watcher tm) = Some x \<Longrightarrow> epoll_can_reg interest (w_loop x) (w_fd x) (w_events x) s) \<Longrightarrow>
      epoll_linked interest s' \<and> mem (st_kernel s') = mem (st_kernel s)"
proof -
  obtain fd lp x where f: "t_loop tm \<noteq> NULL" "st_loops s (t_loop tm) = Some lp" "st_tdata s (t_platform_data tm) = Some fd"
    "st_watchers s (t_watcher tm) = Some x" "w_loop x = t_loop tm" by (rule epoll_timer_facts [OF inv t])
  have s1: "pd_wf (s\<lparr>st_kernel := k\<rparr>)" "epoll_inv (s\<lparr>st_kernel := k\<rparr>)" "st_watchers (s\<lparr>st_kernel := k\<rparr>) (t_watcher tm) = Some x" for k
    using wf(1) epoll_inv_cong [OF wf(2), of "s\<lparr>st_kernel := k\<rparr>"] f by simp_all
  have xl: "w_loop x \<noteq> NULL" using f by simp
  show "epoll_linked interest s' \<and> mem (st_kernel s') = mem (st_kernel s)" if "epoll_timer_stop K t s = Some (r, s')"
  proof (rule set_timer_link [OF link f(2,1)])
    show "set_timer K (pd_watcher_stop (epoll_watcher_ops K)) tm fd zero_itimerspec s = Some (r, s')"
      using that timer_stop_eq [OF inv t f(3), of K] by simp
    fix k q s2 assume stop: "pd_watcher_stop (epoll_watcher_ops K) (t_watcher tm) (s\<lparr>st_kernel := k\<rparr>) = Some (q, s2)"
      and l1: "epoll_linked interest (s\<lparr>st_kernel := k\<rparr>)"
    show "epoll_linked interest s2 \<and> mem (st_kernel s2) = mem k"
      using pointer_backend.stop_link [OF link_batch [OF watcher_slots(1), where c = "mem k" and p = 0 and b = "batch s 0"] s1(1,2) _ s1(3) xl stop]
        l1 by (simp add: batch_def)
  qed
  show "epoll_linked interest s' \<and> mem (st_kernel s') = mem (st_kernel s)"
    if "epoll_timer_start K t s = Some (r, s')"
      and can: "\<And>x. st_watchers s (t_watcher tm) = Some x \<Longrightarrow> epoll_can_reg interest (w_loop x) (w_fd x) (w_events x) s"
  proof (rule set_timer_link [OF link f(2,1)])
    show "set_timer K (pd_watcher_start (epoll_watcher_ops K)) tm fd (timer_spec (t_timeout_ms tm) (t_interval_ms tm)) s = Some (r, s')"
      using that(1) start_eq [OF inv t f(3), of K] by simp
    fix k q s2 assume k: "interest k = interest (st_kernel s)"
      and start: "pd_watcher_start (epoll_watcher_ops K) (t_watcher tm) (s\<lparr>st_kernel := k\<rparr>) = Some (q, s2)"
      and l1: "epoll_linked interest (s\<lparr>st_kernel := k\<rparr>)"
    have can1: "epoll_can_reg interest (w_loop x) (w_fd x) (w_events x) (s\<lparr>st_kernel := k\<rparr>)"
      using can [OF f(4)] k by (simp add: epoll_can_reg_def loop_data_def loop_pdata_def)
    show "epoll_linked interest s2 \<and> mem (st_kernel s2) = mem k"
      using pointer_backend.start_link [OF link_batch [OF watcher_slots(1), where c = "mem k" and p = 0 and b = "batch s 0"] s1(1,2) _ s1(3) xl can1 start]
        l1 by (simp add: batch_def)
  qed
qed

lemma timer_flag:
  assumes wf: "pd_wf s" "epoll_inv s" and inv: "epoll_tinv {} s" and t: "st_timers s t = Some tm" and link: "epoll_linked interest s"
  shows "pd_wf (s\<lparr>st_timers := (st_timers s)(t \<mapsto> tm\<lparr>t_active := b\<rparr>)\<rparr>)"
    "epoll_inv (s\<lparr>st_timers := (st_timers s)(t \<mapsto> tm\<lparr>t_active := b\<rparr>)\<rparr>)"
    "epoll_linked interest (s\<lparr>st_timers := (st_timers s)(t \<mapsto> tm\<lparr>t_active := b\<rparr>)\<rparr>)"
    "epoll_tinv {} (s\<lparr>st_timers := (st_timers s)(t \<mapsto> tm\<lparr>t_active := b\<rparr>)\<rparr>)"
  using ept.timer_active [OF wf inv t, of b] quiet_linked [OF quiet_timers(2) link] by simp_all

lemma pd_timer_start_link:
  assumes wf: "pd_wf s" "epoll_inv s" and link: "epoll_linked interest s" and inv: "epoll_tinv {} s" and t: "st_timers s t = Some tm"
    and can: "\<And>x. st_watchers s (t_watcher tm) = Some x \<Longrightarrow> epoll_can_reg interest (w_loop x) (w_fd x) (w_events x) s"
    and run: "pd_timer_start (pd_platform_epoll K U) t s = Some (r, s')"
  shows "epoll_linked interest s' \<and> mem (st_kernel s') = mem (st_kernel s)"
proof (cases "t_active tm")
  case True
  obtain lp where "t \<noteq> NULL" "t_loop tm \<noteq> NULL" by (rule epoll_timer_facts [OF inv t])
  then show ?thesis using run t True link by (simp add: pd_timer_start_def)
next
  case False
  obtain lp where f: "t \<noteq> NULL" "t_loop tm \<noteq> NULL" "st_loops s (t_loop tm) = Some lp" by (rule epoll_timer_facts [OF inv t])
  let ?s0 = "s\<lparr>st_timers := (st_timers s)(t \<mapsto> tm\<lparr>t_active := True\<rparr>)\<rparr>"
  have ops: "l_ops lp \<noteq> None" using pd_wf_loop [OF wf(1) f(3)] by (simp add: loop_ok_def)
  note s0 = timer_flag [OF wf inv t link, of True]
  have t0: "st_timers ?s0 t = Some (tm\<lparr>t_active := True\<rparr>)" by simp
  obtain q s1 where s1: "epoll_timer_start K t ?s0 = Some (q, s1)"
    "s' = s1 \<or> (\<exists>h. s' = s1\<lparr>st_timers := h\<rparr>)"
    using run t f False ops by (auto simp: pd_timer_start_def heap_write_def loop_op_def bind_Some_iff split: if_splits)
  have "epoll_linked interest s1 \<and> mem (st_kernel s1) = mem (st_kernel ?s0)"
    by (rule timer_control_link(2) [OF s0(1-4) t0 s1(1)])
      (use can in \<open>simp add: epoll_can_reg_def loop_data_def loop_pdata_def\<close>)
  then show ?thesis using s1(2) quiet_linked [OF quiet_timers(2)] by auto
qed

lemma pd_timer_stop_link:
  assumes wf: "pd_wf s" "epoll_inv s" and link: "epoll_linked interest s" and inv: "epoll_tinv {} s" and t: "st_timers s t = Some tm"
    and run: "pd_timer_stop (pd_platform_epoll K U) t s = Some (r, s')"
  shows "epoll_linked interest s' \<and> mem (st_kernel s') = mem (st_kernel s)"
proof (cases "t_active tm")
  case False
  obtain lp where "t \<noteq> NULL" "t_loop tm \<noteq> NULL" by (rule epoll_timer_facts [OF inv t])
  then show ?thesis using run t False link by (simp add: pd_timer_stop_def)
next
  case True
  obtain lp where f: "t \<noteq> NULL" "t_loop tm \<noteq> NULL" "st_loops s (t_loop tm) = Some lp" by (rule epoll_timer_facts [OF inv t])
  let ?s0 = "s\<lparr>st_timers := (st_timers s)(t \<mapsto> tm\<lparr>t_active := False\<rparr>)\<rparr>"
  have ops: "l_ops lp \<noteq> None" using pd_wf_loop [OF wf(1) f(3)] by (simp add: loop_ok_def)
  note s0 = timer_flag [OF wf inv t link, of False]
  have t0: "st_timers ?s0 t = Some (tm\<lparr>t_active := False\<rparr>)" by simp
  obtain q s1 where s1: "epoll_timer_stop K t ?s0 = Some (q, s1)"
    "s' = s1 \<or> (\<exists>h. s' = s1\<lparr>st_timers := h\<rparr>)"
    using run t f True ops by (auto simp: pd_timer_stop_def heap_write_def loop_op_def bind_Some_iff split: if_splits)
  have "epoll_linked interest s1 \<and> mem (st_kernel s1) = mem (st_kernel ?s0)"
    by (rule timer_control_link(1) [OF s0(1-4) t0 s1(1)])
  then show ?thesis using s1(2) quiet_linked [OF quiet_timers(2)] by auto
qed

lemma destroy_kept:
  assumes "pd_wf s" "epoll_inv s" "epoll_linked interest s" "st_watchers s w = Some wt" "w_loop wt \<noteq> NULL"
    and "pd_watcher_destroy (pd_platform_epoll K U) w s = Some s'"
  shows "epoll_linked interest s' \<and> mem (st_kernel s') = mem (st_kernel s) \<and> batch s' p = batch s p"
  using pointer_backend.destroy_link [OF link_batch [OF watcher_slots(2) [of U], where c = "mem (st_kernel s)" and p = p and b = "batch s p"]
      assms(1,2) _ assms(4-6)] assms(3) by blast

lemma pd_timer_destroy_link:
  assumes wf: "pd_wf s" "epoll_inv s" and link: "epoll_linked interest s" and inv: "epoll_tinv {} s" and t: "st_timers s t = Some tm"
    and run: "pd_timer_destroy (pd_platform_epoll K U) t s = Some (r, s')"
  shows "epoll_linked interest s' \<and> mem (st_kernel s') = mem (st_kernel s)"
proof -
  obtain fd lp x where f: "t \<noteq> NULL" "t_loop tm \<noteq> NULL" "st_loops s (t_loop tm) = Some lp" "t_owns_watcher tm" "t_watcher tm \<noteq> NULL"
    "t_platform_data tm \<noteq> NULL" by (rule epoll_timer_facts [OF inv t])
  obtain s1 tm1 where s1: "(if t_active tm then do { (_, s) \<leftarrow> pd_timer_stop (pd_platform_epoll K U) t s; Some s } else Some s) = Some s1"
    "pd_wf s1" "epoll_inv s1" "epoll_tinv {} s1" "st_timers s1 = (st_timers s)(t \<mapsto> tm1)" "\<exists>b. tm1 = tm\<lparr>t_active := b\<rparr>"
    by (rule ept.timer_stop_if [OF wf inv t])
  have l1: "epoll_linked interest s1 \<and> mem (st_kernel s1) = mem (st_kernel s)"
    using s1(1) pd_timer_stop_link [OF wf link inv t] link by (auto simp: bind_Some_iff split: if_splits)
  have t1: "st_timers s1 t = Some tm1" using s1(5) by simp
  obtain fd1 lp1 x1 where f1: "st_watchers s1 (t_watcher tm1) = Some x1" "w_loop x1 = t_loop tm1" "t_loop tm1 \<noteq> NULL"
    "st_loops s1 (t_loop tm1) = Some lp1" "st_tdata s1 (t_platform_data tm1) = Some fd1" by (rule epoll_timer_facts [OF s1(4) t1])
  have x1: "w_loop x1 \<noteq> NULL" using f1 by simp
  obtain s2 where s2: "pd_watcher_destroy (pd_platform_epoll K U) (t_watcher tm1) s1 = Some s2"
    "lists_become (\<lambda>k. remove1 (t_watcher tm1)) s1 s2" and wf2: "pd_wf s2"
    by (rule epl.destroy_step [OF s1(2,3) f1(1) x1])
  have l2: "epoll_linked interest s2" "mem (st_kernel s2) = mem (st_kernel s)"
    using destroy_kept [OF s1(2,3) _ f1(1) x1 s2(1)] l1 by simp_all
  have tm1: "t_watcher tm1 = t_watcher tm" "t_owns_watcher tm1" "t_loop tm1 = t_loop tm" "t_platform_data tm1 = t_platform_data tm"
    using s1(6) f(4) by auto
  have fr: "st_timers s2 = st_timers s1" "st_tdata s2 = st_tdata s1" using s2(2) by (simp_all add: lists_become_def)
  obtain lp2 where lp2: "st_loops s2 (t_loop tm) = Some lp2" using lists_become_D [OF s2(2) f1(4)] tm1(3) by metis
  have ops: "l_ops lp2 \<noteq> None" using pd_wf_loop [OF wf2 lp2] by (simp add: loop_ok_def)
  let ?tm2 = "tm1\<lparr>t_watcher := NULL\<rparr>"
  let ?s3 = "s2\<lparr>st_timers := (st_timers s1)(t \<mapsto> ?tm2)\<rparr>"
  let ?c = "if 0 \<le> fd1 then snd (syscall (sys_close K fd1) ?s3) else ?s3"
  have c: "quiet interest mem s2 ?c \<and> st_timers ?c = st_timers ?s3 \<and> st_tdata ?c = st_tdata s2"
  proof -
    obtain en where "snd (syscall (sys_close K fd1) ?s3) = ?s3\<lparr>st_kernel := close_fd K fd1 (st_kernel s2), st_errno := en\<rparr>"
      using syscall_snd [of "sys_close K fd1" ?s3] by (auto simp: close_fd_def)
    then show ?thesis using close_fd_quiet [of fd1 "st_kernel s2"] by (auto intro!: quietI simp: loop_pdata_def)
  qed
  have "s' = ?c\<lparr>st_tdata := (st_tdata s2)(t_platform_data tm := None), st_timers := (st_timers s1)(t := None)\<rparr>"
    using run f t t1 s1(1) s2(1) fr lp2 ops f1(5) tm1 c
    by (simp add: pd_timer_destroy_def heap_ops loop_op_def epoll_timer_destroy_def del: split_paired_Ex split: if_split_asm)
  then have "quiet interest mem s2 s'"
    using c quiet_trans [OF quiet_trans [OF _ quiet_timers(3)] quiet_timers(2)] by blast
  then show ?thesis using quiet_linked [OF _ l2(1)] quiet_mem l2(2) by metis
qed

text \<open>Destroying a loop that has no watchers.\<close>

lemma loop_destroy_empty:
  assumes wf: "pd_wf s" "epoll_inv s" and lp: "st_loops s l = Some lp" and rc: "l_ref_count lp = 1" and ws: "watcher_list lp = []"
  obtains s' where "pd_loop_destroy (pd_platform_epoll K U) l s = Some s'" "st_loops s' = (st_loops s)(l := None)"
    "same_objects s s'" "mem (st_kernel s') = mem (st_kernel s)"
proof -
  have ok: "mutex_ready lp s" "l \<noteq> NULL" "l_ops lp \<noteq> None" "wf_array lp"
    using pd_wf_loop [OF wf(1) lp] by (simp_all add: loop_ok_def)
  then have count: "l_watcher_count lp = 0" using wf_array_count [of lp] ws by simp
  obtain d where d: "l_platform_data lp \<noteq> NULL" "st_ldata s (l_platform_data lp) = Some d" by (rule epoll_inv_loop [OF wf(2) lp])
  let ?lp = "lp\<lparr>l_ref_count := 0\<rparr>" and ?lp2 = "lp\<lparr>l_ref_count := 0, l_watchers := []\<rparr>"
  let ?s1 = "s\<lparr>st_loops := (st_loops s)(l \<mapsto> ?lp)\<rparr>" and ?s2 = "s\<lparr>st_loops := (st_loops s)(l \<mapsto> ?lp2)\<rparr>"
  have lp2: "st_loops ?s2 l = Some ?lp2" "l_platform_data ?lp2 \<noteq> NULL" "st_ldata ?s2 (l_platform_data ?lp2) = Some d" using d by simp_all
  define k where "k = (if 0 \<le> ed_epoll_fd d then close_fd K (ed_epoll_fd d) else id)
      ((if 0 \<le> ed_eventfd_fd d then close_fd K (ed_eventfd_fd d) else id) (st_kernel s))"
  obtain en where destroy: "epoll_loop_destroy K l ?s2 = Some (?s2\<lparr>st_kernel := k, st_errno := en,
      st_ldata := (st_ldata s)(l_platform_data lp := None), st_loops := (st_loops s)(l \<mapsto> ?lp2\<lparr>l_platform_data := NULL\<rparr>)\<rparr>)"
    by (rule loop_destroy_eq [OF lp2(1) ok(2) lp2(2,3), of K]) (simp add: k_def)
  let ?s3 = "?s2\<lparr>st_kernel := k, st_errno := en, st_ldata := (st_ldata s)(l_platform_data lp := None),
    st_loops := (st_loops s)(l \<mapsto> ?lp2\<lparr>l_platform_data := NULL\<rparr>)\<rparr>"
  have "st_loops ?s3 l = Some (?lp2\<lparr>l_platform_data := NULL\<rparr>)" "mutex_ready (?lp2\<lparr>l_platform_data := NULL\<rparr>) ?s3"
    using ok(1) by (simp_all add: mutex_ready_def uses_mutex_def)
  note free = free_loop_eq(1) [OF this ok(2)]
  have dw: "destroy_watchers (pd_platform_epoll K U) l 0 ?s1 = Some ?s1"
    using count by (subst destroy_watchers.simps) simp
  obtain o' where ops: "l_ops lp = Some o'" using ok(3) by blast
  have "pd_loop_destroy (pd_platform_epoll K U) l s = Some (?s3\<lparr>st_loops := (st_loops s)(l := None)\<rparr>)"
    using ok ops lp rc dw destroy free
    by (simp add: pd_loop_destroy_def pd_loop_unref_def lock_eq [OF lp ok(1)] heap_write_def INT_MIN_def loop_op_def)
  then show thesis by (rule that) (simp_all add: same_objects_def k_def close_fd_quiet)
qed

lemma syscall_mem: "(\<And>k. mem (snd (f k)) = mem k) \<Longrightarrow> mem (st_kernel (snd (syscall f s))) = mem (st_kernel s)"
  using syscall_snd [of f s] by auto

lemma read_mem:
  "mem (st_kernel (snd (syscall (sys_read K fd) s))) = mem (st_kernel s)" "mem (st_kernel (drained K fd s)) = mem (st_kernel s)"
  by (simp_all add: drained_def syscall_mem calls_keep_mem)

text \<open>Stopping the loop, from a callback or from outside.\<close>

lemma loop_stop_step:
  assumes s: "run_ok interest s" and lp: "st_loops s l = Some lp"
  obtains s' k en e where "pd_loop_stop (pd_platform_epoll K U) l s = Some (PD_OK, s')"
    "s' = s\<lparr>st_kernel := k, st_errno := en, st_loops := (st_loops s)(l \<mapsto> lp\<lparr>l_stop_requested := True, l_system_error := e\<rparr>)\<rparr>"
    "interest k = interest (st_kernel s)" "mem k = mem (st_kernel s)"
proof -
  obtain d where d: "l \<noteq> NULL" "l_ops lp \<noteq> None" "mutex_ready lp s" "l_platform_data lp \<noteq> NULL"
    "st_ldata s (l_platform_data lp) = Some d" "epoll_data_ok d" by (rule run_ok_loop [OF s lp])
  let ?lp = "lp\<lparr>l_stop_requested := True\<rparr>" and ?s = "s\<lparr>st_loops := (st_loops s)(l \<mapsto> lp\<lparr>l_stop_requested := True\<rparr>)\<rparr>"
  have send: "op_async_send (pd_platform_epoll K U) = Some (epoll_async_send K)" by simp
  note stop = stop_eq [OF lp d(3,1,2) send]
  have lp1: "st_loops ?s l = Some ?lp" "l_platform_data ?lp \<noteq> NULL" "st_ldata ?s (l_platform_data ?lp) = Some d" using d by simp_all
  have same: "?lp\<lparr>l_system_error := l_system_error lp\<rparr> = ?lp" by simp
  from lp1(1) d(1) lp1(2,3) show thesis
  proof (cases rule: async_send_cases [where K = K and data = NULL])
    case closed
    then show thesis using stop by (intro that [of ?s "l_system_error lp" "st_errno s" "st_kernel s"]) (simp_all add: same)
  next
    case (written r k en)
    then show thesis
      using stop write_interest [OF written(2)] mem_call(8) [OF written(2)]
      by (intro that [of "?s\<lparr>st_kernel := k, st_errno := en\<rparr>" "l_system_error lp" en k]) (simp_all add: same)
  next
    case (refused x k)
    then show thesis
      using stop write_interest [OF refused(2)] mem_call(8) [OF refused(2)]
      by (intro that [of "?s\<lparr>st_kernel := k, st_errno := x, st_loops := (st_loops s)(l \<mapsto> ?lp\<lparr>l_system_error := x\<rparr>)\<rparr>" x x k]) simp_all
  qed
qed

end

lemma kept_control:
  assumes s: "run_ok interest s" "loop_pdata s l = Some p" and lp: "st_loops s l = Some lp" "upd_control lp lp'"
    and s': "s' = s\<lparr>st_kernel := k, st_errno := en, st_loops := (st_loops s)(l \<mapsto> lp')\<rparr>" and k: "interest k = interest (st_kernel s)"
  shows "kept interest l p w s s'"
proof -
  let ?s = "s\<lparr>st_kernel := k, st_errno := en\<rparr>"
  have ok: "run_ok interest ?s" by (rule run_ok_kernel [OF _ _ s(1)]) (simp_all add: upd_kernel_def k)
  have l: "st_loops ?s l = Some lp" using lp(1) by simp
  have "s' = ?s\<lparr>st_loops := (st_loops ?s)(l \<mapsto> lp')\<rparr>" by (simp add: s')
  then show ?thesis
    using run_ok_control [OF ok l lp(2)] s(2) by (simp add: kept_def batch_def) (simp add: loop_pdata_def)
qed

text \<open>The only loop of a process; its timers; and a wait of the kernel below a machine.\<close>

lemma single_loop:
  assumes "lists_change f s s'" "st_loops s = [l \<mapsto> lp]"
  obtains lp' where "st_loops s' = [l \<mapsto> lp']" "upd_list lp lp'" "l_ref_count lp' = l_ref_count lp"
    "watcher_list lp' = f l (watcher_list lp)"
proof -
  have k: "st_loops s' k \<noteq> None \<longleftrightarrow> k = l" for k using assms by (simp add: lists_change_iff)
  then obtain lp' where lp': "st_loops s' l = Some lp'" by blast
  have "st_loops s' = [l \<mapsto> lp']"
  proof
    show "st_loops s' x = [l \<mapsto> lp'] x" for x using k [of x] lp' by auto
  qed
  moreover have u: "upd_list lp lp'" "watcher_list lp' = f l (watcher_list lp)"
    using assms lp' by (simp_all add: lists_change_iff)
  moreover have "l_ref_count lp' = l_ref_count lp" using u(1) by (auto elim!: upd_listE)
  ultimately show thesis by (intro that)
qed

lemma tinv_wired:
  assumes "epoll_tinv {} s"
  shows "timers_wired s"
  unfolding timers_wired_def
proof (intro allI impI)
  fix w x assume "st_watchers s w = Some x" "w_callback x = Some Cb_timerfd"
  then have "watcher_keys s w = Some (w_loop x, w_fd x, Some Cb_timerfd, w_user_data x)" by (simp add: watcher_keys_def timer_key_def)
  then obtain tm where tm: "st_timers s (w_user_data x) = Some tm" using epoll_tinv_wired [OF assms] by blast
  then have "t_callback tm \<noteq> Some Cb_timerfd" using epoll_tinv_timer [OF assms tm] by (auto simp: epoll_timer_ok_def)
  then show "w_user_data x = NULL \<or> (\<exists>t. st_timers s (w_user_data x) = Some t \<and> t_callback t \<noteq> Some Cb_timerfd)"
    using tm by blast
qed

lemma machine_breaks: "wait_breaks (on_machine K :: ('k, 'm) machine linux) \<Longrightarrow> wait_breaks K"
  unfolding wait_breaks_def by (elim exE conjE) (simp add: on_kernel_eq, blast)

text \<open>The programs are evaluated with the equation of this recursion, which need not end.\<close>

declare destroy_watchers.simps [code]

end
