(* ===== verification/Pd_Timer_Example.thy ===== *)
theory Pd_Timer_Example
  imports Pd_Epoll_Life
begin

text \<open>
  The program \<^verbatim>\<open>src/examples/timer_example.c\<close> on Linux: a periodic timer whose callback counts to
  five and stops the loop. What it prints is not modelled, but for the reads of memory.
\<close>

section \<open>The program\<close>

text \<open>
  Its memory: the two static variables, and the integers whose address it takes. A null
  pointer for \<open>te_loop\<close> is \<open>NULL\<close>, as everywhere.
\<close>

record timer_memory =
  te_loop :: addr
  te_running :: int
  te_ints :: "addr \<Rightarrow> int option"

definition timer_example_init :: timer_memory where
  "timer_example_init = \<lparr>te_loop = NULL, te_running = 1, te_ints = Map.empty\<rparr>"

type_synonym 'k timer_state = "('k, timer_memory) program_state"

definition timer_callback ::
  "'k timer_state pd_platform_ops \<Rightarrow> addr \<Rightarrow> addr \<Rightarrow> pd_event \<Rightarrow> addr \<Rightarrow> 'k timer_state \<Rightarrow> 'k timer_state option" where
  "timer_callback P loop watcher events user_data s = do {
     let cnt = user_data;
     n \<leftarrow> te_ints (memory s) cnt;
     if n = INT_MAX then None
     else
       let s = set_memory (\<lambda>m. m\<lparr>te_ints := (te_ints m)(cnt \<mapsto> n + 1)\<rparr>) s in do {
         n \<leftarrow> te_ints (memory s) cnt;
         if n \<ge> 5
         then do {
           (_, s) \<leftarrow> pd_loop_stop P loop s;
           Some (set_memory (\<lambda>m. m\<lparr>te_running := 0\<rparr>) s) }
         else Some s } }"

definition signal_handler :: "'k timer_state pd_platform_ops \<Rightarrow> int \<Rightarrow> 'k timer_state \<Rightarrow> 'k timer_state option" where
  "signal_handler P sig s = do {
     s \<leftarrow> (if te_loop (memory s) \<noteq> NULL
          then do { (_, s) \<leftarrow> pd_loop_stop P (te_loop (memory s)) s; Some s }
          else Some s);
     Some (set_memory (\<lambda>m. m\<lparr>te_running := 0\<rparr>) s) }"

text \<open>
  The one callback of the program is its function 0. It does not run the loop again, so the
  table it calls the library with needs no callbacks.
\<close>

definition timer_table :: "'k linux \<Rightarrow> 'k timer_state pd_platform_ops" where
  "timer_table K = pd_platform_epoll (on_machine K) (\<lambda>_ _ _ _ _ _. None)"

definition timer_functions :: "'k linux \<Rightarrow> ('k, timer_memory) machine user_callbacks" where
  "timer_functions K f = (if f = 0 then timer_callback (timer_table K) else (\<lambda>_ _ _ _ _. None))"

text \<open>
  \<^verbatim>\<open>main\<close>, with the address \<open>timer_count\<close> of its local variable \<^verbatim>\<open>timer_count\<close> and the number \<open>n\<close> of
  waits that \<^verbatim>\<open>pd_loop_run\<close> may make. The result is that of the process.
\<close>

definition timer_example ::
  "'k linux \<Rightarrow> addr \<Rightarrow> nat \<Rightarrow> 'k timer_state \<Rightarrow> 'k timer_state run_result option" where
  "timer_example K timer_count n s = do {
     let P = pd_platform_epoll (on_machine K) (timer_functions K);
     (loop, s) \<leftarrow> pd_loop_create PD_PLATFORM_LINUX P None s;
     if loop = NULL then Some (Returned 1 s)
     else
       let s = set_memory (\<lambda>m. m\<lparr>te_loop := loop\<rparr>) s;
           s = set_memory (\<lambda>m. m\<lparr>te_ints := (te_ints m)(timer_count \<mapsto> 0)\<rparr>) s in do {
         (timer, s) \<leftarrow> pd_timer_create P loop 1000 1000 (Some (Cb_user 0)) timer_count s;
         if timer = NULL
         then do { s \<leftarrow> pd_loop_destroy P loop s; Some (Returned 1 s) }
         else do {
           (err, s) \<leftarrow> pd_timer_start P timer s;
           if err \<noteq> PD_OK
           then do {
             (_, s) \<leftarrow> pd_timer_destroy P timer s;
             s \<leftarrow> pd_loop_destroy P loop s;
             Some (Returned 1 s) }
           else do {
             r \<leftarrow> pd_loop_run P n loop s;
             case r of
               Running s \<Rightarrow> Some (Running s)
             | Returned _ s \<Rightarrow> do {
                 (_, s) \<leftarrow> pd_timer_destroy P timer s;
                 s \<leftarrow> pd_loop_destroy P loop s;
                 Some (Returned 0 s) } } } } }"

section \<open>The timer fires at most five times\<close>

text \<open>
  The state while \<^verbatim>\<open>pd_loop_run\<close> runs: one loop with one watcher, which belongs to the one
  timer; \<open>c\<close> expirations have been counted, and the loop was stopped if and only if there
  were five. \<open>es\<close> are the events still to be delivered.
\<close>

definition one_timer :: "addr \<Rightarrow> addr \<Rightarrow> addr \<Rightarrow> pd_timer \<Rightarrow> pd_loop \<Rightarrow> 'k epoll_state \<Rightarrow> bool" where
  "one_timer l t a tm lp s \<longleftrightarrow> epoll_tinv {} s \<and> st_timers s = [t \<mapsto> tm] \<and>
     t_callback tm = Some (Cb_user 0) \<and> t_user_data tm = a \<and> t_loop tm = l \<and> dom (st_watchers s) = {t_watcher tm} \<and>
     st_loops s = [l \<mapsto> lp] \<and> l_ref_count lp = 1 \<and> watcher_list lp = [t_watcher tm]"

definition timer_at ::
  "addr \<Rightarrow> addr \<Rightarrow> addr \<Rightarrow> epoll_event list \<Rightarrow> pd_timer \<Rightarrow> pd_loop \<Rightarrow> int \<Rightarrow> 'k timer_state \<Rightarrow> bool" where
  "timer_at l t a es tm lp c s \<longleftrightarrow> one_timer l t a tm lp s \<and>
     memory s = \<lparr>te_loop = l, te_running = (if c = 5 then 0 else 1), te_ints = [a \<mapsto> c]\<rparr> \<and>
     0 \<le> c \<and> c + int (length (filter (\<lambda>w. w \<noteq> NULL) (map ee_data es))) \<le> 5 \<and> (l_stop_requested lp \<longleftrightarrow> c = 5)"

lemmas timer_at_defs = timer_at_def one_timer_def

definition timer_guard :: "addr \<Rightarrow> addr \<Rightarrow> addr \<Rightarrow> epoll_event list \<Rightarrow> 'k timer_state \<Rightarrow> bool" where
  "timer_guard l t a es s \<longleftrightarrow> (\<exists>tm lp c. timer_at l t a es tm lp c s)"

lemma timer_at_tinv:
  assumes "timer_at l t a es tm lp c s" "st_timers s' = st_timers s" "st_tdata s' = st_tdata s" "st_watchers s' = st_watchers s"
    and "st_loops s' = [l \<mapsto> lp']"
  shows "epoll_tinv {} s'"
proof (rule epoll_tinv_cong)
  show "epoll_tinv {} s" using assms(1) by (simp add: timer_at_defs)
  show "watcher_keys s' = watcher_keys s" by (rule watcher_keys_cong [OF assms(4)])
  show "st_loops s' k \<noteq> None" if "st_loops s k \<noteq> None" for k
    using assms(1,5) that by (auto simp: timer_at_defs split: if_splits)
qed (use assms in simp_all)

lemma timer_at_cong:
  assumes "timer_at l t a es tm lp c s" "st_timers s' = st_timers s" "st_tdata s' = st_tdata s" "st_watchers s' = st_watchers s"
    and "st_loops s' = [l \<mapsto> lp']" "l_ref_count lp' = 1" "watcher_list lp' = watcher_list lp" "l_stop_requested lp' \<longleftrightarrow> c' = 5"
    and "memory s' = \<lparr>te_loop = l, te_running = (if c' = 5 then 0 else 1), te_ints = [a \<mapsto> c']\<rparr>" "0 \<le> c'"
    and "c' + int (length (filter (\<lambda>w. w \<noteq> NULL) (map ee_data es'))) \<le> 5"
  shows "timer_at l t a es' tm lp' c' s'"
  using timer_at_tinv [OF assms(1-5)] assms unfolding timer_at_defs by simp

text \<open>It survives what the kernel does, and changes of the other control fields.\<close>

lemma timer_guard_loop:
  assumes g: "timer_guard l t a es s" and lp: "st_loops s l = Some lp" and lp': "upd_control lp lp'"
    "l_ref_count lp' = l_ref_count lp" "l_stop_requested lp' = l_stop_requested lp"
    and s': "upd_kernel s s1" "memory s1 = memory s"
  shows "timer_guard l t a es (s1\<lparr>st_loops := (st_loops s1)(l \<mapsto> lp')\<rparr>)"
proof -
  let ?s = "s1\<lparr>st_loops := (st_loops s1)(l \<mapsto> lp')\<rparr>"
  obtain tm x c where g: "timer_at l t a es tm x c s" using g by (auto simp: timer_guard_def)
  then have x: "x = lp" using lp by (simp add: timer_at_defs)
  have "timer_at l t a es tm lp' c ?s"
    by (rule timer_at_cong [OF g])
      (use g upd_kernel_frame [OF s'(1)] s'(2) lp'(2,3) upd_control_list [OF lp'(1)] in \<open>simp_all add: x timer_at_defs memory_def\<close>)
  then show ?thesis by (auto simp: timer_guard_def)
qed

lemma timer_guard_kernel:
  assumes "timer_guard l t a es s" "upd_kernel s s'" "memory s' = memory s"
  shows "timer_guard l t a es s'"
proof -
  obtain lp where "st_loops s = [l \<mapsto> lp]" using assms(1) by (auto simp: timer_guard_def timer_at_defs)
  then have "st_loops s l = Some lp" "(st_loops s')(l \<mapsto> lp) = st_loops s'"
    using upd_kernel_frame [OF assms(2)] by (simp_all add: fun_upd_idem)
  with timer_guard_loop [OF assms(1) this(1) _ refl refl assms(2,3)] show ?thesis by simp
qed

locale timer_machine = linux_kernel K interest for K :: "'k linux" and interest

sublocale timer_machine \<subseteq> te: linux_program "on_machine K :: ('k, timer_memory) machine linux" "\<lambda>x. interest (ma_kernel x)" ma_memory
  by (rule on_machine_program)

context timer_machine begin

abbreviation "entries \<equiv> \<lambda>x :: ('k, timer_memory) machine. interest (ma_kernel x)"

text \<open>One call of the callback.\<close>

lemma timer_callback_kept:
  assumes s: "run_ok entries s" "loop_pdata s l = Some p" and g: "timer_guard l t a (e # es) s" and e: "ee_data e \<noteq> NULL"
  shows "\<exists>s'. timer_callback (timer_table K) l w ev a s = Some s' \<and> kept entries l p w s s' \<and> timer_guard l t a es s'"
proof -
  obtain tm lp c where at: "timer_at l t a (e # es) tm lp c s" using g by (auto simp: timer_guard_def)
  then have f: "st_loops s = [l \<mapsto> lp]" "l_ref_count lp = 1" "watcher_list lp = [t_watcher tm]"
    "memory s = \<lparr>te_loop = l, te_running = (if c = 5 then 0 else 1), te_ints = [a \<mapsto> c]\<rparr>" "0 \<le> c"
    "c + int (length (filter (\<lambda>w. w \<noteq> NULL) (map ee_data (e # es)))) \<le> 5" "l_stop_requested lp \<longleftrightarrow> c = 5"
    by (simp_all add: timer_at_defs)
  have c: "c < 5" "c + 1 + int (length (filter (\<lambda>w. w \<noteq> NULL) (map ee_data es))) \<le> 5" "c \<noteq> INT_MAX"
    using f(6) e by (simp_all add: INT_MAX_def)
  let ?s1 = "set_memory (\<lambda>m. m\<lparr>te_ints := (te_ints m)(a \<mapsto> c + 1)\<rparr>) s"
  have k1: "upd_kernel s ?s1" "entries (st_kernel ?s1) = entries (st_kernel s)" by (simp_all add: set_memory_kernel)
  have ok1: "run_ok entries ?s1" "kept entries l p w s ?s1"
    using run_ok_kernel [OF k1(1) _ s(1)] kept_kernel [OF k1(1) _ s] k1(2) by simp_all
  show ?thesis
  proof (cases "c + 1 \<ge> 5")
    case False
    have "timer_callback (timer_table K) l w ev a s = Some ?s1"
      using f(4) c(3) False by (simp add: timer_callback_def Let_def)
    moreover have "timer_at l t a es tm lp (c + 1) ?s1"
      by (rule timer_at_cong [OF at]) (use f c False in simp_all)
    ultimately show ?thesis using ok1 unfolding timer_guard_def by blast
  next
    case True
    then have c4: "c = 4" using c(1) by simp
    have lp1: "st_loops ?s1 l = Some lp" using f(1) by simp
    obtain s2 k en x where s2: "pd_loop_stop (timer_table K) l ?s1 = Some (PD_OK, s2)"
      "s2 = ?s1\<lparr>st_kernel := k, st_errno := en, st_loops := (st_loops ?s1)(l \<mapsto> lp\<lparr>l_stop_requested := True, l_system_error := x\<rparr>)\<rparr>"
      "entries k = entries (st_kernel ?s1)" "ma_memory k = ma_memory (st_kernel ?s1)"
      unfolding timer_table_def by (rule te.loop_stop_step [OF ok1(1) lp1])
    let ?lp = "lp\<lparr>l_stop_requested := True, l_system_error := x\<rparr>"
    let ?s3 = "set_memory (\<lambda>m. m\<lparr>te_running := 0\<rparr>) s2"
    have up: "upd_control lp ?lp" by (simp add: upd_control_def)
    have "loop_pdata ?s1 l = Some p" using ok1(2) by (simp only: kept_def)
    from kept_control [OF ok1(1) this lp1 up s2(2,3)] have k2: "kept entries l p w ?s1 s2" .
    have k3: "kept entries l p w s2 ?s3"
      by (rule kept_kernel [OF set_memory_kernel]) (use k2 in \<open>simp_all add: kept_def\<close>)
    have "timer_callback (timer_table K) l w ev a s = Some ?s3"
      using f(4) c(3) True s2(1) by (simp add: timer_callback_def Let_def)
    moreover have "kept entries l p w s ?s3" using kept_trans [OF kept_trans [OF ok1(2) k2] k3] .
    moreover have "timer_at l t a es tm ?lp 5 ?s3"
      by (rule timer_at_cong [OF at])
        (use f c c4 upd_control_list [OF up] s2(4) in \<open>simp_all add: s2(2) memory_def set_memory_def\<close>)
    ultimately show ?thesis unfolding timer_guard_def by blast
  qed
qed

lemma timer_guard_wake: "ee_data e = NULL \<Longrightarrow> timer_guard l t a (e # es) s = timer_guard l t a es s"
  by (simp add: timer_guard_def timer_at_defs)

lemma timer_deliver:
  assumes s: "run_ok entries s" "loop_pdata s l = Some p" and live: "live_batch s (e # es)" and g: "timer_guard l t a (e # es) s"
  shows "\<exists>s'. deliver (on_machine K) (timer_functions K) l evfd e s = Some s' \<and> kept entries l p (ee_data e) s s' \<and>
    timer_guard l t a es s'"
proof (cases "ee_data e = NULL")
  case True
  let ?s = "snd (syscall (sys_read (on_machine K) evfd) s)"
  have "timer_guard l t a es ?s"
    using timer_guard_kernel [OF g syscall_kernel, of "sys_read (on_machine K) evfd"] True te.read_mem(1) [of evfd s]
    by (simp add: timer_guard_wake memory_def)
  then show ?thesis
    using drained_kept(2) [OF te.epoll_kernel_axioms s] True by (simp add: deliver_def)
next
  case False
  obtain tm lp c where at: "timer_at l t a (e # es) tm lp c s" using g by (auto simp: timer_guard_def)
  then have f: "epoll_tinv {} s" "st_timers s t = Some tm" "t_callback tm = Some (Cb_user 0)" "t_user_data tm = a"
    "dom (st_watchers s) = {t_watcher tm}" by (simp_all add: timer_at_defs)
  have "ee_data e \<in> dom (st_watchers s)" using live False by (auto simp: live_batch_def)
  then have w: "ee_data e = t_watcher tm" using f(5) by simp
  obtain fd lp' x where x: "t \<noteq> NULL" "st_watchers s (t_watcher tm) = Some x" "w_callback x = Some Cb_timerfd" "w_user_data x = t"
    by (rule epoll_timer_facts [OF f(1,2)])
  let ?s = "drained (on_machine K) (w_fd x) s"
  have k: "kept entries l p (ee_data e) s ?s" by (rule drained_kept(1) [OF te.epoll_kernel_axioms s])
  have "memory ?s = memory s"
    using te.read_mem(2) [of "w_fd x" s] by (simp add: memory_def)
  then have g1: "timer_guard l t a (e # es) ?s" using timer_guard_kernel [OF g drained_kernel] by simp
  have s1: "run_ok entries ?s" "loop_pdata ?s l = Some p" using k by (simp_all add: kept_def)
  obtain s' where s': "timer_callback (timer_table K) l (ee_data e) PD_EVENT_READ a ?s = Some s'"
    "kept entries l p (ee_data e) ?s s'" "timer_guard l t a es s'"
    using timer_callback_kept [OF s1 g1 False] by blast
  have "st_timers ?s t = Some tm" using upd_kernel_frame(3) [OF drained_kernel, of "on_machine K" "w_fd x" s] f(2) by simp
  then have "deliver (on_machine K) (timer_functions K) l evfd e s = Some s'"
    using False x f s'(1) by (simp add: deliver_def w run_callback_def timerfd_callback_eq fire_def timer_functions_def)
  then show ?thesis using kept_trans [OF k s'(2)] s'(3) by blast
qed

lemma distinct_single: "distinct xs \<Longrightarrow> set xs \<subseteq> {w} \<Longrightarrow> length xs \<le> 1"
  using card_mono [of "{w}" "set xs"] by (simp add: distinct_card)

lemma timer_wait:
  assumes lp: "st_loops s l = Some lp" "\<not> l_stop_requested lp" and g: "timer_guard l t a [] s"
    and live: "live_batch s evs" and k: "ma_memory k = ma_memory (st_kernel s)"
  shows "timer_guard l t a evs (stored p evs d k s)"
proof -
  obtain tm x c where at: "timer_at l t a [] tm x c s" using g by (auto simp: timer_guard_def)
  then have f: "st_loops s = [l \<mapsto> x]" "dom (st_watchers s) = {t_watcher tm}" "c \<le> 5" "l_stop_requested x \<longleftrightarrow> c = 5"
    "0 \<le> c" "memory s = \<lparr>te_loop = l, te_running = (if c = 5 then 0 else 1), te_ints = [a \<mapsto> c]\<rparr>" "l_ref_count x = 1"
    by (simp_all add: timer_at_defs)
  have c: "c < 5" "\<not> l_stop_requested x" using f(1,3,4) lp by (auto simp: less_le)
  have "w = t_watcher tm" if w: "w \<in> set (filter (\<lambda>w. w \<noteq> NULL) (map ee_data evs))" for w
  proof -
    obtain e where "e \<in> set evs" "ee_data e = w" "w \<noteq> NULL" using w by auto
    then have "w \<in> dom (st_watchers s)" using live by (auto simp: live_batch_def)
    then show ?thesis using f(2) by simp
  qed
  then have n: "length (filter (\<lambda>w. w \<noteq> NULL) (map ee_data evs)) \<le> 1"
    using live by (intro distinct_single [of _ "t_watcher tm"]) (auto simp: live_batch_def)
  have "timer_at l t a evs tm x c (stored p evs d k s)"
    by (rule timer_at_cong [OF at]) (use f c k n in \<open>simp_all add: stored_def memory_def\<close>)
  then show ?thesis by (auto simp: timer_guard_def)
qed

end

sublocale timer_machine \<subseteq> tp: epoll_program "on_machine K :: ('k, timer_memory) machine linux" "\<lambda>x. interest (ma_kernel x)"
    "timer_functions K" l "timer_guard l t a" for l t a
proof (intro epoll_program.intro epoll_program_axioms.intro te.epoll_kernel_axioms)
  fix s s' :: "'k timer_state" and p e es evfd lp ep n tt evs k d err lp' b x
  show "\<exists>s'. deliver (on_machine K) (timer_functions K) l evfd e s = Some s' \<and>
      kept (\<lambda>x. interest (ma_kernel x)) l p (ee_data e) s s' \<and> timer_guard l t a es s'"
    if "run_ok (\<lambda>x. interest (ma_kernel x)) s" "loop_pdata s l = Some p" "live_batch s (e # es)" "timer_guard l t a (e # es) s"
    using that by (rule timer_deliver)
  show "timer_guard l t a evs (stored (l_platform_data lp) evs d k s)"
    if "st_loops s l = Some lp" "\<not> l_stop_requested lp" "timer_guard l t a [] s"
      "sys_epoll_wait (on_machine K) ep n tt (st_kernel s) = (Inr evs, k)" "live_batch s evs"
    using timer_wait [OF that(1-3,5)] te.mem_call(3) [OF that(4)] by simp
  show "timer_guard l t a [] (s\<lparr>st_kernel := k, st_errno := err\<rparr>)"
    if "timer_guard l t a [] s" "sys_epoll_wait (on_machine K) ep n tt (st_kernel s) = (Inl err, k)"
    by (rule timer_guard_kernel [OF that(1)]) (use te.mem_call(3) [OF that(2)] in \<open>simp_all add: upd_kernel_def memory_def\<close>)
  show "timer_guard l t a [] (s\<lparr>st_loops := (st_loops s)(l \<mapsto> lp')\<rparr>)"
    if "timer_guard l t a [] s" "st_loops s l = Some lp" "lp' = lp\<lparr>l_running := b\<rparr> \<or> lp' = lp\<lparr>l_system_error := err\<rparr>"
    by (rule timer_guard_loop [OF that(1,2)]) (use that(3) in \<open>auto simp: upd_control_def\<close>)
qed


section \<open>The whole process\<close>

text \<open>What the process did when it exits.\<close>

definition exit_ok :: "'k linux \<Rightarrow> addr \<Rightarrow> int \<Rightarrow> 'k timer_state \<Rightarrow> bool" where
  "exit_ok K a code s \<longleftrightarrow> fresh_process s \<and> (code = 0 \<or> code = 1) \<and>
     (code = 0 \<longrightarrow> te_loop (memory s) \<noteq> NULL \<and>
        (te_ints (memory s) a = Some 5 \<and> te_running (memory s) = 0 \<or> wait_breaks K))"

context timer_machine begin

abbreviation "table \<equiv> pd_platform_epoll (on_machine K) (timer_functions K)"

text \<open>The clean-up: nothing of the library is left.\<close>

lemma cleanup:
  assumes run: "run_ok entries s" and one: "one_timer l t a tm lp s"
  obtains r s1 s2 where "pd_timer_destroy table t s = Some (r, s1)" "pd_loop_destroy table l s1 = Some s2"
    "fresh_process s2" "memory s2 = memory s"
proof -
  have ok: "pd_wf s" "epoll_inv s" "epoll_linked entries s" using run by (simp_all add: run_ok_def)
  have o: "epoll_tinv {} s" "st_timers s = [t \<mapsto> tm]" "dom (st_watchers s) = {t_watcher tm}" "st_loops s = [l \<mapsto> lp]"
    "l_ref_count lp = 1" "watcher_list lp = [t_watcher tm]" using one by (simp_all add: one_timer_def)
  then have t: "st_timers s t = Some tm" by simp
  obtain s1 where s1: "pd_timer_destroy table t s = Some (PD_OK, s1)" "pd_wf s1" "epoll_inv s1"
    "st_timers s1 = (st_timers s)(t := None)" "dom (st_watchers s1) = dom (st_watchers s) - {t_watcher tm}"
    "lists_change (\<lambda>_. remove1 (t_watcher tm)) s s1"
    by (rule ept.timer_destroy_step [OF ok(1,2) o(1) t])
  have m1: "memory s1 = memory s" using te.pd_timer_destroy_link [OF ok o(1) t s1(1)] by (simp add: memory_def)
  obtain lp1 where lp1: "st_loops s1 = [l \<mapsto> lp1]" "l_ref_count lp1 = 1" "watcher_list lp1 = []"
    by (rule single_loop [OF s1(6) o(4)]) (use o(5,6) in simp)
  then have l1: "st_loops s1 l = Some lp1" by simp
  obtain s2 where s2: "pd_loop_destroy table l s1 = Some s2" "st_loops s2 = (st_loops s1)(l := None)" "same_objects s1 s2"
    "ma_memory (st_kernel s2) = ma_memory (st_kernel s1)"
    by (rule te.loop_destroy_empty [OF s1(2,3) l1 lp1(2,3)])
  have "fresh_process s2"
    using lp1(1) s1(4,5) s2(2,3) o(2,3) by (simp add: fresh_process_def same_objects_def)
  then show thesis using that [OF s1(1) s2(1)] s2(4) m1 by (simp add: memory_def)
qed

text \<open>The run, from the state in which the timer was started.\<close>

lemma started_run:
  assumes run: "run_ok entries s" and one: "one_timer l t a tm lp s"
    and m: "memory s = \<lparr>te_loop = l, te_running = 1, te_ints = [a \<mapsto> 0]\<rparr>"
  obtains (running) s' tm' lp' c where "pd_loop_run table n l s = Some (Running s')" "run_ok entries s'" "timer_at l t a [] tm' lp' c s'"
  | (returned) r s' tm' lp' c where "pd_loop_run table n l s = Some (Returned r s')" "run_ok entries s'" "timer_at l t a [] tm' lp' c s'"
      "c = 5 \<or> wait_breaks K"
proof -
  have o: "epoll_tinv {} s" "st_loops s = [l \<mapsto> lp]" using one by (simp_all add: one_timer_def)
  let ?lp = "lp\<lparr>l_running := True, l_stop_requested := False\<rparr>"
  let ?s = "s\<lparr>st_loops := (st_loops s)(l \<mapsto> ?lp)\<rparr>"
  have "epoll_tinv {} ?s" by (rule epoll_tinv_cong [OF o(1)]) (use watcher_keys_cong [of ?s s] o in \<open>simp_all split: if_splits\<close>)
  moreover have "watcher_list ?lp = watcher_list lp" by (rule upd_control_list) simp
  ultimately have "timer_at l t a [] tm ?lp 0 ?s"
    using one m by (simp add: timer_at_defs memory_def)
  then have g: "timer_guard l t a [] ?s" by (auto simp: timer_guard_def)
  have lp: "st_loops s l = Some lp" using o(2) by simp
  obtain r where r: "pd_loop_run table n l s = Some r"
    "case r of Running s' \<Rightarrow> run_ok entries s' \<and> timer_guard l t a [] s' \<and> loop_pdata s' l \<noteq> None
     | Returned c s' \<Rightarrow> run_ok entries s' \<and> timer_guard l t a [] s' \<and> loop_pdata s' l \<noteq> None \<and>
         (if c = 0 then idle l s' else c < 0 \<and> wait_breaks (on_machine K :: ('k, timer_memory) machine linux))"
    using tp.run_kept [OF run lp g] by blast
  show thesis
  proof (cases r)
    case (Running s')
    then show thesis using r running by (auto simp: timer_guard_def)
  next
    case (Returned code s')
    then obtain tm' lp' c where s': "run_ok entries s'" "timer_at l t a [] tm' lp' c s'" using r(2) by (auto simp: timer_guard_def)
    then have f: "st_loops s' = [l \<mapsto> lp']" "watcher_list lp' = [t_watcher tm']" "l_stop_requested lp' \<longleftrightarrow> c = 5"
      by (simp_all add: timer_at_defs)
    have "pd_wf s'" using s'(1) by (simp add: run_ok_def)
    then have "wf_array lp'" using pd_wf_loop [of s' l lp'] f(1) by (simp add: loop_ok_def)
    then have "l_watcher_count lp' \<noteq> 0" using wf_array_count [of lp'] f(2) by auto
    then have "idle l s' \<Longrightarrow> c = 5" using f(1,3) by (simp add: idle_def)
    moreover have "code = 0 \<longrightarrow> idle l s'" "code \<noteq> 0 \<longrightarrow> wait_breaks K" using r(2) Returned machine_breaks by auto
    ultimately have "c = 5 \<or> wait_breaks K" by blast
    then show thesis using returned [OF _ s'] r(1) Returned by simp
  qed
qed

text \<open>The timer is started.\<close>

lemma new_timer_start:
  assumes run: "run_ok entries s" and one: "one_timer l t a tm lp s" and idle: "\<not> t_active tm"
    and free: "\<not> epoll_named entries s (t_watcher tm)" "st_tdata s (t_platform_data tm) = Some fd" "no_wake_entry entries l fd s"
  obtains r s' tm' lp' where "pd_timer_start table t s = Some (r, s')" "run_ok entries s'" "one_timer l t a tm' lp' s'"
    "memory s' = memory s"
proof -
  have ok: "pd_wf s" "epoll_inv s" "epoll_linked entries s" using run by (simp_all add: run_ok_def)
  have o: "epoll_tinv {} s" "st_timers s = [t \<mapsto> tm]" "dom (st_watchers s) = {t_watcher tm}" "st_loops s = [l \<mapsto> lp]"
    "l_ref_count lp = 1" "watcher_list lp = [t_watcher tm]" "t_callback tm = Some (Cb_user 0)" "t_user_data tm = a" "t_loop tm = l"
    using one by (simp_all add: one_timer_def)
  have t: "st_timers s t = Some tm" using o(2) by simp
  obtain fd' lq x where x: "st_tdata s (t_platform_data tm) = Some fd'" "st_watchers s (t_watcher tm) = Some x" "w_loop x = t_loop tm" "w_fd x = fd'"
    by (rule epoll_timer_facts [OF o(1) t])
  have can: "epoll_can_reg entries (w_loop y) (w_fd y) (w_events y) s" if "st_watchers s (t_watcher tm) = Some y" for y
  proof -
    have y: "w_loop y = l" "w_fd y = fd" using that x o(9) free(2) by simp_all
    show ?thesis unfolding epoll_can_reg_def y
    proof (intro allI impI)
      fix d assume d: "loop_data s l = Some d"
      show "entries (st_kernel s) (ed_epoll_fd d) fd = None"
      proof (rule ccontr)
        assume "entries (st_kernel s) (ed_epoll_fd d) fd \<noteq> None"
        then obtain en where en: "entries (st_kernel s) (ed_epoll_fd d) fd = Some en" by blast
        then have nz: "ee_data en \<noteq> NULL" using free(3) d by (simp add: no_wake_entry_def)
        then have "watch_fd s (ee_data en) \<noteq> None"
          using epoll_linked_entry [OF ok(3) d en] by (simp add: entry_ok_def)
        then have "ee_data en \<in> dom (st_watchers s)" by (auto simp: watch_fd_def)
        then have "ee_data en = t_watcher tm" using o(3) by simp
        moreover have "epoll_named entries s (ee_data en)" using nz d en unfolding epoll_named_def by blast
        ultimately show False using free(1) by simp
      qed
    qed
  qed
  obtain r s' s2 where s': "pd_timer_start table t s = Some (r, s')" "pd_wf s'" "epoll_inv s'" "epoll_tinv {} s'"
    "s' = s2\<lparr>st_timers := (st_timers s)(t \<mapsto> tm\<lparr>t_active := (r = PD_OK)\<rparr>)\<rparr>"
    "dom (st_watchers s') = dom (st_watchers s)" "lists_change (\<lambda>_ ws. ws) s s'"
    by (rule ept.timer_start_step [OF ok(1,2) o(1) t idle])
  have link: "epoll_linked entries s'" "memory s' = memory s"
    using te.pd_timer_start_link [OF ok o(1) t can s'(1)] by (simp_all add: memory_def)
  obtain lp' where lp': "st_loops s' = [l \<mapsto> lp']" "l_ref_count lp' = 1" "watcher_list lp' = watcher_list lp"
    by (rule single_loop [OF s'(7) o(4)]) (use o(5) in simp)
  have "st_timers s' = [t \<mapsto> tm\<lparr>t_active := (r = PD_OK)\<rparr>]" using s'(5) o(2) by simp
  then have "one_timer l t a (tm\<lparr>t_active := (r = PD_OK)\<rparr>) lp' s'"
    using s'(4,6) lp' o by (simp add: one_timer_def)
  moreover have "run_ok entries s'" using s'(2-4) link(1) tinv_wired by (simp add: run_ok_def)
  ultimately show thesis using that s'(1) link(2) by blast
qed

text \<open>A signal that comes while the loop is there.\<close>

lemma signal_stops:
  assumes s: "run_ok entries s" and lp: "te_loop (memory s) = l" "l \<noteq> NULL" "st_loops s l = Some lp"
  obtains s' lp' where "signal_handler (timer_table K) sig s = Some s'" "run_ok entries s'" "st_loops s' l = Some lp'"
    "l_stop_requested lp'" "memory s' = (memory s)\<lparr>te_running := 0\<rparr>"
proof -
  obtain s1 k en e where s1: "pd_loop_stop (timer_table K) l s = Some (PD_OK, s1)"
    "s1 = s\<lparr>st_kernel := k, st_errno := en, st_loops := (st_loops s)(l \<mapsto> lp\<lparr>l_stop_requested := True, l_system_error := e\<rparr>)\<rparr>"
    "entries k = entries (st_kernel s)" "ma_memory k = ma_memory (st_kernel s)"
    unfolding timer_table_def by (rule te.loop_stop_step [OF s lp(3)])
  let ?lp = "lp\<lparr>l_stop_requested := True, l_system_error := e\<rparr>" and ?s = "set_memory (\<lambda>m. m\<lparr>te_running := 0\<rparr>) s1"
  have p: "loop_pdata s l = Some (l_platform_data lp)" using lp(3) by (simp add: loop_pdata_def)
  have "upd_control lp ?lp" by (simp add: upd_control_def)
  from kept_control [OF s p lp(3) this s1(2,3)] have "run_ok entries s1" by (simp only: kept_def)
  then have ok: "run_ok entries ?s" by (rule run_ok_kernel [OF set_memory_kernel, rotated]) simp
  have m: "memory s1 = memory s" using s1(4) by (simp add: s1(2) memory_def)
  show thesis
  proof (rule that [of ?s ?lp, OF _ ok])
    show "signal_handler (timer_table K) sig s = Some ?s" using s1(1) lp(1,2) by (simp add: signal_handler_def)
  qed (simp_all add: m, simp add: s1(2))
qed

text \<open>The timer is created, or the loop is destroyed again.\<close>

lemma new_timer:
  assumes run: "run_ok entries s" and inv: "epoll_tinv {} s" and lp: "st_loops s = [l \<mapsto> lp]" "l_ref_count lp = 1" "watcher_list lp = []"
    and none: "st_watchers s = Map.empty" "st_timers s = Map.empty"
  obtains (null) s1 s2 where "pd_timer_create table l 1000 1000 (Some (Cb_user 0)) a s = Some (NULL, s1)"
      "pd_loop_destroy table l s1 = Some s2" "fresh_process s2"
  | (some) t s1 tm lp' fd where "pd_timer_create table l 1000 1000 (Some (Cb_user 0)) a s = Some (t, s1)" "t \<noteq> NULL"
      "run_ok entries s1" "one_timer l t a tm lp' s1" "memory s1 = memory s" "\<not> t_active tm"
      "\<not> epoll_named entries s1 (t_watcher tm)" "st_tdata s1 (t_platform_data tm) = Some fd" "no_wake_entry entries l fd s1"
proof -
  have ok: "pd_wf s" "epoll_inv s" "epoll_linked entries s" using run by (simp_all add: run_ok_def)
  have l: "st_loops s l = Some lp" using lp(1) by simp
  show thesis
  proof (cases rule: ept.timer_create_step [OF ok(1,2) inv l, where timeout = 1000 and interval = 1000 and f = 0 and ud = a
        and K = "on_machine K" and U = "timer_functions K"])
    case (1 s1)
    obtain lp' where lp': "st_loops s1 = [l \<mapsto> lp']" "l_ref_count lp' = 1" "watcher_list lp' = []"
      by (rule single_loop [OF 1(8) lp(1)]) (use lp(2,3) in simp)
    then have l1: "st_loops s1 l = Some lp'" by simp
    obtain s2 where s2: "pd_loop_destroy table l s1 = Some s2" "st_loops s2 = (st_loops s1)(l := None)" "same_objects s1 s2"
      by (rule te.loop_destroy_empty [OF 1(2,3) l1 lp'(2,3)])
    have "fresh_process s2" using lp'(1) s2(2,3) 1(5,6) none by (simp add: fresh_process_def same_objects_def)
    then show thesis by (rule null [OF 1(1) s2(1)])
  next
    case (2 t s1 tm y)
    obtain tm' fd where link: "epoll_linked entries s1" "memory s1 = memory s" "st_timers s1 t = Some tm'"
      "st_tdata s1 (t_platform_data tm') = Some fd" "\<not> epoll_named entries s1 (t_watcher tm')" "no_wake_entry entries l fd s1"
      using te.pd_timer_create_link [OF ok l 2(1)] 2(5) by (auto simp: memory_def)
    have tm: "tm' = tm" "st_timers s1 = [t \<mapsto> tm]" using link(3) 2(7) none(2) by simp_all
    obtain lp' where lp': "st_loops s1 = [l \<mapsto> lp']" "l_ref_count lp' = 1" "watcher_list lp' = [t_watcher tm]"
      by (rule single_loop [OF 2(11) lp(1)]) (use lp(2,3) in simp)
    have "one_timer l t a tm lp' s1"
      using 2(4,10) none(1) tm(2) lp' upd_backendD [OF 2(8)] unfolding one_timer_def by (simp add: new_timer_def zero_timer_def)
    moreover have "\<not> t_active tm" using upd_backendD [OF 2(8)] by (simp add: new_timer_def zero_timer_def)
    moreover have "run_ok entries s1" using 2(2,3,4) link(1) tinv_wired by (simp add: run_ok_def)
    ultimately show thesis using some [OF 2(1,5)] link(2,4-6) tm(1) by blast
  qed
qed

text \<open>The program from the start of the timer on.\<close>

lemma timer_started:
  assumes run: "run_ok entries s" and one: "one_timer l t a tm lp s" and l: "l \<noteq> NULL" and idle: "\<not> t_active tm"
    and free: "\<not> epoll_named entries s (t_watcher tm)" "st_tdata s (t_platform_data tm) = Some fd" "no_wake_entry entries l fd s"
    and m: "memory s = \<lparr>te_loop = l, te_running = 1, te_ints = [a \<mapsto> 0]\<rparr>"
  shows "\<exists>r. do {
      (err, s) \<leftarrow> pd_timer_start table t s;
      if err \<noteq> PD_OK
      then do {
        (_, s) \<leftarrow> pd_timer_destroy table t s;
        s \<leftarrow> pd_loop_destroy table l s;
        Some (Returned 1 s) }
      else do {
        r \<leftarrow> pd_loop_run table n l s;
        case r of
          Running s \<Rightarrow> Some (Running s)
        | Returned _ s \<Rightarrow> do {
            (_, s) \<leftarrow> pd_timer_destroy table t s;
            s \<leftarrow> pd_loop_destroy table l s;
            Some (Returned 0 s) } } } = Some r \<and>
    (case r of Running s' \<Rightarrow> run_ok entries s' \<and> (\<exists>l t. l \<noteq> NULL \<and> timer_guard l t a [] s')
     | Returned code s' \<Rightarrow> exit_ok K a code s')"
proof -
  obtain r s1 tm1 lp1 where s1: "pd_timer_start table t s = Some (r, s1)" "run_ok entries s1" "one_timer l t a tm1 lp1 s1"
    "memory s1 = memory s" by (rule new_timer_start [OF run one idle free])
  show ?thesis
  proof (cases "r = PD_OK")
    case False
    obtain q s2 s3 where "pd_timer_destroy table t s1 = Some (q, s2)" "pd_loop_destroy table l s2 = Some s3" "fresh_process s3"
      by (rule cleanup [OF s1(2,3)])
    then show ?thesis using False s1(1) by (simp add: exit_ok_def)
  next
    case True
    have m1: "memory s1 = \<lparr>te_loop = l, te_running = 1, te_ints = [a \<mapsto> 0]\<rparr>" using s1(4) m by simp
    show ?thesis
    proof (cases rule: started_run [OF s1(2,3) m1, of n])
      case (1 s2 tm2 lp2 c)
      then have "timer_guard l t a [] s2" by (auto simp: timer_guard_def)
      then show ?thesis using True 1(1,2) l s1(1) by (simp, blast)
    next
      case (2 q s2 tm2 lp2 c)
      have one2: "one_timer l t a tm2 lp2 s2" using 2(3) by (simp add: timer_at_def)
      obtain q' s3 s4 where "pd_timer_destroy table t s2 = Some (q', s3)" "pd_loop_destroy table l s3 = Some s4" "fresh_process s4"
        "memory s4 = memory s2" by (rule cleanup [OF 2(2) one2])
      then show ?thesis using True 2(1,3,4) l s1(1) by (simp add: exit_ok_def timer_at_def, auto)
    qed
  qed
qed

lemma timer_example_ok:
  assumes s: "fresh_process s" "memory s = timer_example_init"
  shows "\<exists>r. timer_example K a n s = Some r \<and>
    (case r of Running s' \<Rightarrow> run_ok entries s' \<and> (\<exists>l t. l \<noteq> NULL \<and> timer_guard l t a [] s')
     | Returned code s' \<Rightarrow> exit_ok K a code s')"
proof (cases rule: te.fresh_loop_create [OF s(1), where target = PD_PLATFORM_LINUX and config = None and U = "timer_functions K"])
  case (1 s1)
  then show ?thesis by (simp add: timer_example_def exit_ok_def)
next
  case (2 l s1 lp)
  let ?s2 = "set_memory (\<lambda>m. m\<lparr>te_ints := (te_ints m)(a \<mapsto> 0)\<rparr>) (set_memory (\<lambda>m. m\<lparr>te_loop := l\<rparr>) s1)"
  have m2: "memory ?s2 = \<lparr>te_loop = l, te_running = 1, te_ints = [a \<mapsto> 0]\<rparr>"
    using 2(10) s(2) by (simp add: memory_def [symmetric] timer_example_init_def)
  have up: "upd_kernel s1 ?s2" by (rule upd_kernel_trans [OF set_memory_kernel set_memory_kernel])
  have run2: "run_ok entries ?s2" by (rule run_ok_kernel [OF up _ 2(3)]) simp
  have inv2: "epoll_tinv {} ?s2" by (rule epoll_tinv_cong [OF 2(4)]) (use watcher_keys_cong [of ?s2 s1] in simp_all)
  have o2: "st_loops ?s2 = [l \<mapsto> lp]" "st_watchers ?s2 = Map.empty" "st_timers ?s2 = Map.empty" using 2(5,8,9) by simp_all
  note start = timer_example_def Let_def 2(1,2)
  show ?thesis
  proof (cases rule: new_timer [OF run2 inv2 o2(1) 2(6,7) o2(2,3), of a])
    case null: (1 s3 s4)
    then show ?thesis by (simp add: start exit_ok_def)
  next
    case created: (2 t s3 tm lp3 fd)
    have m3: "memory s3 = \<lparr>te_loop = l, te_running = 1, te_ints = [a \<mapsto> 0]\<rparr>" using created(5) m2 by simp
    show ?thesis
      using timer_started [OF created(3,4) 2(2) created(6-9) m3, of n] created(1,2) by (simp add: start)
  qed
qed

end

interpretation ref_timer: timer_machine ref_linux rk_entry
  by (intro timer_machine.intro ref_kernel.linux_kernel_axioms)

section \<open>Properties\<close>


text \<open>The process on the kernel \<open>ref_linux\<close>, where every allocation is granted.\<close>

definition ex_process :: "ref_kernel timer_state" where
  "ex_process = \<lparr>st_loops = Map.empty, st_watchers = Map.empty, st_timers = Map.empty, st_ldata = Map.empty,
     st_wdata = Map.empty, st_tdata = Map.empty, st_kernel = \<lparr>ma_kernel = rk_init, ma_memory = timer_example_init\<rparr>,
     st_errno = 0, st_choices = map Gives [1, 2, 3, 4, 5, 6, 7, 8, 9, 10, 11, 12, 13, 14, 15, 16],
     st_default_loop = NULL, st_thread_safe = True\<rparr>"

lemma ex_process_fresh [simp]: "fresh_process ex_process" "memory ex_process = timer_example_init"
  by (simp_all add: fresh_process_def memory_def ex_process_def)

text \<open>The witness: it exits with code 0 after five expirations.\<close>

lemma ex_timer_run: "\<exists>s. timer_example ref_linux 99 7 ex_process = Some (Returned 0 s) \<and> te_ints (memory s) 99 = Some 5"
proof -
  have "case timer_example ref_linux 99 7 ex_process of
     Some (Returned code s) \<Rightarrow> code = 0 \<and> te_ints (memory s) 99 = Some 5 | _ \<Rightarrow> False" by code_simp
  then show ?thesis by (simp split: option.splits run_result.splits)
qed


text \<open>
  A signal while the loop runs stops it: the handler is defined in every state the program
  runs through, and keeps the invariants.
\<close>

theorem signal_while_running:
  assumes "linux_kernel K interest" "fresh_process s" "memory s = timer_example_init"
    and "timer_example K timer_count n s = Some (Running s1)"
  shows "\<exists>s2 lp. signal_handler (timer_table K) sig s1 = Some s2 \<and> run_ok (\<lambda>x. interest (ma_kernel x)) s2 \<and>
    st_loops s2 (te_loop (memory s2)) = Some lp \<and> l_stop_requested lp \<and> te_running (memory s2) = 0"
proof -
  have m: "timer_machine K interest" by (intro timer_machine.intro assms(1))
  from timer_machine.timer_example_ok [OF m assms(2,3), of timer_count n] assms(4) obtain l t where s1:
    "run_ok (\<lambda>x. interest (ma_kernel x)) s1" "l \<noteq> NULL" "timer_guard l t timer_count [] s1" by auto
  then obtain lp where lp: "st_loops s1 l = Some lp" "te_loop (memory s1) = l"
    by (auto simp: timer_guard_def timer_at_defs)
  obtain s2 lp2 where "signal_handler (timer_table K) sig s1 = Some s2" "run_ok (\<lambda>x. interest (ma_kernel x)) s2"
    "st_loops s2 l = Some lp2" "l_stop_requested lp2" "memory s2 = (memory s1)\<lparr>te_running := 0\<rparr>"
    by (rule timer_machine.signal_stops [OF m s1(1) lp(2) s1(2) lp(1)])
  then show ?thesis using lp(2) by auto
qed

theorem signal_while_running_witness:
  "\<exists>s1 s2. timer_example ref_linux 99 3 ex_process = Some (Running s1) \<and> signal_handler (timer_table ref_linux) 2 s1 = Some s2 \<and>
     te_running (memory s2) = 0"
proof -
  have "case timer_example ref_linux 99 3 ex_process of Some (Running s) \<Rightarrow> True | _ \<Rightarrow> False" by code_simp
  then obtain s1 where "timer_example ref_linux 99 3 ex_process = Some (Running s1)"
    by (auto split: option.splits run_result.splits)
  with signal_while_running [OF ref_kernel.linux_kernel_axioms ex_process_fresh this, of 2] show ?thesis by blast
qed

text \<open>
  After the loop was destroyed the handlers are still installed and the static variable
  still points to it: a signal that comes before the process has ended makes them use the
  freed loop.
\<close>

theorem signal_after_exit:
  assumes "linux_kernel K interest" "fresh_process s" "memory s = timer_example_init"
    and "timer_example K timer_count n s = Some (Returned 0 s1)"
  shows "signal_handler (timer_table K) sig s1 = None"
proof -
  have m: "timer_machine K interest" by (intro timer_machine.intro assms(1))
  from timer_machine.timer_example_ok [OF m assms(2,3), of timer_count n] assms(4)
  have "te_loop (memory s1) \<noteq> NULL" "st_loops s1 = Map.empty" by (auto simp: exit_ok_def fresh_process_def)
  then show ?thesis by (simp add: signal_handler_def pd_loop_stop_def PD_MUTEX_LOCK_def)
qed

theorem signal_after_exit_witness:
  "\<exists>s1. timer_example ref_linux 99 7 ex_process = Some (Returned 0 s1) \<and> signal_handler (timer_table ref_linux) 2 s1 = None"
  using signal_after_exit [OF ref_kernel.linux_kernel_axioms ex_process_fresh, of 99 7 _ 2] ex_timer_run
  by blast

end
