(* ===== verification/Pd_World.thy ===== *)
theory Pd_World
  imports Pd_Epoll_Life
begin

text \<open>
  What a program does between two calls of the library: calls of the kernel, writes to its own
  memory and allocations. Such a step adds no entry to an interest list and leaves every
  object of the library alone. With what the operations on watchers do to the lists of the
  loops, it is all a program's own invariant has to survive.
\<close>

section \<open>The world outside the library\<close>

text \<open>Steps that change the kernel, the program's memory, \<^verbatim>\<open>errno\<close> and the allocator, and add no entry.\<close>

definition world_step :: "('k \<Rightarrow> int \<Rightarrow> int \<Rightarrow> epoll_event option) \<Rightarrow> 'k epoll_state \<Rightarrow> 'k epoll_state \<Rightarrow> bool" where
  "world_step interest s s' \<longleftrightarrow> s' = s\<lparr>st_kernel := st_kernel s', st_errno := st_errno s', st_choices := st_choices s'\<rparr> \<and>
     (\<forall>ep. interest (st_kernel s') ep \<subseteq>\<^sub>m interest (st_kernel s) ep)"

lemma world_stepE:
  assumes "world_step interest s s'"
  obtains k e cs where "s' = s\<lparr>st_kernel := k, st_errno := e, st_choices := cs\<rparr>" "\<And>ep. interest k ep \<subseteq>\<^sub>m interest (st_kernel s) ep"
proof -
  have "s' = s\<lparr>st_kernel := st_kernel s', st_errno := st_errno s', st_choices := st_choices s'\<rparr>"
    "\<And>ep. interest (st_kernel s') ep \<subseteq>\<^sub>m interest (st_kernel s) ep" using assms unfolding world_step_def by simp_all
  then show thesis by (rule that)
qed

lemma world_refl [simp]: "world_step interest s s"
  by (simp add: world_step_def)

lemma world_frame:
  assumes "world_step interest s s'"
  shows "st_loops s' = st_loops s" "st_watchers s' = st_watchers s" "st_timers s' = st_timers s"
    "st_ldata s' = st_ldata s" "st_wdata s' = st_wdata s" "st_tdata s' = st_tdata s"
    "st_default_loop s' = st_default_loop s" "st_thread_safe s' = st_thread_safe s"
proof -
  obtain k e cs where "s' = s\<lparr>st_kernel := k, st_errno := e, st_choices := cs\<rparr>" using assms by (rule world_stepE)
  then show "st_loops s' = st_loops s" "st_watchers s' = st_watchers s" "st_timers s' = st_timers s"
    "st_ldata s' = st_ldata s" "st_wdata s' = st_wdata s" "st_tdata s' = st_tdata s"
    "st_default_loop s' = st_default_loop s" "st_thread_safe s' = st_thread_safe s" by simp_all
qed

lemma world_trans: "world_step interest a b \<Longrightarrow> world_step interest b c \<Longrightarrow> world_step interest a c"
  by (elim world_stepE) (auto simp: world_step_def intro: map_le_trans)

lemma world_keys: "world_step interest s s' \<Longrightarrow> watcher_keys s' = watcher_keys s"
  by (rule watcher_keys_cong) (rule world_frame)

lemma world_quiet:
  assumes "world_step interest s s'"
  shows "quiet interest (\<lambda>_. ()) s s'"
  by (rule quietI) (use world_frame [OF assms] assms in \<open>simp_all add: loop_pdata_def world_step_def\<close>)

lemma world_run_ok:
  assumes "world_step interest s s'" "run_ok interest s"
  shows "run_ok interest s'"
proof -
  obtain k e cs where s': "s' = s\<lparr>st_kernel := k, st_errno := e, st_choices := cs\<rparr>" using assms(1) by (rule world_stepE)
  have "epoll_linked interest s'" using quiet_linked [OF world_quiet [OF assms(1)]] assms(2) by (simp add: run_ok_def)
  moreover have "epoll_inv s'" using epoll_inv_cong [of s s'] assms(2) by (simp add: run_ok_def s')
  ultimately show ?thesis using assms(2) by (simp add: run_ok_def s' timers_wired_def)
qed

lemma world_kept:
  assumes "world_step interest s s'" "run_ok interest s" "loop_pdata s l = Some p"
  shows "kept interest l p w s s'"
  using world_run_ok [OF assms(1,2)] assms(3) world_frame [OF assms(1)] by (simp add: kept_def loop_pdata_def batch_def)

lemma world_no_entry:
  assumes "world_step interest s s'" "interest (st_kernel s) ep fd = None"
  shows "interest (st_kernel s') ep fd = None"
  using assms map_le_Some [of "interest (st_kernel s') ep" "interest (st_kernel s) ep" fd]
  by (cases "interest (st_kernel s') ep fd") (auto simp: world_step_def)

lemma world_on_kernel:
  assumes "\<And>k ep. interest (snd (f k)) ep \<subseteq>\<^sub>m interest k ep"
  shows "world_step (\<lambda>x. interest (ma_kernel x)) s (snd (syscall (on_kernel f) s))"
proof -
  obtain en where "snd (syscall (on_kernel f) s) = s\<lparr>st_kernel := snd (on_kernel f (st_kernel s)), st_errno := en\<rparr>"
    using syscall_snd [of "on_kernel f" s] by blast
  then show ?thesis using assms by (simp add: world_step_def)
qed

lemma memory_on_kernel [simp]: "memory (snd (syscall (on_kernel f) s)) = memory s"
  using syscall_snd [of "on_kernel f" s] by (auto simp: memory_def)

text \<open>Steps that change the list of watchers.\<close>

lemma lists_kept:
  assumes s: "run_ok interest s" "loop_pdata s l = Some p"
    and s': "pd_wf s'" "epoll_inv s'" "epoll_linked interest s'" "batch s' p = batch s p" "lists_become f s s'"
    and keys: "\<And>w l fd t. watcher_keys s' w = Some (l, fd, Some Cb_timerfd, t) \<Longrightarrow> watcher_keys s w = Some (l, fd, Some Cb_timerfd, t)"
    and dom: "dom (st_watchers s) - {w} \<subseteq> dom (st_watchers s')"
  shows "kept interest l p w s s'"
proof -
  obtain lp where lp: "st_loops s l = Some lp" "l_platform_data lp = p" using s(2) by (auto simp: loop_pdata_def)
  obtain lp' where lp': "st_loops s' l = Some lp'" "upd_list lp lp'" using lists_become_D [OF s'(5) lp(1)] by metis
  then have p: "loop_pdata s' l = Some p" using lp(2) by (auto simp: loop_pdata_def elim!: upd_listE)
  have "timers_wired s'" unfolding timers_wired_def
  proof (intro allI impI)
    fix w x assume x: "st_watchers s' w = Some x" "w_callback x = Some Cb_timerfd"
    then have "watcher_keys s w = Some (w_loop x, w_fd x, Some Cb_timerfd, w_user_data x)"
      by (intro keys) (simp add: watcher_keys_def timer_key_def)
    then obtain y where y: "st_watchers s w = Some y" "w_callback y = Some Cb_timerfd" "w_user_data y = w_user_data x"
      by (auto simp: watcher_keys_def timer_key_def)
    have "timers_wired s" "st_timers s' = st_timers s" using s(1) s'(5) by (simp_all add: run_ok_def lists_become_def)
    with timers_wiredD [OF this(1) y(1,2)] y(3)
    show "w_user_data x = NULL \<or> (\<exists>t. st_timers s' (w_user_data x) = Some t \<and> t_callback t \<noteq> Some Cb_timerfd)" by auto
  qed
  then show ?thesis using s' p dom by (simp add: kept_def run_ok_def)
qed

lemma world_memory: "world_step (\<lambda>x. interest (ma_kernel x)) s (set_memory f s)"
  by (simp add: world_step_def set_memory_def)

lemma lists_become_world:
  "world_step interest a b \<Longrightarrow> lists_become f b c \<Longrightarrow> world_step interest c d \<Longrightarrow> lists_become f a d"
  using world_frame [of interest a b] world_frame [of interest c d] by (simp add: lists_become_def)

section \<open>A new watcher\<close>

context linux_program begin

lemma create_kept:
  assumes wf: "pd_wf s" "epoll_inv s" and link: "epoll_linked interest s" and lp: "st_loops s l = Some lp"
    and free: "\<And>ep. interest (st_kernel s) ep fd = None"
    and run: "pd_watcher_create (pd_platform_epoll K U) l fd ev cb ud s = Some (w, s')"
  shows "epoll_linked interest s' \<and> mem (st_kernel s') = mem (st_kernel s) \<and> batch s' p = batch s p"
proof -
  have "epoll_can_reg interest l fd ev s" using free by (simp add: epoll_can_reg_def)
  then show ?thesis
    using pointer_backend.create_link [OF link_batch [OF watcher_slots(2) [of U], where c = "mem (st_kernel s)" and p = p and b = "batch s p"]
        wf _ lp _ run] link by blast
qed

text \<open>
  A watcher with a callback of the program is created, or none is; either way it is a step the
  obligations of a callback allow, and nothing else happens to the watchers.
\<close>

lemma create_watcher_cases:
  assumes s: "run_ok interest s" and lp: "st_loops s l = Some lp" "loop_pdata s l = Some p"
    and free: "\<And>ep. interest (st_kernel s) ep fd = None" and cb: "cb \<noteq> Some Cb_timerfd"
  obtains (null) s' where "pd_watcher_create (pd_platform_epoll K U) l fd ev cb ud s = Some (NULL, s')"
      "kept interest l p v s s'" "mem (st_kernel s') = mem (st_kernel s)" "watcher_keys s' = watcher_keys s"
      "lists_become (\<lambda>_ ws. ws) s s'" "st_watchers s' = st_watchers s"
  | (some) w s' where "pd_watcher_create (pd_platform_epoll K U) l fd ev cb ud s = Some (w, s')"
      "kept interest l p v s s'" "mem (st_kernel s') = mem (st_kernel s)" "watcher_keys s' = (watcher_keys s)(w \<mapsto> (l, fd, cb, ud))"
      "lists_become (\<lambda>k ws. if k = l then ws @ [w] else ws) s s'" "w \<noteq> NULL" "watcher_keys s w = None"
proof -
  have ok: "pd_wf s" "epoll_inv s" "epoll_linked interest s" using s by (simp_all add: run_ok_def)
  show thesis
  proof (cases rule: epl.create_step [OF ok(1,2) lp(1), where fd = fd and ev = ev and cb = cb and ud = ud and K = K and U = U])
    case (1 s')
    note link = create_kept [OF ok lp(1) free 1(1), of p]
    have keys: "watcher_keys s' = watcher_keys s" by (rule watcher_keys_cong [OF 1(4)])
    have "kept interest l p v s s'"
      by (rule lists_kept [OF s lp(2) 1(2,3) _ _ 1(5)]) (use link keys 1(4) in auto)
    then show thesis using null 1(1,4,5) link keys by blast
  next
    case (2 w s' y)
    note link = create_kept [OF ok lp(1) free 2(1), of p]
    have "timer_key y = (l, fd, cb, ud)" using 2(7) by (auto simp: timer_key_def new_watcher_def elim!: upd_pdataE)
    then have keys: "watcher_keys s' = (watcher_keys s)(w \<mapsto> (l, fd, cb, ud))"
      using 2(6) by (simp add: watcher_keys_def fun_eq_iff)
    have "kept interest l p v s s'"
      by (rule lists_kept [OF s lp(2) 2(2,3) _ _ 2(8)]) (use link keys cb 2(6) in \<open>auto split: if_splits\<close>)
    moreover have "watcher_keys s w = None" using 2(5) by (simp add: watcher_keys_def)
    ultimately show thesis using some 2(1,4,8) link keys by blast
  qed
qed

end

end
