(* ===== verification/Pd_Echo_Server.thy ===== *)
theory Pd_Echo_Server
  imports Pd_World
begin

text \<open>
  The program \<^verbatim>\<open>src/examples/simple_server.c\<close> on Linux: a server that sends back what it
  receives. What it prints is not modelled, but for the reads of memory, and neither is the
  signal the kernel may answer a \<^verbatim>\<open>send\<close> with.
\<close>

section \<open>Sockets\<close>

text \<open>
  The calls of the socket interface the program makes, as functions over a kernel state: \<^verbatim>\<open>recv\<close>
  gives the bytes it stored into the caller's buffer, \<^verbatim>\<open>send\<close> is given the bytes of it.
\<close>

record 'k sockets =
  sys_socket :: "'k \<Rightarrow> (int + nat) \<times> 'k"
  sys_reuseaddr :: "int \<Rightarrow> 'k \<Rightarrow> (int + unit) \<times> 'k"
  sys_bind :: "int \<Rightarrow> nat \<Rightarrow> 'k \<Rightarrow> (int + unit) \<times> 'k"
  sys_listen :: "int \<Rightarrow> int \<Rightarrow> 'k \<Rightarrow> (int + unit) \<times> 'k"
  sys_accept :: "int \<Rightarrow> 'k \<Rightarrow> (int + nat) \<times> 'k"
  sys_recv :: "int \<Rightarrow> 64 word \<Rightarrow> 'k \<Rightarrow> (int + 8 word list) \<times> 'k"
  sys_send :: "int \<Rightarrow> 8 word list \<Rightarrow> 'k \<Rightarrow> (int + nat) \<times> 'k"

section \<open>The program\<close>

definition PORT :: nat where "PORT = 8080"
definition BUFFER_SIZE :: "64 word" where "BUFFER_SIZE = 4096"

text \<open>The array of a connection is a function; the bounds are checked where it is used.\<close>

record connection =
  cn_watcher :: addr
  cn_fd :: int
  cn_buffer :: "nat \<Rightarrow> 8 word"
  cn_buffer_len :: "64 word"

definition zero_connection :: connection where
  "zero_connection = \<lparr>cn_watcher = NULL, cn_fd = 0, cn_buffer = \<lambda>_. 0, cn_buffer_len = 0\<rparr>"

type_synonym 'k server_state = "('k, addr \<Rightarrow> connection option) program_state"

abbreviation "calloc_connection \<equiv> heap_alloc memory (\<lambda>h. set_memory (\<lambda>_. h)) zero_connection"
abbreviation "write_connection \<equiv> heap_write memory (\<lambda>h. set_memory (\<lambda>_. h))"
abbreviation "free_connection \<equiv> heap_free memory (\<lambda>h. set_memory (\<lambda>_. h))"

text \<open>The two callbacks are the functions 0 and 1 of the program.\<close>

definition accept_callback ::
  "'k linux \<Rightarrow> 'k sockets \<Rightarrow> 'k server_state pd_platform_ops \<Rightarrow> addr \<Rightarrow> addr \<Rightarrow> pd_event \<Rightarrow> addr \<Rightarrow>
   'k server_state \<Rightarrow> 'k server_state option" where
  "accept_callback K S P loop watcher events user_data s = do {
     listen_fd \<leftarrow> pd_watcher_get_fd watcher s;
     let (r, s) = syscall (on_kernel (sys_accept S listen_fd)) s;
     case r of
       None \<Rightarrow> Some s
     | Some client_fd \<Rightarrow>
         let (conn, s) = calloc_connection s in
         if conn = NULL then Some (snd (syscall (sys_close (on_machine K) (int client_fd)) s))
         else do {
           s \<leftarrow> write_connection conn (\<lambda>c. c\<lparr>cn_fd := int client_fd\<rparr>) s;
           (w, s) \<leftarrow> pd_watcher_create P loop (int client_fd) PD_EVENT_READ (Some (Cb_user 1)) conn s;
           s \<leftarrow> write_connection conn (\<lambda>c. c\<lparr>cn_watcher := w\<rparr>) s;
           c \<leftarrow> memory s conn;
           if cn_watcher c = NULL
           then do {
             s \<leftarrow> free_connection conn s;
             Some (snd (syscall (sys_close (on_machine K) (int client_fd)) s)) }
           else Some s } }"

definition store_bytes :: "nat \<Rightarrow> 8 word list \<Rightarrow> (nat \<Rightarrow> 8 word) \<Rightarrow> nat \<Rightarrow> 8 word" where
  "store_bytes n bs buf i = (if n \<le> i \<and> i < n + length bs then bs ! (i - n) else buf i)"

text \<open>The clean-up, which occurs three times in \<^verbatim>\<open>read_callback\<close>.\<close>

definition close_connection ::
  "'k linux \<Rightarrow> 'k server_state pd_platform_ops \<Rightarrow> addr \<Rightarrow> int \<Rightarrow> addr \<Rightarrow> 'k server_state \<Rightarrow> 'k server_state option" where
  "close_connection K P watcher fd conn s = do {
     s \<leftarrow> pd_watcher_destroy P watcher s;
     let s = snd (syscall (sys_close (on_machine K) fd) s);
     free_connection conn s }"

text \<open>\<^verbatim>\<open>recv\<close> into the free part of the buffer: what is not positive is an error or the end.\<close>

definition recv_bytes :: "'k sockets \<Rightarrow> int \<Rightarrow> addr \<Rightarrow> 'k server_state \<Rightarrow> (int \<times> 'k server_state) option" where
  "recv_bytes S fd conn s = do {
     c \<leftarrow> memory s conn;
     let (r, s) = syscall (on_kernel (sys_recv S fd (BUFFER_SIZE - cn_buffer_len c))) s;
     case r of
       None \<Rightarrow> Some (- 1, s)
     | Some bs \<Rightarrow>
         if uint (cn_buffer_len c) + int (length bs) > uint BUFFER_SIZE then None
         else do {
           s \<leftarrow> write_connection conn (\<lambda>c. c\<lparr>cn_buffer := store_bytes (unat (cn_buffer_len c)) bs (cn_buffer c)\<rparr>) s;
           Some (int (length bs), s) } }"

definition send_buffer :: "'k sockets \<Rightarrow> int \<Rightarrow> addr \<Rightarrow> 'k server_state \<Rightarrow> 'k server_state option" where
  "send_buffer S fd conn s = do {
     c \<leftarrow> memory s conn;
     if uint (cn_buffer_len c) > uint BUFFER_SIZE then None
     else Some (snd (syscall (on_kernel (sys_send S fd (map (cn_buffer c) [0..<unat (cn_buffer_len c)]))) s)) }"

definition echo_back :: "'k sockets \<Rightarrow> int \<Rightarrow> addr \<Rightarrow> int \<Rightarrow> 'k server_state \<Rightarrow> 'k server_state option" where
  "echo_back S fd conn bytes s = do {
     s \<leftarrow> write_connection conn (\<lambda>c. c\<lparr>cn_buffer_len := cn_buffer_len c + word_of_int bytes\<rparr>) s;
     s \<leftarrow> send_buffer S fd conn s;
     write_connection conn (\<lambda>c. c\<lparr>cn_buffer_len := 0\<rparr>) s }"

definition read_callback ::
  "'k linux \<Rightarrow> 'k sockets \<Rightarrow> 'k server_state pd_platform_ops \<Rightarrow> addr \<Rightarrow> addr \<Rightarrow> pd_event \<Rightarrow> addr \<Rightarrow>
   'k server_state \<Rightarrow> 'k server_state option" where
  "read_callback K S P loop watcher events user_data s = do {
     let conn = user_data;
     fd \<leftarrow> pd_watcher_get_fd watcher s;
     (closed, s) \<leftarrow>
       (if has_flag events PD_EVENT_READ
        then do {
          (bytes, s) \<leftarrow> recv_bytes S fd conn s;
          if bytes \<le> 0
          then do { s \<leftarrow> close_connection K P watcher fd conn s; Some (True, s) }
          else do { s \<leftarrow> echo_back S fd conn bytes s; Some (False, s) } }
        else Some (False, s));
     if closed then Some s
     else do {
       s \<leftarrow> (if has_flag events PD_EVENT_HANGUP then close_connection K P watcher fd conn s else Some s);
       if has_flag events PD_EVENT_ERROR then close_connection K P watcher fd conn s else Some s } }"

definition server_table :: "'k linux \<Rightarrow> 'k server_state pd_platform_ops" where
  "server_table K = pd_platform_epoll (on_machine K) (\<lambda>_ _ _ _ _ _. None)"

definition server_functions :: "'k linux \<Rightarrow> 'k sockets \<Rightarrow> ('k, addr \<Rightarrow> connection option) machine user_callbacks" where
  "server_functions K S f =
    (if f = 0 then accept_callback K S (server_table K)
     else if f = 1 then read_callback K S (server_table K)
     else (\<lambda>_ _ _ _ _. None))"

text \<open>\<^verbatim>\<open>main\<close>, with the number \<open>n\<close> of waits that \<^verbatim>\<open>pd_loop_run\<close> may make.\<close>

definition simple_server ::
  "'k linux \<Rightarrow> 'k sockets \<Rightarrow> nat \<Rightarrow> 'k server_state \<Rightarrow> 'k server_state run_result option" where
  "simple_server K S n s = do {
     let P = pd_platform_epoll (on_machine K) (server_functions K S);
     (loop, s) \<leftarrow> pd_loop_create PD_PLATFORM_LINUX P None s;
     if loop = NULL then Some (Returned 1 s)
     else
       let (r, s) = syscall (on_kernel (sys_socket S)) s in
       case r of
         None \<Rightarrow> do { s \<leftarrow> pd_loop_destroy P loop s; Some (Returned 1 s) }
       | Some listen_fd \<Rightarrow>
           let listen_fd = int listen_fd;
               fail = (\<lambda>s. do {
                 let s = snd (syscall (sys_close (on_machine K) listen_fd) s);
                 s \<leftarrow> pd_loop_destroy P loop s;
                 Some (Returned 1 s) });
               (_, s) = syscall (on_kernel (sys_reuseaddr S listen_fd)) s;
               (r, s) = syscall (on_kernel (sys_bind S listen_fd PORT)) s in
           if r = None then fail s
           else let (r, s) = syscall (on_kernel (sys_listen S listen_fd 5)) s in
             if r = None then fail s
             else do {
               (watcher, s) \<leftarrow> pd_watcher_create P loop listen_fd PD_EVENT_READ (Some (Cb_user 0)) NULL s;
               if watcher = NULL then fail s
               else do {
                 r \<leftarrow> pd_loop_run P n loop s;
                 case r of
                   Running s \<Rightarrow> Some (Running s)
                 | Returned _ s \<Rightarrow> do {
                     s \<leftarrow> pd_watcher_destroy P watcher s;
                     let s = snd (syscall (sys_close (on_machine K) listen_fd) s);
                     s \<leftarrow> pd_loop_destroy P loop s;
                     Some (Returned 0 s) } } } }"

section \<open>What the kernel promises of sockets\<close>

text \<open>
  A new socket and an accepted connection have new descriptors (socket(2), accept(2)), \<^verbatim>\<open>recv\<close>
  stores at most as many bytes as asked for (recv(2)), and none of the calls touches an interest
  list.
\<close>

locale socket_kernel = linux_kernel K interest for K :: "'k linux" and interest +
  fixes S :: "'k sockets"
  assumes socket_interest: "sys_socket S k = (r, k') \<Longrightarrow> fresh_fd interest k r k'"
    and accept_interest: "sys_accept S fd k = (r, k') \<Longrightarrow> fresh_fd interest k r k'"
    and reuseaddr_interest: "interest (snd (sys_reuseaddr S fd k)) = interest k"
    and bind_interest: "interest (snd (sys_bind S fd port k)) = interest k"
    and listen_interest: "interest (snd (sys_listen S fd q k)) = interest k"
    and recv_interest: "interest (snd (sys_recv S fd m k)) = interest k"
    and send_interest: "interest (snd (sys_send S fd bs k)) = interest k"
    and recv_bound: "sys_recv S fd m k = (Inr bs, k') \<Longrightarrow> int (length bs) \<le> uint m"

text \<open>
  A condition the program relies on, which no manual page promises: a wait does not report a
  hang-up and an error of one descriptor at once.
\<close>

definition both_bits :: "epoll_event \<Rightarrow> bool" where
  "both_bits e \<longleftrightarrow> has_flag (epoll_to_events (ee_events e)) PD_EVENT_HANGUP \<and> has_flag (epoll_to_events (ee_events e)) PD_EVENT_ERROR"

definition never_both :: "'k linux \<Rightarrow> bool" where
  "never_both K \<longleftrightarrow> (\<forall>ep n t k evs k' e. sys_epoll_wait K ep n t k = (Inr evs, k') \<longrightarrow> e \<in> set evs \<longrightarrow> \<not> both_bits e)"

lemma never_bothD:
  "never_both K \<Longrightarrow> sys_epoll_wait K ep n t k = (Inr evs, k') \<Longrightarrow> e \<in> set evs \<Longrightarrow> \<not> both_bits e"
  unfolding never_both_def by blast

end
