(* ===== verification/Pd_Echo_Callbacks.thy ===== *)
theory Pd_Echo_Callbacks
  imports Pd_Echo_Server
begin

text \<open>
  The callbacks of the server: the well-typed heap they rely on, and that they keep it together
  with the obligations of a callback.
\<close>

section \<open>The heap of the running server\<close>

text \<open>
  Every watcher but the listener's \<open>w0\<close> belongs to a connection in memory, and every connection
  to a watcher: none is leaked, and none is freed too early.
\<close>

definition connections_ok ::
  "addr \<Rightarrow> addr \<Rightarrow> (addr \<Rightarrow> (addr \<times> int \<times> pd_callback option \<times> addr) option) \<Rightarrow> (addr \<Rightarrow> connection option) \<Rightarrow> bool" where
  "connections_ok l w0 keys h \<longleftrightarrow>
     (\<forall>w l' fd cb conn. w \<noteq> w0 \<longrightarrow> keys w = Some (l', fd, cb, conn) \<longrightarrow> (\<exists>c. h conn = Some c \<and> cn_watcher c = w)) \<and>
     (\<forall>conn c. h conn = Some c \<longrightarrow> conn \<noteq> NULL \<and> cn_watcher c \<noteq> w0 \<and> cn_buffer_len c = 0 \<and>
        keys (cn_watcher c) = Some (l, cn_fd c, Some (Cb_user 1), conn))"

lemma connections_okD:
  assumes "connections_ok l w0 keys h"
  shows "w \<noteq> w0 \<Longrightarrow> keys w = Some (l', fd, cb, conn) \<Longrightarrow> \<exists>c. h conn = Some c \<and> cn_watcher c = w"
    and "h conn = Some c \<Longrightarrow> conn \<noteq> NULL \<and> cn_watcher c \<noteq> w0 \<and> cn_buffer_len c = 0 \<and>
      keys (cn_watcher c) = Some (l, cn_fd c, Some (Cb_user 1), conn)"
  using assms unfolding connections_ok_def by blast+

lemma connections_key:
  assumes "connections_ok l w0 keys h" "w \<noteq> w0" "keys w = Some (l', fd, cb, conn)"
  obtains c where "h conn = Some c" "cn_watcher c = w" "l' = l" "cb = Some (Cb_user 1)" "cn_fd c = fd" "conn \<noteq> NULL" "cn_buffer_len c = 0"
  using connections_okD(1) [OF assms] connections_okD(2) [OF assms(1)] assms(3) by fastforce

lemma connections_remove:
  assumes "connections_ok l w0 keys h" "h conn = Some c"
  shows "connections_ok l w0 (keys(cn_watcher c := None)) (h(conn := None))"
  unfolding connections_ok_def
proof (intro conjI allI impI)
  fix w l' fd cb conn' assume "w \<noteq> w0" "(keys(cn_watcher c := None)) w = Some (l', fd, cb, conn')"
  then have w: "w \<noteq> cn_watcher c" "w \<noteq> w0" "keys w = Some (l', fd, cb, conn')" by (simp_all split: if_splits)
  obtain c' where "h conn' = Some c'" "cn_watcher c' = w" by (rule connections_key [OF assms(1) w(2,3)])
  then show "\<exists>c. (h(conn := None)) conn' = Some c \<and> cn_watcher c = w" using w(1) assms(2) by auto
next
  fix conn' c' assume "(h(conn := None)) conn' = Some c'"
  then have c': "h conn' = Some c'" "conn' \<noteq> conn" by (simp_all split: if_splits)
  have k: "keys (cn_watcher c') = Some (l, cn_fd c', Some (Cb_user 1), conn')"
    "keys (cn_watcher c) = Some (l, cn_fd c, Some (Cb_user 1), conn)"
    using connections_okD(2) [OF assms(1)] c'(1) assms(2) by blast+
  then have "cn_watcher c' \<noteq> cn_watcher c" using c'(2) by auto
  then show "conn' \<noteq> NULL" "cn_watcher c' \<noteq> w0" "cn_buffer_len c' = 0"
    "(keys(cn_watcher c := None)) (cn_watcher c') = Some (l, cn_fd c', Some (Cb_user 1), conn')"
    using connections_okD(2) [OF assms(1) c'(1)] by simp_all
qed

lemma connections_add:
  assumes ok: "connections_ok l w0 keys h" and w: "keys w = None" "w \<noteq> w0" and conn: "h conn = None" "conn \<noteq> NULL"
    and c: "cn_watcher c = w" "cn_buffer_len c = 0"
  shows "connections_ok l w0 (keys(w \<mapsto> (l, cn_fd c, Some (Cb_user 1), conn))) (h(conn \<mapsto> c))"
  unfolding connections_ok_def
proof (intro conjI allI impI)
  let ?keys = "keys(w \<mapsto> (l, cn_fd c, Some (Cb_user 1), conn))" and ?h = "h(conn \<mapsto> c)"
  fix v l' fd cb conn' assume v: "v \<noteq> w0" "?keys v = Some (l', fd, cb, conn')"
  show "\<exists>c. ?h conn' = Some c \<and> cn_watcher c = v"
  proof (cases "v = w")
    case False
    then have "keys v = Some (l', fd, cb, conn')" using v(2) by simp
    from connections_okD(1) [OF ok v(1) this] show ?thesis using conn(1) by auto
  qed (use v c in auto)
next
  fix conn' c' assume c': "(h(conn \<mapsto> c)) conn' = Some c'"
  show "conn' \<noteq> NULL" "cn_watcher c' \<noteq> w0" "cn_buffer_len c' = 0"
    "(keys(w \<mapsto> (l, cn_fd c, Some (Cb_user 1), conn))) (cn_watcher c') = Some (l, cn_fd c', Some (Cb_user 1), conn')"
    using c' connections_okD(2) [OF ok, of conn' c'] w conn c by (auto split: if_splits)
qed

lemma connections_buffer:
  assumes "connections_ok l w0 keys h" "h conn = Some c"
  shows "connections_ok l w0 keys (h(conn \<mapsto> c\<lparr>cn_buffer := b\<rparr>))"
  using assms unfolding connections_ok_def by (auto split: if_splits)

definition server_at :: "addr \<Rightarrow> addr \<Rightarrow> int \<Rightarrow> epoll_event list \<Rightarrow> pd_loop \<Rightarrow> 'k server_state \<Rightarrow> bool" where
  "server_at l w0 fd0 es lp s \<longleftrightarrow> st_loops s = [l \<mapsto> lp] \<and> l_ref_count lp = 1 \<and> \<not> l_stop_requested lp \<and> w0 \<in> set (watcher_list lp) \<and>
     w0 \<noteq> NULL \<and> watcher_keys s w0 = Some (l, fd0, Some (Cb_user 0), NULL) \<and> connections_ok l w0 (watcher_keys s) (memory s) \<and>
     (\<forall>e\<in>set es. \<not> both_bits e)"

definition server_guard :: "addr \<Rightarrow> addr \<Rightarrow> int \<Rightarrow> epoll_event list \<Rightarrow> 'k server_state \<Rightarrow> bool" where
  "server_guard l w0 fd0 es s \<longleftrightarrow> (\<exists>lp. server_at l w0 fd0 es lp s)"

lemma server_guardE:
  assumes "server_guard l w0 fd0 es s"
  obtains lp where "st_loops s = [l \<mapsto> lp]" "st_loops s l = Some lp" "l_ref_count lp = 1" "\<not> l_stop_requested lp"
    "w0 \<in> set (watcher_list lp)" "w0 \<noteq> NULL"
    "watcher_keys s w0 = Some (l, fd0, Some (Cb_user 0), NULL)" "connections_ok l w0 (watcher_keys s) (memory s)"
    "\<And>e. e \<in> set es \<Longrightarrow> \<not> both_bits e"
  using assms by (auto simp: server_guard_def server_at_def)

text \<open>The ways it is kept: steps of the world, and steps that change the list of watchers.\<close>

lemma server_guard_world:
  assumes "server_guard l w0 fd0 es s" "world_step interest s s'" "connections_ok l w0 (watcher_keys s) (memory s')" "set es' \<subseteq> set es"
  shows "server_guard l w0 fd0 es' s'"
  using assms world_frame(1) [OF assms(2)] world_keys [OF assms(2)] by (auto simp: server_guard_def server_at_def)

lemma server_guard_lists:
  assumes g: "server_guard l w0 fd0 es s" and s': "lists_become f s s'"
    and w0: "\<And>ws. w0 \<in> set ws \<Longrightarrow> w0 \<in> set (f l ws)" "watcher_keys s' w0 = watcher_keys s w0"
    and ok: "connections_ok l w0 (watcher_keys s') (memory s')" and es: "set es' \<subseteq> set es"
  shows "server_guard l w0 fd0 es' s'"
proof -
  obtain lp where lp: "st_loops s = [l \<mapsto> lp]" "l_ref_count lp = 1" "\<not> l_stop_requested lp" "w0 \<in> set (watcher_list lp)" "w0 \<noteq> NULL"
    "watcher_keys s w0 = Some (l, fd0, Some (Cb_user 0), NULL)" "\<And>e. e \<in> set es \<Longrightarrow> \<not> both_bits e"
    using g unfolding server_guard_def server_at_def by blast
  obtain lp' where lp': "st_loops s' = [l \<mapsto> lp']" "upd_list lp lp'" "l_ref_count lp' = l_ref_count lp" "watcher_list lp' = f l (watcher_list lp)"
    by (rule single_loop [OF lists_become_change [OF s'] lp(1)])
  have "l_stop_requested lp' = l_stop_requested lp" using lp'(2) by (auto elim!: upd_listE)
  then have "server_at l w0 fd0 es' lp' s'"
    using lp lp' w0 ok es by (auto simp: server_at_def)
  then show ?thesis by (auto simp: server_guard_def)
qed

section \<open>The callbacks\<close>

locale server_machine = socket_kernel K interest S for K :: "'k linux" and interest and S :: "'k sockets"

sublocale server_machine \<subseteq> sv: linux_program "on_machine K :: ('k, addr \<Rightarrow> connection option) machine linux" "\<lambda>x. interest (ma_kernel x)" ma_memory
  by (rule on_machine_program)

text \<open>
  A read that gets bytes sends exactly these, and leaves the connection's buffer empty.
\<close>

definition received :: "addr \<Rightarrow> connection \<Rightarrow> 8 word list \<Rightarrow> 'k \<Rightarrow> 'k server_state \<Rightarrow> 'k server_state" where
  "received conn c bs k s =
     s\<lparr>st_kernel := \<lparr>ma_kernel = k, ma_memory = (memory s)(conn \<mapsto> c\<lparr>cn_buffer := store_bytes 0 bs (cn_buffer c)\<rparr>)\<rparr>\<rparr>"

definition echoed :: "'k sockets \<Rightarrow> int \<Rightarrow> addr \<Rightarrow> connection \<Rightarrow> 8 word list \<Rightarrow> 'k \<Rightarrow> 'k server_state \<Rightarrow> 'k server_state" where
  "echoed S fd conn c bs k s = snd (syscall (on_kernel (sys_send S fd bs)) (received conn c bs k s))"

lemma recv_received:
  assumes "memory s conn = Some c" "cn_buffer_len c = 0" "sys_recv S fd 4096 (ma_kernel (st_kernel s)) = (Inr bs, k)"
    and "int (length bs) \<le> 4096"
  shows "recv_bytes S fd conn s = Some (int (length bs), received conn c bs k s)"
  using assms
  by (simp add: recv_bytes_def syscall_def on_kernel_def heap_write_def memory_def set_memory_def BUFFER_SIZE_def received_def)

lemma syscall_memory:
  "set_memory f (snd (syscall (on_kernel g) s)) = snd (syscall (on_kernel g) (set_memory f s))"
  by (simp add: set_memory_def syscall_def on_kernel_def split: prod.splits sum.splits)

lemma set_memory_twice [simp]: "set_memory f (set_memory g s) = set_memory (\<lambda>m. f (g m)) s"
  by (simp add: set_memory_def)

lemma store_bytes_all: "length bs = n \<Longrightarrow> map (store_bytes 0 bs b) [0..<n] = bs"
  by (rule nth_equalityI) (simp_all add: store_bytes_def)

lemma send_echo:
  assumes bs: "int (length bs) \<le> 4096"
    and s: "memory s conn = Some (c\<lparr>cn_buffer := store_bytes 0 bs (cn_buffer c)\<rparr>)" "cn_buffer_len c = 0"
  shows "echo_back S fd conn (int (length bs)) s = Some (snd (syscall (on_kernel (sys_send S fd bs)) s))"
proof -
  let ?c = "c\<lparr>cn_buffer := store_bytes 0 bs (cn_buffer c)\<rparr>" and ?n = "word_of_int (int (length bs)) :: 64 word"
  let ?s = "set_memory (\<lambda>_. (memory s)(conn \<mapsto> ?c\<lparr>cn_buffer_len := ?n\<rparr>)) s"
  have u: "unat ?n = length bs" using bs by (simp add: unsigned_of_nat take_bit_nat_eq_self)
  then have n: "uint ?n = int (length bs)" by (metis uint_nat)
  have "map (cn_buffer (?c\<lparr>cn_buffer_len := ?n\<rparr>)) [0..<unat ?n] = bs" using u by (simp add: store_bytes_all)
  then have send: "send_buffer S fd conn ?s = Some (snd (syscall (on_kernel (sys_send S fd bs)) ?s))"
    using bs n by (simp add: send_buffer_def BUFFER_SIZE_def)
  have same: "?c\<lparr>cn_buffer_len := 0\<rparr> = ?c" using s(2) by (cases c) simp
  have undo: "set_memory (\<lambda>_. (memory s)(conn \<mapsto> ?c\<lparr>cn_buffer_len := 0\<rparr>)) s = s"
    unfolding same using s(1) by (simp add: fun_upd_idem) (simp add: set_memory_def memory_def)
  show ?thesis using s send by (simp add: echo_back_def heap_write_def syscall_memory undo [simplified])
qed

lemma read_echoed:
  assumes x: "st_watchers s w = Some x" "w \<noteq> NULL" and c: "memory s conn = Some c" "cn_buffer_len c = 0"
    and ev: "has_flag ev PD_EVENT_READ"
    and bs: "sys_recv S (w_fd x) 4096 (ma_kernel (st_kernel s)) = (Inr bs, k)" "bs \<noteq> []" "int (length bs) \<le> 4096"
  shows "read_callback K S P l w ev conn s = do {
     s \<leftarrow> (if has_flag ev PD_EVENT_HANGUP then close_connection K P w (w_fd x) conn (echoed S (w_fd x) conn c bs k s)
       else Some (echoed S (w_fd x) conn c bs k s));
     if has_flag ev PD_EVENT_ERROR then close_connection K P w (w_fd x) conn s else Some s }"
proof -
  have m: "memory (received conn c bs k s) conn = Some (c\<lparr>cn_buffer := store_bytes 0 bs (cn_buffer c)\<rparr>)"
    by (simp add: memory_def received_def)
  show ?thesis
    using x ev recv_received [OF c bs(1,3)] bs(2) send_echo [OF bs(3) m c(2), of S "w_fd x"]
    by (simp add: read_callback_def pd_watcher_get_fd_def echoed_def)
qed

text \<open>
  A connection whose record is there gets its watcher; if it gets none, the record is freed and
  the descriptor closed.
\<close>

definition attach_watcher :: "'k linux \<Rightarrow> int \<Rightarrow> addr \<Rightarrow> addr \<Rightarrow> 'k server_state \<Rightarrow> 'k server_state option" where
  "attach_watcher K f l conn s = do {
     (w, s) \<leftarrow> pd_watcher_create (server_table K) l f PD_EVENT_READ (Some (Cb_user 1)) conn s;
     s \<leftarrow> write_connection conn (\<lambda>c. c\<lparr>cn_watcher := w\<rparr>) s;
     c \<leftarrow> memory s conn;
     if cn_watcher c = NULL
     then do { s \<leftarrow> free_connection conn s; Some (snd (syscall (sys_close (on_machine K) f) s)) }
     else Some s }"

context server_machine begin

abbreviation "entries \<equiv> \<lambda>x :: ('k, addr \<Rightarrow> connection option) machine. interest (ma_kernel x)"

lemma close_world:
  "world_step entries s (snd (syscall (sys_close (on_machine K) fd) s))" "memory (snd (syscall (sys_close (on_machine K) fd) s)) = memory s"
  using world_on_kernel [of interest "sys_close K fd" s] close_interest [OF surjective_pairing] by simp_all

text \<open>What a read does: the bytes received are in the buffer, or there are none.\<close>

lemma recv_data:
  assumes c: "memory s conn = Some c" "cn_buffer_len c = 0" and bs: "sys_recv S fd 4096 (ma_kernel (st_kernel s)) = (Inr bs, k)"
  shows "recv_bytes S fd conn s = Some (int (length bs), received conn c bs k s)" "int (length bs) \<le> 4096"
    "world_step entries s (received conn c bs k s)"
proof -
  show b: "int (length bs) \<le> 4096" using recv_bound [OF bs] by simp
  then show "recv_bytes S fd conn s = Some (int (length bs), received conn c bs k s)" by (rule recv_received [OF c bs])
  show "world_step entries s (received conn c bs k s)"
    using recv_interest [of fd 4096 "ma_kernel (st_kernel s)"] bs by (simp add: world_step_def received_def)
qed

lemma recv_bytes_cases:
  assumes c: "memory s conn = Some c" "cn_buffer_len c = 0"
  obtains (ended) b s' where "recv_bytes S fd conn s = Some (b, s')" "b \<le> 0" "world_step entries s s'" "memory s' = memory s"
  | (data) bs k where "bs \<noteq> []" "sys_recv S fd 4096 (ma_kernel (st_kernel s)) = (Inr bs, k)"
proof -
  let ?f = "sys_recv S fd 4096"
  obtain r k where r: "?f (ma_kernel (st_kernel s)) = (r, k)" by fastforce
  have w: "world_step entries s (snd (syscall (on_kernel ?f) s))"
    using world_on_kernel [of interest ?f s] by (simp add: recv_interest)
  show thesis
  proof (cases r)
    case (Inl e)
    then have "recv_bytes S fd conn s = Some (- 1, snd (syscall (on_kernel ?f) s))"
      using c r by (simp add: recv_bytes_def BUFFER_SIZE_def syscall_def on_kernel_def)
    then show thesis using ended w by simp
  next
    case (Inr bs)
    note d = recv_data [OF c r [unfolded Inr]]
    show thesis
    proof (cases "bs = []")
      case True
      have "store_bytes 0 [] (cn_buffer c) = cn_buffer c" by (simp add: store_bytes_def fun_eq_iff)
      then have "memory (received conn c bs k s) = memory s" using c(1) True by (simp add: fun_upd_idem memory_def received_def)
      then show thesis using ended [OF d(1) _ d(3)] True by simp
    next
      case False
      then show thesis using data r Inr by simp
    qed
  qed
qed

text \<open>The clean-up of a connection.\<close>

lemma close_connection_kept:
  assumes s: "run_ok entries s" "loop_pdata s l = Some p" and g: "server_guard l w0 fd0 es s"
    and w: "w \<noteq> w0" "watcher_keys s w = Some (l, fd', cb, conn)"
  shows "\<exists>s'. close_connection K (pd_platform_epoll (on_machine K) U) w fd conn s = Some s' \<and>
    kept entries l p w s s' \<and> server_guard l w0 fd0 es s'"
proof -
  have ok: "pd_wf s" "epoll_inv s" "epoll_linked entries s" "timers_wired s" using s(1) by (simp_all add: run_ok_def)
  have conns: "connections_ok l w0 (watcher_keys s) (memory s)" using g by (rule server_guardE)
  obtain c where c: "memory s conn = Some c" "cn_watcher c = w" "conn \<noteq> NULL" by (rule connections_key [OF conns w])
  obtain x where x: "st_watchers s w = Some x" "w_loop x = l" using w(2) by (auto simp: watcher_keys_def timer_key_def)
  have l: "w_loop x \<noteq> NULL"
    using g x(2) pd_wf_loop [OF ok(1)] by (elim server_guardE) (simp add: loop_ok_def)
  obtain s1 where s1: "pd_watcher_destroy (pd_platform_epoll (on_machine K) U) w s = Some s1" "pd_wf s1" "epoll_inv s1"
    "st_watchers s1 = (st_watchers s)(w := None)" "lists_become (\<lambda>k. remove1 w) s s1"
    by (rule epl.destroy_step [OF ok(1,2) x(1) l])
  have l1: "epoll_linked entries s1" "memory s1 = memory s" "batch s1 p = batch s p"
    using sv.destroy_kept [OF ok(1-3) x(1) l s1(1), of p] by (simp_all add: memory_def)
  have k1: "watcher_keys s1 = (watcher_keys s)(w := None)" using s1(4) by (simp add: watcher_keys_def fun_eq_iff)
  have kept1: "kept entries l p w s s1"
    by (rule lists_kept [OF s s1(2,3) l1(1,3) s1(5)]) (use k1 s1(4) in \<open>auto split: if_splits\<close>)
  then have r1: "run_ok entries s1" "loop_pdata s1 l = Some p" by (simp_all add: kept_def)
  let ?s2 = "snd (syscall (sys_close (on_machine K) fd) s1)"
  let ?s3 = "set_memory (\<lambda>_. (memory ?s2)(conn := None)) ?s2"
  have w3: "world_step entries s1 ?s3" by (rule world_trans [OF close_world(1) world_memory])
  have run: "close_connection K (pd_platform_epoll (on_machine K) U) w fd conn s = Some ?s3"
    using s1(1) c l1(2) close_world(2) [of fd s1] by (simp add: close_connection_def heap_free_def)
  have "connections_ok l w0 ((watcher_keys s)(w := None)) ((memory s)(conn := None))"
    using connections_remove [OF conns c(1)] c(2) by simp
  then have g1: "connections_ok l w0 (watcher_keys ?s3) (memory ?s3)"
    using world_keys [OF w3] k1 close_world(2) [of fd s1] l1(2) by simp
  have "lists_become (\<lambda>k. remove1 w) s ?s3"
    using s1(5) world_frame [OF w3] by (simp add: lists_become_def)
  then have "server_guard l w0 fd0 es ?s3"
    by (rule server_guard_lists [OF g _ _ _ g1]) (use w(1) k1 world_keys [OF w3] in simp_all)
  then show ?thesis using run kept_trans [OF kept1 world_kept [OF w3 r1]] by blast
qed

text \<open>The callback of a connection.\<close>

lemma read_callback_kept:
  assumes s: "run_ok entries s" "loop_pdata s l = Some p" and g: "server_guard l w0 fd0 es s"
    and w: "w \<noteq> w0" "watcher_keys s w = Some (l, fd, cb, conn)"
    and ev: "\<not> (has_flag ev PD_EVENT_HANGUP \<and> has_flag ev PD_EVENT_ERROR)"
  shows "\<exists>s'. read_callback K S (server_table K) l w ev conn s = Some s' \<and> kept entries l p w s s' \<and> server_guard l w0 fd0 es s'"
proof -
  have conns: "connections_ok l w0 (watcher_keys s) (memory s)" using g by (rule server_guardE)
  obtain c where c: "memory s conn = Some c" "cn_buffer_len c = 0" by (rule connections_key [OF conns w])
  obtain x where x: "st_watchers s w = Some x" "w_fd x = fd" using w(2) by (auto simp: watcher_keys_def timer_key_def)
  have "pd_wf s" using s(1) by (simp add: run_ok_def)
  then have nz: "w \<noteq> NULL" using pd_wf_watcher x(1) by (auto simp: watcher_ok_def)
  have close: "\<exists>s'. close_connection K (server_table K) w fd conn s1 = Some s' \<and> kept entries l p w s s' \<and> server_guard l w0 fd0 es s'"
    if s1: "world_step entries s s1" "server_guard l w0 fd0 es s1" for s1
  proof -
    have k1: "kept entries l p w s s1" by (rule world_kept [OF s1(1) s])
    then have r1: "run_ok entries s1" "loop_pdata s1 l = Some p" by (simp_all add: kept_def)
    have w1: "watcher_keys s1 w = Some (l, fd, cb, conn)" using world_keys [OF s1(1)] w(2) by simp
    show ?thesis
      using close_connection_kept [OF r1 s1(2) w(1) w1] kept_trans [OF k1] unfolding server_table_def by blast
  qed
  have tail: "\<exists>s'. do {
       s \<leftarrow> (if has_flag ev PD_EVENT_HANGUP then close_connection K (server_table K) w fd conn s1 else Some s1);
       if has_flag ev PD_EVENT_ERROR then close_connection K (server_table K) w fd conn s else Some s } = Some s' \<and>
     kept entries l p w s s' \<and> server_guard l w0 fd0 es s'"
    if s1: "world_step entries s s1" "server_guard l w0 fd0 es s1" for s1
  proof (cases "has_flag ev PD_EVENT_HANGUP \<or> has_flag ev PD_EVENT_ERROR")
    case False
    then show ?thesis using s1 world_kept [OF s1(1) s] by simp
  next
    case True
    then show ?thesis using close [OF s1] ev by auto
  qed
  show ?thesis
  proof (cases "has_flag ev PD_EVENT_READ")
    case False
    then show ?thesis using tail [OF world_refl g] x nz by (simp add: read_callback_def pd_watcher_get_fd_def)
  next
    case True
    show ?thesis
    proof (cases rule: recv_bytes_cases [OF c, of fd])
      case (1 b s1)
      have "server_guard l w0 fd0 es s1" by (rule server_guard_world [OF g 1(3)]) (use conns 1(4) in simp_all)
      from close [OF 1(3) this] show ?thesis using True 1(1,2) x nz by (auto simp: read_callback_def pd_watcher_get_fd_def)
    next
      case (2 bs k)
      let ?s1 = "echoed S fd conn c bs k s"
      have bs: "sys_recv S (w_fd x) 4096 (ma_kernel (st_kernel s)) = (Inr bs, k)" using 2(2) x(2) by simp
      note d = recv_data [OF c 2(2)]
      note run = read_echoed [OF x(1) nz c True bs 2(1) d(2), unfolded x(2)]
      have w1: "world_step entries s ?s1"
        unfolding echoed_def by (rule world_trans [OF d(3) world_on_kernel]) (simp add: send_interest)
      have "memory ?s1 = (memory s)(conn \<mapsto> c\<lparr>cn_buffer := store_bytes 0 bs (cn_buffer c)\<rparr>)" by (simp add: echoed_def) (simp add: memory_def received_def)
      then have "server_guard l w0 fd0 es ?s1"
        using connections_buffer [OF conns c(1)] by (intro server_guard_world [OF g w1]) simp_all
      from tail [OF w1 this] show ?thesis unfolding run .
    qed
  qed
qed

lemma calloc_connection_cases:
  obtains (null) s1 where "calloc_connection s = (NULL, s1)" "world_step entries s s1" "memory s1 = memory s"
  | (some) conn s1 where "calloc_connection s = (conn, set_memory (\<lambda>_. (memory s)(conn \<mapsto> zero_connection)) s1)"
      "conn \<noteq> NULL" "memory s conn = None" "world_step entries s s1" "memory s1 = memory s"
      "st_kernel s1 = st_kernel s"
proof -
  have al: "world_step entries s s1 \<and> memory s1 = memory s \<and> st_kernel s1 = st_kernel s" if "upd_alloc s s1" for s1
    using that by (auto simp: world_step_def memory_def elim!: upd_allocE)
  show thesis
    by (rule heap_alloc_cases [of s memory "\<lambda>h. set_memory (\<lambda>_. h)" zero_connection])
      (use al null some in blast)+
qed

lemma attach_watcher_kept:
  assumes s: "run_ok entries s" "loop_pdata s l = Some p" and g: "server_guard l w0 fd0 es s"
    and w3: "world_step entries s s3" "memory s3 = (memory s)(conn \<mapsto> zero_connection\<lparr>cn_fd := f\<rparr>)"
    and conn: "memory s conn = None" "conn \<noteq> NULL" and free: "\<And>ep. entries (st_kernel s3) ep f = None"
  shows "\<exists>s'. attach_watcher K f l conn s3 = Some s' \<and> kept entries l p w0 s s' \<and> server_guard l w0 fd0 es s'"
proof -
  obtain lp where lp: "st_loops s l = Some lp" and w0: "watcher_keys s w0 = Some (l, fd0, Some (Cb_user 0), NULL)"
    and conns: "connections_ok l w0 (watcher_keys s) (memory s)" using g by (rule server_guardE)
  have k3: "kept entries l p w0 s s3" by (rule world_kept [OF w3(1) s])
  then have s3: "run_ok entries s3" "loop_pdata s3 l = Some p" by (simp_all add: kept_def)
  have lp3: "st_loops s3 l = Some lp" using world_frame(1) [OF w3(1)] lp by simp
  have keys3: "watcher_keys s3 = watcher_keys s" by (rule world_keys [OF w3(1)])
  have cb: "Some (Cb_user 1) \<noteq> Some Cb_timerfd" by simp
  show ?thesis
  proof (cases rule: sv.create_watcher_cases [OF s3(1) lp3 s3(2) free cb, where ud = conn and ev = PD_EVENT_READ
        and U = "\<lambda>_ _ _ _ _ _. None" and v = w0])
    case (1 s4)
    let ?s6 = "snd (syscall (sys_close (on_machine K) f) (set_memory (\<lambda>_. memory s) s4))"
    have m4: "memory s4 = (memory s)(conn \<mapsto> zero_connection\<lparr>cn_fd := f\<rparr>)" using 1(3) w3(2) by (simp add: memory_def)
    have r4: "run_ok entries s4" "loop_pdata s4 l = Some p" using 1(2) by (simp_all add: kept_def)
    have w6: "world_step entries s4 ?s6" by (rule world_trans [OF world_memory close_world(1)])
    have "server_guard l w0 fd0 es ?s6"
      by (rule server_guard_lists [OF g lists_become_world [OF w3(1) 1(5) w6]]) (use conns 1(4) keys3 world_keys [OF w6] in simp_all)
    moreover have "((memory s)(conn := None)) = memory s" using conn by (simp add: fun_upd_idem)
    then have "attach_watcher K f l conn s3 = Some ?s6"
      using 1(1) m4 conn by (simp add: attach_watcher_def server_table_def heap_ops)
    ultimately show ?thesis using kept_trans [OF kept_trans [OF k3 1(2)] world_kept [OF w6 r4]] by blast
  next
    case (2 w s4)
    let ?c = "zero_connection\<lparr>cn_fd := f, cn_watcher := w\<rparr>"
    let ?s5 = "set_memory (\<lambda>_. (memory s)(conn \<mapsto> ?c)) s4"
    have m4: "memory s4 = (memory s)(conn \<mapsto> zero_connection\<lparr>cn_fd := f\<rparr>)" using 2(3) w3(2) by (simp add: memory_def)
    have w: "watcher_keys s w = None" "w \<noteq> w0" using 2(7) keys3 w0 by auto
    have r4: "run_ok entries s4" "loop_pdata s4 l = Some p" using 2(2) by (simp_all add: kept_def)
    have w5: "world_step entries s4 ?s5" by (rule world_memory)
    have "connections_ok l w0 (watcher_keys ?s5) (memory ?s5)"
      using connections_add [OF conns w conn, of ?c] 2(4) keys3 world_keys [OF w5] by (simp add: zero_connection_def)
    then have "server_guard l w0 fd0 es ?s5"
      by (intro server_guard_lists [OF g lists_become_world [OF w3(1) 2(5) w5]]) (use 2(4) keys3 world_keys [OF w5] w(2) in simp_all)
    moreover have "attach_watcher K f l conn s3 = Some ?s5"
      using 2(1,6) m4 by (simp add: attach_watcher_def server_table_def heap_ops)
    ultimately show ?thesis using kept_trans [OF kept_trans [OF k3 2(2)] world_kept [OF w5 r4]] by blast
  qed
qed

text \<open>The callback of the listener: a connection with its watcher, or nothing.\<close>

lemma accept_callback_kept:
  assumes s: "run_ok entries s" "loop_pdata s l = Some p" and g: "server_guard l w0 fd0 es s"
  shows "\<exists>s'. accept_callback K S (server_table K) l w0 ev ud s = Some s' \<and> kept entries l p w0 s s' \<and> server_guard l w0 fd0 es s'"
proof -
  have w0: "watcher_keys s w0 = Some (l, fd0, Some (Cb_user 0), NULL)" "w0 \<noteq> NULL"
    and conns: "connections_ok l w0 (watcher_keys s) (memory s)" using g by (auto elim!: server_guardE)
  have quiet: "kept entries l p w0 s s' \<and> server_guard l w0 fd0 es s'" if "world_step entries s s'" "memory s' = memory s" for s'
    using world_kept [OF that(1) s] server_guard_world [OF g that(1)] conns that(2) by simp
  have fd: "pd_watcher_get_fd w0 s = Some fd0" using w0 by (auto simp: pd_watcher_get_fd_def watcher_keys_def timer_key_def)
  obtain r s1 where r: "syscall (on_kernel (sys_accept S fd0)) s = (r, s1)" by fastforce
  have acc: "interest k' = interest k \<and> (\<forall>f. q = Inr f \<longrightarrow> (\<forall>ep. interest k ep (int f) = None))"
    if "sys_accept S fd0 k = (q, k')" for q k k'
    using accept_interest [OF that] by (auto simp: fresh_fd_def)
  have w1: "world_step entries s s1" "memory s1 = memory s"
    using world_on_kernel [of interest "sys_accept S fd0" s] memory_on_kernel [of "sys_accept S fd0" s] acc [OF surjective_pairing] r
    by simp_all
  show ?thesis
  proof (cases r)
    case None
    then show ?thesis using quiet [OF w1] fd r by (simp add: accept_callback_def)
  next
    case (Some f)
    have free: "entries (st_kernel s1) ep (int f) = None" for ep
      using acc r Some by (auto simp: syscall_def on_kernel_def split: prod.splits sum.splits)
    note run = accept_callback_def fd r Some
    show ?thesis
    proof (cases rule: calloc_connection_cases [of s1])
      case (null s2)
      let ?s3 = "snd (syscall (sys_close (on_machine K) (int f)) s2)"
      have "world_step entries s ?s3" "memory ?s3 = memory s"
        using world_trans [OF w1(1) world_trans [OF null(2) close_world(1)]] null(3) w1(2) close_world(2) by simp_all
      then show ?thesis using quiet [of ?s3] null(1) by (simp add: run)
    next
      case (some conn s2)
      let ?s3 = "set_memory (\<lambda>_. (memory s)(conn \<mapsto> zero_connection\<lparr>cn_fd := int f\<rparr>)) s2"
      have w3: "world_step entries s ?s3" by (rule world_trans [OF world_trans [OF w1(1) some(4)] world_memory])
      have "accept_callback K S (server_table K) l w0 ev ud s = attach_watcher K (int f) l conn ?s3"
        using some(1,2) w1(2) by (simp add: run attach_watcher_def heap_write_def)
      moreover have "memory ?s3 = (memory s)(conn \<mapsto> zero_connection\<lparr>cn_fd := int f\<rparr>)" by simp
      ultimately show ?thesis
        using attach_watcher_kept [OF s g w3] some(2,3,6) w1(2) free by simp
    qed
  qed
qed

end

end
