(* ===== verification/Pd_Echo_Run.thy ===== *)
theory Pd_Echo_Run
  imports Pd_Echo_Callbacks
begin

text \<open>
  The run of the server: every delivery of an event keeps the well-typed heap, so the run loop
  of the library does, and with it the whole program.
\<close>

section \<open>The run\<close>

context server_machine begin

lemma server_deliver:
  assumes s: "run_ok entries s" "loop_pdata s l = Some p" and live: "live_batch s (e # es)" and g: "server_guard l w0 fd0 (e # es) s"
  shows "\<exists>s'. deliver (on_machine K) (server_functions K S) l evfd e s = Some s' \<and> kept entries l p (ee_data e) s s' \<and>
    server_guard l w0 fd0 es s'"
proof -
  have conns: "connections_ok l w0 (watcher_keys s) (memory s)" and w0: "watcher_keys s w0 = Some (l, fd0, Some (Cb_user 0), NULL)" "w0 \<noteq> NULL"
    and both: "\<not> both_bits e" using g by (auto elim!: server_guardE)
  have g': "server_guard l w0 fd0 es s" by (rule server_guard_world [OF g world_refl]) (use conns in auto)
  show ?thesis
  proof (cases "ee_data e = NULL")
    case True
    let ?s = "snd (syscall (sys_read (on_machine K) evfd) s)"
    have r: "world_step entries s ?s" "memory ?s = memory s"
      using world_on_kernel [of interest "sys_read K evfd" s] read_interest [OF surjective_pairing] by simp_all
    then show ?thesis
      using True world_kept [OF r(1) s] server_guard_world [OF g' r(1)] conns by (simp add: deliver_def)
  next
    case False
    then obtain x where x: "st_watchers s (ee_data e) = Some x" using live by (auto simp: live_batch_def)
    then have key: "watcher_keys s (ee_data e) = Some (w_loop x, w_fd x, w_callback x, w_user_data x)"
      by (simp add: watcher_keys_def timer_key_def)
    show ?thesis
    proof (cases "ee_data e = w0")
      case True
      then have "w_callback x = Some (Cb_user 0)" using key w0(1) by simp
      then show ?thesis
        using accept_callback_kept [OF s g', of "epoll_to_events (ee_events e)" "w_user_data x"] True False x
        by (simp add: deliver_def run_callback_def server_functions_def)
    next
      case w: False
      obtain c where c: "w_loop x = l" "w_callback x = Some (Cb_user 1)" by (rule connections_key [OF conns w key])
      show ?thesis
        using read_callback_kept [OF s g' w key [unfolded c(1)], of "epoll_to_events (ee_events e)"] both False x c(2)
        by (simp add: deliver_def run_callback_def server_functions_def both_bits_def)
    qed
  qed
qed

end

locale server_run = server_machine K interest S for K :: "'k linux" and interest and S :: "'k sockets" +
  assumes calm: "never_both K"

sublocale server_run \<subseteq> sp: epoll_program "on_machine K :: ('k, addr \<Rightarrow> connection option) machine linux" "\<lambda>x. interest (ma_kernel x)"
    "server_functions K S" l "server_guard l w0 fd0" for l w0 fd0
proof (intro epoll_program.intro epoll_program_axioms.intro sv.epoll_kernel_axioms)
  fix s s' :: "'k server_state" and lp lp' :: pd_loop and p e es evfd ep n tt evs k d err b x
  show "\<exists>s'. deliver (on_machine K) (server_functions K S) l evfd e s = Some s' \<and>
      kept (\<lambda>x. interest (ma_kernel x)) l p (ee_data e) s s' \<and> server_guard l w0 fd0 es s'"
    if "run_ok (\<lambda>x. interest (ma_kernel x)) s" "loop_pdata s l = Some p" "live_batch s (e # es)" "server_guard l w0 fd0 (e # es) s"
    using that by (rule server_deliver)
  show "server_guard l w0 fd0 evs (stored (l_platform_data lp) evs d k s)"
    if "server_guard l w0 fd0 [] s" "sys_epoll_wait (on_machine K) ep n tt (st_kernel s) = (Inr evs, k)"
  proof -
    have "\<not> both_bits e" if "e \<in> set evs" for e
      using never_bothD [OF calm _ that, of ep n tt "ma_kernel (st_kernel s)"] \<open>sys_epoll_wait _ _ _ _ _ = _\<close>
      by (auto simp: on_kernel_eq)
    moreover have "memory (stored (l_platform_data lp) evs d k s) = memory s"
      using sv.mem_call(3) [OF that(2)] by (simp add: stored_def memory_def)
    moreover have "watcher_keys (stored (l_platform_data lp) evs d k s) = watcher_keys s" by (rule watcher_keys_cong) (simp add: stored_def)
    ultimately show ?thesis using that(1) by (simp add: server_guard_def server_at_def stored_def)
  qed
  show "server_guard l w0 fd0 [] (s\<lparr>st_kernel := k, st_errno := err\<rparr>)"
    if g: "server_guard l w0 fd0 [] s" and w: "sys_epoll_wait (on_machine K) ep n tt (st_kernel s) = (Inl err, k)"
  proof -
    have m: "memory (s\<lparr>st_kernel := k, st_errno := err\<rparr>) = memory s" using sv.mem_call(3) [OF w] by (simp add: memory_def)
    have "world_step (\<lambda>x. interest (ma_kernel x)) s (s\<lparr>st_kernel := k, st_errno := err\<rparr>)"
      using sv.wait_fail [OF w] by (simp add: world_step_def)
    then show ?thesis by (rule server_guard_world [OF g]) (use g m in \<open>auto elim!: server_guardE\<close>)
  qed
  show "server_guard l w0 fd0 [] (s\<lparr>st_loops := (st_loops s)(l \<mapsto> lp')\<rparr>)"
    if g: "server_guard l w0 fd0 [] s" and lp: "st_loops s l = Some lp" "lp' = lp\<lparr>l_running := b\<rparr> \<or> lp' = lp\<lparr>l_system_error := err\<rparr>"
  proof -
    have "upd_control lp lp'" using lp(2) by (auto simp: upd_control_def)
    then have "watcher_list lp' = watcher_list lp" by (rule upd_control_list)
    moreover have "watcher_keys (s\<lparr>st_loops := (st_loops s)(l \<mapsto> lp')\<rparr>) = watcher_keys s" by (rule watcher_keys_cong) simp
    moreover have "memory (s\<lparr>st_loops := (st_loops s)(l \<mapsto> lp')\<rparr>) = memory s" by (simp add: memory_def)
    ultimately show ?thesis using g lp by (auto simp: server_guard_def server_at_def)
  qed
qed

section \<open>The whole process\<close>

text \<open>What the server did when its process exits: it does so only if a wait can fail.\<close>

definition server_exit :: "'k linux \<Rightarrow> int \<Rightarrow> 'k server_state \<Rightarrow> bool" where
  "server_exit K code s \<longleftrightarrow> code = 1 \<and> fresh_process s \<and> memory s = Map.empty \<or>
     code = 0 \<and> st_loops s = Map.empty \<and> wait_breaks K"

text \<open>The state before the listener's watcher is created.\<close>

definition booted :: "('k \<Rightarrow> int \<Rightarrow> int \<Rightarrow> epoll_event option) \<Rightarrow> addr \<Rightarrow> 'k server_state \<Rightarrow> bool" where
  "booted interest l s \<longleftrightarrow> run_ok (\<lambda>x. interest (ma_kernel x)) s \<and> (\<exists>lp. st_loops s = [l \<mapsto> lp] \<and> l_ref_count lp = 1 \<and> watcher_list lp = [] \<and> \<not> l_stop_requested lp) \<and>
     st_watchers s = Map.empty \<and> st_timers s = Map.empty \<and> memory s = Map.empty"

context server_run begin

abbreviation "server_ops \<equiv> pd_platform_epoll (on_machine K) (server_functions K S)"

lemma booted_world: "booted interest l s \<Longrightarrow> world_step entries s s' \<Longrightarrow> memory s' = memory s \<Longrightarrow> booted interest l s'"
  using world_run_ok [of entries s s'] world_frame [of entries s s'] by (auto simp: booted_def)

lemma booted_destroy:
  assumes "booted interest l s"
  obtains s' where "pd_loop_destroy server_ops l s = Some s'" "fresh_process s'" "memory s' = Map.empty"
proof -
  obtain lp where lp: "st_loops s = [l \<mapsto> lp]" "l_ref_count lp = 1" "watcher_list lp = []" using assms by (auto simp: booted_def)
  have ok: "pd_wf s" "epoll_inv s" "st_loops s l = Some lp" using assms lp(1) by (simp_all add: booted_def run_ok_def)
  obtain s' where s': "pd_loop_destroy server_ops l s = Some s'" "st_loops s' = (st_loops s)(l := None)" "same_objects s s'"
    "ma_memory (st_kernel s') = ma_memory (st_kernel s)"
    by (rule sv.loop_destroy_empty [OF ok lp(2,3)])
  have "fresh_process s'" using s'(2,3) assms lp(1) by (simp add: fresh_process_def same_objects_def booted_def)
  then show thesis using that [OF s'(1)] s'(4) assms by (simp add: booted_def memory_def)
qed

lemma booted_fail:
  assumes "booted interest l s"
  obtains s' where "pd_loop_destroy server_ops l (snd (syscall (sys_close (on_machine K) fd) s)) = Some s'" "fresh_process s'" "memory s' = Map.empty"
  using booted_destroy [OF booted_world [OF assms close_world]] by blast

text \<open>What follows the run: the listener is destroyed, and the loop.\<close>

lemma server_shutdown:
  assumes run: "run_ok entries s" and g: "server_guard l w0 fd0 es s"
  obtains s1 s2 where "pd_watcher_destroy server_ops w0 s = Some s1"
    "pd_loop_destroy server_ops l (snd (syscall (sys_close (on_machine K) fd) s1)) = Some s2" "st_loops s2 = Map.empty"
proof -
  have ok: "pd_wf s" "epoll_inv s" using run by (simp_all add: run_ok_def)
  obtain lp where lp: "st_loops s = [l \<mapsto> lp]" "st_loops s l = Some lp" "l_ref_count lp = 1"
    "watcher_keys s w0 = Some (l, fd0, Some (Cb_user 0), NULL)" using g by (rule server_guardE)
  have l: "l \<noteq> NULL" using pd_wf_loop [OF ok(1) lp(2)] by (simp add: loop_ok_def)
  obtain x where x: "st_watchers s w0 = Some x" "w_loop x = l" using lp(4) by (auto simp: watcher_keys_def timer_key_def)
  then have xl: "w_loop x \<noteq> NULL" using l by simp
  obtain s1 where s1: "pd_watcher_destroy server_ops w0 s = Some s1" "pd_wf s1" "epoll_inv s1" "lists_become (\<lambda>k. remove1 w0) s s1"
    by (rule epl.destroy_step [OF ok x(1) xl])
  let ?s2 = "snd (syscall (sys_close (on_machine K) fd) s1)"
  obtain lp1 where lp1: "st_loops s1 = [l \<mapsto> lp1]" "l_ref_count lp1 = 1"
    by (rule single_loop [OF lists_become_change [OF s1(4)] lp(1)]) (use lp(3) in simp)
  have up: "upd_kernel s1 ?s2" by (rule syscall_kernel)
  have wf2: "pd_wf ?s2" "epoll_inv ?s2"
    using s1(2,3) pd_wf_loops_undo [of ?s2 s1] epoll_inv_cong [of s1 ?s2] upd_kernel_frame [OF up] by simp_all
  have l2: "st_loops ?s2 l = Some lp1" using lp1(1) upd_kernel_frame(1) [OF up] by simp
  obtain s3 where s3: "pd_loop_unref server_ops l ?s2 = Some s3" "st_loops s3 l = None"
    "\<forall>k. k \<noteq> l \<longrightarrow> rel_option upd_list (st_loops ?s2 k) (st_loops s3 k)"
    by (rule epl.unref_last_step [OF wf2 l2 lp1(2), where K = "on_machine K" and U = "server_functions K S"]) blast
  have "st_loops s3 k = None" for k
    using s3(2) spec [OF s3(3), of k] lp1(1) upd_kernel_frame(1) [OF up] by (cases "k = l") simp_all
  then show thesis using that [OF s1(1)] s3(1) l by (auto simp: pd_loop_destroy_def)
qed

text \<open>The run and what follows, once the listener has its watcher: it is not idle.\<close>

lemma server_not_idle:
  assumes "run_ok entries s" "server_guard l w0 fd0 es s"
  shows "\<not> idle l s"
proof -
  obtain lp where lp: "st_loops s l = Some lp" "\<not> l_stop_requested lp" "w0 \<in> set (watcher_list lp)" using assms(2) by (rule server_guardE)
  have "wf_array lp" using pd_wf_loop lp(1) assms(1) by (auto simp: loop_ok_def run_ok_def)
  then have "l_watcher_count lp \<noteq> 0" using wf_array_count [of lp] lp(3) by auto
  then show ?thesis using lp(1,2) by (simp add: idle_def)
qed

lemma server_started:
  assumes run: "run_ok entries s" and g: "server_guard l w0 fd0 [] s"
  shows "\<exists>r. (do {
      r \<leftarrow> pd_loop_run server_ops n l s;
      case r of
        Running s \<Rightarrow> Some (Running s)
      | Returned _ s \<Rightarrow> do {
          s \<leftarrow> pd_watcher_destroy server_ops w0 s;
          let s = snd (syscall (sys_close (on_machine K) fd) s);
          s \<leftarrow> pd_loop_destroy server_ops l s;
          Some (Returned 0 s) } }) = Some r \<and>
    (case r of Running s' \<Rightarrow> run_ok entries s' \<and> server_guard l w0 fd0 [] s'
     | Returned code s' \<Rightarrow> server_exit K code s')"
proof -
  obtain lp where at: "server_at l w0 fd0 [] lp s" using g by (auto simp: server_guard_def)
  then have lp: "st_loops s = [l \<mapsto> lp]" "st_loops s l = Some lp" by (simp_all add: server_at_def)
  let ?lp = "lp\<lparr>l_running := True, l_stop_requested := False\<rparr>"
  let ?s = "s\<lparr>st_loops := (st_loops s)(l \<mapsto> ?lp)\<rparr>"
  have "watcher_list ?lp = watcher_list lp" by (rule upd_control_list) simp
  moreover have "watcher_keys ?s = watcher_keys s" "memory ?s = memory s" by (rule watcher_keys_cong) (simp_all add: memory_def)
  ultimately have "server_at l w0 fd0 [] ?lp ?s" using at by (simp add: server_at_def)
  then have g1: "server_guard l w0 fd0 [] ?s" by (auto simp: server_guard_def)
  obtain r where r: "pd_loop_run server_ops n l s = Some r"
    "case r of Running s' \<Rightarrow> run_ok entries s' \<and> server_guard l w0 fd0 [] s' \<and> loop_pdata s' l \<noteq> None
     | Returned c s' \<Rightarrow> run_ok entries s' \<and> server_guard l w0 fd0 [] s' \<and> loop_pdata s' l \<noteq> None \<and>
         (if c = 0 then idle l s' else c < 0 \<and> wait_breaks (on_machine K :: ('k, addr \<Rightarrow> connection option) machine linux))"
    using sp.run_kept [OF run lp(2) g1] by blast
  show ?thesis
  proof (cases r)
    case (Running s')
    then show ?thesis using r by simp
  next
    case (Returned c s')
    then have s': "run_ok entries s'" "server_guard l w0 fd0 [] s'" using r(2) by simp_all
    have "wait_breaks K" using server_not_idle [OF s'] r(2) Returned machine_breaks by (auto split: if_splits)
    moreover obtain s1 s2 where "pd_watcher_destroy server_ops w0 s' = Some s1"
      "pd_loop_destroy server_ops l (snd (syscall (sys_close (on_machine K) fd) s1)) = Some s2" "st_loops s2 = Map.empty"
      by (rule server_shutdown [OF s'])
    ultimately show ?thesis using r(1) Returned by (simp add: server_exit_def)
  qed
qed

text \<open>The listener gets its watcher.\<close>

lemma booted_listener:
  assumes b: "booted interest l s" and free: "\<And>ep. entries (st_kernel s) ep fd = None"
  obtains (null) s' where "pd_watcher_create server_ops l fd PD_EVENT_READ (Some (Cb_user 0)) NULL s = Some (NULL, s')" "booted interest l s'"
  | (some) w s' where "pd_watcher_create server_ops l fd PD_EVENT_READ (Some (Cb_user 0)) NULL s = Some (w, s')" "w \<noteq> NULL"
      "run_ok entries s'" "server_guard l w fd [] s'"
proof -
  obtain lp where lp: "st_loops s = [l \<mapsto> lp]" "l_ref_count lp = 1" "watcher_list lp = []" "\<not> l_stop_requested lp"
    using b by (auto simp: booted_def)
  have bs: "run_ok entries s" "st_watchers s = Map.empty" "st_timers s = Map.empty" "memory s = Map.empty" using b by (simp_all add: booted_def)
  have l: "st_loops s l = Some lp" "loop_pdata s l = Some (l_platform_data lp)" using lp(1) by (simp_all add: loop_pdata_def)
  have stop: "\<not> l_stop_requested lp'" if "upd_list lp lp'" for lp' using that lp(4) by (auto elim!: upd_listE)
  have cb: "Some (Cb_user 0) \<noteq> Some Cb_timerfd" by simp
  show thesis
  proof (cases rule: sv.create_watcher_cases [OF bs(1) l free cb, where ud = NULL and ev = PD_EVENT_READ
        and U = "server_functions K S" and v = NULL])
    case (1 s')
    obtain lp' where lp': "st_loops s' = [l \<mapsto> lp']" "upd_list lp lp'" "l_ref_count lp' = 1" "watcher_list lp' = []"
      by (rule single_loop [OF lists_become_change [OF 1(5)] lp(1)]) (use lp in simp)
    have "run_ok entries s'" using 1(2) by (simp add: kept_def)
    moreover have "st_watchers s' = Map.empty" "st_timers s' = Map.empty" "memory s' = Map.empty"
      using 1(3,5,6) bs by (simp_all add: lists_become_def memory_def)
    ultimately have "booted interest l s'" using lp' stop unfolding booted_def by blast
    then show thesis by (rule null [OF 1(1)])
  next
    case (2 w s')
    obtain lp' where lp': "st_loops s' = [l \<mapsto> lp']" "upd_list lp lp'" "l_ref_count lp' = 1" "watcher_list lp' = [w]"
      by (rule single_loop [OF lists_become_change [OF 2(5)] lp(1)]) (use lp in simp)
    have keys: "watcher_keys s' = [w \<mapsto> (l, fd, Some (Cb_user 0), NULL)]"
      using 2(4) bs(2) by (simp add: watcher_keys_def fun_eq_iff)
    have "connections_ok l w (watcher_keys s') (memory s')" using keys 2(3) bs(4) by (simp add: connections_ok_def memory_def)
    then have "server_at l w fd [] lp' s'" using lp' stop keys 2(6) by (simp add: server_at_def)
    then show thesis using some [OF 2(1,6)] 2(2) by (auto simp: server_guard_def kept_def)
  qed
qed

lemma booted_call:
  assumes "booted interest l s" "\<And>ep. entries (st_kernel s) ep fd = None" "syscall (on_kernel f) s = (r, s')" "\<And>k. interest (snd (f k)) = interest k"
  shows "booted interest l s' \<and> (\<forall>ep. entries (st_kernel s') ep fd = None)"
proof -
  have s': "s' = snd (syscall (on_kernel f) s)" using assms(3) by simp
  have w: "world_step entries s s'" unfolding s' by (rule world_on_kernel) (simp add: assms(4))
  have "memory s' = memory s" unfolding s' by simp
  from booted_world [OF assms(1) w this] world_no_entry [OF w assms(2)] show ?thesis by blast
qed

lemma simple_server_ok:
  assumes s: "fresh_process s" "memory s = Map.empty"
  shows "\<exists>r. simple_server K S n s = Some r \<and>
    (case r of Running s' \<Rightarrow> run_ok entries s' \<and> (\<exists>l w0 fd0. server_guard l w0 fd0 [] s')
     | Returned code s' \<Rightarrow> server_exit K code s')"
proof (cases rule: sv.fresh_loop_create [OF s(1), where target = PD_PLATFORM_LINUX and config = None and U = "server_functions K S"])
  case (1 s1)
  then show ?thesis using s(2) by (simp add: simple_server_def server_exit_def memory_def)
next
  case (2 l s1 lp)
  then have m1: "memory s1 = Map.empty" using s(2) by (simp add: memory_def)
  have b1: "booted interest l s1" unfolding booted_def using 2(3,5-9,11) m1 by blast
  note start = simple_server_def 2(1,2)
  have exit: "server_exit K 1 s'" if "fresh_process s'" "memory s' = Map.empty" for s' :: "'k server_state"
    using that by (simp add: server_exit_def)
  have sock: "interest k' = interest k \<and> (\<forall>f. r = Inr f \<longrightarrow> (\<forall>ep. interest k ep (int f) = None))"
    if "sys_socket S k = (r, k')" for r k k'
    using socket_interest [OF that] by (auto simp: fresh_fd_def)
  obtain r2 s2 where s2: "syscall (on_kernel (sys_socket S)) s1 = (r2, s2)" by fastforce
  have w2: "world_step entries s1 s2" "memory s2 = memory s1"
    using world_on_kernel [of interest "sys_socket S" s1] memory_on_kernel [of "sys_socket S" s1] sock [OF surjective_pairing] s2 by simp_all
  have b2: "booted interest l s2" by (rule booted_world [OF b1 w2])
  show ?thesis
  proof (cases r2)
    case None
    obtain s' where "pd_loop_destroy server_ops l s2 = Some s'" "fresh_process s'" "memory s' = Map.empty"
      by (rule booted_destroy [OF b2])
    then show ?thesis using exit s2 None by (simp add: start)
  next
    case (Some f)
    let ?fd = "int f"
    have f2: "entries (st_kernel s2) ep ?fd = None" for ep
      using sock s2 Some by (auto simp: syscall_def on_kernel_def split: prod.splits sum.splits)
    obtain r3 s3 where s3: "syscall (on_kernel (sys_reuseaddr S ?fd)) s2 = (r3, s3)" by fastforce
    have b3: "booted interest l s3" "\<And>ep. entries (st_kernel s3) ep ?fd = None"
      using booted_call [OF b2 f2 s3 reuseaddr_interest] by simp_all
    obtain r4 s4 where s4: "syscall (on_kernel (sys_bind S ?fd PORT)) s3 = (r4, s4)" by fastforce
    have b4: "booted interest l s4" "\<And>ep. entries (st_kernel s4) ep ?fd = None" using booted_call [OF b3 s4 bind_interest] by simp_all
    obtain r5 s5 where s5: "syscall (on_kernel (sys_listen S ?fd 5)) s4 = (r5, s5)" by fastforce
    have b5: "booted interest l s5" "\<And>ep. entries (st_kernel s5) ep ?fd = None" using booted_call [OF b4 s5 listen_interest] by simp_all
    note start = start s2 Some s3 s4 s5 Let_def
    show ?thesis
    proof (cases "r4 = None \<or> r5 = None")
      case True
      define s6 where "s6 = (if r4 = None then s4 else s5)"
      have "booted interest l s6" using b4(1) b5(1) by (simp add: s6_def)
      then obtain s' where "pd_loop_destroy server_ops l (snd (syscall (sys_close (on_machine K) ?fd) s6)) = Some s'" "server_exit K 1 s'"
        using booted_fail exit by metis
      then show ?thesis using True by (cases "r4 = None") (simp_all add: start s6_def)
    next
      case False
      then have "r4 = Some ()" "r5 = Some ()" by auto
      note start = start this
      show ?thesis
      proof (cases rule: booted_listener [OF b5])
        case (1 s6)
        obtain s' where "pd_loop_destroy server_ops l (snd (syscall (sys_close (on_machine K) ?fd) s6)) = Some s'" "server_exit K 1 s'"
          using booted_fail [OF 1(2)] exit by metis
        then show ?thesis using 1(1) by (simp add: start)
      next
        case (2 w s6)
        then show ?thesis using server_started [OF 2(3,4), of n ?fd] by (simp add: start split: run_result.splits, blast)
      qed
    qed
  qed
qed

end

end
