(* ===== verification/Pd_Echo_Props.thy ===== *)
theory Pd_Echo_Props
  imports Pd_Echo_Run
begin

text \<open>
  A network for the server, which keeps the promises of \<open>socket_kernel\<close>, and the properties of the
  server, with the runs on that network that show that their hypotheses hold.
\<close>

section \<open>A network\<close>

text \<open>
  Sockets on top of the kernel \<open>ref_linux\<close>. A client that will connect is a list of chunks it
  sends and the conditions the kernel reports of its socket besides that it is readable; after
  the last chunk the connection is at its end. What the server sends is kept in order.
\<close>

record ref_net =
  rn_clients :: "(8 word list list \<times> 32 word) list"
  rn_inbox :: "(int \<times> 8 word list list) list"
  rn_outbox :: "(int \<times> 8 word list) list"

type_synonym net_kernel = "(ref_kernel, ref_net) machine"

definition net_ready :: "int \<Rightarrow> 32 word option \<Rightarrow> net_kernel \<Rightarrow> net_kernel" where
  "net_ready fd m x = x\<lparr>ma_kernel := (ma_kernel x)\<lparr>rk_ready :=
     (case m of None \<Rightarrow> rk_del fd (rk_ready (ma_kernel x)) | Some m \<Rightarrow> rk_put fd m (rk_ready (ma_kernel x)))\<rparr>\<rparr>"

definition net_listen :: "int \<Rightarrow> int \<Rightarrow> net_kernel \<Rightarrow> (int + unit) \<times> net_kernel" where
  "net_listen fd n x = (Inr (), if rn_clients (ma_memory x) = [] then x else net_ready fd (Some EPOLLIN) x)"

definition net_accept :: "int \<Rightarrow> net_kernel \<Rightarrow> (int + nat) \<times> net_kernel" where
  "net_accept fd x =
    (case rn_clients (ma_memory x) of
       [] \<Rightarrow> (Inl EAGAIN, x)
     | (chunks, m) # rest \<Rightarrow>
         (case on_kernel rk_open_fd x of
            (Inl e, x) \<Rightarrow> (Inl e, x)
          | (Inr f, x) \<Rightarrow>
              let x = net_ready (int f) (Some (EPOLLIN OR m)) x;
                  x = (if rest = [] then net_ready fd None x else x)
              in (Inr f, x\<lparr>ma_memory := (ma_memory x)\<lparr>rn_clients := rest,
                   rn_inbox := rk_put (int f) chunks (rn_inbox (ma_memory x))\<rparr>\<rparr>)))"

definition net_recv :: "int \<Rightarrow> 64 word \<Rightarrow> net_kernel \<Rightarrow> (int + 8 word list) \<times> net_kernel" where
  "net_recv fd n x =
    (case map_of (rn_inbox (ma_memory x)) fd of
       None \<Rightarrow> (Inl EBADF, x)
     | Some [] \<Rightarrow> (Inr [], x)
     | Some (c # cs) \<Rightarrow>
         let (now, later) = (if int (length c) \<le> uint n then (c, cs) else (take (unat n) c, drop (unat n) c # cs))
         in (Inr now, x\<lparr>ma_memory := (ma_memory x)\<lparr>rn_inbox := rk_put fd later (rn_inbox (ma_memory x))\<rparr>\<rparr>))"

definition net_send :: "int \<Rightarrow> 8 word list \<Rightarrow> net_kernel \<Rightarrow> (int + nat) \<times> net_kernel" where
  "net_send fd bs x = (Inr (length bs), x\<lparr>ma_memory := (ma_memory x)\<lparr>rn_outbox := rn_outbox (ma_memory x) @ [(fd, bs)]\<rparr>\<rparr>)"

definition ref_sockets :: "net_kernel sockets" where
  "ref_sockets = \<lparr>sys_socket = on_kernel rk_open_fd, sys_reuseaddr = \<lambda>fd x. (Inr (), x), sys_bind = \<lambda>fd port x. (Inr (), x),
     sys_listen = net_listen, sys_accept = net_accept, sys_recv = net_recv, sys_send = net_send\<rparr>"

definition ex_server :: "(8 word list list \<times> 32 word) list \<Rightarrow> net_kernel server_state" where
  "ex_server clients = \<lparr>st_loops = Map.empty, st_watchers = Map.empty, st_timers = Map.empty, st_ldata = Map.empty,
     st_wdata = Map.empty, st_tdata = Map.empty,
     st_kernel = \<lparr>ma_kernel = \<lparr>ma_kernel = rk_init, ma_memory = \<lparr>rn_clients = clients, rn_inbox = [], rn_outbox = []\<rparr>\<rparr>,
       ma_memory = Map.empty\<rparr>,
     st_errno = 0, st_choices = map Gives [1, 2, 3, 4, 5, 6, 7, 8, 9, 10, 11, 12, 13, 14, 15, 16, 17, 18],
     st_default_loop = NULL, st_thread_safe = True\<rparr>"

definition sent :: "net_kernel server_state \<Rightarrow> (int \<times> 8 word list) list" where
  "sent s = rn_outbox (ma_memory (ma_kernel (st_kernel s)))"


text \<open>The same network, whose waits report no errors.\<close>

definition calm_event :: "epoll_event \<Rightarrow> epoll_event" where
  "calm_event e = e\<lparr>ee_events := ee_events e AND NOT EPOLLERR\<rparr>"

abbreviation "net_entry \<equiv> \<lambda>x :: net_kernel. rk_entry (ma_kernel x)"

lemma calm_reports:
  assumes "reports entries e fd"
  shows "reports entries (calm_event e) fd"
proof -
  have "(m AND NOT EPOLLERR) AND n = 0" if "m AND n = 0" for m n :: "32 word"
  proof -
    have "(m AND NOT EPOLLERR) AND n = (m AND n) AND NOT EPOLLERR" by (simp only: ac_simps)
    then show ?thesis using that by simp
  qed
  then show ?thesis using assms by (auto simp: reports_def calm_event_def)
qed

lemma net_ready_entry [simp]: "net_entry (net_ready fd m x) = net_entry x"
  by (simp add: net_ready_def rk_entry_def [abs_def])

definition map_wait :: "(epoll_event \<Rightarrow> epoll_event) \<Rightarrow> 'k linux \<Rightarrow> 'k linux" where
  "map_wait g K = K\<lparr>sys_epoll_wait := \<lambda>ep n t x.
     (case sys_epoll_wait K ep n t x of (Inl e, x) \<Rightarrow> (Inl e, x) | (Inr evs, x) \<Rightarrow> (Inr (map g evs), x))\<rparr>"

lemma map_wait_kernel:
  assumes K: "linux_kernel K interest" and g: "\<And>entries e fd. reports entries e fd \<Longrightarrow> reports entries (g e) fd"
  shows "linux_kernel (map_wait g K) interest"
proof -
  note E = linux_kernel.axioms(1) [OF K]
  have same: "sys_epoll_ctl (map_wait g K) = sys_epoll_ctl K" "sys_epoll_create1 (map_wait g K) = sys_epoll_create1 K"
    "sys_eventfd (map_wait g K) = sys_eventfd K" "sys_timerfd_create (map_wait g K) = sys_timerfd_create K"
    "sys_timerfd_settime (map_wait g K) = sys_timerfd_settime K" "sys_read (map_wait g K) = sys_read K"
    "sys_write (map_wait g K) = sys_write K" "sys_close (map_wait g K) = sys_close K" by (simp_all add: map_wait_def)
  have wait_ok: "int (length evs) \<le> n \<and> interest k' = interest k \<and> (\<exists>fds. distinct fds \<and> list_all2 (reports (interest k ep)) evs fds)"
    if w: "sys_epoll_wait (map_wait g K) ep n t k = (Inr evs, k')" "0 < n" for ep n t k evs k'
  proof -
    obtain evs0 where e: "sys_epoll_wait K ep n t k = (Inr evs0, k')" "evs = map g evs0"
      using w(1) by (auto simp: map_wait_def split: prod.splits sum.splits)
    obtain fds where "int (length evs0) \<le> n" "interest k' = interest k" "distinct fds" "list_all2 (reports (interest k ep)) evs0 fds"
      using epoll_kernel.wait_ok [OF E e(1) w(2)] by blast
    moreover from this(4) have "list_all2 (reports (interest k ep)) evs fds"
      unfolding e(2) list_all2_map1 by (rule list_all2_mono) (rule g)
    ultimately show ?thesis using e(2) by auto
  qed
  have wait_fail: "interest k' = interest k" if "sys_epoll_wait (map_wait g K) ep n t k = (Inl e, k')" for ep n t k e k'
    using that epoll_kernel.wait_fail [OF E, of ep n t k e k'] by (auto simp: map_wait_def split: prod.splits sum.splits)
  have "epoll_kernel (map_wait g K) interest"
    by (rule epoll_kernel.intro; (rule wait_ok wait_fail; assumption)?; unfold same)
      (fact epoll_kernel.add_ok [OF E] epoll_kernel.mod_ok [OF E] epoll_kernel.del_ok [OF E] epoll_kernel.mod_works [OF E]
        epoll_kernel.del_works [OF E] epoll_kernel.ctl_fail [OF E] epoll_kernel.read_interest [OF E])+
  moreover have "linux_kernel_axioms (map_wait g K) interest"
    using linux_kernel.axioms(2) [OF K] unfolding linux_kernel_axioms_def same .
  ultimately show ?thesis by (rule linux_kernel.intro)
qed

definition calm_linux :: "net_kernel linux" where
  "calm_linux = map_wait calm_event (on_machine ref_linux)"

lemma calm_linux_kernel: "linux_kernel calm_linux net_entry"
  unfolding calm_linux_def by (rule map_wait_kernel [OF ref_program.linux_kernel_axioms calm_reports])

lemma calm_never_both: "never_both calm_linux"
proof -
  have "\<not> both_bits (calm_event e)" for e
    by (simp add: both_bits_def calm_event_def event_has_flag bit_epoll_to_events bit_and_iff bit_not_iff epoll_bits)
  then show ?thesis by (auto simp: never_both_def calm_linux_def map_wait_def split: prod.splits sum.splits)
qed

lemma rk_open_net:
  assumes "on_kernel rk_open_fd x = (r, x')"
  shows "fresh_fd net_entry x r x'"
  using assms by (auto simp: on_kernel_eq fresh_fd_def elim!: rk_open_fd_fresh)

lemma net_sockets: "socket_kernel K interest ref_sockets" if "linux_kernel K net_entry" "interest = net_entry" for K interest
  unfolding that(2)
proof (intro socket_kernel.intro socket_kernel_axioms.intro that(1))
  fix x x' :: net_kernel and r fd q m bs bs' port k
  show "fresh_fd net_entry x r x'" if "sys_socket ref_sockets x = (r, x')" using that rk_open_net by (simp add: ref_sockets_def)
  show "fresh_fd net_entry x r x'" if "sys_accept ref_sockets fd x = (r, x')"
    using that rk_open_net [of x] by (auto simp: ref_sockets_def net_accept_def fresh_fd_def Let_def split: list.splits prod.splits sum.splits)
  show "net_entry (snd (sys_reuseaddr ref_sockets fd x)) = net_entry x" "net_entry (snd (sys_bind ref_sockets fd port x)) = net_entry x"
    "net_entry (snd (sys_listen ref_sockets fd q x)) = net_entry x" "net_entry (snd (sys_recv ref_sockets fd m x)) = net_entry x"
    "net_entry (snd (sys_send ref_sockets fd bs x)) = net_entry x"
    by (auto simp: ref_sockets_def net_listen_def net_recv_def net_send_def Let_def split: option.splits list.splits)
  show "int (length bs') \<le> uint m" if "sys_recv ref_sockets fd m x = (Inr bs', x')"
  proof -
    have b: "int (min a b) \<le> int b" for a b by simp
    have "int (min a (unat m)) \<le> uint m" for a using b [of a "unat m"] by (simp del: of_nat_min)
    then show ?thesis using that by (auto simp: ref_sockets_def net_recv_def split: option.splits list.splits if_splits)
  qed
qed

interpretation ref_net: socket_kernel calm_linux net_entry ref_sockets
  by (rule net_sockets [OF calm_linux_kernel refl])

interpretation ref_server: server_machine calm_linux net_entry ref_sockets
  by (intro server_machine.intro ref_net.socket_kernel_axioms)

interpretation ref_server_run: server_run calm_linux net_entry ref_sockets
  by (intro server_run.intro server_run_axioms.intro ref_server.server_machine_axioms calm_never_both)

section \<open>Properties\<close>







text \<open>A connection that was closed once cannot be closed again: its watcher is gone.\<close>

lemma close_connection_freed:
  assumes "st_watchers s w = None" "w \<noteq> NULL"
  shows "close_connection K P w fd conn s = None"
  using assms by (simp add: close_connection_def pd_watcher_destroy_def pd_watcher_stop_def)

lemma close_connection_frees:
  assumes "close_connection K P w fd conn s = Some s'" "w \<noteq> NULL"
  shows "st_watchers s' w = None"
proof -
  obtain s1 where s1: "pd_watcher_destroy P w s = Some s1" "free_connection conn (snd (syscall (sys_close (on_machine K) fd) s1)) = Some s'"
    using assms(1) by (auto simp: close_connection_def bind_Some_iff)
  obtain s0 where "free_watcher w s0 = Some s1" using s1(1) assms(2) by (auto simp: pd_watcher_destroy_def bind_Some_iff)
  then have "st_watchers s1 w = None" using assms(2) by (auto simp: heap_free_def split: if_splits)
  moreover have "st_watchers s' = st_watchers s1"
    using s1(2) upd_kernel_frame(2) [OF syscall_kernel, of "sys_close (on_machine K) fd" s1] by (auto simp: heap_free_def split: if_splits)
  ultimately show ?thesis by simp
qed

text \<open>
  C23: the callback of a connection sends back exactly the bytes it received, in their order,
  and leaves the connection as it was, with an empty buffer.
\<close>

theorem read_callback_echoes:
  assumes "st_watchers s w = Some x" and "w \<noteq> NULL" and "memory s conn = Some c" and "cn_buffer_len c = 0"
    and "has_flag ev PD_EVENT_READ" and "\<not> has_flag ev PD_EVENT_HANGUP" and "\<not> has_flag ev PD_EVENT_ERROR"
    and "sys_recv S (w_fd x) 4096 (ma_kernel (st_kernel s)) = (Inr bs, k)" and "bs \<noteq> []" and "length bs \<le> 4096"
  shows "\<exists>s' b. read_callback K S P l w ev conn s = Some s' \<and> ma_kernel (st_kernel s') = snd (sys_send S (w_fd x) bs k) \<and>
    memory s' = (memory s)(conn \<mapsto> c\<lparr>cn_buffer := b\<rparr>) \<and> map b [0..<length bs] = bs \<and>
    st_watchers s' = st_watchers s \<and> st_loops s' = st_loops s"
proof -
  let ?s = "echoed S (w_fd x) conn c bs k s" and ?b = "store_bytes 0 bs (cn_buffer c)"
  have n: "int (length bs) \<le> 4096" using assms(10) by simp
  have run: "read_callback K S P l w ev conn s = Some ?s" using assms(6,7) read_echoed [OF assms(1-5,8,9) n] by simp
  obtain en where "?s = (received conn c bs k s)\<lparr>st_kernel := snd (on_kernel (sys_send S (w_fd x) bs) (st_kernel (received conn c bs k s))), st_errno := en\<rparr>"
    unfolding echoed_def using syscall_snd [of "on_kernel (sys_send S (w_fd x) bs)" "received conn c bs k s"] by blast
  then have "ma_kernel (st_kernel ?s) = snd (sys_send S (w_fd x) bs k) \<and> memory ?s = (memory s)(conn \<mapsto> c\<lparr>cn_buffer := ?b\<rparr>) \<and>
      st_watchers ?s = st_watchers s \<and> st_loops ?s = st_loops s"
    by (simp add: received_def memory_def)
  then show ?thesis using run store_bytes_all [OF refl, of bs "cn_buffer c"] by blast
qed

text \<open>A connection that has received two bytes.\<close>

definition ex_client :: "net_kernel server_state" where
  "ex_client = (ex_server [])\<lparr>st_watchers := [10 \<mapsto> new_watcher 1 6 PD_EVENT_READ (Some (Cb_user 1)) 20],
     st_kernel := \<lparr>ma_kernel = \<lparr>ma_kernel = rk_init, ma_memory = \<lparr>rn_clients = [], rn_inbox = [(6, [[104, 105]])], rn_outbox = []\<rparr>\<rparr>,
       ma_memory = [20 \<mapsto> zero_connection\<lparr>cn_watcher := 10, cn_fd := 6\<rparr>]\<rparr>\<rparr>"

lemma ex_client_facts:
  "st_watchers ex_client 10 = Some (new_watcher 1 6 PD_EVENT_READ (Some (Cb_user 1)) 20)"
  "memory ex_client 20 = Some (zero_connection\<lparr>cn_watcher := 10, cn_fd := 6\<rparr>)"
  "w_fd (new_watcher 1 6 PD_EVENT_READ (Some (Cb_user 1)) 20) = 6" "cn_buffer_len (zero_connection\<lparr>cn_watcher := 10, cn_fd := 6\<rparr>) = 0"
  by (simp_all add: ex_client_def memory_def new_watcher_def zero_connection_def)

lemma ex_client_recv:
  obtains k where "sys_recv ref_sockets 6 4096 (ma_kernel (st_kernel ex_client)) = (Inr [104, 105], k)" "rn_outbox (ma_memory k) = []"
  by (simp add: ex_client_def ref_sockets_def net_recv_def)

theorem read_callback_echoes_witness:
  "\<exists>s'. read_callback calm_linux ref_sockets (server_table calm_linux) 1 10 PD_EVENT_READ 20 ex_client = Some s' \<and>
     sent s' = [(6, [104, 105])]"
proof -
  obtain k where k: "sys_recv ref_sockets 6 4096 (ma_kernel (st_kernel ex_client)) = (Inr [104, 105], k)" "rn_outbox (ma_memory k) = []"
    by (rule ex_client_recv)
  from read_callback_echoes [OF ex_client_facts(1) _ ex_client_facts(2), of PD_EVENT_READ ref_sockets "[104, 105]" k calm_linux "server_table calm_linux" 1] k
  show ?thesis by (auto simp: ex_client_facts(3-) event_has_flag event_bits sent_def ref_sockets_def net_send_def)
qed

text \<open>
  C24: after a hang-up the callback goes on to look at the error bit: when both are set, it
  destroys the freed watcher again, also when the read before them got data.
\<close>

theorem reset_uses_freed_watcher:
  assumes "w \<noteq> NULL" and "has_flag ev PD_EVENT_HANGUP" and "has_flag ev PD_EVENT_ERROR" and "st_watchers s w = Some x"
    and "has_flag ev PD_EVENT_READ \<longrightarrow> memory s conn = Some c \<and> cn_buffer_len c = 0 \<and>
      sys_recv S (w_fd x) 4096 (ma_kernel (st_kernel s)) = (Inr bs, k) \<and> bs \<noteq> [] \<and> length bs \<le> 4096"
  shows "read_callback K S P l w ev conn s = None"
proof -
  have twice: "do { s \<leftarrow> close_connection K P w fd conn s1; close_connection K P w fd conn s } = None" for fd s1
    using close_connection_frees [OF _ assms(1), of K P fd conn s1] close_connection_freed [OF _ assms(1)]
    by (cases "close_connection K P w fd conn s1") simp_all
  show ?thesis
  proof (cases "has_flag ev PD_EVENT_READ")
    case True
    have d: "memory s conn = Some c" "cn_buffer_len c = 0" "sys_recv S (w_fd x) 4096 (ma_kernel (st_kernel s)) = (Inr bs, k)"
      "bs \<noteq> []" "int (length bs) \<le> 4096" using assms(5) True by simp_all
    show ?thesis using read_echoed [OF assms(4,1) d(1,2) True d(3-5)] assms(2,3) twice by simp
  next
    case False
    then show ?thesis using assms(1-4) twice by (simp add: read_callback_def pd_watcher_get_fd_def)
  qed
qed

theorem reset_uses_freed_watcher_witness:
  "read_callback (on_machine ref_linux) ref_sockets (server_table (on_machine ref_linux)) 1 10
     (PD_EVENT_READ OR PD_EVENT_HANGUP OR PD_EVENT_ERROR) 20 ex_client = None"
proof -
  obtain k where "sys_recv ref_sockets 6 4096 (ma_kernel (st_kernel ex_client)) = (Inr [104, 105], k)" by (rule ex_client_recv)
  then show ?thesis
    by (intro reset_uses_freed_watcher [OF _ _ _ ex_client_facts(1), where c = "zero_connection\<lparr>cn_watcher := 10, cn_fd := 6\<rparr>" and bs = "[104, 105]" and k = k])
      (simp_all add: ex_client_facts(2-) event_has_flag event_bits bit_or_iff)
qed

text \<open>The whole server, and a client that sends a byte and then resets the connection.\<close>

lemma reset_ends_server:
  "simple_server (on_machine ref_linux) ref_sockets 2 (ex_server [([[104]], EPOLLHUP OR EPOLLERR)]) = None"
  by code_simp

end
