(* ===== verification/Spec2Isabelle.thy ===== *)
theory Spec2Isabelle
  imports Pd_Epoll_Runs Pd_Epoll_Dispatch Pd_Epoll_Timer Pd_Kqueue_Timer_Props Pd_Iocp_Barrier Pd_Timer_Example Pd_Echo_Props
begin

text \<open>
  A verification library for poll-dancer, a C library that waits for events on descriptors and
  calls the user back. A \<^emph>\<open>loop\<close> has a list of \<^emph>\<open>watchers\<close> (a descriptor, the events asked for,
  a callback) and \<^emph>\<open>timers\<close>; what the operating system does is behind a table of operations, of
  which one is compiled in: epoll, kqueue or IOCP. Two example programs use the library, a timer
  and a TCP echo server.

  \<^bold>\<open>How C is read.\<close> An operation is a function from a state (\<open>pd_state\<close> of \<open>Pd_State\<close>) to an
  optional result and state. The state has one heap for each kind of object (loops, watchers,
  timers and the backend's data of each), the kernel, \<^verbatim>\<open>errno\<close>, the allocator's coming
  decisions, and the static variables. \<open>None\<close> is undefined behaviour: a read or write of memory
  that is not allocated, an array index out of range or a cell not written, a double free, a
  signed overflow, a mutex locked twice. Every theorem whose conclusion is an equation with
  \<open>Some\<close> therefore also says that nothing undefined happens. An allocation takes the next
  decision of a list, so theorems hold for every pattern of failures and for every reuse of
  freed addresses. Time is not modelled. An operation runs to its end, the mutexes are there with
  their states (uninitialised, free, held), and a callback of the user is a parameter, any
  function on the state. Other threads matter only to the IOCP backend, whose operations wait
  for them: while a thread waits for an event, a schedule, any function from the state, says
  which waits of the loop's thread and which callbacks of the system's timers run.

  \<^bold>\<open>The theories and the code.\<close>
  \<^item> \<open>Pd_Prelude\<close>: arrays with a capacity and the loops over them, ownership of heap objects.
  \<^item> \<open>Pd_Types\<close> (\<^verbatim>\<open>types.h\<close>, \<^verbatim>\<open>error.c\<close>, \<^verbatim>\<open>init.c\<close>), \<open>Pd_State\<close> (\<^verbatim>\<open>internal/loop.h\<close>, \<^verbatim>\<open>watcher.h\<close>,
    \<^verbatim>\<open>timer.h\<close>), \<open>Pd_Platform\<close> (\<^verbatim>\<open>internal/platform.h\<close>, \<^verbatim>\<open>internal.h\<close>, \<^verbatim>\<open>platform.c\<close>).
  \<^item> \<open>Pd_Loop_List\<close> and \<open>Pd_Loop\<close> (\<^verbatim>\<open>loop.c\<close>), \<open>Pd_Watcher\<close> (\<^verbatim>\<open>watcher.c\<close>), \<open>Pd_Timer\<close>
    (\<^verbatim>\<open>timer.c\<close>): the generic layer, for any table of operations.
  \<^item> \<open>Pd_Contract\<close>, \<open>Pd_Loop\<close>, \<open>Pd_Timer_Backend\<close> and \<open>Pd_Pointers\<close> hold the interfaces between
    the generic layer and a backend, as locales: \<open>watcher_backend\<close> and \<open>readiness_backend\<close>
    (what registration, update and unregistration keep), \<open>loop_backend\<close> (creation, destruction,
    wake-up), \<open>timer_backend\<close>, and \<open>pointer_backend\<close> (which watchers the kernel may name). The
    generic operations are verified once inside them.
  \<^item> \<open>Pd_System\<close>, \<open>Pd_Linux\<close>, \<open>Pd_BSD\<close>, \<open>Pd_Windows\<close>: the system calls. They are fields of a record
    that every backend operation takes; what their manuals promise is stated as locales
    (\<open>epoll_kernel\<close>, \<open>fd_kernel\<close>, \<open>linux_kernel\<close>, \<open>kqueue_kernel\<close>, \<open>kqueue_fds\<close>, \<open>completion_port\<close>), each
    interpreted on an executable kernel on which the witnesses run.
  \<^item> \<open>Pd_Backend\<close>: lemmas that the proofs about every backend share. \<open>Pd_Registrations\<close>: the
    array of live registrations that epoll and kqueue keep, refined to a map from descriptors
    to watchers.
  \<^item> \<open>Pd_Epoll_Data\<close>, \<open>Pd_Epoll\<close>, \<open>Pd_Epoll_Loop\<close> (\<^verbatim>\<open>platform/epoll.c\<close>), with the properties of
    watchers in \<open>Pd_Epoll_Props\<close>, of the life of a loop in \<open>Pd_Epoll_Runs\<close>, of the kernel's
    pointers in \<open>Pd_Epoll_Link\<close>, of the dispatch in \<open>Pd_Epoll_Dispatch\<close>, of timers in
    \<open>Pd_Epoll_Timer\<close>.
  \<^item> \<open>Pd_Kqueue_Data\<close>, \<open>Pd_Kqueue\<close>, \<open>Pd_Kqueue_Loop\<close> (\<^verbatim>\<open>platform/kqueue.c\<close>), with the contract of
    timers in \<open>Pd_Kqueue_Timer\<close> and the properties in \<open>Pd_Kqueue_Props\<close>,
    \<open>Pd_Kqueue_Dispatch\<close> and \<open>Pd_Kqueue_Timer_Props\<close>.
  \<^item> \<open>Pd_Iocp_Data\<close>, \<open>Pd_Iocp\<close> (the loop and its dispatch), \<open>Pd_Iocp_Watchers\<close> (watchers, the other
    threads, the drain) and \<open>Pd_Iocp_Timer\<close> (\<^verbatim>\<open>platform/iocp.c\<close>), with the properties of
    registration and of buffered reads in \<open>Pd_Iocp_Props\<close>, of the dispatch and of stopping in
    \<open>Pd_Iocp_Dispatch\<close>, and of the drain in \<open>Pd_Iocp_Drain\<close> (its invariant) and
    \<open>Pd_Iocp_Barrier\<close>.
  \<^item> \<open>Pd_Program\<close>: a program that uses the library. Its own memory is put beside the kernel in the
    state (\<open>machine\<close>), since its callbacks change both; the locale \<open>linux_program\<close> carries the
    promises of the kernel over, and \<open>epoll_program\<close> (\<open>Pd_Epoll_Dispatch\<close>) is the contract of
    callbacks with which the run loop is safe, for any invariant of the program's own.
    \<open>Pd_Epoll_Effect\<close>, \<open>Pd_Epoll_Life\<close> and \<open>Pd_World\<close> say what each public operation changes
    besides its invariants: the effect on the list of watchers, the life of a loop and its timers
    from a fresh process to the end, and the watchers of the rest of the world.
  \<^item> \<open>Pd_Timer_Example\<close> (\<^verbatim>\<open>examples/timer_example.c\<close>), and \<open>Pd_Echo_Server\<close>
    (\<^verbatim>\<open>examples/simple_server.c\<close>, with the promises of sockets as the locale \<open>socket_kernel\<close>), with
    the contract of its callbacks in \<open>Pd_Echo_Callbacks\<close>, its \<^verbatim>\<open>main\<close> in \<open>Pd_Echo_Run\<close>, and its
    properties, on an executable network, in \<open>Pd_Echo_Props\<close>. \<open>INT_MAX\<close> in the counter of the timer
    is undefined behaviour.

  A definition has the name of the C function it models. An array with one owner (the watcher
  list, the event buffer, the registrations) is kept inside its owner.

  \<^bold>\<open>What the theorems show.\<close>
  The list of a loop behaves as a list, without errors, under any allocation failure. Creating,
  starting, stopping, updating and destroying watchers, creating loops, and all operations of
  timers, keep the invariants (\<open>pd_wf\<close>, \<open>epoll_inv\<close>, \<open>kqueue_inv\<close>, \<open>epoll_tinv\<close>,
  \<open>kqueue_tinv\<close>) and are all or nothing. Registration in the array is an update of the map of
  owners; a stale watcher whose descriptor was reused cannot take the new owner's registration
  away. The kernel gets exactly the entries, filters and times the C code asks for. A wait
  delivers exactly the kernel's events, in order; on epoll the loop never touches freed memory
  as long as callbacks keep the rules that \<open>well_behaved\<close> states, and a callback that breaks
  them by destroying another watcher of the batch does make it read freed memory. On IOCP every
  packet has the one effect that a table of packets gives it; a watcher with a read in flight
  keeps its data until its next packet; the drain is a barrier for every schedule of the other
  threads, so a timer that is destroyed is freed only when no queued packet names it. Two
  runs outside the hypotheses of these theorems, in which the loop reads freed memory, are
  exhibited beside them.

  The example programs compose all of this on epoll. From a fresh process, whatever memory and
  calls are refused, the timer example touches no freed memory, fires its timer exactly five
  times unless something failed, and releases everything before it exits; a signal stops it, but
  one that comes after the clean-up makes the handler use the freed loop. The echo server sends
  back exactly what it receives, its heap stays typed (every client's watcher and connection
  point to each other, nothing is leaked), and it touches no freed memory, provided that a wait
  never reports a hang-up and an error of a connection together: then its callback destroys the
  freed watcher again, and a client can end the server so.

  \<^bold>\<open>Bounds and fuel.\<close> \<open>pd_loop_run\<close> and its loop \<open>run_rounds\<close> take the number of waits they may
  make, since the C function need not return: out of fuel, the result is \<open>Running\<close> and the state
  reached; \<open>pd_loop_run_returns\<close> characterises exactly when some fuel is enough. Every other
  loop terminates structurally or by a measure. Event masks, the times of timers and the flags of the kernel are words of their
  width; a C \<^verbatim>\<open>int\<close> is an integer, with the overflow of the reference count, of counters and of
  negations written out as undefined.

  \<^bold>\<open>Not modelled.\<close> The texts of system errors (\<^verbatim>\<open>strerror\<close> is a parameter); the overflow of the byte size of an array that holds more
  entries than the memory; steps of other threads between the statements of one operation, as
  opposed to during its waits; the tests, what the examples print, the Windows builds of the
  examples, how their signal handler is installed (the handler itself is modelled, between waits),
  and \<^verbatim>\<open>SIGPIPE\<close>, which a \<^verbatim>\<open>send\<close> may raise. What Windows
  writes into the buffer of a read is written when the packet of the read is dequeued, not
  earlier.
\<close>

end
